(* ===== verification/Prelude.thy ===== *)
theory Prelude
  imports Main "HOL-Library.State_Monad" "HOL-Library.Multiset" "HOL-Library.Char_ord"
    "HOL-Library.List_Lexorder"
begin

text \<open>
  Shared foundations of the development.

  \<^item> Every Go function that touches the database, the clock, the random source or another
    service is a value of \<open>('s, 'a) state\<close> (HOL-Library.State_Monad). A Go function that
    returns \<open>(x, err)\<close> is a state transformer whose value is a sum: \<open>Inl e\<close> is a non-nil
    error, \<open>Inr x\<close> the value with a nil error. \<open>handle\<close> and \<open>attempt\<close> are the two
    shapes of \<open>x, err := f(); if err != nil { ... }\<close>.
  \<^item> A small weakest-precondition calculus: \<open>wp m Q s\<close> says that running \<open>m\<close> from \<open>s\<close> ends in a
    value and a state that satisfy \<open>Q\<close>. Exact rules are simp rules, rules that
    over-approximate (any database fault may happen) are collected in \<open>wp_intro\<close>.
  \<^item> \<open>shuffle\<close>: the order of the rows of a query without ORDER BY, and of the keys of a Go
    map under \<open>range\<close>, is not determined by the program. It is an argument of the model.
\<close>

section \<open>Stateful computations\<close>

definition ok :: "'a \<Rightarrow> ('s, 'e + 'a) state" where
  "ok x = State_Monad.return (Inr x)"

definition fail :: "'e \<Rightarrow> ('s, 'e + 'a) state" where
  "fail e = State_Monad.return (Inl e)"

definition handle ::
  "('s, 'e + 'a) state \<Rightarrow> ('e \<Rightarrow> ('s, 'r) state) \<Rightarrow> ('a \<Rightarrow> ('s, 'r) state) \<Rightarrow> ('s, 'r) state" where
  "handle m h k = do { r \<leftarrow> m; (case r of Inl e \<Rightarrow> h e | Inr x \<Rightarrow> k x) }"

definition attempt ::
  "('s, 'e + 'a) state \<Rightarrow> ('e \<Rightarrow> 'f) \<Rightarrow> ('a \<Rightarrow> ('s, 'f + 'r) state) \<Rightarrow> ('s, 'f + 'r) state" where
  "attempt m h k = handle m (\<lambda>e. fail (h e)) k"

section \<open>Weakest preconditions\<close>

named_theorems wp_intro "over-approximating weakest-precondition rules"

definition wp :: "('s, 'a) state \<Rightarrow> ('a \<Rightarrow> 's \<Rightarrow> bool) \<Rightarrow> 's \<Rightarrow> bool" where
  "wp m Q s = (case run_state m s of (a, s') \<Rightarrow> Q a s')"

lemma wpI: "(\<And>a s'. run_state m s = (a, s') \<Longrightarrow> Q a s') \<Longrightarrow> wp m Q s"
  by (cases "run_state m s") (simp add: wp_def)

lemma wpD: "wp m Q s \<Longrightarrow> run_state m s = (a, s') \<Longrightarrow> Q a s'"
  by (simp add: wp_def)

lemma wp_mono: "wp m Q s \<Longrightarrow> (\<And>a s'. Q a s' \<Longrightarrow> R a s') \<Longrightarrow> wp m R s"
  by (auto simp: wp_def split: prod.splits)

lemma wp_return [simp]: "wp (State_Monad.return a) Q s = Q a s"
  by (simp add: wp_def)

lemma wp_bind [simp]: "wp (State_Monad.bind m f) Q s = wp m (\<lambda>a. wp (f a) Q) s"
  by (simp add: wp_def split: prod.splits)

lemma wp_ok [simp]: "wp (ok x) Q s = Q (Inr x) s"
  by (simp add: ok_def)

lemma wp_fail [simp]: "wp (fail e) Q s = Q (Inl e) s"
  by (simp add: fail_def)

lemma run_ok [simp]: "run_state (ok x) s = (Inr x, s)"
  by (simp add: ok_def)

lemma run_fail [simp]: "run_state (fail e) s = (Inl e, s)"
  by (simp add: fail_def)

lemma run_handle [simp]:
  "run_state (handle m h k) s =
     (case run_state m s of (Inl e, s') \<Rightarrow> run_state (h e) s' | (Inr x, s') \<Rightarrow> run_state (k x) s')"
  by (auto simp: handle_def split: prod.splits sum.splits)

lemma run_attempt [simp]:
  "run_state (attempt m h k) s =
     (case run_state m s of (Inl e, s') \<Rightarrow> (Inl (h e), s') | (Inr x, s') \<Rightarrow> run_state (k x) s')"
  by (auto simp: attempt_def split: prod.splits sum.splits)

lemma wp_handle [simp]:
  "wp (handle m h k) Q s = wp m (\<lambda>r. case r of Inl e \<Rightarrow> wp (h e) Q | Inr x \<Rightarrow> wp (k x) Q) s"
  by (auto simp: wp_def split: prod.splits sum.splits)

lemma wp_attempt [simp]:
  "wp (attempt m h k) Q s = wp m (\<lambda>r. case r of Inl e \<Rightarrow> Q (Inl (h e)) | Inr x \<Rightarrow> wp (k x) Q) s"
  by (auto simp: wp_def split: prod.splits sum.splits)

lemma wp_if [simp]: "wp (if b then m else n) Q s = (if b then wp m Q s else wp n Q s)"
  by simp

lemma wp_case_sum [simp]:
  "wp (case r of Inl e \<Rightarrow> f e | Inr x \<Rightarrow> g x) Q s = (case r of Inl e \<Rightarrow> wp (f e) Q s | Inr x \<Rightarrow> wp (g x) Q s)"
  by (simp split: sum.splits)

lemma wp_case_option [simp]:
  "wp (case r of None \<Rightarrow> f | Some x \<Rightarrow> g x) Q s = (case r of None \<Rightarrow> wp f Q s | Some x \<Rightarrow> wp (g x) Q s)"
  by (simp split: option.splits)

lemma wp_case_prod [simp]:
  "wp (case r of (x, y) \<Rightarrow> g x y) Q s = (case r of (x, y) \<Rightarrow> wp (g x y) Q s)"
  by (simp split: prod.splits)

lemma wp_let [simp]: "wp (let x = t in f x) Q s = (let x = t in wp (f x) Q s)"
  by (simp add: Let_def)

subsection \<open>Loops over a list\<close>

text \<open>A Go \<open>for _, x := range xs\<close> whose body may leave the function with an error.\<close>

fun for_each :: "'x list \<Rightarrow> ('x \<Rightarrow> 'a \<Rightarrow> ('s, 'e + 'a) state) \<Rightarrow> 'a \<Rightarrow> ('s, 'e + 'a) state" where
  "for_each [] f acc = ok acc"
| "for_each (x # xs) f acc = handle (f x acc) fail (\<lambda>acc'. for_each xs f acc')"

lemma handle_ok [simp]: "handle (ok x) h k = k x"
  by (simp add: handle_def ok_def State_Monad.return_def State_Monad.bind_def)

lemma handle_fail [simp]: "handle (fail e) h k = h e"
  by (simp add: handle_def fail_def State_Monad.return_def State_Monad.bind_def)

lemma for_each_skip: "(\<And>x. x \<in> set xs \<Longrightarrow> f x a = ok a) \<Longrightarrow> for_each xs f a = ok a"
  by (induction xs) simp_all

text \<open>The loop rule: an invariant over the elements already visited and the accumulator.\<close>

lemma wp_for_each:
  assumes init: "I [] acc s"
    and step: "\<And>xs1 x xs2 a t. xs = xs1 @ x # xs2 \<Longrightarrow> I xs1 a t \<Longrightarrow>
      wp (f x a) (\<lambda>r t'. case r of Inl e \<Rightarrow> Q (Inl e) t' | Inr a' \<Rightarrow> I (xs1 @ [x]) a' t') t"
    and final: "\<And>a t. I xs a t \<Longrightarrow> Q (Inr a) t"
  shows "wp (for_each xs f acc) Q s"
proof -
  have "wp (for_each ys f a) Q t" if "xs = zs @ ys" and "I zs a t" for zs ys a t
    using that
  proof (induction ys arbitrary: zs a t)
    case Nil
    then show ?case using final by simp
  next
    case (Cons y ys)
    from step [OF Cons.prems] show ?case
      by (auto elim!: wp_mono intro!: Cons.IH [of "zs @ [y]"] simp: Cons.prems split: sum.splits)
  qed
  then show ?thesis using init by simp
qed

section \<open>Two-state guarantees\<close>

text \<open>
  \<open>guarantees R m\<close>: whatever happens, the state before and the state after \<open>m\<close> are related
  by \<open>R\<close>. With a preorder \<open>R\<close> this composes along every construct, loops included; an
  invariant \<open>I\<close> is the preorder \<open>\<lambda>s t. I s \<longrightarrow> I t\<close>, a frame condition on a field \<open>f\<close> the
  preorder \<open>\<lambda>s t. f t = f s\<close>.
\<close>

named_theorems guarantees_intro "composition rules of guarantees"

definition guarantees :: "('s \<Rightarrow> 's \<Rightarrow> bool) \<Rightarrow> ('s, 'a) state \<Rightarrow> bool" where
  "guarantees R m \<longleftrightarrow> (\<forall>s. R s (snd (run_state m s)))"

lemma guaranteesD: "guarantees R m \<Longrightarrow> run_state m s = (a, t) \<Longrightarrow> R s t"
  by (metis guarantees_def snd_conv)

lemma guaranteesI: "(\<And>s a t. run_state m s = (a, t) \<Longrightarrow> R s t) \<Longrightarrow> guarantees R m"
  by (metis guarantees_def surjective_pairing)

lemma guarantees_if [guarantees_intro]:
  "(b \<Longrightarrow> guarantees R m) \<Longrightarrow> (\<not> b \<Longrightarrow> guarantees R n) \<Longrightarrow> guarantees R (if b then m else n)"
  by simp

lemma guarantees_case_sum [guarantees_intro]:
  "(\<And>e. r = Inl e \<Longrightarrow> guarantees R (f e)) \<Longrightarrow> (\<And>x. r = Inr x \<Longrightarrow> guarantees R (g x)) \<Longrightarrow>
   guarantees R (case r of Inl e \<Rightarrow> f e | Inr x \<Rightarrow> g x)"
  by (cases r) auto

lemma guarantees_case_option [guarantees_intro]:
  "(r = None \<Longrightarrow> guarantees R f) \<Longrightarrow> (\<And>x. r = Some x \<Longrightarrow> guarantees R (g x)) \<Longrightarrow>
   guarantees R (case r of None \<Rightarrow> f | Some x \<Rightarrow> g x)"
  by (cases r) auto

lemma guarantees_case_prod [guarantees_intro]:
  "(\<And>x y. r = (x, y) \<Longrightarrow> guarantees R (g x y)) \<Longrightarrow> guarantees R (case r of (x, y) \<Rightarrow> g x y)"
  by (cases r) auto

lemma guarantees_case_list [guarantees_intro]:
  "(xs = [] \<Longrightarrow> guarantees R f) \<Longrightarrow> (\<And>y ys. xs = y # ys \<Longrightarrow> guarantees R (g y ys)) \<Longrightarrow>
   guarantees R (case xs of [] \<Rightarrow> f | y # ys \<Rightarrow> g y ys)"
  by (cases xs) auto

lemma guarantees_let [guarantees_intro]:
  "(\<And>x. x = t \<Longrightarrow> guarantees R (f x)) \<Longrightarrow> guarantees R (let x = t in f x)"
  by (simp add: Let_def)

locale step_preorder =
  fixes R :: "'s \<Rightarrow> 's \<Rightarrow> bool"
  assumes refl: "R s s"
    and trans: "R s t \<Longrightarrow> R t u \<Longrightarrow> R s u"
begin

lemma return [guarantees_intro]: "guarantees R (State_Monad.return x)"
  by (simp add: guarantees_def refl)

lemma ok [guarantees_intro]: "guarantees R (ok x)"
  by (simp add: guarantees_def refl)

lemma fail [guarantees_intro]: "guarantees R (fail e)"
  by (simp add: guarantees_def refl)

lemma bind [guarantees_intro]:
  assumes "guarantees R m" and "\<And>x. guarantees R (f x)"
  shows "guarantees R (State_Monad.bind m f)"
  using assms by (auto simp: guarantees_def split: prod.splits) (metis snd_conv trans)

lemma handle [guarantees_intro]:
  assumes "guarantees R m" and "\<And>e. guarantees R (h e)" and "\<And>x. guarantees R (k x)"
  shows "guarantees R (handle m h k)"
  unfolding handle_def using assms by (intro bind guarantees_case_sum)

lemma attempt [guarantees_intro]:
  assumes "guarantees R m" and "\<And>x. guarantees R (k x)"
  shows "guarantees R (attempt m h k)"
  unfolding attempt_def using assms by (intro handle fail)

lemma for_each [guarantees_intro]:
  assumes "\<And>x a. x \<in> set xs \<Longrightarrow> guarantees R (f x a)"
  shows "guarantees R (for_each xs f acc)"
  using assms by (induction xs arbitrary: acc) (auto intro!: handle ok fail)

end

section \<open>Unspecified order\<close>

definition shuffle :: "nat list \<Rightarrow> 'a list \<Rightarrow> 'a list" where
  "shuffle p xs = (if sort p = [0..<length xs] then map ((!) xs) p else xs)"

lemma mset_shuffle [simp]: "mset (shuffle p xs) = mset xs"
proof (cases "sort p = [0..<length xs]")
  case True
  then have "mset p = mset [0..<length xs]"
    by (metis mset_sort)
  then have "mset (map ((!) xs) p) = mset (map ((!) xs) [0..<length xs])"
    by simp
  then show ?thesis using True by (simp add: shuffle_def map_nth)
next
  case False
  then show ?thesis by (simp add: shuffle_def)
qed

lemma set_shuffle [simp]: "set (shuffle p xs) = set xs"
  by (metis mset_shuffle set_mset_mset)

lemma length_shuffle [simp]: "length (shuffle p xs) = length xs"
  by (metis mset_shuffle size_mset)

lemma shuffle_Nil [simp]: "shuffle p xs = [] \<longleftrightarrow> xs = []"
  by (metis length_shuffle length_0_conv)

lemma shuffle_single [simp]: "shuffle p [x] = [x]"
proof -
  have "length (shuffle p [x]) = Suc 0" by simp
  then obtain y where y: "shuffle p [x] = [y]" unfolding length_Suc_conv by auto
  have "set (shuffle p [x]) = {x}" by (simp del: list.set(2) add: list.set(2) [of x "[]"])
  with y show ?thesis by simp
qed

lemma distinct_shuffle [simp]: "distinct (shuffle p xs) = distinct xs"
  by (rule mset_eq_imp_distinct_iff) simp

lemma distinct_map_shuffle [simp]: "distinct (map f (shuffle p xs)) = distinct (map f xs)"
  by (rule mset_eq_imp_distinct_iff) simp

section \<open>Lists of keyed rows\<close>

lemma filter_key_unique:
  "distinct (map f xs) \<Longrightarrow> x \<in> set xs \<Longrightarrow> filter (\<lambda>y. f y = f x) xs = [x]"
  by (induction xs) (auto simp: filter_empty_conv image_iff)

lemma length_filter_one:
  "length (filter P xs) = 1 \<Longrightarrow> \<exists>x. filter P xs = [x]"
  by (auto simp: length_Suc_conv)

lemma map_key_update:
  "(\<And>x. f (g x) = f x) \<Longrightarrow> map f (map (\<lambda>x. if P x then g x else x) xs) = map f xs"
  by (induction xs) auto

end
