(* ===== verification/GoStrings.thy ===== *)
theory GoStrings
  imports Prelude
begin

text \<open>
  The parts of Go's standard library on strings that the program uses: \<open>strings.Cut\<close>,
  \<open>Split\<close>, \<open>Trim\<close>, \<open>TrimSpace\<close>, \<open>ToLower\<close>, \<open>strconv.Itoa\<close>, \<open>hex.EncodeToString\<close>,
  \<open>base64.RawURLEncoding.EncodeToString\<close> and anchored \<open>regexp\<close> matching. A Go string is its
  bytes: \<open>string\<close> is a list of 8-bit characters. On strings with a byte outside ASCII,
  \<open>ToLower\<close> and \<open>TrimSpace\<close> depend on the Unicode tables, which are arguments here.
\<close>

section \<open>Character classes\<close>

definition is_lower :: "char \<Rightarrow> bool" where
  "is_lower c \<longleftrightarrow> CHR ''a'' \<le> c \<and> c \<le> CHR ''z''"

definition is_digit :: "char \<Rightarrow> bool" where
  "is_digit c \<longleftrightarrow> CHR ''0'' \<le> c \<and> c \<le> CHR ''9''"

definition is_upper :: "char \<Rightarrow> bool" where
  "is_upper c \<longleftrightarrow> CHR ''A'' \<le> c \<and> c \<le> CHR ''Z''"

text \<open>A byte below 0x80.\<close>

definition is_ascii :: "char \<Rightarrow> bool" where
  "is_ascii c \<longleftrightarrow> (of_char c :: nat) < 128"

text \<open>The ASCII members of \<open>asciiSpace\<close>: tab, newline, VT, FF, CR and space.\<close>

definition is_space :: "char \<Rightarrow> bool" where
  "is_space c \<longleftrightarrow> (of_char c :: nat) \<in> {9, 10, 11, 12, 13, 32}"

section \<open>Searching and trimming\<close>

text \<open>\<open>strings.Cut(s, sep)\<close> for a one-byte separator: the text before and after its first
  occurrence and whether it was found.\<close>

fun cut :: "char \<Rightarrow> string \<Rightarrow> string \<times> string \<times> bool" where
  "cut sep [] = ([], [], False)"
| "cut sep (c # cs) =
     (if c = sep then ([], cs, True)
      else case cut sep cs of (b, a, found) \<Rightarrow> (c # b, a, found))"

text \<open>\<open>strings.Split(s, sep)\<close> for a one-byte separator.\<close>

fun split_on :: "char \<Rightarrow> string \<Rightarrow> string list" where
  "split_on sep [] = [[]]"
| "split_on sep (c # cs) =
     (if c = sep then [] # split_on sep cs
      else case split_on sep cs of [] \<Rightarrow> [[c]] | w # ws \<Rightarrow> (c # w) # ws)"

text \<open>\<open>strings.Join(ws, sep)\<close> for a one-byte separator.\<close>

fun join_with :: "char \<Rightarrow> string list \<Rightarrow> string" where
  "join_with sep [] = []"
| "join_with sep [w] = w"
| "join_with sep (w # ws) = w @ sep # join_with sep ws"

definition trim_left :: "(char \<Rightarrow> bool) \<Rightarrow> string \<Rightarrow> string" where
  "trim_left p s = dropWhile p s"

definition trim_right :: "(char \<Rightarrow> bool) \<Rightarrow> string \<Rightarrow> string" where
  "trim_right p s = rev (dropWhile p (rev s))"

text \<open>\<open>strings.Trim(s, cutset)\<close> with the cutset as a predicate.\<close>

definition trim :: "(char \<Rightarrow> bool) \<Rightarrow> string \<Rightarrow> string" where
  "trim p s = trim_right p (trim_left p s)"

text \<open>\<open>strings.TrimSpace\<close>: on ASCII the six space bytes are stripped from both ends; a string
  with a byte above 0x7f goes through the Unicode tables (\<open>utrim\<close>).\<close>

definition TrimSpace :: "(string \<Rightarrow> string) \<Rightarrow> string \<Rightarrow> string" where
  "TrimSpace utrim s = (if list_all is_ascii s then trim is_space s else utrim s)"

definition lower_char :: "char \<Rightarrow> char" where
  "lower_char c = (if is_upper c then char_of ((of_char c :: nat) + 32) else c)"

text \<open>\<open>strings.ToLower\<close>: byte-wise on ASCII, through the Unicode tables (\<open>ulower\<close>) otherwise.\<close>

definition ToLower :: "(string \<Rightarrow> string) \<Rightarrow> string \<Rightarrow> string" where
  "ToLower ulower s = (if list_all is_ascii s then map lower_char s else ulower s)"

section \<open>Encodings\<close>

text \<open>\<open>strconv.Itoa\<close> on non-negative numbers.\<close>

definition digit_char :: "nat \<Rightarrow> char" where
  "digit_char d = char_of (48 + d)"

fun itoa :: "nat \<Rightarrow> string" where
  "itoa n = (if n < 10 then [digit_char n] else itoa (n div 10) @ [digit_char (n mod 10)])"

declare itoa.simps [simp del]

text \<open>\<open>hex.EncodeToString\<close>: two lowercase digits per byte.\<close>

definition hex_digit :: "nat \<Rightarrow> char" where
  "hex_digit d = ''0123456789abcdef'' ! d"

definition hex_encode :: "string \<Rightarrow> string" where
  "hex_encode s = concat (map (\<lambda>c. let n = (of_char c :: nat) in [hex_digit (n div 16), hex_digit (n mod 16)]) s)"

text \<open>\<open>base64.RawURLEncoding.EncodeToString\<close>: the URL alphabet, no padding.\<close>

definition b64_char :: "nat \<Rightarrow> char" where
  "b64_char d = ''ABCDEFGHIJKLMNOPQRSTUVWXYZabcdefghijklmnopqrstuvwxyz0123456789-_'' ! d"

fun b64url_encode :: "string \<Rightarrow> string" where
  "b64url_encode [] = []"
| "b64url_encode [a] =
     (let x = (of_char a :: nat) in [b64_char (x div 4), b64_char (x mod 4 * 16)])"
| "b64url_encode [a, b] =
     (let x = (of_char a :: nat); y = (of_char b :: nat)
      in [b64_char (x div 4), b64_char (x mod 4 * 16 + y div 16), b64_char (y mod 16 * 4)])"
| "b64url_encode (a # b # c # cs) =
     (let x = (of_char a :: nat); y = (of_char b :: nat); z = (of_char c :: nat)
      in b64_char (x div 4) # b64_char (x mod 4 * 16 + y div 16)
         # b64_char (y mod 16 * 4 + z div 64) # b64_char (z mod 64) # b64url_encode cs)"

section \<open>Anchored regular expressions\<close>

text \<open>
  The patterns of the program are built from literals, alternatives and repetitions of one
  character class. \<open>residuals r s\<close> lists what may remain of \<open>s\<close> after a prefix matched \<open>r\<close>;
  \<open>MatchString\<close> of a pattern anchored by \<open>^...$\<close> asks for the empty remainder.
\<close>

datatype regex =
    Lit string
  | Class "char \<Rightarrow> bool" nat "nat option" \<comment> \<open>class, least and greatest number of repetitions\<close>
  | Cat regex regex
  | Alt regex regex

primrec residuals :: "regex \<Rightarrow> string \<Rightarrow> string list" where
  "residuals (Lit l) s = (if take (length l) s = l then [drop (length l) s] else [])"
| "residuals (Class p lo hi) s =
     (let k = length (takeWhile p s); m = (case hi of None \<Rightarrow> k | Some h \<Rightarrow> min h k)
      in map (\<lambda>i. drop i s) [lo..<Suc m])"
| "residuals (Cat r1 r2) s = concat (map (residuals r2) (residuals r1 s))"
| "residuals (Alt r1 r2) s = residuals r1 s @ residuals r2 s"

definition MatchString :: "regex \<Rightarrow> string \<Rightarrow> bool" where
  "MatchString r s \<longleftrightarrow> [] \<in> set (residuals r s)"


text \<open>The language of a pattern, and that \<open>MatchString\<close> decides it.\<close>

primrec lang :: "regex \<Rightarrow> string set" where
  "lang (Lit l) = {l}"
| "lang (Class p lo hi) = {w. list_all p w \<and> lo \<le> length w \<and> (\<forall>h. hi = Some h \<longrightarrow> length w \<le> h)}"
| "lang (Cat r1 r2) = {u @ v | u v. u \<in> lang r1 \<and> v \<in> lang r2}"
| "lang (Alt r1 r2) = lang r1 \<union> lang r2"

lemma residuals_Lit: "t \<in> set (residuals (Lit l) s) \<longleftrightarrow> s = l @ t"
proof
  assume "t \<in> set (residuals (Lit l) s)"
  then have "take (length l) s = l" and "t = drop (length l) s" by (auto split: if_splits)
  then show "s = l @ t" by (metis append_take_drop_id)
qed simp

lemma take_in_Class:
  assumes "i \<le> length (takeWhile p s)"
  shows "list_all p (take i s)" and "length (take i s) = i"
proof -
  have "take i s = take i (takeWhile p s)"
    by (metis assms takeWhile_eq_take take_take min.absorb1)
  moreover have "list_all p (takeWhile p s)"
    by (auto simp: list_all_iff dest: set_takeWhileD)
  ultimately show "list_all p (take i s)"
    by (metis list_all_append append_take_drop_id)
  from assms length_takeWhile_le [of p s] show "length (take i s) = i" by simp
qed

lemma residuals_Class:
  "t \<in> set (residuals (Class p lo hi) s) \<longleftrightarrow> (\<exists>u. u \<in> lang (Class p lo hi) \<and> s = u @ t)"
proof
  assume "t \<in> set (residuals (Class p lo hi) s)"
  then obtain i where i: "lo \<le> i" "i \<le> length (takeWhile p s)" "\<forall>h. hi = Some h \<longrightarrow> i \<le> h" "t = drop i s"
    by (cases hi) (auto simp: Let_def less_Suc_eq_le simp del: upt_Suc)
  then have "take i s \<in> lang (Class p lo hi)" "s = take i s @ t"
    using take_in_Class [OF i(2)] by simp_all
  then show "\<exists>u. u \<in> lang (Class p lo hi) \<and> s = u @ t" by blast
next
  assume "\<exists>u. u \<in> lang (Class p lo hi) \<and> s = u @ t"
  then obtain u where u: "list_all p u" "lo \<le> length u" "\<forall>h. hi = Some h \<longrightarrow> length u \<le> h" "s = u @ t"
    by auto
  then have "takeWhile p s = u @ takeWhile p t" by (simp add: list_all_iff)
  then have "length u \<le> length (takeWhile p s)" by simp
  moreover have "t = drop (length u) s" using u(4) by simp
  ultimately show "t \<in> set (residuals (Class p lo hi) s)"
    using u(2,3) by (cases hi) (auto simp: Let_def less_Suc_eq_le simp del: drop_append upt_Suc)
qed

lemma residuals_lang: "t \<in> set (residuals r s) \<longleftrightarrow> (\<exists>u. u \<in> lang r \<and> s = u @ t)"
proof (induction r arbitrary: s t)
  case (Lit l)
  then show ?case unfolding residuals_Lit by simp
next
  case (Class p lo hi)
  then show ?case by (rule residuals_Class)
next
  case (Cat r1 r2)
  have "t \<in> set (residuals (Cat r1 r2) s) \<longleftrightarrow> (\<exists>m. m \<in> set (residuals r1 s) \<and> t \<in> set (residuals r2 m))"
    by auto
  also have "\<dots> \<longleftrightarrow> (\<exists>u v. u \<in> lang r1 \<and> v \<in> lang r2 \<and> s = u @ v @ t)"
    unfolding Cat.IH by blast
  also have "\<dots> \<longleftrightarrow> (\<exists>w. w \<in> lang (Cat r1 r2) \<and> s = w @ t)"
    by (simp, metis append_assoc)
  finally show ?case .
next
  case (Alt r1 r2)
  then show ?case by auto
qed

theorem MatchString_lang: "MatchString r s \<longleftrightarrow> s \<in> lang r"
  by (simp add: MatchString_def residuals_lang)

section \<open>Properties of the string functions\<close>

lemma cut_found: "cut sep s = (b, a, True) \<Longrightarrow> s = b @ sep # a \<and> sep \<notin> set b"
  by (induction s arbitrary: b) (auto split: if_splits prod.splits)

lemma cut_not_found: "cut sep s = (b, a, False) \<Longrightarrow> sep \<notin> set s \<and> b = s \<and> a = []"
  by (induction s arbitrary: b) (auto split: if_splits prod.splits)

lemma cut_append [simp]: "sep \<notin> set b \<Longrightarrow> cut sep (b @ sep # a) = (b, a, True)"
  by (induction b) auto

lemma set_trim: "set (trim p s) \<subseteq> set s"
proof -
  have "set (rev (dropWhile p (rev (dropWhile p s)))) \<subseteq> set (dropWhile p s)"
    by (metis set_dropWhileD set_rev subsetI)
  also have "\<dots> \<subseteq> set s" by (auto dest: set_dropWhileD)
  finally show ?thesis by (simp add: trim_def trim_left_def trim_right_def)
qed

lemma trim_left_hd: "trim_left p s \<noteq> [] \<Longrightarrow> \<not> p (hd (trim_left p s))"
  by (simp add: trim_left_def hd_dropWhile)

lemma trim_right_prefix: "\<exists>t. s = trim_right p s @ t \<and> (\<forall>c \<in> set t. p c)"
proof -
  have "s = rev (takeWhile p (rev s) @ dropWhile p (rev s))" by simp
  also have "\<dots> = trim_right p s @ rev (takeWhile p (rev s))"
    by (simp add: trim_right_def del: takeWhile_dropWhile_id)
  finally have "s = trim_right p s @ rev (takeWhile p (rev s))" .
  moreover have "\<forall>c \<in> set (rev (takeWhile p (rev s))). p c" by (auto dest: set_takeWhileD)
  ultimately show ?thesis by blast
qed

lemma trim_right_nonempty:
  assumes "s \<noteq> []" and "\<not> p (hd s)"
  shows "trim_right p s \<noteq> [] \<and> hd (trim_right p s) = hd s"
proof -
  obtain t where t: "s = trim_right p s @ t" "\<forall>c \<in> set t. p c"
    using trim_right_prefix by blast
  have "trim_right p s \<noteq> []"
  proof
    assume "trim_right p s = []"
    then have "s = t" using t(1) by simp
    then show False using assms t(2) by (cases s) auto
  qed
  then show ?thesis using t(1) by (metis hd_append2)
qed

lemma trim_nonempty:
  "s \<noteq> [] \<Longrightarrow> \<not> p (hd s) \<Longrightarrow> trim p s \<noteq> [] \<and> hd (trim p s) = hd s"
  using trim_right_nonempty [of s p] by (cases s) (simp_all add: trim_def trim_left_def)

lemma length_trim: "length (trim p s) \<le> length s"
proof -
  have "length (dropWhile p (rev (dropWhile p s))) \<le> length (dropWhile p s)"
    by (metis length_dropWhile_le length_rev)
  also have "\<dots> \<le> length s" by (rule length_dropWhile_le)
  finally show ?thesis by (simp add: trim_def trim_left_def trim_right_def)
qed

lemma split_on_nonempty [simp]: "split_on sep s \<noteq> []"
  by (induction s) (auto split: list.splits)

lemma split_on_single: "sep \<notin> set w \<Longrightarrow> split_on sep w = [w]"
  by (induction w) auto

lemma split_on_Cons: "sep \<notin> set w \<Longrightarrow> split_on sep (w @ sep # s) = w # split_on sep s"
  by (induction w) auto

theorem split_join:
  "ws \<noteq> [] \<Longrightarrow> \<forall>w \<in> set ws. sep \<notin> set w \<Longrightarrow> split_on sep (join_with sep ws) = ws"
  by (induction sep ws rule: join_with.induct) (auto simp: split_on_single split_on_Cons)

subsection \<open>Decimal numerals\<close>

lemma is_digit_digit_char: "d < 10 \<Longrightarrow> is_digit (digit_char d)"
  by (simp add: is_digit_def digit_char_def less_eq_char_def)

lemma digit_char_inj: "d < 10 \<Longrightarrow> e < 10 \<Longrightarrow> digit_char d = digit_char e \<Longrightarrow> d = e"
proof -
  assume de: "d < 10" "e < 10" and "digit_char d = digit_char e"
  then have "of_char (char_of (48 + d)) = (of_char (char_of (48 + e)) :: nat)"
    by (simp add: digit_char_def)
  with de show "d = e" by (simp add: of_char_of)
qed

lemma itoa_nonempty: "itoa n \<noteq> []"
  by (subst itoa.simps) simp

lemma itoa_digits: "list_all is_digit (itoa n)"
proof (induction n rule: itoa.induct)
  case (1 n)
  then show ?case
    by (subst itoa.simps) (auto simp: is_digit_digit_char)
qed

lemma itoa_inj: "itoa n = itoa m \<Longrightarrow> n = m"
proof (induction n arbitrary: m rule: itoa.induct)
  case (1 n)
  have len: "k < 10 \<longleftrightarrow> length (itoa k) = 1" for k
    using itoa_nonempty [of "k div 10"] by (subst itoa.simps) (auto simp: length_0_conv)
  show ?case
  proof (cases "n < 10")
    case True
    then have "m < 10" using len 1(2) by metis
    with True 1(2) show ?thesis
      by (simp add: itoa.simps [of n] itoa.simps [of m] digit_char_inj)
  next
    case False
    then have m: "\<not> m < 10" using len 1(2) by metis
    with False 1(2) have "itoa (n div 10) = itoa (m div 10)" and "digit_char (n mod 10) = digit_char (m mod 10)"
      by (simp_all add: itoa.simps [of n] itoa.simps [of m])
    then have "n div 10 = m div 10" and "n mod 10 = m mod 10"
      using 1(1) [OF False] digit_char_inj by simp_all
    then show ?thesis by (metis div_mult_mod_eq)
  qed
qed

lemma length_itoa: "n < 10 ^ k \<Longrightarrow> 0 < k \<Longrightarrow> length (itoa n) \<le> k"
proof (induction k arbitrary: n)
  case 0
  then show ?case by simp
next
  case (Suc k)
  show ?case
  proof (cases "n < 10")
    case True
    then show ?thesis by (simp add: itoa.simps)
  next
    case False
    then have "0 < k" using Suc.prems by (cases k) auto
    moreover have "n div 10 < 10 ^ k" using Suc.prems by (simp add: less_mult_imp_div_less mult.commute)
    ultimately have "length (itoa (n div 10)) \<le> k" using Suc.IH by blast
    then show ?thesis using False by (simp add: itoa.simps [of n])
  qed
qed

subsection \<open>Hexadecimal digests\<close>

lemma length_hex_encode: "length (hex_encode s) = 2 * length s"
  by (induction s) (auto simp: hex_encode_def Let_def)

end
