(* ===== verification/Console.thy ===== *)
theory Console
  imports GoStrings
begin

text \<open>
  \<open>src/cmd/identity/admin.go\<close>: the static files of the admin user interface under \<open>/console\<close>. The files
  are produced by a build of \<open>cmd/identity/admin\<close> and embedded in the binary: the argument \<open>files\<close>
  maps the path of every embedded file, relative to \<open>admin/out\<close>, to its bytes. \<open>io/fs.ValidPath\<close>,
  \<open>path.Ext\<close>, \<open>path.Clean\<close> and \<open>path.Join\<close> are Go's; \<open>uvalid\<close> is \<open>utf8.ValidString\<close> on strings with a
  byte outside ASCII.
\<close>

section \<open>Paths\<close>

definition ValidPath :: "(string \<Rightarrow> bool) \<Rightarrow> string \<Rightarrow> bool" where
  "ValidPath uvalid name \<longleftrightarrow> (list_all is_ascii name \<or> uvalid name) \<and>
     (name = ''.'' \<or> list_all (\<lambda>elem. elem \<notin> {[], ''.'', ''..''}) (split_on CHR ''/'' name))"

definition Ext :: "string \<Rightarrow> string" where
  "Ext p = (let elem = takeWhile (\<lambda>c. c \<noteq> CHR ''/'') (rev p) in
     if CHR ''.'' \<in> set elem then CHR ''.'' # rev (takeWhile (\<lambda>c. c \<noteq> CHR ''.'') elem) else [])"

text \<open>One element of the path: empty and \<open>.\<close> vanish, \<open>..\<close> takes the element before it away.\<close>

definition clean_elem :: "bool \<Rightarrow> string list \<Rightarrow> string \<Rightarrow> string list" where
  "clean_elem rooted out elem =
     (if elem = [] \<or> elem = ''.'' then out
      else if elem = ''..'' then
        (if out \<noteq> [] \<and> last out \<noteq> ''..'' then butlast out else if rooted then out else out @ [elem])
      else out @ [elem])"

definition Clean :: "string \<Rightarrow> string" where
  "Clean p =
     (if p = [] then ''.''
      else let rooted = (hd p = CHR ''/'');
               out = join_with CHR ''/'' (foldl (clean_elem rooted) [] (split_on CHR ''/'' p))
           in if rooted then CHR ''/'' # out else if out = [] then ''.'' else out)"

definition Join :: "string \<Rightarrow> string \<Rightarrow> string" where
  "Join p q = (let elems = filter (\<lambda>e. e \<noteq> []) [p, q] in if elems = [] then [] else Clean (join_with CHR ''/'' elems))"

section \<open>Serving a file\<close>

type_synonym embedded = "string \<rightharpoonup> string"

text \<open>\<open>fs.ReadFile(adminOut, rel)\<close>: an invalid path, a directory and a missing file are errors.\<close>

definition ReadFile :: "(string \<Rightarrow> bool) \<Rightarrow> embedded \<Rightarrow> string \<Rightarrow> string option" where
  "ReadFile uvalid files name = (if ValidPath uvalid name \<and> name \<noteq> ''.'' then files name else None)"

definition contentTypeFor :: "(string \<Rightarrow> string) \<Rightarrow> string \<Rightarrow> string" where
  "contentTypeFor ulower name =
     (let ext = ToLower ulower (Ext name) in
      if ext = ''.html'' then ''text/html; charset=utf-8''
      else if ext = ''.js'' \<or> ext = ''.mjs'' then ''text/javascript; charset=utf-8''
      else if ext = ''.css'' then ''text/css; charset=utf-8''
      else if ext = ''.json'' then ''application/json; charset=utf-8''
      else if ext = ''.txt'' then ''text/plain; charset=utf-8''
      else if ext = ''.svg'' then ''image/svg+xml''
      else if ext = ''.ico'' then ''image/x-icon''
      else if ext = ''.png'' then ''image/png''
      else if ext = ''.woff2'' then ''font/woff2''
      else if ext = ''.woff'' then ''font/woff''
      else ''application/octet-stream'')"

definition readAdminFile ::
  "(string \<Rightarrow> bool) \<Rightarrow> (string \<Rightarrow> string) \<Rightarrow> embedded \<Rightarrow> string \<Rightarrow> (string \<times> string) option" where
  "readAdminFile uvalid ulower files rel =
     (case ReadFile uvalid files rel of
        None \<Rightarrow>
          (if Ext rel = [] then
             (case ReadFile uvalid files (Join rel ''index.html'') of
                Some b2 \<Rightarrow> Some (b2, ''text/html; charset=utf-8'') | None \<Rightarrow> None)
           else None)
      | Some b \<Rightarrow> Some (b, contentTypeFor ulower rel))"

text \<open>The status, the content type and the body of the answer; \<open>filepath\<close> is gin's wildcard parameter.\<close>

definition serveAdmin ::
  "(string \<Rightarrow> bool) \<Rightarrow> (string \<Rightarrow> string) \<Rightarrow> embedded \<Rightarrow> string \<Rightarrow> nat \<times> string \<times> string" where
  "serveAdmin uvalid ulower files filepath =
     (let rel = (case filepath of CHR ''/'' # rest \<Rightarrow> rest | _ \<Rightarrow> filepath);
          rel = (if rel = [] then ''index.html'' else rel)
      in case readAdminFile uvalid ulower files rel of
           Some (data, ctype) \<Rightarrow> (200, ctype, data)
         | None \<Rightarrow> (case readAdminFile uvalid ulower files ''index.html'' of
               Some (data, ctype) \<Rightarrow> (200, ctype, data)
             | None \<Rightarrow> (500, ''text/plain; charset=utf-8'', ''admin UI missing'')))"

section \<open>Properties\<close>

lemma ReadFile_Some:
  "ReadFile uvalid files name = Some b \<longleftrightarrow> files name = Some b \<and> ValidPath uvalid name \<and> name \<noteq> ''.''"
  by (simp add: ReadFile_def)

lemma index_valid: "ValidPath uvalid ''index.html'' \<and> ''index.html'' \<noteq> ''.''"
proof -
  have "list_all is_ascii ''index.html''"
    "list_all (\<lambda>elem. elem \<notin> {[], ''.'', ''..''}) (split_on CHR ''/'' ''index.html'')" by code_simp+
  then show ?thesis unfolding ValidPath_def by simp
qed

text \<open>A valid path is never empty and stays below the root: no element of it is \<open>..\<close>.\<close>

lemma valid_below:
  assumes "ValidPath uvalid p" and "p \<noteq> ''.''"
  shows "p \<noteq> [] \<and> ''..'' \<notin> set (split_on CHR ''/'' p)"
proof -
  have elems: "elem \<noteq> [] \<and> elem \<noteq> ''..''" if "elem \<in> set (split_on CHR ''/'' p)" for elem
    using assms that unfolding ValidPath_def list_all_iff by blast
  then have "p \<noteq> []" by (metis list.set_intros(1) split_on.simps(1))
  with elems show ?thesis by blast
qed

definition html :: string where
  "html = ''text/html; charset=utf-8''"

lemma readAdminFile_Some:
  assumes "readAdminFile uvalid ulower files rel = Some (b, ct)"
  obtains "files rel = Some b" "ValidPath uvalid rel" "rel \<noteq> ''.''" "ct = contentTypeFor ulower rel"
  | "files rel = None \<or> \<not> ValidPath uvalid rel \<or> rel = ''.''" "Ext rel = []" "ct = html"
    "files (Join rel ''index.html'') = Some b" "ValidPath uvalid (Join rel ''index.html'')" "Join rel ''index.html'' \<noteq> ''.''"
  using assms unfolding readAdminFile_def html_def
  by (auto simp: ReadFile_Some ReadFile_def split: option.splits if_splits)

lemma index_type: "Ext ''index.html'' = ''.html'' \<and> contentTypeFor ulower ''index.html'' = html"
proof -
  have e: "Ext ''index.html'' = ''.html''" by code_simp
  have "list_all is_ascii ''.html''" "map lower_char ''.html'' = ''.html''" by code_simp+
  then have "ToLower ulower ''.html'' = ''.html''" by (simp only: ToLower_def if_True)
  then show ?thesis using e unfolding contentTypeFor_def Let_def html_def e by (simp only: if_True simp_thms)
qed

lemma readAdminFile_index:
  "files ''index.html'' = Some page \<Longrightarrow> readAdminFile uvalid ulower files ''index.html'' = Some (page, html)"
  using index_valid index_type by (simp only: readAdminFile_def ReadFile_def if_True option.case simp_thms)

text \<open>C22. The console can be reached and nothing else can. Once the user interface is embedded every request
  under \<open>/console\<close> is answered with 200 and the bytes of an embedded file whose path has no \<open>..\<close>
  element, however the request spells it; an embedded file is served under its own path with the
  type of its extension; and a request that names no file gets the entry page, as a single-page
  application needs.\<close>

theorem console_serves_the_embedded_files:
  assumes "files ''index.html'' = Some page"
  shows "(\<exists>p ct data. serveAdmin uvalid ulower files filepath = (200, ct, data) \<and> files p = Some data \<and>
      p \<noteq> [] \<and> ''..'' \<notin> set (split_on CHR ''/'' p)) \<and>
    (ValidPath uvalid rel \<and> rel \<noteq> ''.'' \<and> files rel = Some data \<longrightarrow>
      serveAdmin uvalid ulower files (CHR ''/'' # rel) = (200, contentTypeFor ulower rel, data)) \<and>
    (readAdminFile uvalid ulower files rel = None \<or> rel = [] \<longrightarrow>
      serveAdmin uvalid ulower files (CHR ''/'' # rel) = (200, html, page))"
proof (intro conjI impI)
  note index = readAdminFile_index [where files = files, OF assms]
  define r where "r = (let rel = (case filepath of CHR ''/'' # rest \<Rightarrow> rest | _ \<Rightarrow> filepath) in
    if rel = [] then ''index.html'' else rel)"
  have serve: "serveAdmin uvalid ulower files filepath =
      (case readAdminFile uvalid ulower files r of Some (data, ct) \<Rightarrow> (200, ct, data) | None \<Rightarrow> (200, html, page))"
    unfolding serveAdmin_def r_def Let_def index option.case prod.case ..
  show "\<exists>p ct data. serveAdmin uvalid ulower files filepath = (200, ct, data) \<and> files p = Some data \<and>
      p \<noteq> [] \<and> ''..'' \<notin> set (split_on CHR ''/'' p)"
  proof (cases "readAdminFile uvalid ulower files r")
    case None
    then show ?thesis using serve assms index_valid valid_below by fastforce
  next
    case (Some x)
    then obtain b ct where x: "readAdminFile uvalid ulower files r = Some (b, ct)" by (cases x) simp
    have "\<exists>p. files p = Some b \<and> ValidPath uvalid p \<and> p \<noteq> ''.''" using x by (cases rule: readAdminFile_Some) blast+
    then show ?thesis unfolding serve x option.case prod.case using valid_below by blast
  qed
next
  assume "ValidPath uvalid rel \<and> rel \<noteq> ''.'' \<and> files rel = Some data"
  then have "readAdminFile uvalid ulower files rel = Some (data, contentTypeFor ulower rel)" "rel \<noteq> []"
    using valid_below [of uvalid rel] by (simp_all add: readAdminFile_def ReadFile_def)
  then show "serveAdmin uvalid ulower files (CHR ''/'' # rel) = (200, contentTypeFor ulower rel, data)"
    by (simp add: serveAdmin_def)
next
  assume "readAdminFile uvalid ulower files rel = None \<or> rel = []"
  then show "serveAdmin uvalid ulower files (CHR ''/'' # rel) = (200, html, page)"
    using readAdminFile_index [where files = files, OF assms] by (auto simp: serveAdmin_def)
qed

definition site :: embedded where
  "site = [''index.html'' \<mapsto> ''<entry>'', ''login/index.html'' \<mapsto> ''<login>'', ''_next/a.JS'' \<mapsto> ''js'']"

theorem console_serves_the_embedded_files_witness:
  "serveAdmin (\<lambda>_. False) id site ''/_next/a.JS'' = (200, ''text/javascript; charset=utf-8'', ''js'') \<and>
   serveAdmin (\<lambda>_. False) id site ''/x/../login'' = (200, html, ''<login>'') \<and>
   serveAdmin (\<lambda>_. False) id site ''/../../etc/passwd'' = (200, html, ''<entry>'') \<and>
   serveAdmin (\<lambda>_. False) id site ''/'' = (200, html, ''<entry>'')"
proof -
  have "readAdminFile (\<lambda>_. False) id site ''../../etc/passwd'' = None" by code_simp
  moreover have "site ''index.html'' = Some ''<entry>''" by code_simp
  note console_serves_the_embedded_files [where files = site, OF this]
  ultimately have "serveAdmin (\<lambda>_. False) id site ''/../../etc/passwd'' = (200, html, ''<entry>'')" by blast
  moreover have "serveAdmin (\<lambda>_. False) id site ''/_next/a.JS'' = (200, ''text/javascript; charset=utf-8'', ''js'')"
    "serveAdmin (\<lambda>_. False) id site ''/x/../login'' = (200, html, ''<login>'')"
    "serveAdmin (\<lambda>_. False) id site ''/'' = (200, html, ''<entry>'')" by code_simp+
  ultimately show ?thesis by blast
qed

end
