(* ===== verification/Store.thy ===== *)
theory Store
  imports GoStrings
begin

text \<open>
  The database as the program sees it.

  \<^item> One \<open>record\<close> per entity of \<open>src/ent/schema\<close>, with the fields in the schema's order.
  \<^item> \<open>world\<close>: the shared (public) tables of \<open>src/ent/migrate/schema.go\<close>, the per-tenant
    Postgres schemas, and \<open>tick\<close>, the number of calls made so far to anything outside the
    program. \<open>env\<close> answers these calls: which database call fails, in which order an
    unordered query returns its rows, the next UUID, the clock, the random source, and the
    hash functions of \<open>golang.org/x/crypto/bcrypt\<close> and \<open>crypto/sha256\<close>.
  \<^item> The operations of the generated ent clients (\<open>Only\<close>, \<open>All\<close>, \<open>Exist\<close>, \<open>Get\<close>, \<open>Create\<close>,
    \<open>Update\<close>, \<open>UpdateOneID\<close>, \<open>Delete\<close>, \<open>DeleteOneID\<close>), once for all tables: the ten
    generated clients are instances of one template. A call that fails leaves the tables
    unchanged and returns an error, as a single SQL statement does.
  \<^item> The constraints Postgres enforces: primary keys, unique indexes and foreign keys.
\<close>

section \<open>Errors\<close>

datatype db_error =
    NotFound       \<comment> \<open>\<open>ent.NotFoundError\<close>\<close>
  | NotSingular    \<comment> \<open>\<open>ent.NotSingularError\<close>\<close>
  | Constraint     \<comment> \<open>\<open>ent.ConstraintError\<close>: unique index, primary or foreign key\<close>
  | Validation     \<comment> \<open>\<open>ent.ValidationError\<close>: a field validator rejected the value\<close>
  | UndefinedTable \<comment> \<open>the tenant schema or its table does not exist\<close>
  | Fault          \<comment> \<open>connection, timeout, cancelled context\<close>

text \<open>\<open>auth.TenantOption\<close>.\<close>

record TenantOption =
  opt_slug :: string
  opt_name :: string

datatype error =
    ErrText string          \<comment> \<open>\<open>errors.New(s)\<close>, \<open>fmt.Errorf(s)\<close> without \<open>%w\<close>; the quotes of \<open>%q\<close> left out\<close>
  | ErrWrap string error    \<comment> \<open>\<open>fmt.Errorf("s: %w", err)\<close>\<close>
  | ErrDB db_error
  | MultiTenantError "TenantOption list"
  | ErrMultipleTenants
  | ErrGoogleDisabled
  | ErrNoGoogleAccount
  | ErrGoogleToken
  | ErrInvalidToken
  | ErrMembershipRevoked
  | ErrInvalidPin
  | ErrPinTaken
  | ErrMemberNotFound
  | ErrLastManager
  | ErrWeakPassword
  | ErrWrongPassword
  | ErrInvalidSlug
  | ErrInvalidBranchSlug
  | ErrNoBranchContext
  | Panic error             \<comment> \<open>a panic (\<open>SaveX\<close>) unwinding to the handler's \<open>gin.Recovery\<close>\<close>
  | Diverges                \<comment> \<open>the model's fuel ran out; shown not to happen\<close>

text \<open>\<open>errors.Is(err, target)\<close> follows the chain of wrapped errors.\<close>

fun errors_is :: "error \<Rightarrow> error \<Rightarrow> bool" where
  "errors_is (ErrWrap s e) t = (ErrWrap s e = t \<or> errors_is e t)"
| "errors_is (MultiTenantError os) t = (MultiTenantError os = t \<or> t = ErrMultipleTenants)"
| "errors_is e t = (e = t)"

section \<open>Entities\<close>

record user =
  u_id :: string
  u_email :: string
  u_password_hash :: string
  u_google_sub :: "string option"
  u_is_platform_admin :: bool
  u_created_at :: nat

record tenant =
  t_id :: string
  t_slug :: string
  t_name :: string
  t_plan :: string
  t_status :: string
  t_schema_name :: string

record branch =
  b_id :: string
  b_tenant_id :: string
  b_slug :: string
  b_name :: string
  b_status :: string
  b_created_at :: nat

record tenant_user =
  tu_id :: string
  tu_user_id :: string
  tu_tenant_id :: string
  tu_branch_id :: string
  tu_role_id :: string
  tu_status :: string
  tu_created_at :: nat

record role =
  r_id :: string
  r_tenant_id :: string
  r_slug :: string
  r_name :: string
  r_is_system :: bool
  r_created_at :: nat

record role_permission =
  rp_id :: string
  rp_role_id :: string
  rp_permission :: string

record device_token =
  dt_id :: string
  dt_token_hash :: string
  dt_user_id :: string
  dt_tenant_id :: string
  dt_branch_id :: string
  dt_device_name :: string
  dt_created_at :: nat
  dt_last_used_at :: "nat option"
  dt_revoked_at :: "nat option"

record plugin_install =
  pi_id :: string
  pi_tenant_id :: string
  pi_plugin_name :: string
  pi_installed_at :: nat
  pi_permissions :: "string list"

record migration_history =
  mh_id :: string
  mh_tenant_id :: string
  mh_plugin_name :: string
  mh_version :: string
  mh_name :: string
  mh_status :: string
  mh_applied_at :: nat

record user_profile =
  p_id :: string
  p_full_name :: string
  p_phone :: string
  p_job_title :: string
  p_system_role :: string
  p_pin_hash :: string
  p_created_at :: nat

section \<open>World and environment\<close>

text \<open>A tenant's Postgres schema: its \<open>user_profiles\<close> table once migrated, and the plugin SQL
  statements committed in it, oldest first.\<close>

record tenant_schema =
  s_profiles :: "user_profile list option"
  s_sql :: "string list"

record world =
  users :: "user list"
  tenants :: "tenant list"
  branches :: "branch list"
  tenant_users :: "tenant_user list"
  roles :: "role list"
  role_permissions :: "role_permission list"
  device_tokens :: "device_token list"
  plugin_installs :: "plugin_install list"
  histories :: "migration_history list"
  schemas :: "string \<rightharpoonup> tenant_schema"
  tick :: nat

record env =
  db_fault :: "nat \<Rightarrow> bool"
  row_order :: "nat \<Rightarrow> nat \<Rightarrow> nat list"
  new_uuid :: "nat \<Rightarrow> string"
  clock :: "nat \<Rightarrow> nat"
  entropy :: "nat \<Rightarrow> string option"
  sha256 :: "string \<Rightarrow> string"
  bcrypt_hash :: "nat \<Rightarrow> string \<Rightarrow> string option"
  bcrypt_match :: "string \<Rightarrow> string \<Rightarrow> bool"

abbreviation ticked :: "world \<Rightarrow> world" where
  "ticked w \<equiv> w\<lparr>tick := Suc (tick w)\<rparr>"

text \<open>A call outside the program that cannot fail: the clock, a fresh UUID, a bcrypt salt.\<close>

definition sys_call :: "(nat \<Rightarrow> 'a) \<Rightarrow> (world, 'a) state" where
  "sys_call f = State (\<lambda>w. (f (tick w), ticked w))"

definition time_now :: "env \<Rightarrow> (world, nat) state" where
  "time_now E = sys_call (clock E)"

definition uuid_string :: "env \<Rightarrow> (world, string) state" where
  "uuid_string E = sys_call (new_uuid E)"

text \<open>The identifiers \<open>prefix + uuid.New().String()[:8]\<close>.\<close>

definition short_id :: "env \<Rightarrow> string \<Rightarrow> (world, string) state" where
  "short_id E prefix = do { u \<leftarrow> uuid_string E; State_Monad.return (prefix @ take 8 u) }"

text \<open>\<open>for k := range m\<close> over a Go map with the keys \<open>ks\<close>: the order differs from run to run.\<close>

definition range_keys :: "env \<Rightarrow> 'k list \<Rightarrow> (world, 'k list) state" where
  "range_keys E ks = sys_call (\<lambda>n. shuffle (row_order E n (length ks)) ks)"

text \<open>\<open>bcrypt.GenerateFromPassword\<close>: salted, and it rejects some passwords (longer than 72
  bytes); \<open>bcrypt.CompareHashAndPassword(hash, pw) == nil\<close> is \<open>bcrypt_match E hash pw\<close>.\<close>

definition GenerateFromPassword :: "env \<Rightarrow> string \<Rightarrow> (world, error + string) state" where
  "GenerateFromPassword E pw = do {
     r \<leftarrow> sys_call (\<lambda>n. bcrypt_hash E n pw);
     (case r of None \<Rightarrow> fail (ErrText ''bcrypt: password length exceeds 72 bytes'') | Some h \<Rightarrow> ok h) }"

section \<open>The ent client operations\<close>

definition db_step :: "env \<Rightarrow> (world \<Rightarrow> db_error + 'a \<times> world) \<Rightarrow> (world, error + 'a) state" where
  "db_step E f = State (\<lambda>w.
     if db_fault E (tick w) then (Inl (ErrDB Fault), ticked w)
     else case f (ticked w) of Inl e \<Rightarrow> (Inl (ErrDB e), ticked w) | Inr (a, w') \<Rightarrow> (Inr a, w'))"

definition arrange :: "env \<Rightarrow> world \<Rightarrow> 'r list \<Rightarrow> 'r list" where
  "arrange E w xs = shuffle (row_order E (tick w) (length xs)) xs"

text \<open>\<open>Query().Where(P).All(ctx)\<close>.\<close>

definition ent_all :: "env \<Rightarrow> (world \<Rightarrow> 'r list) \<Rightarrow> ('r \<Rightarrow> bool) \<Rightarrow> (world, error + 'r list) state" where
  "ent_all E rows P = db_step E (\<lambda>w. Inr (arrange E w (filter P (rows w)), w))"

text \<open>\<open>Query().Where(P).Order(ent.Asc(key)).All(ctx)\<close>: ties stay in unspecified order.\<close>

definition ent_all_asc ::
  "env \<Rightarrow> (world \<Rightarrow> 'r list) \<Rightarrow> ('r \<Rightarrow> bool) \<Rightarrow> ('r \<Rightarrow> 'k :: linorder) \<Rightarrow> (world, error + 'r list) state" where
  "ent_all_asc E rows P key = db_step E (\<lambda>w. Inr (sort_key key (arrange E w (filter P (rows w))), w))"

text \<open>\<open>Query().Where(P).Only(ctx)\<close>.\<close>

definition ent_only :: "env \<Rightarrow> (world \<Rightarrow> 'r list) \<Rightarrow> ('r \<Rightarrow> bool) \<Rightarrow> (world, error + 'r) state" where
  "ent_only E rows P = db_step E (\<lambda>w.
     case take 2 (arrange E w (filter P (rows w))) of
       [] \<Rightarrow> Inl NotFound
     | [r] \<Rightarrow> Inr (r, w)
     | _ \<Rightarrow> Inl NotSingular)"

text \<open>\<open>Query().Where(P).Exist(ctx)\<close>.\<close>

definition ent_exist :: "env \<Rightarrow> (world \<Rightarrow> 'r list) \<Rightarrow> ('r \<Rightarrow> bool) \<Rightarrow> (world, error + bool) state" where
  "ent_exist E rows P = db_step E (\<lambda>w. Inr (filter P (rows w) \<noteq> [], w))"

text \<open>\<open>client.Get(ctx, id)\<close>.\<close>

definition ent_get :: "env \<Rightarrow> (world \<Rightarrow> 'r list) \<Rightarrow> ('r \<Rightarrow> string) \<Rightarrow> string \<Rightarrow> (world, error + 'r) state" where
  "ent_get E rows key i = ent_only E rows (\<lambda>r. key r = i)"

text \<open>\<open>Create()...Save(ctx)\<close>: \<open>valid\<close> is the builder's \<open>check\<close>, which runs before the
  statement; \<open>clash\<close> the constraints of the table; the key must be fresh.\<close>

definition ent_create ::
  "env \<Rightarrow> (world \<Rightarrow> 'r list) \<Rightarrow> (('r list \<Rightarrow> 'r list) \<Rightarrow> world \<Rightarrow> world) \<Rightarrow> ('r \<Rightarrow> string) \<Rightarrow>
   (world \<Rightarrow> 'r \<Rightarrow> bool) \<Rightarrow> 'r \<Rightarrow> (world, error + 'r) state" where
  "ent_create E rows put key clash r = db_step E (\<lambda>w.
     if (\<exists>x \<in> set (rows w). key x = key r) \<or> clash w r then Inl Constraint
     else Inr (r, put (\<lambda>rs. rs @ [r]) w))"

text \<open>\<open>Update().Where(P)...Save(ctx)\<close>: the number of rows changed.\<close>

definition ent_update ::
  "env \<Rightarrow> (world \<Rightarrow> 'r list) \<Rightarrow> (('r list \<Rightarrow> 'r list) \<Rightarrow> world \<Rightarrow> world) \<Rightarrow> ('r \<Rightarrow> bool) \<Rightarrow>
   ('r \<Rightarrow> 'r) \<Rightarrow> (world, error + nat) state" where
  "ent_update E rows put P f = db_step E (\<lambda>w.
     Inr (length (filter P (rows w)), put (map (\<lambda>r. if P r then f r else r)) w))"

text \<open>\<open>UpdateOneID(id)...Save(ctx)\<close>: the changed row, \<open>NotFoundError\<close> when there is none.\<close>

definition ent_update_one ::
  "env \<Rightarrow> (world \<Rightarrow> 'r list) \<Rightarrow> (('r list \<Rightarrow> 'r list) \<Rightarrow> world \<Rightarrow> world) \<Rightarrow> ('r \<Rightarrow> string) \<Rightarrow>
   (world \<Rightarrow> 'r \<Rightarrow> bool) \<Rightarrow> string \<Rightarrow> ('r \<Rightarrow> 'r) \<Rightarrow> (world, error + 'r) state" where
  "ent_update_one E rows put key clash i f = db_step E (\<lambda>w.
     case filter (\<lambda>r. key r = i) (rows w) of
       [] \<Rightarrow> Inl NotFound
     | r # _ \<Rightarrow> if clash w (f r) then Inl Constraint
         else Inr (f r, put (map (\<lambda>r. if key r = i then f r else r)) w))"

text \<open>\<open>Delete().Where(P).Exec(ctx)\<close>: the number of rows deleted; a row another table refers to
  cannot go (every foreign key of the schema is \<open>NO ACTION\<close>).\<close>

definition ent_delete ::
  "env \<Rightarrow> (world \<Rightarrow> 'r list) \<Rightarrow> (('r list \<Rightarrow> 'r list) \<Rightarrow> world \<Rightarrow> world) \<Rightarrow>
   (world \<Rightarrow> 'r \<Rightarrow> bool) \<Rightarrow> ('r \<Rightarrow> bool) \<Rightarrow> (world, error + nat) state" where
  "ent_delete E rows put referenced P = db_step E (\<lambda>w.
     if \<exists>r \<in> set (filter P (rows w)). referenced w r then Inl Constraint
     else Inr (length (filter P (rows w)), put (filter (\<lambda>r. \<not> P r)) w))"

text \<open>\<open>DeleteOneID(id).Exec(ctx)\<close>: \<open>NotFoundError\<close> when nothing was deleted.\<close>

definition ent_delete_one ::
  "env \<Rightarrow> (world \<Rightarrow> 'r list) \<Rightarrow> (('r list \<Rightarrow> 'r list) \<Rightarrow> world \<Rightarrow> world) \<Rightarrow>
   (world \<Rightarrow> 'r \<Rightarrow> bool) \<Rightarrow> ('r \<Rightarrow> string) \<Rightarrow> string \<Rightarrow> (world, error + unit) state" where
  "ent_delete_one E rows put referenced key i =
     attempt (ent_delete E rows put referenced (\<lambda>r. key r = i)) id
       (\<lambda>n. if n = 0 then fail (ErrDB NotFound) else ok ())"

end
