(* ===== verification/Schema.thy ===== *)
theory Schema
  imports Store
begin

text \<open>
  The tables of \<open>src/ent/schema\<close> and \<open>src/ent/migrate/schema.go\<close>: the constraints each one
  enforces (unique indexes, foreign keys), the rows that other tables refer to, the typed
  \<open>Create\<close> builders with the defaults of \<open>src/ent/schema\<close>, and the tenant-scoped
  \<open>user_profiles\<close> table reached through \<open>tenantclient.New\<close>. The locale \<open>ent_table\<close> is the
  interface the services rely on; it is interpreted for every table.
\<close>

section \<open>Constraints\<close>

definition user_clash :: "world \<Rightarrow> user \<Rightarrow> bool" where
  "user_clash w u \<longleftrightarrow> (\<exists>x \<in> set (users w). u_email x = u_email u
     \<or> (u_google_sub u \<noteq> None \<and> u_google_sub x = u_google_sub u))"

definition tenant_clash :: "world \<Rightarrow> tenant \<Rightarrow> bool" where
  "tenant_clash w t \<longleftrightarrow> (\<exists>x \<in> set (tenants w). t_slug x = t_slug t \<or> t_schema_name x = t_schema_name t)"

definition branch_clash :: "world \<Rightarrow> branch \<Rightarrow> bool" where
  "branch_clash w b \<longleftrightarrow>
     (\<exists>x \<in> set (branches w). b_tenant_id x = b_tenant_id b \<and> b_slug x = b_slug b)
     \<or> \<not> (\<exists>t \<in> set (tenants w). t_id t = b_tenant_id b)"

definition tenant_user_clash :: "world \<Rightarrow> tenant_user \<Rightarrow> bool" where
  "tenant_user_clash w m \<longleftrightarrow>
     (\<exists>x \<in> set (tenant_users w). tu_user_id x = tu_user_id m \<and> tu_tenant_id x = tu_tenant_id m)
     \<or> \<not> (\<exists>t \<in> set (tenants w). t_id t = tu_tenant_id m)
     \<or> \<not> (\<exists>u \<in> set (users w). u_id u = tu_user_id m)"

definition role_clash :: "world \<Rightarrow> role \<Rightarrow> bool" where
  "role_clash w r \<longleftrightarrow> (\<exists>x \<in> set (roles w). r_tenant_id x = r_tenant_id r \<and> r_slug x = r_slug r)"

definition role_permission_clash :: "world \<Rightarrow> role_permission \<Rightarrow> bool" where
  "role_permission_clash w rp \<longleftrightarrow>
     (\<exists>x \<in> set (role_permissions w). rp_role_id x = rp_role_id rp \<and> rp_permission x = rp_permission rp)
     \<or> \<not> (\<exists>r \<in> set (roles w). r_id r = rp_role_id rp)"

definition device_token_clash :: "world \<Rightarrow> device_token \<Rightarrow> bool" where
  "device_token_clash w d \<longleftrightarrow> (\<exists>x \<in> set (device_tokens w). dt_token_hash x = dt_token_hash d)"

definition plugin_install_clash :: "world \<Rightarrow> plugin_install \<Rightarrow> bool" where
  "plugin_install_clash w p \<longleftrightarrow> \<not> (\<exists>t \<in> set (tenants w). t_id t = pi_tenant_id p)"

definition no_clash :: "world \<Rightarrow> 'r \<Rightarrow> bool" where
  "no_clash w r \<longleftrightarrow> False"

text \<open>Setting \<open>google_sub\<close> on an existing row: the unique index over the other rows.\<close>

definition user_sub_clash :: "world \<Rightarrow> user \<Rightarrow> bool" where
  "user_sub_clash w u \<longleftrightarrow> u_google_sub u \<noteq> None \<and>
     (\<exists>x \<in> set (users w). u_id x \<noteq> u_id u \<and> u_google_sub x = u_google_sub u)"

text \<open>Rows another table refers to.\<close>

definition user_referenced :: "world \<Rightarrow> user \<Rightarrow> bool" where
  "user_referenced w u \<longleftrightarrow> (\<exists>m \<in> set (tenant_users w). tu_user_id m = u_id u)"

definition tenant_referenced :: "world \<Rightarrow> tenant \<Rightarrow> bool" where
  "tenant_referenced w t \<longleftrightarrow>
     (\<exists>b \<in> set (branches w). b_tenant_id b = t_id t)
     \<or> (\<exists>m \<in> set (tenant_users w). tu_tenant_id m = t_id t)
     \<or> (\<exists>p \<in> set (plugin_installs w). pi_tenant_id p = t_id t)"

definition role_referenced :: "world \<Rightarrow> role \<Rightarrow> bool" where
  "role_referenced w r \<longleftrightarrow> (\<exists>p \<in> set (role_permissions w). rp_role_id p = r_id r)"

section \<open>Create builders\<close>

definition create_user ::
  "env \<Rightarrow> string \<Rightarrow> string \<Rightarrow> string \<Rightarrow> (world, error + user) state" where
  "create_user E i email hash = do {
     now \<leftarrow> time_now E;
     ent_create E users users_update u_id user_clash
       \<lparr>u_id = i, u_email = email, u_password_hash = hash, u_google_sub = None,
        u_is_platform_admin = False, u_created_at = now\<rparr> }"

definition create_tenant ::
  "env \<Rightarrow> string \<Rightarrow> string \<Rightarrow> string \<Rightarrow> string \<Rightarrow> string \<Rightarrow> string \<Rightarrow> (world, error + tenant) state" where
  "create_tenant E i slug nm plan status schema =
     ent_create E tenants tenants_update t_id tenant_clash
       \<lparr>t_id = i, t_slug = slug, t_name = nm, t_plan = plan, t_status = status,
        t_schema_name = schema\<rparr>"

definition create_branch ::
  "env \<Rightarrow> string \<Rightarrow> string \<Rightarrow> string \<Rightarrow> string \<Rightarrow> string \<Rightarrow> (world, error + branch) state" where
  "create_branch E i tenantID slug nm status = do {
     now \<leftarrow> time_now E;
     ent_create E branches branches_update b_id branch_clash
       \<lparr>b_id = i, b_tenant_id = tenantID, b_slug = slug, b_name = nm, b_status = status,
        b_created_at = now\<rparr> }"

definition create_tenant_user ::
  "env \<Rightarrow> string \<Rightarrow> string \<Rightarrow> string \<Rightarrow> string \<Rightarrow> string \<Rightarrow> (world, error + tenant_user) state" where
  "create_tenant_user E i userID tenantID branchID roleID = do {
     now \<leftarrow> time_now E;
     ent_create E tenant_users tenant_users_update tu_id tenant_user_clash
       \<lparr>tu_id = i, tu_user_id = userID, tu_tenant_id = tenantID, tu_branch_id = branchID,
        tu_role_id = roleID, tu_status = ''active'', tu_created_at = now\<rparr> }"

definition create_role ::
  "env \<Rightarrow> string \<Rightarrow> string \<Rightarrow> string \<Rightarrow> string \<Rightarrow> bool \<Rightarrow> (world, error + role) state" where
  "create_role E i tenantID slug nm sys = do {
     now \<leftarrow> time_now E;
     ent_create E roles roles_update r_id role_clash
       \<lparr>r_id = i, r_tenant_id = tenantID, r_slug = slug, r_name = nm, r_is_system = sys,
        r_created_at = now\<rparr> }"

definition create_role_permission ::
  "env \<Rightarrow> string \<Rightarrow> string \<Rightarrow> string \<Rightarrow> (world, error + role_permission) state" where
  "create_role_permission E i roleID perm =
     ent_create E role_permissions role_permissions_update rp_id role_permission_clash
       \<lparr>rp_id = i, rp_role_id = roleID, rp_permission = perm\<rparr>"

text \<open>\<open>token_hash\<close>, \<open>user_id\<close> and \<open>tenant_id\<close> are declared \<open>NotEmpty\<close>: the builder's \<open>check\<close>
  refuses empty values before any statement runs.\<close>

definition create_device_token ::
  "env \<Rightarrow> string \<Rightarrow> string \<Rightarrow> string \<Rightarrow> string \<Rightarrow> string \<Rightarrow> (world, error + device_token) state" where
  "create_device_token E i tokenHash userID tenantID branchID = do {
     now \<leftarrow> time_now E;
     (if tokenHash = [] \<or> userID = [] \<or> tenantID = [] then fail (ErrDB Validation)
      else ent_create E device_tokens device_tokens_update dt_id device_token_clash
        \<lparr>dt_id = i, dt_token_hash = tokenHash, dt_user_id = userID, dt_tenant_id = tenantID,
         dt_branch_id = branchID, dt_device_name = [], dt_created_at = now,
         dt_last_used_at = None, dt_revoked_at = None\<rparr>) }"

definition create_plugin_install ::
  "env \<Rightarrow> string \<Rightarrow> string \<Rightarrow> string \<Rightarrow> (world, error + plugin_install) state" where
  "create_plugin_install E i tenantID plugin = do {
     now \<leftarrow> time_now E;
     ent_create E plugin_installs plugin_installs_update pi_id plugin_install_clash
       \<lparr>pi_id = i, pi_tenant_id = tenantID, pi_plugin_name = plugin, pi_installed_at = now,
        pi_permissions = []\<rparr> }"

definition create_history ::
  "env \<Rightarrow> string \<Rightarrow> string \<Rightarrow> string \<Rightarrow> string \<Rightarrow> string \<Rightarrow> string \<Rightarrow> (world, error + migration_history) state" where
  "create_history E i tenantID plugin version nm status = do {
     now \<leftarrow> time_now E;
     ent_create E histories histories_update mh_id no_clash
       \<lparr>mh_id = i, mh_tenant_id = tenantID, mh_plugin_name = plugin, mh_version = version,
        mh_name = nm, mh_status = status, mh_applied_at = now\<rparr> }"

section \<open>Tenant-scoped profiles\<close>

text \<open>\<open>tenantclient.New(db, schema).UserProfile\<close> works on \<open>schema.user_profiles\<close>; when the
  schema or the table is missing, every statement on it fails.\<close>

definition has_profiles :: "string \<Rightarrow> world \<Rightarrow> bool" where
  "has_profiles s w = (case schemas w s of None \<Rightarrow> False | Some t \<Rightarrow> s_profiles t \<noteq> None)"

definition profiles :: "string \<Rightarrow> world \<Rightarrow> user_profile list" where
  "profiles s w = (case schemas w s of None \<Rightarrow> [] | Some t \<Rightarrow>
     (case s_profiles t of None \<Rightarrow> [] | Some ps \<Rightarrow> ps))"

definition profiles_update ::
  "string \<Rightarrow> (user_profile list \<Rightarrow> user_profile list) \<Rightarrow> world \<Rightarrow> world" where
  "profiles_update s f w = (case schemas w s of None \<Rightarrow> w | Some t \<Rightarrow>
     w\<lparr>schemas := (schemas w)(s \<mapsto> t\<lparr>s_profiles := map_option f (s_profiles t)\<rparr>)\<rparr>)"

definition in_schema :: "env \<Rightarrow> string \<Rightarrow> (world, error + 'a) state \<Rightarrow> (world, error + 'a) state" where
  "in_schema E s m = State (\<lambda>w.
     if has_profiles s w then run_state m w
     else (Inl (ErrDB (if db_fault E (tick w) then Fault else UndefinedTable)), ticked w))"

definition create_profile ::
  "env \<Rightarrow> string \<Rightarrow> string \<Rightarrow> string \<Rightarrow> string \<Rightarrow> string \<Rightarrow> string \<Rightarrow> (world, error + user_profile) state" where
  "create_profile E schema i fullName phone jobTitle systemRole = do {
     now \<leftarrow> time_now E;
     in_schema E schema (ent_create E (profiles schema) (profiles_update schema) p_id no_clash
       \<lparr>p_id = i, p_full_name = fullName, p_phone = phone, p_job_title = jobTitle,
        p_system_role = systemRole, p_pin_hash = [], p_created_at = now\<rparr>) }"

definition profile_get :: "env \<Rightarrow> string \<Rightarrow> string \<Rightarrow> (world, error + user_profile) state" where
  "profile_get E schema i = in_schema E schema (ent_get E (profiles schema) p_id i)"

text \<open>\<open>TenantUser.Query()...WithUser().All(ctx)\<close>: a second query loads the users of the rows
  found (\<open>loadUser\<close>); it is skipped when there are none.\<close>

definition with_user ::
  "env \<Rightarrow> tenant_user list \<Rightarrow> (world, error + (tenant_user \<times> user option) list) state" where
  "with_user E ms =
     (if ms = [] then ok []
      else attempt (ent_all E users (\<lambda>u. u_id u \<in> set (map tu_user_id ms))) id
        (\<lambda>us. ok (map (\<lambda>m. (m, find (\<lambda>u. u_id u = tu_user_id m) us)) ms)))"

end
