(* ===== verification/Tables.thy ===== *)
theory Tables
  imports Schema
begin

text \<open>
  Reasoning about the ent operations.

  \<^item> \<open>ent_run\<close>: what each operation returns from a given state, as equations.
  \<^item> \<open>wp_intro\<close>: rules that allow for any database fault, any row order and any number of
    calls; safety proofs use these.
  \<^item> \<open>guarantees_intro\<close>: what an operation can do to the state.
  \<^item> The locale \<open>ent_table\<close>: a table is a getter and an updater that agree; the laws the
    services rely on (a row created can be read back, keys stay unique) are proved once
    and interpreted for every table of the schema, public or tenant-scoped.
\<close>

section \<open>Equations\<close>

lemma run_db_step:
  "run_state (db_step E f) w =
     (if db_fault E (tick w) then (Inl (ErrDB Fault), ticked w)
      else case f (ticked w) of Inl e \<Rightarrow> (Inl (ErrDB e), ticked w) | Inr (a, w') \<Rightarrow> (Inr a, w'))"
  by (simp add: db_step_def)

lemma run_sys_call [simp]: "run_state (sys_call f) w = (f (tick w), ticked w)"
  by (simp add: sys_call_def)

lemma set_arrange [simp]: "set (arrange E w xs) = set xs"
  by (simp add: arrange_def)

lemma mset_arrange [simp]: "mset (arrange E w xs) = mset xs"
  by (simp add: arrange_def)

lemma length_arrange [simp]: "length (arrange E w xs) = length xs"
  by (simp add: arrange_def)

lemma arrange_Nil [simp]: "arrange E w [] = []"
  using length_arrange [of E w "[]"] by (simp del: length_arrange)

lemma arrange_single [simp]: "arrange E w [x] = [x]"
  by (simp add: arrange_def)

lemma run_ent_all:
  "run_state (ent_all E rows P) w =
     (if db_fault E (tick w) then (Inl (ErrDB Fault), ticked w)
      else (Inr (arrange E (ticked w) (filter P (rows (ticked w)))), ticked w))"
  by (simp add: ent_all_def run_db_step)

lemma run_ent_all_asc:
  "run_state (ent_all_asc E rows P key) w =
     (if db_fault E (tick w) then (Inl (ErrDB Fault), ticked w)
      else (Inr (sort_key key (arrange E (ticked w) (filter P (rows (ticked w))))), ticked w))"
  by (simp add: ent_all_asc_def run_db_step)

lemma run_ent_only:
  "run_state (ent_only E rows P) w =
     (if db_fault E (tick w) then (Inl (ErrDB Fault), ticked w)
      else case filter P (rows (ticked w)) of
        [] \<Rightarrow> (Inl (ErrDB NotFound), ticked w)
      | [r] \<Rightarrow> (Inr r, ticked w)
      | _ \<Rightarrow> (Inl (ErrDB NotSingular), ticked w))"
proof (cases "filter P (rows (ticked w))")
  case Nil
  then show ?thesis by (simp add: ent_only_def run_db_step)
next
  case (Cons r rs)
  show ?thesis
  proof (cases rs)
    case Nil
    with Cons show ?thesis by (simp add: ent_only_def run_db_step)
  next
    case (Cons r' rs')
    let ?a = "arrange E (ticked w) (r # r' # rs')"
    have "length ?a = Suc (Suc (length rs'))" by simp
    then obtain x y zs where "?a = x # y # zs" unfolding length_Suc_conv by auto
    then show ?thesis
      using \<open>filter P (rows (ticked w)) = r # rs\<close> Cons by (simp add: ent_only_def run_db_step)
  qed
qed

lemma run_ent_get:
  "run_state (ent_get E rows key i) w =
     (if db_fault E (tick w) then (Inl (ErrDB Fault), ticked w)
      else case filter (\<lambda>r. key r = i) (rows (ticked w)) of
        [] \<Rightarrow> (Inl (ErrDB NotFound), ticked w)
      | [r] \<Rightarrow> (Inr r, ticked w)
      | _ \<Rightarrow> (Inl (ErrDB NotSingular), ticked w))"
  by (simp add: ent_get_def run_ent_only)

lemma run_ent_exist:
  "run_state (ent_exist E rows P) w =
     (if db_fault E (tick w) then (Inl (ErrDB Fault), ticked w)
      else (Inr (filter P (rows (ticked w)) \<noteq> []), ticked w))"
  by (simp add: ent_exist_def run_db_step)

lemma run_ent_create:
  "run_state (ent_create E rows put key clash r) w =
     (if db_fault E (tick w) then (Inl (ErrDB Fault), ticked w)
      else if (\<exists>x \<in> set (rows (ticked w)). key x = key r) \<or> clash (ticked w) r
      then (Inl (ErrDB Constraint), ticked w)
      else (Inr r, put (\<lambda>rs. rs @ [r]) (ticked w)))"
  by (simp add: ent_create_def run_db_step)

lemma run_ent_update:
  "run_state (ent_update E rows put P f) w =
     (if db_fault E (tick w) then (Inl (ErrDB Fault), ticked w)
      else (Inr (length (filter P (rows (ticked w)))),
            put (map (\<lambda>r. if P r then f r else r)) (ticked w)))"
  by (simp add: ent_update_def run_db_step)

lemma run_ent_update_one:
  "run_state (ent_update_one E rows put key clash i f) w =
     (if db_fault E (tick w) then (Inl (ErrDB Fault), ticked w)
      else case filter (\<lambda>r. key r = i) (rows (ticked w)) of
        [] \<Rightarrow> (Inl (ErrDB NotFound), ticked w)
      | r # _ \<Rightarrow> if clash (ticked w) (f r) then (Inl (ErrDB Constraint), ticked w)
          else (Inr (f r), put (map (\<lambda>r. if key r = i then f r else r)) (ticked w)))"
  by (simp add: ent_update_one_def run_db_step split: list.splits)

lemma run_ent_delete:
  "run_state (ent_delete E rows put referenced P) w =
     (if db_fault E (tick w) then (Inl (ErrDB Fault), ticked w)
      else if \<exists>r \<in> set (filter P (rows (ticked w))). referenced (ticked w) r
      then (Inl (ErrDB Constraint), ticked w)
      else (Inr (length (filter P (rows (ticked w)))), put (filter (\<lambda>r. \<not> P r)) (ticked w)))"
  by (simp add: ent_delete_def run_db_step del: set_filter)

lemma run_in_schema:
  "run_state (in_schema E s m) w =
     (if has_profiles s w then run_state m w
      else (Inl (ErrDB (if db_fault E (tick w) then Fault else UndefinedTable)), ticked w))"
  by (simp add: in_schema_def)

lemmas ent_run = run_ent_all run_ent_all_asc run_ent_only run_ent_get run_ent_exist run_ent_create
  run_ent_update run_ent_update_one run_ent_delete run_in_schema

section \<open>Rules that allow for any fault\<close>

definition stable :: "(world \<Rightarrow> 'a) \<Rightarrow> bool" where
  "stable f \<longleftrightarrow> (\<forall>w n. f (w\<lparr>tick := n\<rparr>) = f w)"

lemma stable_tick: "stable f \<Longrightarrow> f (w\<lparr>tick := n\<rparr>) = f w"
  by (simp add: stable_def)

lemma profiles_tick [simp]: "profiles s (w\<lparr>tick := n\<rparr>) = profiles s w"
  by (simp add: profiles_def)

lemma has_profiles_tick [simp]: "has_profiles s (w\<lparr>tick := n\<rparr>) = has_profiles s w"
  by (simp add: has_profiles_def)

lemma stable_tables [simp, intro]:
  "stable users" "stable tenants" "stable branches" "stable tenant_users" "stable roles"
  "stable role_permissions" "stable device_tokens" "stable plugin_installs" "stable histories"
  "stable (profiles s)"
  by (simp_all add: stable_def)

lemma wp_sys_call [wp_intro]:
  "(\<And>n m. Q (f n) (w\<lparr>tick := m\<rparr>)) \<Longrightarrow> wp (sys_call f) Q w"
  by (simp add: wp_def)

lemma wp_time_now [wp_intro]: "(\<And>t n. Q t (w\<lparr>tick := n\<rparr>)) \<Longrightarrow> wp (time_now E) Q w"
  by (simp add: time_now_def wp_sys_call)

lemma wp_short_id [wp_intro]: "(\<And>i n. Q i (w\<lparr>tick := n\<rparr>)) \<Longrightarrow> wp (short_id E p) Q w"
  by (auto simp: short_id_def uuid_string_def intro!: wp_sys_call)

lemma wp_uuid_string [wp_intro]: "(\<And>i n. Q i (w\<lparr>tick := n\<rparr>)) \<Longrightarrow> wp (uuid_string E) Q w"
  by (auto simp: uuid_string_def intro!: wp_sys_call)

lemma wp_range_keys [wp_intro]:
  "(\<And>xs n. mset xs = mset ks \<Longrightarrow> Q xs (w\<lparr>tick := n\<rparr>)) \<Longrightarrow> wp (range_keys E ks) Q w"
  by (simp add: range_keys_def wp_def)

lemma wp_ent_all [wp_intro]:
  assumes "stable rows" and "\<And>n. Q (Inl (ErrDB Fault)) (w\<lparr>tick := n\<rparr>)"
    and "\<And>n xs. mset xs = mset (filter P (rows w)) \<Longrightarrow> Q (Inr xs) (w\<lparr>tick := n\<rparr>)"
  shows "wp (ent_all E rows P) Q w"
  using assms by (simp add: wp_def run_ent_all stable_tick)

lemma wp_ent_all_asc [wp_intro]:
  assumes "stable rows" and "\<And>n. Q (Inl (ErrDB Fault)) (w\<lparr>tick := n\<rparr>)"
    and "\<And>n xs. mset xs = mset (filter P (rows w)) \<Longrightarrow> sorted (map key xs) \<Longrightarrow>
      Q (Inr xs) (w\<lparr>tick := n\<rparr>)"
  shows "wp (ent_all_asc E rows P key) Q w"
  using assms by (simp add: wp_def run_ent_all_asc stable_tick)

lemma wp_ent_only [wp_intro]:
  assumes "stable rows" and "\<And>n. Q (Inl (ErrDB Fault)) (w\<lparr>tick := n\<rparr>)"
    and "\<And>n. filter P (rows w) = [] \<Longrightarrow> Q (Inl (ErrDB NotFound)) (w\<lparr>tick := n\<rparr>)"
    and "\<And>n. 1 < length (filter P (rows w)) \<Longrightarrow> Q (Inl (ErrDB NotSingular)) (w\<lparr>tick := n\<rparr>)"
    and "\<And>n r. filter P (rows w) = [r] \<Longrightarrow> Q (Inr r) (w\<lparr>tick := n\<rparr>)"
  shows "wp (ent_only E rows P) Q w"
  using assms by (auto simp: wp_def run_ent_only stable_tick split: list.splits)

lemma wp_ent_get [wp_intro]:
  assumes "stable rows" and "\<And>n. Q (Inl (ErrDB Fault)) (w\<lparr>tick := n\<rparr>)"
    and "\<And>n. filter (\<lambda>r. key r = i) (rows w) = [] \<Longrightarrow> Q (Inl (ErrDB NotFound)) (w\<lparr>tick := n\<rparr>)"
    and "\<And>n. 1 < length (filter (\<lambda>r. key r = i) (rows w)) \<Longrightarrow> Q (Inl (ErrDB NotSingular)) (w\<lparr>tick := n\<rparr>)"
    and "\<And>n r. filter (\<lambda>r. key r = i) (rows w) = [r] \<Longrightarrow> Q (Inr r) (w\<lparr>tick := n\<rparr>)"
  shows "wp (ent_get E rows key i) Q w"
  unfolding ent_get_def using assms by (rule wp_ent_only)

lemma wp_ent_exist [wp_intro]:
  assumes "stable rows" and "\<And>n. Q (Inl (ErrDB Fault)) (w\<lparr>tick := n\<rparr>)"
    and "\<And>n. Q (Inr (filter P (rows w) \<noteq> [])) (w\<lparr>tick := n\<rparr>)"
  shows "wp (ent_exist E rows P) Q w"
  using assms by (simp add: wp_def run_ent_exist stable_tick)

lemma wp_ent_create [wp_intro]:
  assumes "\<And>n e. e = Fault \<or> e = Constraint \<Longrightarrow> Q (Inl (ErrDB e)) (w\<lparr>tick := n\<rparr>)"
    and "\<And>n. \<not> (\<exists>x \<in> set (rows (w\<lparr>tick := n\<rparr>)). key x = key r) \<Longrightarrow> \<not> clash (w\<lparr>tick := n\<rparr>) r \<Longrightarrow>
      Q (Inr r) (put (\<lambda>rs. rs @ [r]) (w\<lparr>tick := n\<rparr>))"
  shows "wp (ent_create E rows put key clash r) Q w"
  using assms by (simp add: wp_def run_ent_create)

lemma wp_ent_update [wp_intro]:
  assumes "\<And>n. Q (Inl (ErrDB Fault)) (w\<lparr>tick := n\<rparr>)"
    and "\<And>n. Q (Inr (length (filter P (rows (w\<lparr>tick := n\<rparr>)))))
      (put (map (\<lambda>r. if P r then f r else r)) (w\<lparr>tick := n\<rparr>))"
  shows "wp (ent_update E rows put P f) Q w"
  using assms by (simp add: wp_def run_ent_update)

lemma wp_ent_update_one [wp_intro]:
  assumes "\<And>n e. e \<in> {Fault, NotFound, Constraint} \<Longrightarrow> Q (Inl (ErrDB e)) (w\<lparr>tick := n\<rparr>)"
    and "\<And>n r rs. filter (\<lambda>r. key r = i) (rows (w\<lparr>tick := n\<rparr>)) = r # rs \<Longrightarrow>
      \<not> clash (w\<lparr>tick := n\<rparr>) (f r) \<Longrightarrow>
      Q (Inr (f r)) (put (map (\<lambda>r. if key r = i then f r else r)) (w\<lparr>tick := n\<rparr>))"
  shows "wp (ent_update_one E rows put key clash i f) Q w"
  using assms by (auto simp: wp_def run_ent_update_one split: list.splits)

lemma wp_ent_delete [wp_intro]:
  assumes "\<And>n e. e \<in> {Fault, Constraint} \<Longrightarrow> Q (Inl (ErrDB e)) (w\<lparr>tick := n\<rparr>)"
    and "\<And>n. Q (Inr (length (filter P (rows (w\<lparr>tick := n\<rparr>))))) (put (filter (\<lambda>r. \<not> P r)) (w\<lparr>tick := n\<rparr>))"
  shows "wp (ent_delete E rows put referenced P) Q w"
  using assms by (simp add: wp_def run_ent_delete)

lemma wp_ent_delete_one [wp_intro]:
  assumes "\<And>n e. e \<in> {Fault, Constraint} \<Longrightarrow> Q (Inl (ErrDB e)) (w\<lparr>tick := n\<rparr>)"
    and "\<And>n. filter (\<lambda>r. key r = i) (rows (w\<lparr>tick := n\<rparr>)) = [] \<Longrightarrow>
      Q (Inl (ErrDB NotFound)) (put (filter (\<lambda>r. key r \<noteq> i)) (w\<lparr>tick := n\<rparr>))"
    and "\<And>n. filter (\<lambda>r. key r = i) (rows (w\<lparr>tick := n\<rparr>)) \<noteq> [] \<Longrightarrow>
      Q (Inr ()) (put (filter (\<lambda>r. key r \<noteq> i)) (w\<lparr>tick := n\<rparr>))"
  shows "wp (ent_delete_one E rows put referenced key i) Q w"
  unfolding ent_delete_one_def wp_attempt
  by (rule wp_ent_delete) (auto simp: assms)

lemma wp_in_schema [wp_intro]:
  assumes "\<And>n e. e \<in> {Fault, UndefinedTable} \<Longrightarrow> Q (Inl (ErrDB e)) (w\<lparr>tick := n\<rparr>)"
    and "has_profiles s w \<Longrightarrow> wp m Q w"
  shows "wp (in_schema E s m) Q w"
  using assms by (simp add: wp_def run_in_schema)

lemma wp_GenerateFromPassword [wp_intro]:
  assumes "\<And>n e. Q (Inl e) (w\<lparr>tick := n\<rparr>)" and "\<And>n k h. bcrypt_hash E k pw = Some h \<Longrightarrow> Q (Inr h) (w\<lparr>tick := n\<rparr>)"
  shows "wp (GenerateFromPassword E pw) Q w"
  using assms by (auto simp: GenerateFromPassword_def wp_def split: option.splits)

text \<open>A write through a table's updater, as an assignment to the table.\<close>

lemma table_put:
  "users_update f0 (w\<lparr>tick := n\<rparr>) = w\<lparr>users := f0 (users w), tick := n\<rparr>"
  "tenants_update f1 (w\<lparr>tick := n\<rparr>) = w\<lparr>tenants := f1 (tenants w), tick := n\<rparr>"
  "branches_update f2 (w\<lparr>tick := n\<rparr>) = w\<lparr>branches := f2 (branches w), tick := n\<rparr>"
  "tenant_users_update f3 (w\<lparr>tick := n\<rparr>) = w\<lparr>tenant_users := f3 (tenant_users w), tick := n\<rparr>"
  "roles_update f4 (w\<lparr>tick := n\<rparr>) = w\<lparr>roles := f4 (roles w), tick := n\<rparr>"
  "role_permissions_update f5 (w\<lparr>tick := n\<rparr>) = w\<lparr>role_permissions := f5 (role_permissions w), tick := n\<rparr>"
  "device_tokens_update f6 (w\<lparr>tick := n\<rparr>) = w\<lparr>device_tokens := f6 (device_tokens w), tick := n\<rparr>"
  "plugin_installs_update f7 (w\<lparr>tick := n\<rparr>) = w\<lparr>plugin_installs := f7 (plugin_installs w), tick := n\<rparr>"
  "histories_update f8 (w\<lparr>tick := n\<rparr>) = w\<lparr>histories := f8 (histories w), tick := n\<rparr>"
  by (cases w, simp)+

section \<open>What the operations can do to the state\<close>

lemma guarantees_wp: "(\<And>w. wp m (\<lambda>_ t. R w t) w) \<Longrightarrow> guarantees R m"
  by (simp add: guarantees_def wp_def case_prod_unfold)

lemma guarantees_reads [guarantees_intro]:
  assumes "\<And>w n. R w (w\<lparr>tick := n\<rparr>)"
  shows "guarantees R (sys_call f)" "guarantees R (time_now E)" "guarantees R (uuid_string E)"
    "guarantees R (short_id E pre)" "guarantees R (GenerateFromPassword E pw)"
    "guarantees R (ent_all E rows P)" "guarantees R (ent_all_asc E rows P key)"
    "guarantees R (ent_only E rows P)" "guarantees R (ent_get E rows ikey i)"
    "guarantees R (ent_exist E rows P)" "guarantees R (range_keys E ks)"
  using assms
  by (auto simp: guarantees_def ent_run range_keys_def time_now_def uuid_string_def short_id_def
      GenerateFromPassword_def split: list.splits option.splits)

lemma guarantees_ent_create [guarantees_intro]:
  assumes "\<And>w n. R w (w\<lparr>tick := n\<rparr>)"
    and "\<And>w n. \<not> (\<exists>x \<in> set (rows (w\<lparr>tick := n\<rparr>)). key x = key r) \<Longrightarrow> \<not> clash (w\<lparr>tick := n\<rparr>) r \<Longrightarrow>
      R w (put (\<lambda>rs. rs @ [r]) (w\<lparr>tick := n\<rparr>))"
  shows "guarantees R (ent_create E rows put key clash r)"
  by (rule guarantees_wp, rule wp_ent_create) (use assms in auto)

lemma guarantees_ent_update [guarantees_intro]:
  assumes "\<And>w n. R w (w\<lparr>tick := n\<rparr>)"
    and "\<And>w n. R w (put (map (\<lambda>r. if P r then f r else r)) (w\<lparr>tick := n\<rparr>))"
  shows "guarantees R (ent_update E rows put P f)"
  by (rule guarantees_wp, rule wp_ent_update) (use assms in auto)

lemma guarantees_ent_update_one [guarantees_intro]:
  assumes "\<And>w n. R w (w\<lparr>tick := n\<rparr>)"
    and "\<And>w n r rs. filter (\<lambda>r. key r = i) (rows (w\<lparr>tick := n\<rparr>)) = r # rs \<Longrightarrow>
      \<not> clash (w\<lparr>tick := n\<rparr>) (f r) \<Longrightarrow>
      R w (put (map (\<lambda>r. if key r = i then f r else r)) (w\<lparr>tick := n\<rparr>))"
  shows "guarantees R (ent_update_one E rows put key clash i f)"
  by (rule guarantees_wp, rule wp_ent_update_one) (use assms in auto)

lemma guarantees_ent_delete [guarantees_intro]:
  assumes "\<And>w n. R w (w\<lparr>tick := n\<rparr>)"
    and "\<And>w n. R w (put (filter (\<lambda>r. \<not> P r)) (w\<lparr>tick := n\<rparr>))"
  shows "guarantees R (ent_delete E rows put referenced P)"
  by (rule guarantees_wp, rule wp_ent_delete) (use assms in auto)

lemma guarantees_ent_delete_one [guarantees_intro]:
  assumes "\<And>w n. R w (w\<lparr>tick := n\<rparr>)"
    and "\<And>w n. R w (put (filter (\<lambda>r. key r \<noteq> i)) (w\<lparr>tick := n\<rparr>))"
  shows "guarantees R (ent_delete_one E rows put referenced key i)"
  by (rule guarantees_wp, rule wp_ent_delete_one) (use assms in auto)

lemma guarantees_in_schema [guarantees_intro]:
  assumes "\<And>w n. R w (w\<lparr>tick := n\<rparr>)" and "guarantees R m"
  shows "guarantees R (in_schema E s m)"
  using assms by (auto simp: guarantees_def run_in_schema)

subsection \<open>Reads\<close>

text \<open>Operations that only read: every table is as before.\<close>

definition same_tables :: "world \<Rightarrow> world \<Rightarrow> bool" where
  "same_tables w w' \<longleftrightarrow> w' = w\<lparr>tick := tick w'\<rparr>"

lemma same_tables_tick [simp, guarantees_intro]: "same_tables w (w\<lparr>tick := n\<rparr>)"
  by (simp add: same_tables_def)

interpretation reads: step_preorder same_tables
proof
  show "same_tables s s" for s by (simp add: same_tables_def)
  show "same_tables s t \<Longrightarrow> same_tables t u \<Longrightarrow> same_tables s u" for s t u
    unfolding same_tables_def by (metis world.surjective world.update_convs(11))
qed

lemma wp_reads:
  assumes "guarantees same_tables m" and "\<And>r n. Q r (w\<lparr>tick := n\<rparr>)"
  shows "wp m Q w"
proof (rule wpI)
  fix r t assume "run_state m w = (r, t)"
  then have "t = w\<lparr>tick := tick t\<rparr>" using guaranteesD [OF assms(1)] by (simp add: same_tables_def)
  then show "Q r t" using assms(2) [of r "tick t"] by simp
qed

section \<open>The interface of a table\<close>

definition keyed :: "('r \<Rightarrow> 'k) \<Rightarrow> (world \<Rightarrow> 'r list) \<Rightarrow> world \<Rightarrow> bool" where
  "keyed key rows w \<longleftrightarrow> distinct (map key (rows w))"

locale ent_table =
  fixes rows :: "world \<Rightarrow> 'r list"
    and put :: "('r list \<Rightarrow> 'r list) \<Rightarrow> world \<Rightarrow> world"
    and key :: "'r \<Rightarrow> string"
    and present :: "world \<Rightarrow> bool"
  assumes rows_put: "present w \<Longrightarrow> rows (put f w) = f (rows w)"
    and rows_tick: "rows (w\<lparr>tick := n\<rparr>) = rows w"
    and present_tick: "present (w\<lparr>tick := n\<rparr>) = present w"
    and present_put: "present w \<Longrightarrow> present (put f w)"
begin

lemma create_then_get:
  assumes "present w" and "run_state (ent_create E rows put key clash r) w = (Inr r', w')"
    and "\<not> db_fault E (tick w')"
  shows "r' = r" and "run_state (ent_get E rows key (key r)) w' = (Inr r, ticked w')"
proof -
  from assms(2) have w': "w' = put (\<lambda>rs. rs @ [r]) (ticked w)" and "r' = r"
    and fresh: "\<not> (\<exists>x \<in> set (rows w). key x = key r)"
    by (auto simp: run_ent_create rows_tick split: if_splits)
  from w' have "rows w' = rows w @ [r]"
    using assms(1) by (simp add: rows_put rows_tick present_tick)
  then have "filter (\<lambda>x. key x = key r) (rows w') = [r]"
    using fresh by (simp add: filter_empty_conv)
  then show "r' = r" and "run_state (ent_get E rows key (key r)) w' = (Inr r, ticked w')"
    using assms(3) \<open>r' = r\<close> by (simp_all add: run_ent_get rows_tick)
qed

lemma delete_then_get:
  assumes "present w" and "run_state (ent_delete_one E rows put referenced key i) w = (Inr u, w')"
    and "\<not> db_fault E (tick w')"
  shows "run_state (ent_get E rows key i) w' = (Inl (ErrDB NotFound), ticked w')"
proof -
  from assms(2) have "w' = put (filter (\<lambda>r. key r \<noteq> i)) (ticked w)"
    by (auto simp: ent_delete_one_def run_ent_delete split: if_splits)
  then have "rows w' = filter (\<lambda>r. key r \<noteq> i) (rows w)"
    using assms(1) by (simp add: rows_put rows_tick present_tick)
  then show ?thesis using assms(3) by (simp add: run_ent_get rows_tick)
qed

lemma update_then_get:
  assumes "present w" and "keyed key rows w"
    and "run_state (ent_update_one E rows put key clash i f) w = (Inr r, w')"
    and "\<And>x. key (f x) = key x" and "\<not> db_fault E (tick w')"
  shows "run_state (ent_get E rows key i) w' = (Inr r, ticked w')"
proof -
  from assms(3) obtain x xs where x: "filter (\<lambda>r. key r = i) (rows w) = x # xs"
    and r: "r = f x" and w': "w' = put (map (\<lambda>r. if key r = i then f r else r)) (ticked w)"
    by (auto simp: run_ent_update_one rows_tick split: if_splits list.splits)
  then have "x \<in> set (filter (\<lambda>r. key r = i) (rows w))" by simp
  then have "x \<in> set (rows w)" and "key x = i" by simp_all
  then have one: "filter (\<lambda>r. key r = i) (rows w) = [x]"
    using assms(2) filter_key_unique [of key "rows w" x] by (simp add: keyed_def)
  have "rows w' = map (\<lambda>r. if key r = i then f r else r) (rows w)"
    using assms(1) w' by (simp add: rows_put rows_tick present_tick)
  then have "filter (\<lambda>r. key r = i) (rows w') = map f (filter (\<lambda>r. key r = i) (rows w))"
    by (simp add: filter_map comp_def assms(4) if_distrib cong: if_cong)
  then show ?thesis using one r assms(5) by (simp add: run_ent_get rows_tick)
qed

lemma keyed_create:
  "present w \<Longrightarrow> keyed key rows w \<Longrightarrow> run_state (ent_create E rows put key clash r) w = (x, w') \<Longrightarrow>
   keyed key rows w'"
  by (fastforce simp: run_ent_create keyed_def rows_put rows_tick present_tick split: if_splits)

lemma keyed_update_one:
  assumes "present w" "keyed key rows w" "\<And>x. key (f x) = key x"
    "run_state (ent_update_one E rows put key clash i f) w = (x, w')"
  shows "keyed key rows w'"
proof -
  have "map key (map (\<lambda>r. if key r = i then f r else r) (rows w)) = map key (rows w)"
    by (rule map_key_update) (rule assms(3))
  then show ?thesis
    using assms by (auto simp: run_ent_update_one keyed_def rows_put rows_tick present_tick
        simp del: map_map split: if_splits list.splits)
qed

lemma keyed_delete:
  "present w \<Longrightarrow> keyed key rows w \<Longrightarrow> run_state (ent_delete E rows put referenced P) w = (x, w') \<Longrightarrow>
   keyed key rows w'"
  by (auto simp: run_ent_delete keyed_def rows_put rows_tick present_tick distinct_map_filter split: if_splits)

end

interpretation users_table: ent_table users users_update u_id "\<lambda>_. True"
  by unfold_locales simp_all

interpretation tenants_table: ent_table tenants tenants_update t_id "\<lambda>_. True"
  by unfold_locales simp_all

interpretation branches_table: ent_table branches branches_update b_id "\<lambda>_. True"
  by unfold_locales simp_all

interpretation tenant_users_table: ent_table tenant_users tenant_users_update tu_id "\<lambda>_. True"
  by unfold_locales simp_all

interpretation roles_table: ent_table roles roles_update r_id "\<lambda>_. True"
  by unfold_locales simp_all

interpretation role_permissions_table:
  ent_table role_permissions role_permissions_update rp_id "\<lambda>_. True"
  by unfold_locales simp_all

interpretation device_tokens_table: ent_table device_tokens device_tokens_update dt_id "\<lambda>_. True"
  by unfold_locales simp_all

interpretation plugin_installs_table:
  ent_table plugin_installs plugin_installs_update pi_id "\<lambda>_. True"
  by unfold_locales simp_all

interpretation histories_table: ent_table histories histories_update mh_id "\<lambda>_. True"
  by unfold_locales simp_all

lemma profiles_put: "has_profiles s w \<Longrightarrow> profiles s (profiles_update s f w) = f (profiles s w)"
  by (auto simp: has_profiles_def profiles_def profiles_update_def split: option.splits)

lemma has_profiles_put: "has_profiles s (profiles_update t f w) = has_profiles s w"
  by (auto simp: has_profiles_def profiles_update_def split: option.splits)

interpretation profiles_table: ent_table "profiles s" "profiles_update s" p_id "has_profiles s" for s
  by unfold_locales (simp_all add: profiles_put has_profiles_put)

text \<open>Profiles of one tenant schema are untouched by writes to another, and profile writes
  touch no public table.\<close>

lemma profiles_other: "s \<noteq> t \<Longrightarrow> profiles s (profiles_update t f w) = profiles s w"
  by (auto simp: profiles_def profiles_update_def split: option.splits)

lemma profiles_update_frame [simp]:
  "users (profiles_update s f w) = users w" "tenants (profiles_update s f w) = tenants w"
  "branches (profiles_update s f w) = branches w"
  "tenant_users (profiles_update s f w) = tenant_users w" "roles (profiles_update s f w) = roles w"
  "role_permissions (profiles_update s f w) = role_permissions w"
  "device_tokens (profiles_update s f w) = device_tokens w"
  "plugin_installs (profiles_update s f w) = plugin_installs w"
  "histories (profiles_update s f w) = histories w"
  "tick (profiles_update s f w) = tick w"
  by (simp_all add: profiles_update_def split: option.splits)

end
