(* ===== verification/Mutations.thy ===== *)
theory Mutations
  imports Tables
begin

text \<open>
  The mutation object of an entity, as generated by ent: \<open>TenantUserMutation\<close> of
  \<open>src/ent/mutation.go\<close>, the changes a builder has collected before its statement runs.

  \<^item> A pointer field that may be nil is an option; the methods on \<open>*TenantUserMutation\<close> are
    functions from the mutation to the mutation they leave behind.
  \<^item> The typed accessors (\<open>SetUserID\<close>, \<open>UserID\<close>, \<open>OldUserID\<close>, \<open>ResetUserID\<close>, ...), the edges,
    and the accessors by field name (\<open>Fields\<close>, \<open>Field\<close>, \<open>SetField\<close>, \<open>ResetField\<close>, ...).
  \<^item> The locale \<open>mutation_field\<close> is what a typed accessor and the accessors by name owe to
    each other; it is interpreted for the six fields.

  The client that fetches the old row (\<open>m.Client().TenantUser.Get\<close>) is an argument here; the
  theory \<open>Queries\<close> supplies it. Hooks are absent: no client of the program registers one.
\<close>

section \<open>Values and errors of ent\<close>

text \<open>\<open>ent.Value\<close> is \<open>any\<close>: a string, a time, or a value of another Go type.\<close>

datatype ent_value = VString string | VTime nat | VAny string

fun go_type :: "ent_value \<Rightarrow> string" where
  "go_type (VString s) = ''string''"
| "go_type (VTime t) = ''time.Time''"
| "go_type (VAny t) = t"

text \<open>What a scan of a column leaves behind: \<open>sql.NullString\<close>, \<open>sql.NullTime\<close>, \<open>sql.UnknownType\<close>.\<close>

datatype scanned = NullString "string option" | NullTime "nat option" | UnknownType "ent_value option"

text \<open>The failures of the package \<open>sqlgraph\<close> the generated code tells apart:
  \<open>*sqlgraph.NotFoundError\<close>, the errors \<open>sqlgraph.IsConstraintError\<close> accepts, and the rest.\<close>

datatype sg_error = SgNotFound | SgConstraint | SgOther error

text \<open>The errors of \<open>src/ent/ent.go\<close>, and the errors the generated code passes on.\<close>

datatype ent_error =
    ValidationError string string
  | NotFoundError string
  | NotSingularError string
  | NotLoadedError string
  | ConstraintError sg_error
  | PlainError string             \<comment> \<open>\<open>errors.New\<close>, \<open>fmt.Errorf\<close> without \<open>%w\<close>\<close>
  | WrappedError string ent_error
  | RawError sg_error

text \<open>\<open>IsNotFound\<close> and its siblings: \<open>errors.As\<close> follows the wrapped errors.\<close>

fun IsNotFound :: "ent_error \<Rightarrow> bool" where
  "IsNotFound (NotFoundError l) = True"
| "IsNotFound (WrappedError s e) = IsNotFound e"
| "IsNotFound _ = False"

fun IsNotSingular :: "ent_error \<Rightarrow> bool" where
  "IsNotSingular (NotSingularError l) = True"
| "IsNotSingular (WrappedError s e) = IsNotSingular e"
| "IsNotSingular _ = False"

fun IsValidationError :: "ent_error \<Rightarrow> bool" where
  "IsValidationError (ValidationError n m) = True"
| "IsValidationError (WrappedError s e) = IsValidationError e"
| "IsValidationError _ = False"

fun IsConstraintError :: "ent_error \<Rightarrow> bool" where
  "IsConstraintError (ConstraintError e) = True"
| "IsConstraintError (WrappedError s e) = IsConstraintError e"
| "IsConstraintError _ = False"

fun IsNotLoaded :: "ent_error \<Rightarrow> bool" where
  "IsNotLoaded (NotLoadedError l) = True"
| "IsNotLoaded (WrappedError s e) = IsNotLoaded e"
| "IsNotLoaded _ = False"

definition MaskNotFound :: "ent_error option \<Rightarrow> ent_error option" where
  "MaskNotFound e = (case e of None \<Rightarrow> None | Some x \<Rightarrow> if IsNotFound x then None else Some x)"

section \<open>The package \<open>tenantuser\<close>\<close>

definition Label :: string where "Label = ''tenant_user''"
definition FieldID :: string where "FieldID = ''id''"
definition FieldUserID :: string where "FieldUserID = ''user_id''"
definition FieldTenantID :: string where "FieldTenantID = ''tenant_id''"
definition FieldBranchID :: string where "FieldBranchID = ''branch_id''"
definition FieldRoleID :: string where "FieldRoleID = ''role_id''"
definition FieldStatus :: string where "FieldStatus = ''status''"
definition FieldCreatedAt :: string where "FieldCreatedAt = ''created_at''"
definition EdgeUser :: string where "EdgeUser = ''user''"
definition EdgeTenant :: string where "EdgeTenant = ''tenant''"
definition Table :: string where "Table = ''tenant_users''"

lemmas field_names = FieldID_def FieldUserID_def FieldTenantID_def FieldBranchID_def FieldRoleID_def
  FieldStatus_def FieldCreatedAt_def

lemmas edge_names = EdgeUser_def EdgeTenant_def

definition Columns :: "string list" where
  "Columns = [FieldID, FieldUserID, FieldTenantID, FieldBranchID, FieldRoleID, FieldStatus, FieldCreatedAt]"

definition ValidColumn :: "string \<Rightarrow> bool" where
  "ValidColumn column \<longleftrightarrow> column \<in> set Columns"

text \<open>A predicate is a call of the library's \<open>sql\<close> package; what it selects is up to the
  library (\<open>Queries\<close> states what is documented).\<close>

datatype predicate =
    FieldEQ string ent_value
  | FieldNEQ string ent_value
  | FieldIn string "ent_value list"

definition tenantuser_ID :: "string \<Rightarrow> predicate" where
  "tenantuser_ID i = FieldEQ FieldID (VString i)"

definition tenantuser_IDIn :: "string list \<Rightarrow> predicate" where
  "tenantuser_IDIn ids = FieldIn FieldID (map VString ids)"

definition tenantuser_UserID :: "string \<Rightarrow> predicate" where
  "tenantuser_UserID v = FieldEQ FieldUserID (VString v)"

definition tenantuser_TenantID :: "string \<Rightarrow> predicate" where
  "tenantuser_TenantID v = FieldEQ FieldTenantID (VString v)"

definition tenantuser_RoleID :: "string \<Rightarrow> predicate" where
  "tenantuser_RoleID v = FieldEQ FieldRoleID (VString v)"

definition tenantuser_StatusNEQ :: "string \<Rightarrow> predicate" where
  "tenantuser_StatusNEQ v = FieldNEQ FieldStatus (VString v)"

section \<open>The entity\<close>

text \<open>\<open>ent.TenantUser\<close>: the row with its eager-loaded edges and the values of selected columns
  the schema does not have.\<close>

record TenantUser = tenant_user +
  edge_user :: "user option"
  edge_tenant :: "tenant option"
  loadedTypes :: "bool \<times> bool"
  selectValues :: "(string \<times> scanned) list"

definition zero_TenantUser :: TenantUser where
  "zero_TenantUser = \<lparr>tu_id = [], tu_user_id = [], tu_tenant_id = [], tu_branch_id = [], tu_role_id = [],
     tu_status = [], tu_created_at = 0, edge_user = None, edge_tenant = None,
     loadedTypes = (False, False), selectValues = []\<rparr>"

definition UserOrErr :: "TenantUser \<Rightarrow> ent_error + user" where
  "UserOrErr n = (case edge_user n of
     Some u \<Rightarrow> Inr u
   | None \<Rightarrow> if fst (loadedTypes n) then Inl (NotFoundError ''user'') else Inl (NotLoadedError ''user''))"

definition TenantOrErr :: "TenantUser \<Rightarrow> ent_error + tenant" where
  "TenantOrErr n = (case edge_tenant n of
     Some t \<Rightarrow> Inr t
   | None \<Rightarrow> if snd (loadedTypes n) then Inl (NotFoundError ''tenant'') else Inl (NotLoadedError ''tenant''))"

text \<open>\<open>scanValues\<close>: the destination of each column.\<close>

definition scan_target :: "string \<Rightarrow> scanned" where
  "scan_target c =
     (if c \<in> {FieldID, FieldUserID, FieldTenantID, FieldBranchID, FieldRoleID, FieldStatus} then NullString None
      else if c = FieldCreatedAt then NullTime None
      else UnknownType None)"

definition scanValues :: "string list \<Rightarrow> scanned list" where
  "scanValues columns = map scan_target columns"

text \<open>\<open>assignValues\<close>: a NULL leaves the field as it was.\<close>

definition set_string :: "string \<Rightarrow> (string \<Rightarrow> TenantUser \<Rightarrow> TenantUser) \<Rightarrow> scanned \<Rightarrow> TenantUser \<Rightarrow> ent_error + TenantUser" where
  "set_string c put v n = (case v of
     NullString None \<Rightarrow> Inr n
   | NullString (Some s) \<Rightarrow> Inr (put s n)
   | _ \<Rightarrow> Inl (PlainError (''unexpected type for field '' @ c)))"

definition assignValue :: "string \<Rightarrow> scanned \<Rightarrow> TenantUser \<Rightarrow> ent_error + TenantUser" where
  "assignValue c v n =
     (if c = FieldID then set_string c (\<lambda>s. tu_id_update (\<lambda>_. s)) v n
      else if c = FieldUserID then set_string c (\<lambda>s. tu_user_id_update (\<lambda>_. s)) v n
      else if c = FieldTenantID then set_string c (\<lambda>s. tu_tenant_id_update (\<lambda>_. s)) v n
      else if c = FieldBranchID then set_string c (\<lambda>s. tu_branch_id_update (\<lambda>_. s)) v n
      else if c = FieldRoleID then set_string c (\<lambda>s. tu_role_id_update (\<lambda>_. s)) v n
      else if c = FieldStatus then set_string c (\<lambda>s. tu_status_update (\<lambda>_. s)) v n
      else if c = FieldCreatedAt then (case v of
          NullTime None \<Rightarrow> Inr n
        | NullTime (Some t) \<Rightarrow> Inr (n\<lparr>tu_created_at := t\<rparr>)
        | _ \<Rightarrow> Inl (PlainError (''unexpected type for field '' @ c)))
      else Inr (n\<lparr>selectValues := (c, v) # selectValues n\<rparr>))"

fun assign_all :: "string list \<Rightarrow> scanned list \<Rightarrow> TenantUser \<Rightarrow> ent_error + TenantUser" where
  "assign_all (c # cs) (v # vs) n = (case assignValue c v n of Inl e \<Rightarrow> Inl e | Inr n' \<Rightarrow> assign_all cs vs n')"
| "assign_all _ _ n = Inr n"

definition assignValues :: "string list \<Rightarrow> scanned list \<Rightarrow> TenantUser \<Rightarrow> ent_error + TenantUser" where
  "assignValues columns values n =
     (if length values < length columns
      then Inl (PlainError (''mismatch number of scan values: '' @ itoa (length values) @ '' != '' @ itoa (length columns)))
      else assign_all columns values n)"

section \<open>The mutation\<close>

datatype mutation_op = OpCreate | OpUpdate | OpUpdateOne | OpDelete | OpDeleteOne

text \<open>The closure \<open>oldValue\<close>: of \<open>withTenantUserID\<close> (a fetch by id, run once and remembered, its
  outcome an error or a node) or of \<open>withTenantUser\<close> (the node it was given).\<close>

datatype old_source =
    FetchOnce string "(ent_error + TenantUser) option"
  | Given TenantUser

record TenantUserMutation =
  m_op :: mutation_op
  m_typ :: string
  m_id :: "string option"
  m_branch_id :: "string option"
  m_role_id :: "string option"
  m_status :: "string option"
  m_created_at :: "nat option"
  m_clearedFields :: "string set"
  m_user :: "string option"
  m_cleareduser :: bool
  m_tenant :: "string option"
  m_clearedtenant :: bool
  m_done :: bool
  m_oldValue :: "old_source option"
  m_predicates :: "predicate list"

type_synonym tenantuserOption = "TenantUserMutation \<Rightarrow> TenantUserMutation"

definition newTenantUserMutation :: "mutation_op \<Rightarrow> tenantuserOption list \<Rightarrow> TenantUserMutation" where
  "newTenantUserMutation op opts = fold (\<lambda>opt m. opt m) opts
     \<lparr>m_op = op, m_typ = ''TenantUser'', m_id = None, m_branch_id = None, m_role_id = None,
      m_status = None, m_created_at = None, m_clearedFields = {}, m_user = None,
      m_cleareduser = False, m_tenant = None, m_clearedtenant = False, m_done = False,
      m_oldValue = None, m_predicates = []\<rparr>"

definition withTenantUserID :: "string \<Rightarrow> tenantuserOption" where
  "withTenantUserID i m = m\<lparr>m_oldValue := Some (FetchOnce i None), m_id := Some i\<rparr>"

definition withTenantUser :: "TenantUser \<Rightarrow> tenantuserOption" where
  "withTenantUser node m = m\<lparr>m_oldValue := Some (Given node), m_id := Some (tu_id node)\<rparr>"

definition SetID :: "string \<Rightarrow> TenantUserMutation \<Rightarrow> TenantUserMutation" where
  "SetID i m = m\<lparr>m_id := Some i\<rparr>"

definition ID :: "TenantUserMutation \<Rightarrow> string option" where
  "ID m = m_id m"

definition SetUserID :: "string \<Rightarrow> TenantUserMutation \<Rightarrow> TenantUserMutation" where
  "SetUserID s m = m\<lparr>m_user := Some s\<rparr>"

definition UserID :: "TenantUserMutation \<Rightarrow> string option" where
  "UserID m = m_user m"

definition ResetUserID :: "TenantUserMutation \<Rightarrow> TenantUserMutation" where
  "ResetUserID m = m\<lparr>m_user := None\<rparr>"

definition SetTenantID :: "string \<Rightarrow> TenantUserMutation \<Rightarrow> TenantUserMutation" where
  "SetTenantID s m = m\<lparr>m_tenant := Some s\<rparr>"

definition TenantID :: "TenantUserMutation \<Rightarrow> string option" where
  "TenantID m = m_tenant m"

definition ResetTenantID :: "TenantUserMutation \<Rightarrow> TenantUserMutation" where
  "ResetTenantID m = m\<lparr>m_tenant := None\<rparr>"

definition SetBranchID :: "string \<Rightarrow> TenantUserMutation \<Rightarrow> TenantUserMutation" where
  "SetBranchID s m = m\<lparr>m_branch_id := Some s\<rparr>"

definition BranchID :: "TenantUserMutation \<Rightarrow> string option" where
  "BranchID m = m_branch_id m"

definition ResetBranchID :: "TenantUserMutation \<Rightarrow> TenantUserMutation" where
  "ResetBranchID m = m\<lparr>m_branch_id := None\<rparr>"

definition SetRoleID :: "string \<Rightarrow> TenantUserMutation \<Rightarrow> TenantUserMutation" where
  "SetRoleID s m = m\<lparr>m_role_id := Some s\<rparr>"

definition RoleID :: "TenantUserMutation \<Rightarrow> string option" where
  "RoleID m = m_role_id m"

definition ResetRoleID :: "TenantUserMutation \<Rightarrow> TenantUserMutation" where
  "ResetRoleID m = m\<lparr>m_role_id := None\<rparr>"

definition SetStatus :: "string \<Rightarrow> TenantUserMutation \<Rightarrow> TenantUserMutation" where
  "SetStatus s m = m\<lparr>m_status := Some s\<rparr>"

definition Status :: "TenantUserMutation \<Rightarrow> string option" where
  "Status m = m_status m"

definition ResetStatus :: "TenantUserMutation \<Rightarrow> TenantUserMutation" where
  "ResetStatus m = m\<lparr>m_status := None\<rparr>"

definition SetCreatedAt :: "nat \<Rightarrow> TenantUserMutation \<Rightarrow> TenantUserMutation" where
  "SetCreatedAt t m = m\<lparr>m_created_at := Some t\<rparr>"

definition CreatedAt :: "TenantUserMutation \<Rightarrow> nat option" where
  "CreatedAt m = m_created_at m"

definition ResetCreatedAt :: "TenantUserMutation \<Rightarrow> TenantUserMutation" where
  "ResetCreatedAt m = m\<lparr>m_created_at := None\<rparr>"

lemmas getters = ID_def UserID_def TenantID_def BranchID_def RoleID_def Status_def CreatedAt_def

lemmas setters = SetID_def SetUserID_def SetTenantID_def SetBranchID_def SetRoleID_def SetStatus_def
  SetCreatedAt_def

lemmas resetters = ResetUserID_def ResetTenantID_def ResetBranchID_def ResetRoleID_def ResetStatus_def
  ResetCreatedAt_def

subsection \<open>Edges\<close>

definition ClearUser :: "TenantUserMutation \<Rightarrow> TenantUserMutation" where
  "ClearUser m = m\<lparr>m_cleareduser := True, m_clearedFields := insert FieldUserID (m_clearedFields m)\<rparr>"

definition UserCleared :: "TenantUserMutation \<Rightarrow> bool" where
  "UserCleared m = m_cleareduser m"

definition UserIDs :: "TenantUserMutation \<Rightarrow> string list" where
  "UserIDs m = (case m_user m of Some i \<Rightarrow> [i] | None \<Rightarrow> [])"

definition ResetUser :: "TenantUserMutation \<Rightarrow> TenantUserMutation" where
  "ResetUser m = m\<lparr>m_user := None, m_cleareduser := False\<rparr>"

definition ClearTenant :: "TenantUserMutation \<Rightarrow> TenantUserMutation" where
  "ClearTenant m = m\<lparr>m_clearedtenant := True, m_clearedFields := insert FieldTenantID (m_clearedFields m)\<rparr>"

definition TenantCleared :: "TenantUserMutation \<Rightarrow> bool" where
  "TenantCleared m = m_clearedtenant m"

definition TenantIDs :: "TenantUserMutation \<Rightarrow> string list" where
  "TenantIDs m = (case m_tenant m of Some i \<Rightarrow> [i] | None \<Rightarrow> [])"

definition ResetTenant :: "TenantUserMutation \<Rightarrow> TenantUserMutation" where
  "ResetTenant m = m\<lparr>m_tenant := None, m_clearedtenant := False\<rparr>"

definition mutation_Where :: "predicate list \<Rightarrow> TenantUserMutation \<Rightarrow> TenantUserMutation" where
  "mutation_Where ps m = m\<lparr>m_predicates := m_predicates m @ ps\<rparr>"

definition SetOp :: "mutation_op \<Rightarrow> TenantUserMutation \<Rightarrow> TenantUserMutation" where
  "SetOp op m = m\<lparr>m_op := op\<rparr>"

subsection \<open>Old values\<close>

type_synonym getter = "string \<Rightarrow> (world, ent_error + TenantUser) state"

definition old_value ::
  "getter \<Rightarrow> old_source \<Rightarrow> TenantUserMutation \<Rightarrow> (world, (ent_error + TenantUser) \<times> TenantUserMutation) state" where
  "old_value get src m = (case src of
     Given node \<Rightarrow> State_Monad.return (Inr node, m)
   | FetchOnce i (Some r) \<Rightarrow> State_Monad.return (r, m)
   | FetchOnce i None \<Rightarrow> do {
       r \<leftarrow> (if m_done m
            then State_Monad.return (Inl (PlainError ''querying old values post mutation is not allowed''))
            else get i);
       State_Monad.return (r, m\<lparr>m_oldValue := Some (FetchOnce i (Some r))\<rparr>) })"

text \<open>The body the six \<open>Old\<close> accessors share: \<open>fn\<close> is the accessor's name, \<open>sel\<close> the field.\<close>

definition old_field ::
  "string \<Rightarrow> (TenantUser \<Rightarrow> 'a) \<Rightarrow> getter \<Rightarrow> TenantUserMutation \<Rightarrow>
   (world, (ent_error + 'a) \<times> TenantUserMutation) state" where
  "old_field fn sel get m =
     (if m_op m \<noteq> OpUpdateOne
      then State_Monad.return (Inl (PlainError (fn @ '' is only allowed on UpdateOne operations'')), m)
      else case (m_id m, m_oldValue m) of
        (Some i, Some src) \<Rightarrow> do {
          (r, m') \<leftarrow> old_value get src m;
          State_Monad.return (case r of
              Inl e \<Rightarrow> (Inl (WrappedError (''querying old value for '' @ fn) e), m')
            | Inr node \<Rightarrow> (Inr (sel node), m')) }
      | _ \<Rightarrow> State_Monad.return (Inl (PlainError (fn @ '' requires an ID field in the mutation'')), m))"

definition OldUserID ::
  "getter \<Rightarrow> TenantUserMutation \<Rightarrow> (world, (ent_error + string) \<times> TenantUserMutation) state" where
  "OldUserID = old_field ''OldUserID'' tu_user_id"

definition OldTenantID ::
  "getter \<Rightarrow> TenantUserMutation \<Rightarrow> (world, (ent_error + string) \<times> TenantUserMutation) state" where
  "OldTenantID = old_field ''OldTenantID'' tu_tenant_id"

definition OldBranchID ::
  "getter \<Rightarrow> TenantUserMutation \<Rightarrow> (world, (ent_error + string) \<times> TenantUserMutation) state" where
  "OldBranchID = old_field ''OldBranchID'' tu_branch_id"

definition OldRoleID ::
  "getter \<Rightarrow> TenantUserMutation \<Rightarrow> (world, (ent_error + string) \<times> TenantUserMutation) state" where
  "OldRoleID = old_field ''OldRoleID'' tu_role_id"

definition OldStatus ::
  "getter \<Rightarrow> TenantUserMutation \<Rightarrow> (world, (ent_error + string) \<times> TenantUserMutation) state" where
  "OldStatus = old_field ''OldStatus'' tu_status"

definition OldCreatedAt ::
  "getter \<Rightarrow> TenantUserMutation \<Rightarrow> (world, (ent_error + nat) \<times> TenantUserMutation) state" where
  "OldCreatedAt = old_field ''OldCreatedAt'' tu_created_at"

section \<open>Access by field name\<close>

definition Fields :: "TenantUserMutation \<Rightarrow> string list" where
  "Fields m =
     (if m_user m \<noteq> None then [FieldUserID] else []) @
     (if m_tenant m \<noteq> None then [FieldTenantID] else []) @
     (if m_branch_id m \<noteq> None then [FieldBranchID] else []) @
     (if m_role_id m \<noteq> None then [FieldRoleID] else []) @
     (if m_status m \<noteq> None then [FieldStatus] else []) @
     (if m_created_at m \<noteq> None then [FieldCreatedAt] else [])"

definition Field :: "string \<Rightarrow> TenantUserMutation \<Rightarrow> ent_value option" where
  "Field nm m =
     (if nm = FieldUserID then map_option VString (UserID m)
      else if nm = FieldTenantID then map_option VString (TenantID m)
      else if nm = FieldBranchID then map_option VString (BranchID m)
      else if nm = FieldRoleID then map_option VString (RoleID m)
      else if nm = FieldStatus then map_option VString (Status m)
      else if nm = FieldCreatedAt then map_option VTime (CreatedAt m)
      else None)"

definition unexpected_type :: "ent_value \<Rightarrow> string \<Rightarrow> ent_error" where
  "unexpected_type v nm = PlainError (''unexpected type '' @ go_type v @ '' for field '' @ nm)"

definition set_text ::
  "string \<Rightarrow> (string \<Rightarrow> TenantUserMutation \<Rightarrow> TenantUserMutation) \<Rightarrow> ent_value \<Rightarrow> TenantUserMutation \<Rightarrow>
   ent_error + TenantUserMutation" where
  "set_text nm put v m = (case v of VString s \<Rightarrow> Inr (put s m) | _ \<Rightarrow> Inl (unexpected_type v nm))"

definition SetField ::
  "string \<Rightarrow> ent_value \<Rightarrow> TenantUserMutation \<Rightarrow> ent_error + TenantUserMutation" where
  "SetField nm v m =
     (if nm = FieldUserID then set_text nm SetUserID v m
      else if nm = FieldTenantID then set_text nm SetTenantID v m
      else if nm = FieldBranchID then set_text nm SetBranchID v m
      else if nm = FieldRoleID then set_text nm SetRoleID v m
      else if nm = FieldStatus then set_text nm SetStatus v m
      else if nm = FieldCreatedAt then
        (case v of VTime t \<Rightarrow> Inr (SetCreatedAt t m) | _ \<Rightarrow> Inl (unexpected_type v nm))
      else Inl (PlainError (''unknown TenantUser field '' @ nm)))"

definition ResetField :: "string \<Rightarrow> TenantUserMutation \<Rightarrow> ent_error + TenantUserMutation" where
  "ResetField nm m =
     (if nm = FieldUserID then Inr (ResetUserID m)
      else if nm = FieldTenantID then Inr (ResetTenantID m)
      else if nm = FieldBranchID then Inr (ResetBranchID m)
      else if nm = FieldRoleID then Inr (ResetRoleID m)
      else if nm = FieldStatus then Inr (ResetStatus m)
      else if nm = FieldCreatedAt then Inr (ResetCreatedAt m)
      else Inl (PlainError (''unknown TenantUser field '' @ nm)))"

definition map_old ::
  "('a \<Rightarrow> ent_value) \<Rightarrow> (world, (ent_error + 'a) \<times> TenantUserMutation) state \<Rightarrow>
   (world, (ent_error + ent_value) \<times> TenantUserMutation) state" where
  "map_old inject c = do { (r, m) \<leftarrow> c; State_Monad.return (map_sum id inject r, m) }"

definition OldField ::
  "string \<Rightarrow> getter \<Rightarrow> TenantUserMutation \<Rightarrow> (world, (ent_error + ent_value) \<times> TenantUserMutation) state" where
  "OldField nm get m =
     (if nm = FieldUserID then map_old VString (OldUserID get m)
      else if nm = FieldTenantID then map_old VString (OldTenantID get m)
      else if nm = FieldBranchID then map_old VString (OldBranchID get m)
      else if nm = FieldRoleID then map_old VString (OldRoleID get m)
      else if nm = FieldStatus then map_old VString (OldStatus get m)
      else if nm = FieldCreatedAt then map_old VTime (OldCreatedAt get m)
      else State_Monad.return (Inl (PlainError (''unknown TenantUser field '' @ nm)), m))"

text \<open>No field is numeric, none may be NULL, and no edge holds a set of nodes.\<close>

definition AddedFields :: "TenantUserMutation \<Rightarrow> string list" where
  "AddedFields m = []"

definition AddField :: "string \<Rightarrow> ent_value \<Rightarrow> TenantUserMutation \<Rightarrow> ent_error option" where
  "AddField nm v m = Some (PlainError (''unknown TenantUser numeric field '' @ nm))"

definition ClearedFields :: "TenantUserMutation \<Rightarrow> string list" where
  "ClearedFields m = []"

definition FieldCleared :: "string \<Rightarrow> TenantUserMutation \<Rightarrow> bool" where
  "FieldCleared nm m \<longleftrightarrow> nm \<in> m_clearedFields m"

definition ClearField :: "string \<Rightarrow> TenantUserMutation \<Rightarrow> ent_error option" where
  "ClearField nm m = Some (PlainError (''unknown TenantUser nullable field '' @ nm))"

definition AddedEdges :: "TenantUserMutation \<Rightarrow> string list" where
  "AddedEdges m = (if m_user m \<noteq> None then [EdgeUser] else []) @ (if m_tenant m \<noteq> None then [EdgeTenant] else [])"

definition AddedIDs :: "string \<Rightarrow> TenantUserMutation \<Rightarrow> ent_value list" where
  "AddedIDs nm m =
     (if nm = EdgeUser then (case m_user m of Some i \<Rightarrow> [VString i] | None \<Rightarrow> [])
      else if nm = EdgeTenant then (case m_tenant m of Some i \<Rightarrow> [VString i] | None \<Rightarrow> [])
      else [])"

definition ClearedEdges :: "TenantUserMutation \<Rightarrow> string list" where
  "ClearedEdges m = (if m_cleareduser m then [EdgeUser] else []) @ (if m_clearedtenant m then [EdgeTenant] else [])"

definition EdgeCleared :: "string \<Rightarrow> TenantUserMutation \<Rightarrow> bool" where
  "EdgeCleared nm m \<longleftrightarrow>
     (if nm = EdgeUser then m_cleareduser m else if nm = EdgeTenant then m_clearedtenant m else False)"

definition ClearEdge :: "string \<Rightarrow> TenantUserMutation \<Rightarrow> ent_error + TenantUserMutation" where
  "ClearEdge nm m =
     (if nm = EdgeUser then Inr (ClearUser m) else if nm = EdgeTenant then Inr (ClearTenant m)
      else Inl (PlainError (''unknown TenantUser unique edge '' @ nm)))"

definition ResetEdge :: "string \<Rightarrow> TenantUserMutation \<Rightarrow> ent_error + TenantUserMutation" where
  "ResetEdge nm m =
     (if nm = EdgeUser then Inr (ResetUser m) else if nm = EdgeTenant then Inr (ResetTenant m)
      else Inl (PlainError (''unknown TenantUser edge '' @ nm)))"

section \<open>What the accessors owe to each other\<close>

lemma field_names_differ [simp]:
  "FieldID \<noteq> FieldUserID" "FieldID \<noteq> FieldTenantID" "FieldID \<noteq> FieldBranchID" "FieldID \<noteq> FieldRoleID" "FieldID \<noteq> FieldStatus" "FieldID \<noteq> FieldCreatedAt"
  "FieldUserID \<noteq> FieldID" "FieldUserID \<noteq> FieldTenantID" "FieldUserID \<noteq> FieldBranchID" "FieldUserID \<noteq> FieldRoleID" "FieldUserID \<noteq> FieldStatus" "FieldUserID \<noteq> FieldCreatedAt"
  "FieldTenantID \<noteq> FieldID" "FieldTenantID \<noteq> FieldUserID" "FieldTenantID \<noteq> FieldBranchID" "FieldTenantID \<noteq> FieldRoleID" "FieldTenantID \<noteq> FieldStatus" "FieldTenantID \<noteq> FieldCreatedAt"
  "FieldBranchID \<noteq> FieldID" "FieldBranchID \<noteq> FieldUserID" "FieldBranchID \<noteq> FieldTenantID" "FieldBranchID \<noteq> FieldRoleID" "FieldBranchID \<noteq> FieldStatus" "FieldBranchID \<noteq> FieldCreatedAt"
  "FieldRoleID \<noteq> FieldID" "FieldRoleID \<noteq> FieldUserID" "FieldRoleID \<noteq> FieldTenantID" "FieldRoleID \<noteq> FieldBranchID" "FieldRoleID \<noteq> FieldStatus" "FieldRoleID \<noteq> FieldCreatedAt"
  "FieldStatus \<noteq> FieldID" "FieldStatus \<noteq> FieldUserID" "FieldStatus \<noteq> FieldTenantID" "FieldStatus \<noteq> FieldBranchID" "FieldStatus \<noteq> FieldRoleID" "FieldStatus \<noteq> FieldCreatedAt"
  "FieldCreatedAt \<noteq> FieldID" "FieldCreatedAt \<noteq> FieldUserID" "FieldCreatedAt \<noteq> FieldTenantID" "FieldCreatedAt \<noteq> FieldBranchID" "FieldCreatedAt \<noteq> FieldRoleID" "FieldCreatedAt \<noteq> FieldStatus"
  by (simp_all add: field_names)

locale mutation_field =
  fixes fname :: string
    and get :: "TenantUserMutation \<Rightarrow> 'v option"
    and put :: "'v \<Rightarrow> TenantUserMutation \<Rightarrow> TenantUserMutation"
    and clear :: "TenantUserMutation \<Rightarrow> TenantUserMutation"
    and inject :: "'v \<Rightarrow> ent_value"
  assumes get_put: "get (put v m) = Some v"
    and get_clear: "get (clear m) = None"
    and Field_get: "Field fname m = map_option inject (get m)"
    and SetField_put: "SetField fname (inject v) m = Inr (put v m)"
    and SetField_only: "SetField fname x m = Inr m' \<Longrightarrow> \<exists>v. x = inject v"
    and ResetField_clear: "ResetField fname m = Inr (clear m)"
    and others: "g \<noteq> fname \<Longrightarrow> Field g (put v m) = Field g m"
    and others_clear: "g \<noteq> fname \<Longrightarrow> Field g (clear m) = Field g m"
begin

lemma SetField_then_Field:
  assumes "SetField fname x m = Inr m'"
  shows "Field fname m' = Some x" and "g \<noteq> fname \<Longrightarrow> Field g m' = Field g m"
proof -
  from assms obtain v where x: "x = inject v" using SetField_only by blast
  then have m': "m' = put v m" using assms by (simp add: SetField_put)
  then show "Field fname m' = Some x" by (simp add: x Field_get get_put)
  show "g \<noteq> fname \<Longrightarrow> Field g m' = Field g m" by (simp add: m' others)
qed

lemma ResetField_then_Field:
  "\<exists>m'. ResetField fname m = Inr m' \<and> Field fname m' = None \<and> (\<forall>g. g \<noteq> fname \<longrightarrow> Field g m' = Field g m)"
  by (simp add: ResetField_clear Field_get get_clear others_clear)

end

lemmas by_name = Field_def SetField_def ResetField_def set_text_def

interpretation user_id: mutation_field FieldUserID UserID SetUserID ResetUserID VString
  by unfold_locales (auto simp: by_name getters setters resetters split: if_splits ent_value.splits)

interpretation tenant_id: mutation_field FieldTenantID TenantID SetTenantID ResetTenantID VString
  by unfold_locales (auto simp: by_name getters setters resetters split: if_splits ent_value.splits)

interpretation branch_id: mutation_field FieldBranchID BranchID SetBranchID ResetBranchID VString
  by unfold_locales (auto simp: by_name getters setters resetters split: if_splits ent_value.splits)

interpretation role_id: mutation_field FieldRoleID RoleID SetRoleID ResetRoleID VString
  by unfold_locales (auto simp: by_name getters setters resetters split: if_splits ent_value.splits)

interpretation status: mutation_field FieldStatus Status SetStatus ResetStatus VString
  by unfold_locales (auto simp: by_name getters setters resetters split: if_splits ent_value.splits)

interpretation created_at: mutation_field FieldCreatedAt CreatedAt SetCreatedAt ResetCreatedAt VTime
  by unfold_locales (auto simp: by_name getters setters resetters split: if_splits ent_value.splits)

lemma SetField_known:
  "SetField nm v m = Inr m' \<Longrightarrow>
   nm \<in> {FieldUserID, FieldTenantID, FieldBranchID, FieldRoleID, FieldStatus, FieldCreatedAt}"
  by (simp add: SetField_def split: if_splits)

lemmas each_field = user_id.SetField_then_Field tenant_id.SetField_then_Field
  branch_id.SetField_then_Field role_id.SetField_then_Field status.SetField_then_Field
  created_at.SetField_then_Field

lemma SetField_effect:
  assumes "SetField nm v m = Inr m'"
  shows "Field nm m' = Some v" and "g \<noteq> nm \<Longrightarrow> Field g m' = Field g m"
proof -
  from SetField_known [OF assms] assms show "Field nm m' = Some v" using each_field(1,3,5,7,9,11) by blast
  show "Field g m' = Field g m" if "g \<noteq> nm"
    using SetField_known [OF assms] assms that by (elim insertE emptyE) (simp_all add: each_field)
qed

lemma ResetField_effect:
  assumes "nm \<in> {FieldUserID, FieldTenantID, FieldBranchID, FieldRoleID, FieldStatus, FieldCreatedAt}"
  shows "\<exists>m'. ResetField nm m = Inr m' \<and> Field nm m' = None \<and> (\<forall>g. g \<noteq> nm \<longrightarrow> Field g m' = Field g m)"
  using assms
  by (elim insertE emptyE) (hypsubst, rule user_id.ResetField_then_Field tenant_id.ResetField_then_Field
      branch_id.ResetField_then_Field role_id.ResetField_then_Field status.ResetField_then_Field
      created_at.ResetField_then_Field)+

lemma Fields_filter: "Fields m = filter (\<lambda>f. Field f m \<noteq> None) (tl Columns)"
  by (simp add: Fields_def Field_def getters Columns_def)

lemma Field_known:
  "Field f m \<noteq> None \<Longrightarrow>
   f \<in> {FieldUserID, FieldTenantID, FieldBranchID, FieldRoleID, FieldStatus, FieldCreatedAt}"
  by (simp add: Field_def split: if_splits)

lemma set_Fields: "set (Fields m) = {f. Field f m \<noteq> None}"
proof -
  have "set (tl Columns) = {FieldUserID, FieldTenantID, FieldBranchID, FieldRoleID, FieldStatus, FieldCreatedAt}"
    by (simp add: Columns_def)
  then show ?thesis using Field_known unfolding Fields_filter set_filter by blast
qed

lemma SetField_accepts:
  "(\<exists>m'. SetField nm v m = Inr m') \<longleftrightarrow>
     (nm \<in> {FieldUserID, FieldTenantID, FieldBranchID, FieldRoleID, FieldStatus} \<and> (\<exists>s. v = VString s))
     \<or> (nm = FieldCreatedAt \<and> (\<exists>t. v = VTime t))"
proof (cases "nm \<in> {FieldUserID, FieldTenantID, FieldBranchID, FieldRoleID, FieldStatus, FieldCreatedAt}")
  case True
  then show ?thesis by (elim insertE emptyE; cases v; simp add: by_name)
next
  case False
  then show ?thesis by (simp add: by_name)
qed

text \<open>Writing a field by name and reading it back: when \<open>SetField\<close> accepts a value, \<open>Field\<close>
  returns that value and the name is listed by \<open>Fields\<close> in the order of the schema, every other
  field reads as before, and \<open>ResetField\<close> with the same name unsets it again and leaves the
  others alone.\<close>

theorem SetField_roundtrip:
  assumes "SetField nm v m = Inr m'"
  shows "Field nm m' = Some v \<and> Fields m' = filter (\<lambda>f. f = nm \<or> f \<in> set (Fields m)) (tl Columns)
    \<and> (\<forall>g. g \<noteq> nm \<longrightarrow> Field g m' = Field g m)
    \<and> (\<exists>m''. ResetField nm m' = Inr m'' \<and> Field nm m'' = None \<and>
      (\<forall>g. g \<noteq> nm \<longrightarrow> Field g m'' = Field g m))"
proof -
  note put = SetField_effect(1) [OF assms] and others = SetField_effect(2) [OF assms]
  have "Field f m' \<noteq> None \<longleftrightarrow> f = nm \<or> f \<in> set (Fields m)" for f
    using put others [of f] by (cases "f = nm") (simp_all add: set_Fields)
  then have "Fields m' = filter (\<lambda>f. f = nm \<or> f \<in> set (Fields m)) (tl Columns)"
    unfolding Fields_filter [of m'] by simp
  moreover obtain m'' where "ResetField nm m' = Inr m''" "Field nm m'' = None" "\<forall>g. g \<noteq> nm \<longrightarrow> Field g m'' = Field g m'"
    using ResetField_effect [OF SetField_known [OF assms], of m'] by blast
  ultimately show ?thesis using put others by metis
qed

theorem SetField_roundtrip_witness:
  "Field FieldStatus (SetStatus ''suspended'' (newTenantUserMutation OpUpdate [])) = Some (VString ''suspended'')
   \<and> Fields (SetStatus ''suspended'' (newTenantUserMutation OpUpdate [])) = [FieldStatus]"
proof -
  have "SetField FieldStatus (VString ''suspended'') (newTenantUserMutation OpUpdate []) =
      Inr (SetStatus ''suspended'' (newTenantUserMutation OpUpdate []))"
    by (rule status.SetField_put)
  from SetField_roundtrip [OF this] show ?thesis
    by (simp add: Fields_def newTenantUserMutation_def Columns_def)
qed

text \<open>An old value is fetched once; every later read repeats the first outcome, an error
  included, without a statement.\<close>

lemma old_value_once:
  assumes "m_oldValue m = Some src" and "run_state (old_value get src m) w = ((r, m'), w')"
  shows "\<exists>src'. m_oldValue m' = Some src' \<and> run_state (old_value get src' m') w'' = ((r, m'), w'')"
proof (cases src)
  case (FetchOnce i c)
  show ?thesis
  proof (cases c)
    case None
    with assms(2) FetchOnce have "m' = m\<lparr>m_oldValue := Some (FetchOnce i (Some r))\<rparr>"
      by (simp add: old_value_def split: prod.splits)
    then show ?thesis by (simp add: old_value_def)
  next
    case (Some x)
    with assms FetchOnce show ?thesis by (simp add: old_value_def)
  qed
next
  case (Given n)
  with assms show ?thesis by (simp add: old_value_def)
qed

text \<open>\<open>ResetUser\<close> undoes \<open>ClearUser\<close> in the edge but not in \<open>FieldCleared\<close>.\<close>

lemma ResetUser_keeps_the_mark:
  "EdgeCleared EdgeUser (ResetUser (ClearUser m)) = False \<and>
   FieldCleared FieldUserID (ResetUser (ClearUser m))"
  by (simp add: EdgeCleared_def FieldCleared_def ResetUser_def ClearUser_def)

end
