(* ===== verification/Example.thy ===== *)
theory Example
  imports Tables
begin

text \<open>
  A concrete environment and a concrete empty database, on which the theorems of the
  development are evaluated: no call fails, rows come back in insertion order, the n-th
  outside call returns n as its UUID, clock reading and random bytes, and the hashes are
  injective stand-ins.
\<close>

definition env0 :: env where
  "env0 = \<lparr>db_fault = (\<lambda>_. False), row_order = (\<lambda>_ _. []), new_uuid = itoa, clock = (\<lambda>n. n),
     entropy = (\<lambda>n. Some (itoa n)), sha256 = rev, bcrypt_hash = (\<lambda>_ pw. Some (''#'' @ pw)),
     bcrypt_match = (\<lambda>h pw. h = ''#'' @ pw)\<rparr>"

definition world0 :: world where
  "world0 = \<lparr>users = [], tenants = [], branches = [], tenant_users = [], roles = [],
     role_permissions = [], device_tokens = [], plugin_installs = [], histories = [],
     schemas = Map.empty, tick = 0\<rparr>"

text \<open>The environment in which exactly the outside calls at the given ticks fail.\<close>

definition env_faulty :: "nat set \<Rightarrow> env" where
  "env_faulty F = env0\<lparr>db_fault := (\<lambda>n. n \<in> F)\<rparr>"

text \<open>A shop with an owner, a cashier with a custom role, and one enrolled device.\<close>

definition shop :: world where
  "shop = world0\<lparr>
     users := [\<lparr>u_id = ''u1'', u_email = ''a@x.io'', u_password_hash = ''#secret'', u_google_sub = None,
                u_is_platform_admin = False, u_created_at = 0\<rparr>,
               \<lparr>u_id = ''u2'', u_email = ''b@x.io'', u_password_hash = ''#hunter22'', u_google_sub = None,
                u_is_platform_admin = False, u_created_at = 0\<rparr>],
     tenants := [\<lparr>t_id = ''t1'', t_slug = ''acme'', t_name = ''Acme'', t_plan = ''starter'',
                  t_status = ''active'', t_schema_name = ''tenant_acme''\<rparr>],
     branches := [\<lparr>b_id = ''b1'', b_tenant_id = ''t1'', b_slug = ''main'', b_name = ''Main'',
                   b_status = ''active'', b_created_at = 0\<rparr>],
     tenant_users := [\<lparr>tu_id = ''m1'', tu_user_id = ''u1'', tu_tenant_id = ''t1'', tu_branch_id = ''b1'',
                       tu_role_id = ''r1'', tu_status = ''active'', tu_created_at = 0\<rparr>,
                      \<lparr>tu_id = ''m2'', tu_user_id = ''u2'', tu_tenant_id = ''t1'', tu_branch_id = ''b1'',
                       tu_role_id = ''r2'', tu_status = ''active'', tu_created_at = 1\<rparr>],
     roles := [\<lparr>r_id = ''r1'', r_tenant_id = [], r_slug = ''owner'', r_name = ''Owner'',
                r_is_system = True, r_created_at = 0\<rparr>,
               \<lparr>r_id = ''r2'', r_tenant_id = ''t1'', r_slug = ''cashier'', r_name = ''Cashier'',
                r_is_system = False, r_created_at = 0\<rparr>,
               \<lparr>r_id = ''r3'', r_tenant_id = ''t1'', r_slug = ''temp'', r_name = ''Temp'',
                r_is_system = False, r_created_at = 0\<rparr>],
     role_permissions := [\<lparr>rp_id = ''p1'', rp_role_id = ''r1'', rp_permission = ''*:*''\<rparr>,
                          \<lparr>rp_id = ''p2'', rp_role_id = ''r2'', rp_permission = ''sale:void''\<rparr>],
     device_tokens := [\<lparr>dt_id = ''d1'', dt_token_hash = ''1kot'', dt_user_id = ''u1'', dt_tenant_id = ''t1'',
                        dt_branch_id = ''b1'', dt_device_name = [], dt_created_at = 0,
                        dt_last_used_at = None, dt_revoked_at = None\<rparr>],
     schemas := [''tenant_acme'' \<mapsto> \<lparr>s_profiles = Some
        [\<lparr>p_id = ''u1'', p_full_name = ''Ann'', p_phone = [], p_job_title = [], p_system_role = ''owner'',
          p_pin_hash = ''#1234'', p_created_at = 0\<rparr>,
         \<lparr>p_id = ''u2'', p_full_name = ''Bob'', p_phone = [], p_job_title = [], p_system_role = ''staff'',
          p_pin_hash = [], p_created_at = 0\<rparr>], s_sql = []\<rparr>],
     tick := 100\<rparr>"

end
