(* ===== verification/Builders.thy ===== *)
theory Builders
  imports Mutations Example
begin

text \<open>
  The generated builders that write memberships: \<open>TenantUserCreate\<close>, \<open>TenantUserUpdate\<close>,
  \<open>TenantUserUpdateOne\<close>, \<open>TenantUserDelete\<close>, \<open>TenantUserDeleteOne\<close> of \<open>src/ent/tenantuser_*.go\<close>
  and the methods of \<open>TenantUserClient\<close> (\<open>src/ent/client.go\<close>) that start them.

  \<^item> \<open>config\<close> is what a builder carries: the schema of the table, and the entry points of the
    library \<open>entgo.io/ent/dialect/sql/sqlgraph\<close> with the driver inside. The library is not part
    of the program, so it is an argument of every definition. The records \<open>CreateSpec\<close>,
    \<open>UpdateSpec\<close>, \<open>DeleteSpec\<close> are what the generated code hands to it.
  \<^item> \<open>sql_client\<close> names what the library documents of these calls: one INSERT, UPDATE or DELETE
    of the rows the predicates select, with the constraints of the table.
  \<^item> The theorems: under that contract the builders do what the operations of \<open>Store\<close> and
    \<open>Schema\<close> say, which is how the services' models call them.
\<close>

section \<open>What the builders hand to sqlgraph\<close>

record CreateSpec =
  cs_table :: string
  cs_schema :: string
  cs_id :: "string option"
  cs_fields :: "(string \<times> ent_value) list"
  cs_edges :: "(string \<times> string) list"     \<comment> \<open>many-to-one edges: column and target id\<close>

record UpdateSpec =
  us_table :: string
  us_schema :: string
  us_columns :: "string list"
  us_id :: "string option"
  us_fields :: "(string \<times> ent_value) list"
  us_clear :: "string list"                 \<comment> \<open>columns of the edges to clear\<close>
  us_add :: "(string \<times> string) list"
  us_where :: "predicate list"

record DeleteSpec =
  ds_table :: string
  ds_schema :: string
  ds_where :: "predicate list"

datatype order_term = OrderAsc string | OrderDesc string

record Selector =
  sel_table :: string
  sel_schema :: string
  sel_columns :: "string list"
  sel_where :: "predicate list"
  sel_order :: "order_term list"
  sel_offset :: "int option"
  sel_limit :: "int option"
  sel_distinct :: bool
  sel_errors :: "ent_error list"            \<comment> \<open>\<open>AddError\<close>\<close>

record QuerySpec =
  qs_table :: string
  qs_schema :: string
  qs_columns :: "string list"
  qs_from :: "Selector option"
  qs_where :: "predicate list"
  qs_order :: "(Selector \<Rightarrow> Selector) list"
  qs_limit :: int                           \<comment> \<open>0: no limit\<close>
  qs_offset :: int
  qs_unique :: bool

text \<open>A row as the library hands it to \<open>Assign\<close>: the columns and the scanned values.\<close>

type_synonym scanned_row = "string list \<times> scanned list"

record config =
  schema_TenantUser :: string
  CreateNode :: "CreateSpec \<Rightarrow> (world, sg_error + ent_value option) state"
  UpdateNodes :: "UpdateSpec \<Rightarrow> (world, sg_error + nat) state"
  UpdateNode :: "UpdateSpec \<Rightarrow> (string list \<Rightarrow> scanned list) \<Rightarrow> (world, sg_error + scanned_row) state"
  DeleteNodes :: "DeleteSpec \<Rightarrow> (world, sg_error + nat) state"
  QueryNodes :: "QuerySpec \<Rightarrow> (string list \<Rightarrow> scanned list) \<Rightarrow> (world, sg_error + scanned_row list) state"
  CountNodes :: "QuerySpec \<Rightarrow> (world, sg_error + nat) state"
  driver_Query :: "Selector \<Rightarrow> (world, sg_error + ent_value list list) state"

text \<open>\<open>if sqlgraph.IsConstraintError(err) { err = &ConstraintError{...} }\<close>, and the test for
  \<open>*sqlgraph.NotFoundError\<close> before it in the updates.\<close>

fun constraint_error :: "sg_error \<Rightarrow> ent_error" where
  "constraint_error SgConstraint = ConstraintError SgConstraint"
| "constraint_error e = RawError e"

fun update_error :: "sg_error \<Rightarrow> ent_error" where
  "update_error SgNotFound = NotFoundError Label"
| "update_error e = constraint_error e"

section \<open>Create\<close>

text \<open>A builder without hooks is its mutation; the mutation it leaves behind is the second
  component of the outcome.\<close>

definition client_Create :: TenantUserMutation where
  "client_Create = newTenantUserMutation OpCreate []"

text \<open>\<open>DefaultStatus\<close> and \<open>DefaultCreatedAt\<close>, set by \<open>src/ent/runtime.go\<close> from the schema.\<close>

definition DefaultStatus :: string where
  "DefaultStatus = ''active''"

definition SetNillableStatus :: "string option \<Rightarrow> TenantUserMutation \<Rightarrow> TenantUserMutation" where
  "SetNillableStatus s m = (case s of None \<Rightarrow> m | Some v \<Rightarrow> SetStatus v m)"

definition SetNillableCreatedAt :: "nat option \<Rightarrow> TenantUserMutation \<Rightarrow> TenantUserMutation" where
  "SetNillableCreatedAt t m = (case t of None \<Rightarrow> m | Some v \<Rightarrow> SetCreatedAt v m)"

definition SetUser :: "user \<Rightarrow> TenantUserMutation \<Rightarrow> TenantUserMutation" where
  "SetUser u = SetUserID (u_id u)"

definition SetTenant :: "tenant \<Rightarrow> TenantUserMutation \<Rightarrow> TenantUserMutation" where
  "SetTenant t = SetTenantID (t_id t)"

definition create_defaults :: "env \<Rightarrow> TenantUserMutation \<Rightarrow> (world, TenantUserMutation) state" where
  "create_defaults E m =
     (let m = (case Status m of None \<Rightarrow> SetStatus DefaultStatus m | Some s \<Rightarrow> m) in
      case CreatedAt m of
        None \<Rightarrow> do { now \<leftarrow> time_now E; State_Monad.return (SetCreatedAt now m) }
      | Some t \<Rightarrow> State_Monad.return m)"

definition missing_field :: "string \<Rightarrow> ent_error" where
  "missing_field f = ValidationError f (''ent: missing required field TenantUser.'' @ f)"

definition create_check :: "TenantUserMutation \<Rightarrow> ent_error option" where
  "create_check m =
     (if UserID m = None then Some (missing_field ''user_id'')
      else if TenantID m = None then Some (missing_field ''tenant_id'')
      else if BranchID m = None then Some (missing_field ''branch_id'')
      else if RoleID m = None then Some (missing_field ''role_id'')
      else if Status m = None then Some (missing_field ''status'')
      else if CreatedAt m = None then Some (missing_field ''created_at'')
      else if length (UserIDs m) = 0
        then Some (ValidationError ''user'' ''ent: missing required edge TenantUser.user'')
      else if length (TenantIDs m) = 0
        then Some (ValidationError ''tenant'' ''ent: missing required edge TenantUser.tenant'')
      else None)"

definition field_list :: "string \<Rightarrow> ('a \<Rightarrow> ent_value) \<Rightarrow> 'a option \<Rightarrow> (string \<times> ent_value) list" where
  "field_list f inject v = (case v of None \<Rightarrow> [] | Some x \<Rightarrow> [(f, inject x)])"

definition or_zero :: "'a \<Rightarrow> 'a option \<Rightarrow> 'a" where
  "or_zero z v = (case v of None \<Rightarrow> z | Some x \<Rightarrow> x)"

definition createSpec :: "config \<Rightarrow> TenantUserMutation \<Rightarrow> TenantUser \<times> CreateSpec" where
  "createSpec C m =
     (zero_TenantUser
        \<lparr>tu_id := or_zero [] (ID m), tu_branch_id := or_zero [] (BranchID m),
         tu_role_id := or_zero [] (RoleID m), tu_status := or_zero [] (Status m),
         tu_created_at := or_zero 0 (CreatedAt m),
         tu_user_id := (case UserIDs m of [] \<Rightarrow> [] | i # _ \<Rightarrow> i),
         tu_tenant_id := (case TenantIDs m of [] \<Rightarrow> [] | i # _ \<Rightarrow> i)\<rparr>,
      \<lparr>cs_table = Table, cs_schema = schema_TenantUser C, cs_id = ID m,
       cs_fields = field_list FieldBranchID VString (BranchID m) @ field_list FieldRoleID VString (RoleID m)
         @ field_list FieldStatus VString (Status m) @ field_list FieldCreatedAt VTime (CreatedAt m),
       cs_edges = map (Pair FieldUserID) (UserIDs m) @ map (Pair FieldTenantID) (TenantIDs m)\<rparr>)"

definition create_sqlSave ::
  "config \<Rightarrow> TenantUserMutation \<Rightarrow> (world, (ent_error + TenantUser) \<times> TenantUserMutation) state" where
  "create_sqlSave C m =
     (case create_check m of
        Some e \<Rightarrow> State_Monad.return (Inl e, m)
      | None \<Rightarrow> (let (node, spec) = createSpec C m in
          handle (CreateNode C spec) (\<lambda>e. State_Monad.return (Inl (constraint_error e), m)) (\<lambda>i.
            (case i of
               Some (VString s) \<Rightarrow> State_Monad.return
                 (Inr (node\<lparr>tu_id := s\<rparr>), m\<lparr>m_id := Some s, m_done := True\<rparr>)
             | Some v \<Rightarrow> State_Monad.return
                 (Inl (PlainError (''unexpected TenantUser.ID type: '' @ go_type v)), m)
             | None \<Rightarrow> State_Monad.return
                 (Inr node, m\<lparr>m_id := Some (tu_id node), m_done := True\<rparr>)))))"

definition create_Save ::
  "env \<Rightarrow> config \<Rightarrow> TenantUserMutation \<Rightarrow> (world, (ent_error + TenantUser) \<times> TenantUserMutation) state" where
  "create_Save E C m = do { m' \<leftarrow> create_defaults E m; create_sqlSave C m' }"

section \<open>Update\<close>

definition client_Update :: TenantUserMutation where
  "client_Update = newTenantUserMutation OpUpdate []"

definition SetNillableUserID :: "string option \<Rightarrow> TenantUserMutation \<Rightarrow> TenantUserMutation" where
  "SetNillableUserID s m = (case s of None \<Rightarrow> m | Some v \<Rightarrow> SetUserID v m)"

definition SetNillableTenantID :: "string option \<Rightarrow> TenantUserMutation \<Rightarrow> TenantUserMutation" where
  "SetNillableTenantID s m = (case s of None \<Rightarrow> m | Some v \<Rightarrow> SetTenantID v m)"

definition SetNillableBranchID :: "string option \<Rightarrow> TenantUserMutation \<Rightarrow> TenantUserMutation" where
  "SetNillableBranchID s m = (case s of None \<Rightarrow> m | Some v \<Rightarrow> SetBranchID v m)"

definition SetNillableRoleID :: "string option \<Rightarrow> TenantUserMutation \<Rightarrow> TenantUserMutation" where
  "SetNillableRoleID s m = (case s of None \<Rightarrow> m | Some v \<Rightarrow> SetRoleID v m)"

definition update_check :: "TenantUserMutation \<Rightarrow> ent_error option" where
  "update_check m =
     (if UserCleared m \<and> 0 < length (UserIDs m)
      then Some (PlainError ''ent: clearing a required unique edge TenantUser.user'')
      else if TenantCleared m \<and> 0 < length (TenantIDs m)
      then Some (PlainError ''ent: clearing a required unique edge TenantUser.tenant'')
      else None)"

text \<open>The part of the update specification both updates build the same way. The creation time is
  immutable: a value set for it never reaches the statement.\<close>

definition update_spec :: "config \<Rightarrow> string list \<Rightarrow> string option \<Rightarrow> TenantUserMutation \<Rightarrow> UpdateSpec" where
  "update_spec C columns i m =
     \<lparr>us_table = Table, us_schema = schema_TenantUser C, us_columns = columns, us_id = i,
      us_fields = field_list FieldBranchID VString (BranchID m) @ field_list FieldRoleID VString (RoleID m)
        @ field_list FieldStatus VString (Status m),
      us_clear = (if UserCleared m then [FieldUserID] else []) @ (if TenantCleared m then [FieldTenantID] else []),
      us_add = map (Pair FieldUserID) (UserIDs m) @ map (Pair FieldTenantID) (TenantIDs m),
      us_where = m_predicates m\<rparr>"

definition update_sqlSave ::
  "config \<Rightarrow> TenantUserMutation \<Rightarrow> (world, (ent_error + nat) \<times> TenantUserMutation) state" where
  "update_sqlSave C m =
     (case update_check m of
        Some e \<Rightarrow> State_Monad.return (Inl e, m)
      | None \<Rightarrow> handle (UpdateNodes C (update_spec C Columns None m))
          (\<lambda>e. State_Monad.return (Inl (update_error e), m))
          (\<lambda>n. State_Monad.return (Inr n, m\<lparr>m_done := True\<rparr>)))"

subsection \<open>UpdateOne\<close>

record TenantUserUpdateOne =
  tuuo_fields :: "string list"
  tuuo_mutation :: TenantUserMutation

definition client_UpdateOneID :: "string \<Rightarrow> TenantUserUpdateOne" where
  "client_UpdateOneID i =
     \<lparr>tuuo_fields = [], tuuo_mutation = newTenantUserMutation OpUpdateOne [withTenantUserID i]\<rparr>"

definition client_UpdateOne :: "TenantUser \<Rightarrow> TenantUserUpdateOne" where
  "client_UpdateOne node =
     \<lparr>tuuo_fields = [], tuuo_mutation = newTenantUserMutation OpUpdateOne [withTenantUser node]\<rparr>"

definition UpdateOne_Select :: "string list \<Rightarrow> TenantUserUpdateOne \<Rightarrow> TenantUserUpdateOne" where
  "UpdateOne_Select fs b = b\<lparr>tuuo_fields := fs\<rparr>"

text \<open>The columns to read back: all, or the id and the selected ones, which must exist.\<close>

fun invalid_column :: "string list \<Rightarrow> string option" where
  "invalid_column [] = None"
| "invalid_column (f # fs) = (if ValidColumn f then invalid_column fs else Some f)"

definition invalid_field :: "string \<Rightarrow> ent_error" where
  "invalid_field f = ValidationError f (''ent: invalid field '' @ f @ '' for query'')"

definition selected_columns :: "string list \<Rightarrow> string list" where
  "selected_columns fs = (if fs = [] then Columns else FieldID # filter (\<lambda>f. f \<noteq> FieldID) fs)"

definition updateOne_sqlSave ::
  "config \<Rightarrow> TenantUserUpdateOne \<Rightarrow> (world, (ent_error + TenantUser) \<times> TenantUserUpdateOne) state" where
  "updateOne_sqlSave C b = (let m = tuuo_mutation b in
     case update_check m of
       Some e \<Rightarrow> State_Monad.return (Inl e, b)
     | None \<Rightarrow>
     (case ID m of
        None \<Rightarrow> State_Monad.return (Inl (ValidationError ''id'' ''ent: missing TenantUser.id for update''), b)
      | Some i \<Rightarrow>
     (case invalid_column (tuuo_fields b) of
        Some f \<Rightarrow> State_Monad.return (Inl (invalid_field f), b)
      | None \<Rightarrow>
          handle (UpdateNode C (update_spec C (selected_columns (tuuo_fields b)) (Some i) m) scanValues)
            (\<lambda>e. State_Monad.return (Inl (update_error e), b))
            (\<lambda>(columns, values).
              (case assignValues columns values zero_TenantUser of
                 Inl e \<Rightarrow> State_Monad.return (Inl e, b)
               | Inr node \<Rightarrow> State_Monad.return (Inr node, b\<lparr>tuuo_mutation := m\<lparr>m_done := True\<rparr>\<rparr>))))))"

section \<open>Delete\<close>

definition client_Delete :: TenantUserMutation where
  "client_Delete = newTenantUserMutation OpDelete []"

definition delete_sqlExec ::
  "config \<Rightarrow> TenantUserMutation \<Rightarrow> (world, (ent_error + nat) \<times> TenantUserMutation) state" where
  "delete_sqlExec C m = do {
     r \<leftarrow> DeleteNodes C \<lparr>ds_table = Table, ds_schema = schema_TenantUser C, ds_where = m_predicates m\<rparr>;
     State_Monad.return (map_sum constraint_error id r, m\<lparr>m_done := True\<rparr>) }"

definition client_DeleteOneID :: "string \<Rightarrow> TenantUserMutation" where
  "client_DeleteOneID i = (mutation_Where [tenantuser_ID i] client_Delete)\<lparr>m_id := Some i, m_op := OpDeleteOne\<rparr>"

definition client_DeleteOne :: "TenantUser \<Rightarrow> TenantUserMutation" where
  "client_DeleteOne node = client_DeleteOneID (tu_id node)"

definition deleteOne_Exec :: "config \<Rightarrow> TenantUserMutation \<Rightarrow> (world, (ent_error + unit) \<times> TenantUserMutation) state" where
  "deleteOne_Exec C m = do {
     (r, m') \<leftarrow> delete_sqlExec C m;
     State_Monad.return (case r of
         Inl e \<Rightarrow> Inl e
       | Inr n \<Rightarrow> if n = 0 then Inl (NotFoundError Label) else Inr (), m') }"

section \<open>What sqlgraph documents\<close>

text \<open>The columns of a row, and what the library says of its predicates.\<close>

definition row_columns :: "tenant_user \<Rightarrow> (string \<times> ent_value) list" where
  "row_columns r =
     [(FieldID, VString (tu_id r)), (FieldUserID, VString (tu_user_id r)),
      (FieldTenantID, VString (tu_tenant_id r)), (FieldBranchID, VString (tu_branch_id r)),
      (FieldRoleID, VString (tu_role_id r)), (FieldStatus, VString (tu_status r)),
      (FieldCreatedAt, VTime (tu_created_at r))]"

fun meaning :: "predicate \<Rightarrow> tenant_user \<Rightarrow> bool" where
  "meaning (FieldEQ f v) r = (map_of (row_columns r) f = Some v)"
| "meaning (FieldNEQ f v) r = (map_of (row_columns r) f \<noteq> Some v)"
| "meaning (FieldIn f vs) r = (\<exists>v \<in> set vs. map_of (row_columns r) f = Some v)"

fun column_of :: "predicate \<Rightarrow> string" where
  "column_of (FieldEQ f v) = f"
| "column_of (FieldNEQ f v) = f"
| "column_of (FieldIn f vs) = f"

definition selected :: "predicate list \<Rightarrow> tenant_user \<Rightarrow> bool" where
  "selected ps r \<longleftrightarrow> (\<forall>p \<in> set ps. meaning p r)"

definition known_columns :: "predicate list \<Rightarrow> bool" where
  "known_columns ps \<longleftrightarrow> (\<forall>p \<in> set ps. ValidColumn (column_of p))"

text \<open>The row an INSERT with these columns creates, when every column has a value of its type.\<close>

definition row_of :: "(string \<rightharpoonup> ent_value) \<Rightarrow> tenant_user option" where
  "row_of v = (case (v FieldID, v FieldUserID, v FieldTenantID, v FieldBranchID, v FieldRoleID, v FieldStatus,
      v FieldCreatedAt) of
     (Some (VString i), Some (VString u), Some (VString t), Some (VString b), Some (VString r), Some (VString s),
      Some (VTime c)) \<Rightarrow> Some \<lparr>tu_id = i, tu_user_id = u, tu_tenant_id = t, tu_branch_id = b, tu_role_id = r,
        tu_status = s, tu_created_at = c\<rparr>
   | _ \<Rightarrow> None)"

definition spec_row :: "CreateSpec \<Rightarrow> tenant_user option" where
  "spec_row spec = row_of (map_of (field_list FieldID VString (cs_id spec) @ cs_fields spec
     @ map (apsnd VString) (cs_edges spec)))"

text \<open>The row after an UPDATE that sets these columns.\<close>

definition text_or :: "string \<Rightarrow> ent_value option \<Rightarrow> string" where
  "text_or d v = (case v of Some (VString s) \<Rightarrow> s | _ \<Rightarrow> d)"

definition time_or :: "nat \<Rightarrow> ent_value option \<Rightarrow> nat" where
  "time_or d v = (case v of Some (VTime t) \<Rightarrow> t | _ \<Rightarrow> d)"

definition set_columns :: "(string \<times> ent_value) list \<Rightarrow> tenant_user \<Rightarrow> tenant_user" where
  "set_columns fs r = r\<lparr>tu_user_id := text_or (tu_user_id r) (map_of fs FieldUserID),
     tu_tenant_id := text_or (tu_tenant_id r) (map_of fs FieldTenantID),
     tu_branch_id := text_or (tu_branch_id r) (map_of fs FieldBranchID),
     tu_role_id := text_or (tu_role_id r) (map_of fs FieldRoleID),
     tu_status := text_or (tu_status r) (map_of fs FieldStatus),
     tu_created_at := time_or (tu_created_at r) (map_of fs FieldCreatedAt)\<rparr>"

text \<open>Moving a membership to another user or tenant: the constraints against the other rows.\<close>

definition moved_clash :: "world \<Rightarrow> tenant_user \<Rightarrow> bool" where
  "moved_clash w m \<longleftrightarrow>
     (\<exists>x \<in> set (tenant_users w). tu_id x \<noteq> tu_id m \<and> tu_user_id x = tu_user_id m \<and> tu_tenant_id x = tu_tenant_id m)
     \<or> \<not> (\<exists>t \<in> set (tenants w). t_id t = tu_tenant_id m)
     \<or> \<not> (\<exists>u \<in> set (users w). u_id u = tu_user_id m)"

text \<open>A row scanned into the destinations of its columns.\<close>

fun fill :: "scanned \<Rightarrow> ent_value option \<Rightarrow> scanned" where
  "fill (NullString _) (Some (VString s)) = NullString (Some s)"
| "fill (NullTime _) (Some (VTime t)) = NullTime (Some t)"
| "fill (UnknownType _) v = UnknownType v"
| "fill d _ = d"

definition render :: "string list \<Rightarrow> scanned list \<Rightarrow> tenant_user \<Rightarrow> scanned_row" where
  "render columns targets r =
     (columns, map2 (\<lambda>c d. fill d (map_of (row_columns r) c)) columns targets)"

fun sg_of :: "error \<Rightarrow> sg_error" where
  "sg_of (ErrDB NotFound) = SgNotFound"
| "sg_of (ErrDB Constraint) = SgConstraint"
| "sg_of e = SgOther e"

definition sg_map :: "('a \<Rightarrow> 'b) \<Rightarrow> (world, error + 'a) state \<Rightarrow> (world, sg_error + 'b) state" where
  "sg_map f m = do { r \<leftarrow> m; State_Monad.return (map_sum sg_of f r) }"

definition insert_sql :: "env \<Rightarrow> tenant_user \<Rightarrow> (world, sg_error + ent_value option) state" where
  "insert_sql E r = sg_map (\<lambda>r. Some (VString (tu_id r)))
     (ent_create E tenant_users tenant_users_update tu_id tenant_user_clash r)"

definition update_sql :: "env \<Rightarrow> UpdateSpec \<Rightarrow> (world, sg_error + nat) state" where
  "update_sql E spec = sg_map id
     (ent_update E tenant_users tenant_users_update (selected (us_where spec)) (set_columns (us_fields spec)))"

definition update_one_sql ::
  "env \<Rightarrow> UpdateSpec \<Rightarrow> string \<Rightarrow> (string list \<Rightarrow> scanned list) \<Rightarrow> (world, sg_error + scanned_row) state" where
  "update_one_sql E spec i scan = sg_map (render (us_columns spec) (scan (us_columns spec)))
     (ent_update_one E tenant_users tenant_users_update tu_id
       (if us_add spec = [] then no_clash else moved_clash) i
       (set_columns (us_fields spec @ map (apsnd VString) (us_add spec))))"

definition delete_sql :: "env \<Rightarrow> DeleteSpec \<Rightarrow> (world, sg_error + nat) state" where
  "delete_sql E spec = sg_map id
     (ent_delete E tenant_users tenant_users_update no_clash (selected (ds_where spec)))"

text \<open>What the writes rely on. The library is used with the client's default schema; a
  statement that clears a required column, or names a column the table does not have, is not
  described.\<close>

definition sql_writes :: "env \<Rightarrow> config \<Rightarrow> bool" where
  "sql_writes E C \<longleftrightarrow> schema_TenantUser C = [] \<and>
     (\<forall>spec r. cs_table spec = Table \<and> cs_schema spec = [] \<and> spec_row spec = Some r \<longrightarrow>
        CreateNode C spec = insert_sql E r) \<and>
     (\<forall>spec. us_table spec = Table \<and> us_schema spec = [] \<and> us_id spec = None \<and> us_fields spec \<noteq> [] \<and>
        us_clear spec = [] \<and> us_add spec = [] \<and> known_columns (us_where spec) \<longrightarrow>
        UpdateNodes C spec = update_sql E spec) \<and>
     (\<forall>spec i scan. us_table spec = Table \<and> us_schema spec = [] \<and> us_id spec = Some i \<and>
        us_clear spec = [] \<and> us_where spec = [] \<longrightarrow>
        UpdateNode C spec scan = update_one_sql E spec i scan) \<and>
     (\<forall>spec. ds_table spec = Table \<and> ds_schema spec = [] \<and> known_columns (ds_where spec) \<longrightarrow>
        DeleteNodes C spec = delete_sql E spec)"

section \<open>The builders against the operations of the store\<close>

text \<open>The kind of failure a caller sees; the texts ent adds around it are dropped.\<close>

fun err_of :: "ent_error \<Rightarrow> error" where
  "err_of (ValidationError n s) = ErrDB Validation"
| "err_of (NotFoundError l) = ErrDB NotFound"
| "err_of (NotSingularError l) = ErrDB NotSingular"
| "err_of (NotLoadedError e) = ErrText (''ent: '' @ e @ '' edge was not loaded'')"
| "err_of (ConstraintError e) = ErrDB Constraint"
| "err_of (PlainError s) = ErrText s"
| "err_of (WrappedError s e) = err_of e"
| "err_of (RawError (SgOther e)) = e"
| "err_of (RawError SgNotFound) = ErrDB NotFound"
| "err_of (RawError SgConstraint) = ErrDB Constraint"

text \<open>The result of a builder without the builder it leaves behind.\<close>

definition builder_result :: "('a \<Rightarrow> 'b) \<Rightarrow> (world, (ent_error + 'a) \<times> 'm) state \<Rightarrow> (world, error + 'b) state" where
  "builder_result f c = do { (r, _) \<leftarrow> c; State_Monad.return (map_sum err_of f r) }"

lemma run_builder_result:
  "run_state (builder_result f c) w = (case run_state c w of ((r, m), w') \<Rightarrow> (map_sum err_of f r, w'))"
  by (simp add: builder_result_def split: prod.splits)

lemma run_sg_map:
  "run_state (sg_map f c) w = (case run_state c w of (r, w') \<Rightarrow> (map_sum sg_of f r, w'))"
  by (simp add: sg_map_def split: prod.splits)

lemma err_of_errors [simp]:
  "err_of (constraint_error (sg_of e)) = e" "err_of (update_error (sg_of e)) = e"
  by (cases e rule: sg_of.cases; simp)+

definition node_of :: "tenant_user \<Rightarrow> TenantUser" where
  "node_of r = tenant_user.extend r
     \<lparr>edge_user = None, edge_tenant = None, loadedTypes = (False, False), selectValues = []\<rparr>"

lemma truncate_node_of [simp]: "tenant_user.truncate (node_of r) = r"
  by (simp add: node_of_def tenant_user.defs)

lemma scan_target_simps [simp]:
  "scan_target FieldID = NullString None" "scan_target FieldUserID = NullString None"
  "scan_target FieldTenantID = NullString None" "scan_target FieldBranchID = NullString None"
  "scan_target FieldRoleID = NullString None" "scan_target FieldStatus = NullString None"
  "scan_target FieldCreatedAt = NullTime None"
  by (simp_all add: scan_target_def)

text \<open>Reading a whole row back.\<close>

lemma assign_render:
  "assignValues Columns (snd (render Columns (scanValues Columns) r)) zero_TenantUser = Inr (node_of r)"
  by (simp add: render_def row_columns_def Columns_def scanValues_def assignValues_def assignValue_def
      set_string_def zero_TenantUser_def node_of_def tenant_user.defs)

text \<open>What a collected mutation does to a row: the creation time is not among the changes.\<close>

definition apply_changes :: "TenantUserMutation \<Rightarrow> tenant_user \<Rightarrow> tenant_user" where
  "apply_changes m r = r\<lparr>tu_user_id := or_zero (tu_user_id r) (UserID m),
     tu_tenant_id := or_zero (tu_tenant_id r) (TenantID m),
     tu_branch_id := or_zero (tu_branch_id r) (BranchID m),
     tu_role_id := or_zero (tu_role_id r) (RoleID m),
     tu_status := or_zero (tu_status r) (Status m)\<rparr>"

lemmas spec_simps = field_list_def UserIDs_def TenantIDs_def getters or_zero_def text_or_def time_or_def

lemma map_of_field_list [simp]:
  "map_of (field_list f inject v) g = (if f = g then map_option inject v else None)"
  by (simp add: field_list_def split: option.splits)

lemma column_lookup:
  "f \<noteq> g \<Longrightarrow> map_of (field_list f inject v @ fs) g = map_of fs g"
  "map_of fs f = None \<Longrightarrow> map_of (field_list f inject v @ fs) f = map_option inject v"
  by (simp_all add: field_list_def split: option.splits)

lemma edge_columns [simp]:
  "map (apsnd VString) (map (Pair f) (UserIDs m)) = field_list f VString (UserID m)"
  "map (apsnd VString) (map (Pair f) (TenantIDs m)) = field_list f VString (TenantID m)"
  by (simp_all add: spec_simps split: option.splits)

lemma text_or_column [simp]: "text_or d (map_option VString v) = or_zero d v"
  by (simp add: text_or_def or_zero_def split: option.splits)

lemma text_or_None [simp]: "text_or d None = d"
  by (simp add: text_or_def)

lemma time_or_None [simp]: "time_or d None = d"
  by (simp add: time_or_def)

lemma update_spec_changes:
  "set_columns (us_fields (update_spec C cs i m) @ map (apsnd VString) (us_add (update_spec C cs i m))) =
     apply_changes m"
  by (rule ext) (simp add: update_spec_def set_columns_def apply_changes_def column_lookup
      del: map_map map_of_append)

lemma create_check_None:
  assumes "create_check m = None"
  obtains u t b r s c where "m_user m = Some u" "m_tenant m = Some t" "m_branch_id m = Some b"
    "m_role_id m = Some r" "m_status m = Some s" "m_created_at m = Some c"
proof -
  note check = assms [unfolded create_check_def getters]
  have user: "m_user m \<noteq> None" by (rule notI) (use check in simp)
  have tenant: "m_tenant m \<noteq> None" by (rule notI) (use check user in simp)
  have branch: "m_branch_id m \<noteq> None" by (rule notI) (use check user tenant in simp)
  have role: "m_role_id m \<noteq> None" by (rule notI) (use check user tenant branch in simp)
  have status: "m_status m \<noteq> None" by (rule notI) (use check user tenant branch role in simp)
  have "m_created_at m \<noteq> None" by (rule notI) (use check user tenant branch role status in simp)
  with user tenant branch role status that show thesis by blast
qed

lemma create_spec_row:
  assumes "create_check m = None" and i: "ID m = Some i" and s: "createSpec C m = (node, spec)"
  shows "\<exists>r. spec_row spec = Some r \<and> tenant_user.truncate node = r \<and> tu_id r = i"
proof -
  obtain u t b r st c where vs: "m_user m = Some u" "m_tenant m = Some t" "m_branch_id m = Some b"
    "m_role_id m = Some r" "m_status m = Some st" "m_created_at m = Some c"
    using create_check_None [OF assms(1)] .
  from s have "node = fst (createSpec C m)" "spec = snd (createSpec C m)" by simp_all
  with vs i show ?thesis
    by (simp add: createSpec_def spec_row_def row_of_def spec_simps zero_TenantUser_def tenant_user.defs)
qed

lemma create_sqlSave_sql:
  assumes C: "sql_writes E C" and check: "create_check m = None" and i: "ID m = Some i"
  shows "run_state (builder_result tenant_user.truncate (create_sqlSave C m)) w =
    run_state (ent_create E tenant_users tenant_users_update tu_id tenant_user_clash
      (tenant_user.truncate (fst (createSpec C m)))) w"
proof -
  obtain node spec where s: "createSpec C m = (node, spec)" by fastforce
  from create_spec_row [OF check i s] have r: "spec_row spec = Some (tenant_user.truncate node)"
    and id: "tu_id node = i" by (auto simp: tenant_user.defs)
  from s have "cs_table spec = Table" "cs_schema spec = schema_TenantUser C" by (auto simp: createSpec_def)
  with C r have "CreateNode C spec = insert_sql E (tenant_user.truncate node)"
    by (simp add: sql_writes_def)
  with id show ?thesis
    by (simp add: run_builder_result create_sqlSave_def check s insert_sql_def run_sg_map run_ent_create
        tenant_user.defs split: prod.splits sum.splits)
qed

text \<open>\<open>UpdateOneID(id).SetX(x)\<close>: the setters of the builder are those of its mutation.\<close>

definition on_mutation ::
  "(TenantUserMutation \<Rightarrow> TenantUserMutation) \<Rightarrow> TenantUserUpdateOne \<Rightarrow> TenantUserUpdateOne" where
  "on_mutation f b = b\<lparr>tuuo_mutation := f (tuuo_mutation b)\<rparr>"

lemma updateOne_refines:
  assumes C: "sql_writes E C" and i: "ID (tuuo_mutation b) = Some i" and all: "tuuo_fields b = []"
    and plain: "m_predicates (tuuo_mutation b) = []" "\<not> UserCleared (tuuo_mutation b)"
      "\<not> TenantCleared (tuuo_mutation b)"
  shows "run_state (builder_result tenant_user.truncate (updateOne_sqlSave C b)) w =
    run_state (ent_update_one E tenant_users tenant_users_update tu_id
      (if UserID (tuuo_mutation b) = None \<and> TenantID (tuuo_mutation b) = None then no_clash else moved_clash)
      i (apply_changes (tuuo_mutation b))) w"
proof -
  let ?m = "tuuo_mutation b" and ?spec = "update_spec C Columns (Some i) (tuuo_mutation b)"
  let ?c = "if UserID ?m = None \<and> TenantID ?m = None then no_clash else moved_clash"
  have "us_add ?spec = [] \<longleftrightarrow> UserID ?m = None \<and> TenantID ?m = None"
    by (simp add: update_spec_def spec_simps split: option.splits)
  then have clash: "(if us_add ?spec = [] then no_clash else moved_clash) = ?c" by simp
  have "UpdateNode C ?spec scanValues = update_one_sql E ?spec i scanValues"
    using C plain by (simp add: sql_writes_def update_spec_def)
  then have node: "UpdateNode C ?spec scanValues = sg_map (render Columns (scanValues Columns))
      (ent_update_one E tenant_users tenant_users_update tu_id ?c i (apply_changes ?m))"
    unfolding update_one_sql_def clash update_spec_changes by (simp add: update_spec_def)
  obtain x w' where run: "run_state (ent_update_one E tenant_users tenant_users_update tu_id ?c i
      (apply_changes ?m)) w = (x, w')" by fastforce
  have fst_render: "render Columns v r = (Columns, snd (render Columns v r))" for v r
    by (simp add: render_def)
  show ?thesis
  proof (cases x)
    case (Inl e)
    then show ?thesis
      by (simp add: run_builder_result updateOne_sqlSave_def update_check_def plain i all selected_columns_def
          node run_sg_map run Let_def)
  next
    case (Inr r)
    define v where "v = snd (render Columns (scanValues Columns) r)"
    have "render Columns (scanValues Columns) r = (Columns, v)"
      and "assignValues Columns v zero_TenantUser = Inr (node_of r)"
      unfolding v_def by (rule fst_render) (rule assign_render)
    with Inr show ?thesis
      by (simp add: run_builder_result updateOne_sqlSave_def update_check_def plain i all selected_columns_def
          node run_sg_map run Let_def)
  qed
qed

lemma deleteOne_refines:
  assumes "sql_writes E C"
  shows "run_state (builder_result id (deleteOne_Exec C (client_DeleteOneID i))) w =
    run_state (ent_delete_one E tenant_users tenant_users_update no_clash tu_id i) w"
proof -
  have "selected [tenantuser_ID i] = (\<lambda>r. tu_id r = i)"
    by (rule ext) (simp add: selected_def tenantuser_ID_def row_columns_def)
  moreover have "known_columns [tenantuser_ID i]"
    by (simp add: known_columns_def tenantuser_ID_def ValidColumn_def Columns_def)
  moreover have "m_predicates (client_DeleteOneID i) = [tenantuser_ID i]"
    by (simp add: client_DeleteOneID_def mutation_Where_def client_Delete_def newTenantUserMutation_def)
  ultimately have "DeleteNodes C \<lparr>ds_table = Table, ds_schema = schema_TenantUser C,
      ds_where = m_predicates (client_DeleteOneID i)\<rparr> =
      sg_map id (ent_delete E tenant_users tenant_users_update no_clash (\<lambda>r. tu_id r = i))"
    using assms by (simp add: sql_writes_def delete_sql_def)
  then have del: "run_state (delete_sqlExec C (client_DeleteOneID i)) w =
      (case run_state (ent_delete E tenant_users tenant_users_update no_clash (\<lambda>r. tu_id r = i)) w of
         (r, w') \<Rightarrow> ((map_sum (constraint_error \<circ> sg_of) id r, (client_DeleteOneID i)\<lparr>m_done := True\<rparr>), w'))"
    by (simp add: delete_sqlExec_def run_sg_map sum.map_comp split: prod.splits)
  obtain x w' where run: "run_state (ent_delete E tenant_users tenant_users_update no_clash (\<lambda>r. tu_id r = i)) w
      = (x, w')" by fastforce
  show ?thesis
    by (cases x) (simp_all add: run_builder_result deleteOne_Exec_def del ent_delete_one_def run)
qed

lemma create_refines:
  assumes "sql_writes E C"
  shows "run_state (builder_result tenant_user.truncate (create_Save E C
      (SetRoleID r (SetBranchID b (SetTenantID t (SetUserID u (SetID i client_Create))))))) w =
    run_state (create_tenant_user E i u t b r) w"
proof -
  let ?m = "SetRoleID r (SetBranchID b (SetTenantID t (SetUserID u (SetID i client_Create))))"
  let ?n = "SetCreatedAt (clock E (tick w)) (SetStatus DefaultStatus ?m)"
  have defaults: "run_state (create_defaults E ?m) w = (?n, ticked w)"
    by (simp add: create_defaults_def getters setters client_Create_def newTenantUserMutation_def time_now_def)
  have check: "create_check ?n = None" and i: "ID ?n = Some i"
    by (simp_all add: create_check_def spec_simps setters client_Create_def newTenantUserMutation_def)
  have node: "tenant_user.truncate (fst (createSpec C ?n)) =
      \<lparr>tu_id = i, tu_user_id = u, tu_tenant_id = t, tu_branch_id = b, tu_role_id = r,
       tu_status = ''active'', tu_created_at = clock E (tick w)\<rparr>"
    by (simp add: createSpec_def spec_simps setters client_Create_def newTenantUserMutation_def
        zero_TenantUser_def tenant_user.defs DefaultStatus_def)
  have "run_state (builder_result tenant_user.truncate (create_Save E C ?m)) w =
      run_state (builder_result tenant_user.truncate (create_sqlSave C ?n)) (ticked w)"
    by (simp add: run_builder_result create_Save_def defaults)
  also have "\<dots> = run_state (create_tenant_user E i u t b r) w"
    unfolding create_sqlSave_sql [OF assms check i] node
    by (simp add: create_tenant_user_def time_now_def)
  finally show ?thesis .
qed

lemma apply_one [simp]:
  "apply_changes (SetRoleID r m) = (\<lambda>x. (apply_changes m x)\<lparr>tu_role_id := r\<rparr>)"
  "apply_changes (SetStatus st m) = (\<lambda>x. (apply_changes m x)\<lparr>tu_status := st\<rparr>)"
  "apply_changes (SetBranchID b m) = (\<lambda>x. (apply_changes m x)\<lparr>tu_branch_id := b\<rparr>)"
  "apply_changes (SetCreatedAt c m) = apply_changes m"
  by (simp_all add: fun_eq_iff apply_changes_def spec_simps setters)

lemma apply_none [simp]: "apply_changes (tuuo_mutation (client_UpdateOneID i)) = (\<lambda>x. x)"
  by (simp add: fun_eq_iff apply_changes_def client_UpdateOneID_def newTenantUserMutation_def
      withTenantUserID_def spec_simps)

lemma updateOneID_refines:
  assumes "sql_writes E C" and "f \<in> {SetRoleID x, SetStatus x, SetBranchID x, SetCreatedAt c}"
  shows "run_state (builder_result tenant_user.truncate (updateOne_sqlSave C (on_mutation f (client_UpdateOneID i)))) w =
    run_state (ent_update_one E tenant_users tenant_users_update tu_id no_clash i
      (apply_changes (f (tuuo_mutation (client_UpdateOneID i))))) w"
proof -
  let ?b = "on_mutation f (client_UpdateOneID i)"
  have m: "tuuo_mutation ?b = f (tuuo_mutation (client_UpdateOneID i))" by (simp add: on_mutation_def)
  have "ID (tuuo_mutation ?b) = Some i" "tuuo_fields ?b = []" "m_predicates (tuuo_mutation ?b) = []"
    "\<not> UserCleared (tuuo_mutation ?b)" "\<not> TenantCleared (tuuo_mutation ?b)"
    and "UserID (tuuo_mutation ?b) = None" "TenantID (tuuo_mutation ?b) = None"
    using assms(2) by (auto simp: on_mutation_def client_UpdateOneID_def newTenantUserMutation_def
        withTenantUserID_def getters setters UserCleared_def TenantCleared_def)
  from updateOne_refines [OF assms(1) this(1-5)] this(6,7) show ?thesis by (simp add: m)
qed

text \<open>C39. The generated builders do what the services' models take them to do. Under the documented
  behaviour of sqlgraph, creating a membership with the setters the services call gives the
  outcome of \<open>create_tenant_user\<close> (the default status and creation time included, and every
  failure); \<open>UpdateOneID\<close> with one setter changes exactly that column of that row; a creation
  time set on an update never reaches the database; \<open>DeleteOneID\<close> deletes that row or reports
  that there is none.\<close>

theorem membership_builders_refine:
  assumes "sql_writes E C"
  shows "run_state (builder_result tenant_user.truncate (create_Save E C
      (SetRoleID r (SetBranchID b (SetTenantID t (SetUserID u (SetID i client_Create))))))) w =
    run_state (create_tenant_user E i u t b r) w
    \<and> run_state (builder_result tenant_user.truncate (updateOne_sqlSave C
      (on_mutation (SetRoleID r) (client_UpdateOneID i)))) w =
    run_state (ent_update_one E tenant_users tenant_users_update tu_id no_clash i (\<lambda>m. m\<lparr>tu_role_id := r\<rparr>)) w
    \<and> run_state (builder_result tenant_user.truncate (updateOne_sqlSave C
      (on_mutation (SetStatus st) (client_UpdateOneID i)))) w =
    run_state (ent_update_one E tenant_users tenant_users_update tu_id no_clash i (\<lambda>m. m\<lparr>tu_status := st\<rparr>)) w
    \<and> run_state (builder_result tenant_user.truncate (updateOne_sqlSave C
      (on_mutation (SetBranchID b) (client_UpdateOneID i)))) w =
    run_state (ent_update_one E tenant_users tenant_users_update tu_id no_clash i (\<lambda>m. m\<lparr>tu_branch_id := b\<rparr>)) w
    \<and> run_state (builder_result tenant_user.truncate (updateOne_sqlSave C
      (on_mutation (SetCreatedAt c) (client_UpdateOneID i)))) w =
    run_state (ent_update_one E tenant_users tenant_users_update tu_id no_clash i (\<lambda>m. m)) w
    \<and> run_state (builder_result id (deleteOne_Exec C (client_DeleteOneID i))) w =
    run_state (ent_delete_one E tenant_users tenant_users_update no_clash tu_id i) w"
  using create_refines [OF assms] deleteOne_refines [OF assms]
    updateOneID_refines [OF assms, where f = "SetRoleID r" and x = r and c = c]
    updateOneID_refines [OF assms, where f = "SetStatus st" and x = st and c = c]
    updateOneID_refines [OF assms, where f = "SetBranchID b" and x = b and c = c]
    updateOneID_refines [OF assms, where f = "SetCreatedAt c" and x = b and c = c]
  by (intro conjI) simp_all

text \<open>A library that does what is documented, on the model's database.\<close>

definition undescribed :: "(world, sg_error + 'a) state" where
  "undescribed = fail (SgOther (ErrText ''not described''))"

definition sql_config :: "env \<Rightarrow> config" where
  "sql_config E = \<lparr>schema_TenantUser = [],
     CreateNode = (\<lambda>spec. case spec_row spec of None \<Rightarrow> undescribed | Some r \<Rightarrow> insert_sql E r),
     UpdateNodes = update_sql E,
     UpdateNode = (\<lambda>spec scan. case us_id spec of None \<Rightarrow> undescribed | Some i \<Rightarrow> update_one_sql E spec i scan),
     DeleteNodes = delete_sql E,
     QueryNodes = (\<lambda>spec scan. undescribed),
     CountNodes = (\<lambda>spec. undescribed),
     driver_Query = (\<lambda>sel. undescribed)\<rparr>"

lemma sql_config_writes: "sql_writes E (sql_config E)"
  by (simp add: sql_writes_def sql_config_def)

theorem membership_builders_refine_witness:
  "map_sum id tu_status (fst (run_state (builder_result tenant_user.truncate (updateOne_sqlSave (sql_config env0)
      (on_mutation (SetStatus ''suspended'') (client_UpdateOneID ''m2'')))) shop)) = Inr ''suspended''"
proof -
  have "run_state (builder_result tenant_user.truncate (updateOne_sqlSave (sql_config env0)
      (on_mutation (SetStatus ''suspended'') (client_UpdateOneID ''m2'')))) shop =
    run_state (ent_update_one env0 tenant_users tenant_users_update tu_id no_clash ''m2''
      (\<lambda>m. m\<lparr>tu_status := ''suspended''\<rparr>)) shop"
    using membership_builders_refine [OF sql_config_writes] by blast
  then show ?thesis by (simp add: run_ent_update_one shop_def world0_def env0_def no_clash_def)
qed

section \<open>What the checks catch\<close>

lemma create_check_names:
  "create_check m =
     (if UserID m = None then Some (missing_field FieldUserID)
      else if TenantID m = None then Some (missing_field FieldTenantID)
      else if BranchID m = None then Some (missing_field FieldBranchID)
      else if RoleID m = None then Some (missing_field FieldRoleID)
      else if Status m = None then Some (missing_field FieldStatus)
      else if CreatedAt m = None then Some (missing_field FieldCreatedAt)
      else if length (UserIDs m) = 0
        then Some (ValidationError ''user'' ''ent: missing required edge TenantUser.user'')
      else if length (TenantIDs m) = 0
        then Some (ValidationError ''tenant'' ''ent: missing required edge TenantUser.tenant'')
      else None)"
  unfolding create_check_def field_names by (rule refl)

lemma create_check_first:
  assumes "\<exists>f \<in> {FieldUserID, FieldTenantID, FieldBranchID, FieldRoleID}. Field f m = None"
  shows "create_check m = Some (missing_field (hd (filter (\<lambda>f. Field f m = None) (tl Columns))))"
  using assms by (auto simp: create_check_names Columns_def Field_def)

lemma create_defaults_keeps:
  assumes "run_state (create_defaults E m) w = (m', w')"
  shows "f \<noteq> FieldStatus \<Longrightarrow> f \<noteq> FieldCreatedAt \<Longrightarrow> Field f m' = Field f m" and "same_tables w w'"
    and "Field FieldStatus m' \<noteq> None" and "Field FieldCreatedAt m' \<noteq> None"
  using assms
  by (auto simp: create_defaults_def time_now_def getters setters Field_def Let_def reads.refl
      split: option.splits if_splits)

text \<open>A membership that lacks its user, tenant, branch or role is refused before anything
  reaches the database, whatever the library does: \<open>Save\<close> reports the first such field in the
  order of the schema and leaves every table as it was.\<close>

theorem incomplete_create_is_refused:
  assumes "f \<in> {FieldUserID, FieldTenantID, FieldBranchID, FieldRoleID}" and "Field f m = None"
    and "run_state (create_Save E C m) w = ((r, m'), w')"
  shows "r = Inl (missing_field (hd (filter (\<lambda>g. Field g m = None)
      [FieldUserID, FieldTenantID, FieldBranchID, FieldRoleID]))) \<and> same_tables w w'"
proof -
  obtain n w1 where n: "run_state (create_defaults E m) w = (n, w1)" by fastforce
  note keeps = create_defaults_keeps [OF n]
  from keeps(1) [of f] assms(1,2) have "\<exists>f \<in> {FieldUserID, FieldTenantID, FieldBranchID, FieldRoleID}. Field f n = None"
    by auto
  from create_check_first [OF this] assms(3) n
  have r: "r = Inl (missing_field (hd (filter (\<lambda>g. Field g n = None) (tl Columns))))" and "w' = w1"
    by (auto simp: create_Save_def create_sqlSave_def)
  obtain st c where "Field FieldStatus n = Some st" "Field FieldCreatedAt n = Some c"
    using keeps(3,4) by blast
  then have "filter (\<lambda>g. Field g n = None) (tl Columns) = filter (\<lambda>g. Field g m = None)
      [FieldUserID, FieldTenantID, FieldBranchID, FieldRoleID]"
    by (simp add: Columns_def keeps(1))
  with r \<open>w' = w1\<close> keeps(2) show ?thesis by simp
qed

theorem incomplete_create_is_refused_witness:
  "fst (fst (run_state (create_Save env0 (sql_config env0) (SetTenantID ''t1'' (SetUserID ''u1'' client_Create))) shop))
    = Inl (missing_field FieldBranchID)"
proof -
  let ?m = "SetTenantID ''t1'' (SetUserID ''u1'' client_Create)"
  have f: "Field FieldBranchID ?m = None" "Field FieldRoleID ?m = None"
    "Field FieldUserID ?m \<noteq> None" "Field FieldTenantID ?m \<noteq> None"
    by (simp_all add: Field_def getters setters client_Create_def newTenantUserMutation_def)
  obtain r m' w' where "run_state (create_Save env0 (sql_config env0) ?m) shop = ((r, m'), w')"
    by (metis prod.exhaust)
  from incomplete_create_is_refused [OF _ f(1) this] this f show ?thesis by simp
qed

text \<open>The check of an update refuses to clear a required edge only when a new target is set as
  well; clearing it alone passes, and the statement would set the column to NULL.\<close>

lemma clearing_alone_passes:
  "update_check (ClearUser client_Update) = None"
  "us_clear (update_spec C Columns None (ClearUser client_Update)) = [FieldUserID]"
  "update_check (ClearUser (SetUserID u client_Update)) \<noteq> None"
  by (simp_all add: update_check_def update_spec_def UserCleared_def TenantCleared_def UserIDs_def
      ClearUser_def SetUserID_def client_Update_def newTenantUserMutation_def)

end
