(* ===== verification/Permissions.thy ===== *)
theory Permissions
  imports GoStrings
begin

text \<open>
  \<open>src/internal/rbac/permissions.go\<close> (the permission vocabulary, the system roles, wildcard
  matching) and the plugin runtime's own copy of the matcher in
  \<open>src/internal/plugin/plugin.go\<close>. The locale \<open>permission_matcher\<close> states what both promise;
  the list-level checks \<open>Allows\<close> and \<open>HasPermission\<close> are its clients.
\<close>

section \<open>The vocabulary\<close>

definition PermUserRead :: string where "PermUserRead = ''user:read''"
definition PermUserWrite :: string where "PermUserWrite = ''user:write''"
definition PermUserInvite :: string where "PermUserInvite = ''user:invite''"
definition PermBranchRead :: string where "PermBranchRead = ''branch:read''"
definition PermBranchWrite :: string where "PermBranchWrite = ''branch:write''"
definition PermBranchManage :: string where "PermBranchManage = ''branch:manage''"
definition PermPluginInstall :: string where "PermPluginInstall = ''plugin:install''"
definition PermPluginUninstall :: string where "PermPluginUninstall = ''plugin:uninstall''"
definition PermBillingView :: string where "PermBillingView = ''billing:view''"
definition PermBillingManage :: string where "PermBillingManage = ''billing:manage''"
definition PermTenantManage :: string where "PermTenantManage = ''tenant:manage''"
definition PermSaleVoid :: string where "PermSaleVoid = ''sale:void''"
definition PermSaleRefund :: string where "PermSaleRefund = ''sale:refund''"
definition PermAll :: string where "PermAll = ''*:*''"

lemmas Perm_defs = PermUserRead_def PermUserWrite_def PermUserInvite_def PermBranchRead_def
  PermBranchWrite_def PermBranchManage_def PermPluginInstall_def PermPluginUninstall_def
  PermBillingView_def PermBillingManage_def PermTenantManage_def PermSaleVoid_def
  PermSaleRefund_def PermAll_def

definition Catalog :: "string list" where
  "Catalog = [PermUserRead, PermUserWrite, PermUserInvite,
     PermBranchRead, PermBranchWrite, PermBranchManage,
     PermPluginInstall, PermPluginUninstall,
     PermBillingView, PermBillingManage,
     PermTenantManage,
     PermSaleVoid, PermSaleRefund]"

definition BaselinePermissions :: "string list" where
  "BaselinePermissions = [PermUserRead, PermBranchRead]"

text \<open>The loops of \<open>WithBaseline\<close>: append what has not been seen yet.\<close>

fun append_unseen :: "string list \<Rightarrow> string set \<Rightarrow> string list \<Rightarrow> string list \<times> string set" where
  "append_unseen [] seen out = (out, seen)"
| "append_unseen (p # ps) seen out =
     (if p \<in> seen then append_unseen ps seen out
      else append_unseen ps (insert p seen) (out @ [p]))"

definition WithBaseline :: "string list \<Rightarrow> string list" where
  "WithBaseline perms =
     (case append_unseen BaselinePermissions {} [] of (out, seen) \<Rightarrow>
        fst (append_unseen perms seen out))"

record SystemRole =
  sr_slug :: string
  sr_name :: string
  sr_permissions :: "string list"

definition SystemRoles :: "SystemRole list" where
  "SystemRoles = [
     \<lparr>sr_slug = ''owner'', sr_name = ''Owner'', sr_permissions = [PermAll]\<rparr>,
     \<lparr>sr_slug = ''admin'', sr_name = ''Admin'', sr_permissions =
        [''user:*'', ''branch:*'', ''plugin:*'', PermBillingView, PermSaleVoid, PermSaleRefund]\<rparr>,
     \<lparr>sr_slug = ''manager'', sr_name = ''Manager'', sr_permissions =
        [PermUserRead, PermUserInvite, PermBranchRead, PermBranchWrite, PermSaleVoid, PermSaleRefund]\<rparr>,
     \<lparr>sr_slug = ''member'', sr_name = ''Member'', sr_permissions = [PermUserRead, PermBranchRead]\<rparr>]"

section \<open>Matching\<close>

text \<open>\<open>splitPerm\<close>: \<open>None\<close> is the result with \<open>ok = false\<close>.\<close>

definition splitPerm :: "string \<Rightarrow> (string \<times> string) option" where
  "splitPerm p = (case cut CHR '':'' p of (res, act, found) \<Rightarrow>
     if \<not> found \<or> res = [] \<or> act = [] then None else Some (res, act))"

text \<open>\<open>match\<close> of the rbac package.\<close>

definition match :: "string \<Rightarrow> string \<Rightarrow> bool" where
  "match granted required =
     (if granted = required \<or> granted = PermAll then True
      else case splitPerm granted of None \<Rightarrow> False | Some (gRes, gAct) \<Rightarrow>
        (case splitPerm required of None \<Rightarrow> False | Some (rRes, rAct) \<Rightarrow>
           (gRes = ''*'' \<or> gRes = rRes) \<and> (gAct = ''*'' \<or> gAct = rAct)))"

fun any_match :: "(string \<Rightarrow> string \<Rightarrow> bool) \<Rightarrow> string list \<Rightarrow> string \<Rightarrow> bool" where
  "any_match m [] required = False"
| "any_match m (g # gs) required = (if m g required then True else any_match m gs required)"

definition Allows :: "string list \<Rightarrow> string \<Rightarrow> bool" where
  "Allows granted required = (if required = [] then True else any_match match granted required)"

text \<open>\<open>permMatch\<close> of the plugin runtime: the same rule without the checks for empty segments.\<close>

definition permMatch :: "string \<Rightarrow> string \<Rightarrow> bool" where
  "permMatch granted required =
     (if granted = required \<or> granted = ''*:*'' then True
      else case cut CHR '':'' granted of (gr, ga, ok1) \<Rightarrow> (case cut CHR '':'' required of (rr, ra, ok2) \<Rightarrow>
        if \<not> ok1 \<or> \<not> ok2 then False
        else (gr = ''*'' \<or> gr = rr) \<and> (ga = ''*'' \<or> ga = ra)))"

text \<open>\<open>Permissions(c)\<close>: the header \<open>X-ApiCoreX-Permissions\<close> split at commas.\<close>

definition HeaderList :: "string \<Rightarrow> string list" where
  "HeaderList v = (if v = [] then [] else split_on CHR '','' v)"

definition HasPermission :: "string \<Rightarrow> string \<Rightarrow> bool" where
  "HasPermission header perm = any_match permMatch (HeaderList header) perm"

section \<open>Matching as a relation between patterns\<close>

text \<open>What both matchers promise. Every law is about well-formed permissions, those that
  \<open>splitPerm\<close> accepts, except that a permission always covers itself and the owner's
  \<open>*:*\<close> everything.\<close>

lemma any_match_iff: "any_match m gs r \<longleftrightarrow> (\<exists>g \<in> set gs. m g r)"
  by (induction gs) auto

lemma any_match_append [simp]: "any_match m (xs @ ys) r \<longleftrightarrow> any_match m xs r \<or> any_match m ys r"
  by (auto simp: any_match_iff)

definition segment_covers :: "string \<Rightarrow> string \<Rightarrow> bool" where
  "segment_covers g r \<longleftrightarrow> g = ''*'' \<or> g = r"

lemma segment_covers_refl [simp]: "segment_covers r r"
  by (simp add: segment_covers_def)

lemma segment_covers_trans: "segment_covers g h \<Longrightarrow> segment_covers h r \<Longrightarrow> segment_covers g r"
  by (auto simp: segment_covers_def)

lemma splitPerm_Some:
  "splitPerm p = Some (res, act) \<longleftrightarrow>
     p = res @ '':'' @ act \<and> CHR '':'' \<notin> set res \<and> res \<noteq> [] \<and> act \<noteq> []"
proof
  assume "splitPerm p = Some (res, act)"
  then have "cut CHR '':'' p = (res, act, True)" "res \<noteq> []" "act \<noteq> []"
    by (auto simp: splitPerm_def split: prod.splits if_splits)
  then show "p = res @ '':'' @ act \<and> CHR '':'' \<notin> set res \<and> res \<noteq> [] \<and> act \<noteq> []"
    by (auto dest: cut_found)
qed (auto simp: splitPerm_def)

lemma splitPerm_parts [simp]:
  "CHR '':'' \<notin> set res \<Longrightarrow> res \<noteq> [] \<Longrightarrow> act \<noteq> [] \<Longrightarrow> splitPerm (res @ CHR '':'' # act) = Some (res, act)"
  by (simp add: splitPerm_Some)

locale permission_matcher =
  fixes m :: "string \<Rightarrow> string \<Rightarrow> bool"
  assumes covers_itself: "m p p"
    and covers_all: "m PermAll p"
    and covers_parts: "splitPerm g = Some (gr, ga) \<Longrightarrow> splitPerm p = Some (pr, pa) \<Longrightarrow>
      m g p \<longleftrightarrow> segment_covers gr pr \<and> segment_covers ga pa"
    and covers_malformed: "splitPerm g = None \<Longrightarrow> splitPerm p = Some q \<Longrightarrow> \<not> m g p"
begin

lemma covers_iff:
  "splitPerm p = Some (pr, pa) \<Longrightarrow>
     m g p \<longleftrightarrow> (\<exists>gr ga. splitPerm g = Some (gr, ga) \<and> segment_covers gr pr \<and> segment_covers ga pa)"
  by (cases "splitPerm g") (auto simp: covers_malformed covers_parts)

lemma covers_trans:
  assumes "m a b" "m b c" "splitPerm b = Some bq" "splitPerm c = Some cq"
  shows "m a c"
proof -
  obtain br ba cr ca where q: "bq = (br, ba)" "cq = (cr, ca)" by (cases bq, cases cq)
  then show ?thesis
    using assms by (auto simp: covers_iff [of b br ba] covers_iff [of c cr ca] intro: segment_covers_trans)
qed

lemma resource_wildcard:
  "CHR '':'' \<notin> set res \<Longrightarrow> res \<noteq> [] \<Longrightarrow> act \<noteq> [] \<Longrightarrow> m (res @ '':*'') (res @ '':'' @ act)"
  by (simp add: covers_parts segment_covers_def)

lemma granted_monotone: "set xs \<subseteq> set ys \<Longrightarrow> any_match m xs p \<Longrightarrow> any_match m ys p"
  by (auto simp: any_match_iff)

lemma granted_empty: "\<not> any_match m [] p"
  by simp

lemma granted_owner: "PermAll \<in> set xs \<Longrightarrow> any_match m xs p"
  using covers_all by (auto simp: any_match_iff)

lemma granted_weaker:
  "splitPerm b = Some bq \<Longrightarrow> splitPerm c = Some cq \<Longrightarrow> m b c \<Longrightarrow> any_match m xs b \<Longrightarrow> any_match m xs c"
  by (auto simp: any_match_iff intro: covers_trans)

end

interpretation rbac_match: permission_matcher match
proof
  show "match p p" for p by (simp add: match_def)
  show "match PermAll p" for p by (simp add: match_def)
next
  fix g gr ga p pr pa
  assume g: "splitPerm g = Some (gr, ga)" and p: "splitPerm p = Some (pr, pa)"
  have "g = p \<Longrightarrow> gr = pr \<and> ga = pa" using g p by simp
  moreover have "g = PermAll \<Longrightarrow> gr = ''*'' \<and> ga = ''*''"
    using g by (auto simp: PermAll_def splitPerm_def)
  ultimately show "match g p \<longleftrightarrow> segment_covers gr pr \<and> segment_covers ga pa"
    using g p by (auto simp: match_def segment_covers_def)
next
  fix g p q assume "splitPerm g = None" "splitPerm p = Some q"
  moreover have "splitPerm PermAll \<noteq> None" by (simp add: PermAll_def splitPerm_def)
  ultimately show "\<not> match g p" by (auto simp: match_def)
qed

text \<open>On a well-formed required permission the runtime's matcher is the rbac matcher.\<close>

lemma permMatch_match:
  assumes "splitPerm p = Some q"
  shows "permMatch g p = match g p"
proof -
  obtain pr pa where q: "q = (pr, pa)" by (cases q)
  have p: "cut CHR '':'' p = (pr, pa, True)" and ne: "pr \<noteq> []" "pa \<noteq> []"
    using assms q by (auto simp: splitPerm_def split: prod.splits if_splits)
  obtain gr ga found where g: "cut CHR '':'' g = (gr, ga, found)" by (cases "cut CHR '':'' g")
  show ?thesis
    using assms p g ne q by (auto simp: permMatch_def match_def PermAll_def splitPerm_def)
qed

lemma permMatch_reflexive: "permMatch p p" "permMatch PermAll p"
  by (simp_all add: permMatch_def PermAll_def)

interpretation runtime_match: permission_matcher permMatch
  by unfold_locales
    (simp_all add: permMatch_match permMatch_reflexive rbac_match.covers_parts
      rbac_match.covers_malformed)

section \<open>The baseline\<close>

lemma append_unseen_props:
  assumes "append_unseen ps seen out = (out', seen')" and "distinct out" and "set out = seen"
  shows "distinct out' \<and> set out' = seen \<union> set ps \<and> seen' = seen \<union> set ps \<and> (\<exists>zs. out' = out @ zs)"
  using assms
proof (induction ps arbitrary: seen out)
  case (Cons p ps)
  show ?case
  proof (cases "p \<in> seen")
    case True
    with Cons.IH [of seen out] Cons.prems show ?thesis by auto
  next
    case False
    then have "append_unseen ps (insert p seen) (out @ [p]) = (out', seen')" "distinct (out @ [p])"
      "set (out @ [p]) = insert p seen"
      using Cons.prems by auto
    from Cons.IH [OF this] show ?thesis by auto
  qed
qed simp

lemma WithBaseline_props:
  "distinct (WithBaseline perms)" "set (WithBaseline perms) = set BaselinePermissions \<union> set perms"
  "\<exists>zs. WithBaseline perms = BaselinePermissions @ zs"
proof -
  obtain out seen where b: "append_unseen BaselinePermissions {} [] = (out, seen)" by fastforce
  obtain out' seen' where p: "append_unseen perms seen out = (out', seen')" by fastforce
  have "out = BaselinePermissions" "seen = set BaselinePermissions"
    using b by (auto simp: BaselinePermissions_def Perm_defs)
  then show "distinct (WithBaseline perms)"
    "set (WithBaseline perms) = set BaselinePermissions \<union> set perms"
    "\<exists>zs. WithBaseline perms = BaselinePermissions @ zs"
    using append_unseen_props [OF p] b p
    by (auto simp: WithBaseline_def BaselinePermissions_def Perm_defs)
qed

lemma Allows_any: "required \<noteq> [] \<Longrightarrow> Allows granted required = any_match match granted required"
  by (simp add: Allows_def)

lemma Catalog_wellformed: "p \<in> set Catalog \<Longrightarrow> \<exists>q. splitPerm p = Some q"
  by (auto simp: Catalog_def Perm_defs splitPerm_def)

end
