(* ===== verification/RoleStore.thy ===== *)
theory RoleStore
  imports Permissions Example
begin

text \<open>
  \<open>src/internal/rbac/store.go\<close>: the store of roles and role permissions. \<open>role_perms\<close> is the
  abstract view of a role: the permission rows that refer to it. The lemmas relate every
  operation to that view: \<open>Permissions\<close> reads it, \<open>syncPermissions\<close> makes it the wanted set
  whatever order Go ranges over its map, and \<open>SeedSystemRoles\<close> makes the four built-in roles
  exist with exactly their permissions.
\<close>

section \<open>Operations\<close>

definition SystemRoleID :: "env \<Rightarrow> string \<Rightarrow> (world, error + string) state" where
  "SystemRoleID E slug =
     attempt (ent_only E roles (\<lambda>r. r_tenant_id r = [] \<and> r_slug r = slug)) (ErrWrap (''system role '' @ slug))
       (\<lambda>r. ok (r_id r))"

definition ResolveRoleID :: "env \<Rightarrow> string \<Rightarrow> string \<Rightarrow> (world, error + string) state" where
  "ResolveRoleID E tenantID slug =
     handle (ent_only E roles (\<lambda>r. r_tenant_id r = tenantID \<and> r_slug r = slug))
       (\<lambda>_. attempt (ent_only E roles (\<lambda>r. r_tenant_id r = [] \<and> r_slug r = slug))
          (\<lambda>_. ErrText (''role '' @ slug @ '' not found for tenant''))
          (\<lambda>r. ok (r_id r)))
       (\<lambda>r. ok (r_id r))"

definition RoleUsableBy :: "env \<Rightarrow> string \<Rightarrow> string \<Rightarrow> (world, error + bool) state" where
  "RoleUsableBy E tenantID roleID =
     handle (ent_get E roles r_id roleID) (\<lambda>_. ok False)
       (\<lambda>r. ok (r_tenant_id r = [] \<or> r_tenant_id r = tenantID))"

definition Permissions :: "env \<Rightarrow> string \<Rightarrow> (world, error + string list) state" where
  "Permissions E roleID =
     attempt (ent_all E role_permissions (\<lambda>p. rp_role_id p = roleID)) id
       (\<lambda>rps. ok (map rp_permission rps))"

text \<open>The map \<open>have\<close> of \<open>syncPermissions\<close>: a later row replaces an earlier one.\<close>

definition have_map :: "role_permission list \<Rightarrow> string \<rightharpoonup> string" where
  "have_map rps = foldl (\<lambda>m rp. m(rp_permission rp \<mapsto> rp_id rp)) Map.empty rps"

definition sync_add :: "env \<Rightarrow> string \<Rightarrow> (string \<rightharpoonup> string) \<Rightarrow> string \<Rightarrow> (world, error + unit) state" where
  "sync_add E roleID hav p =
     (case hav p of
        Some _ \<Rightarrow> ok ()
      | None \<Rightarrow> do {
          i \<leftarrow> short_id E ''rp_'';
          attempt (create_role_permission E i roleID p) (ErrWrap (''add permission '' @ p)) (\<lambda>_. ok ()) })"

definition sync_remove ::
  "env \<Rightarrow> (string \<rightharpoonup> string) \<Rightarrow> string list \<Rightarrow> string \<Rightarrow> (world, error + unit) state" where
  "sync_remove E hav want perm =
     (if perm \<notin> set want then
        attempt (ent_delete_one E role_permissions role_permissions_update (\<lambda>_ _. False) rp_id (the (hav perm)))
          (ErrWrap (''remove permission '' @ perm)) ok
      else ok ())"

definition syncPermissions :: "env \<Rightarrow> string \<Rightarrow> string list \<Rightarrow> (world, error + unit) state" where
  "syncPermissions E roleID want =
     attempt (ent_all E role_permissions (\<lambda>p. rp_role_id p = roleID)) id (\<lambda>existing.
       let hav = have_map existing in
       handle (for_each want (\<lambda>p _. sync_add E roleID hav p) ()) fail
         (\<lambda>_. do {
            keys \<leftarrow> range_keys E (remdups (map rp_permission existing));
            for_each keys (\<lambda>perm _. sync_remove E hav want perm) () }))"

text \<open>The body of the loop of \<open>SeedSystemRoles\<close>: find or create the role, then sync it.\<close>

definition seed_role :: "env \<Rightarrow> SystemRole \<Rightarrow> (string \<rightharpoonup> string) \<Rightarrow> (world, error + (string \<rightharpoonup> string)) state" where
  "seed_role E sr ids =
     handle
       (handle (ent_only E roles (\<lambda>r. r_tenant_id r = [] \<and> r_slug r = sr_slug sr))
         (\<lambda>e. if e = ErrDB NotFound then do {
                  i \<leftarrow> short_id E ''role_'';
                  attempt (create_role E i [] (sr_slug sr) (sr_name sr) True)
                    (ErrWrap (''seed role '' @ sr_slug sr)) ok }
               else fail (ErrWrap (''query role '' @ sr_slug sr) e))
         ok)
       fail
       (\<lambda>r. attempt (syncPermissions E (r_id r) (sr_permissions sr)) id
          (\<lambda>_. ok (ids(sr_slug sr \<mapsto> r_id r))))"

definition SeedSystemRoles :: "env \<Rightarrow> (world, error + (string \<rightharpoonup> string)) state" where
  "SeedSystemRoles E = for_each SystemRoles (seed_role E) Map.empty"

section \<open>The view of a role\<close>

definition role_perms :: "world \<Rightarrow> string \<Rightarrow> string list" where
  "role_perms w roleID = map rp_permission (filter (\<lambda>p. rp_role_id p = roleID) (role_permissions w))"

lemma role_perms_tick [simp]: "role_perms (w\<lparr>tick := n\<rparr>) r = role_perms w r"
  by (simp add: role_perms_def)

lemma wp_Permissions [wp_intro]:
  assumes "\<And>n. Q (Inl (ErrDB Fault)) (w\<lparr>tick := n\<rparr>)"
    and "\<And>n ps. mset ps = mset (role_perms w roleID) \<Longrightarrow> Q (Inr ps) (w\<lparr>tick := n\<rparr>)"
  shows "wp (Permissions E roleID) Q w"
  unfolding Permissions_def role_perms_def wp_attempt
  by (rule wp_ent_all) (auto simp: assms(1) role_perms_def intro!: assms(2))


lemma have_map_eq: "have_map rps = map_of (rev (map (\<lambda>rp. (rp_permission rp, rp_id rp)) rps))"
proof -
  have "foldl (\<lambda>m rp. m(rp_permission rp \<mapsto> rp_id rp)) m rps =
      m ++ map_of (rev (map (\<lambda>rp. (rp_permission rp, rp_id rp)) rps))" for m
    by (induction rps arbitrary: m) (auto simp: map_add_assoc [symmetric] simp flip: map_add_upd_left fun_upd_def)
  then show ?thesis by (simp add: have_map_def)
qed

lemma have_map_Some: "have_map rps k = Some i \<Longrightarrow> \<exists>p \<in> set rps. rp_permission p = k \<and> rp_id p = i"
  by (auto simp: have_map_eq dest!: map_of_SomeD)

lemma have_map_None: "have_map rps k = None \<longleftrightarrow> k \<notin> rp_permission ` set rps"
  by (simp add: have_map_eq map_of_eq_None_iff image_image)

lemma have_map_row:
  "distinct (map rp_permission rps) \<Longrightarrow> p \<in> set rps \<Longrightarrow> have_map rps (rp_permission p) = Some (rp_id p)"
  by (auto simp: have_map_eq rev_map [symmetric] comp_def intro!: map_of_is_SomeI)

definition rp_wf :: "world \<Rightarrow> bool" where
  "rp_wf w \<longleftrightarrow> keyed rp_id role_permissions w
     \<and> distinct (map (\<lambda>p. (rp_role_id p, rp_permission p)) (role_permissions w))"

lemma rp_wf_tick [simp]: "rp_wf (w\<lparr>tick := n\<rparr>) = rp_wf w"
  by (simp add: rp_wf_def keyed_def)

lemma wp_create_role_permission:
  assumes "\<And>n e. Q (Inl (ErrDB e)) (w\<lparr>tick := n\<rparr>)"
    and "\<And>n. i \<notin> rp_id ` set (role_permissions w) \<Longrightarrow>
      \<not> (\<exists>x \<in> set (role_permissions w). rp_role_id x = r \<and> rp_permission x = p) \<Longrightarrow>
      Q (Inr \<lparr>rp_id = i, rp_role_id = r, rp_permission = p\<rparr>)
        (w\<lparr>role_permissions := role_permissions w @ [\<lparr>rp_id = i, rp_role_id = r, rp_permission = p\<rparr>], tick := n\<rparr>)"
  shows "wp (create_role_permission E i r p) Q w"
  unfolding create_role_permission_def
  by (rule wp_ent_create) (simp_all add: role_permission_clash_def table_put assms image_iff, metis assms(2) image_iff)


lemma wp_delete_role_permission:
  assumes "\<And>n e. Q (Inl (ErrDB e)) (w\<lparr>role_permissions := filter (\<lambda>p. rp_id p \<noteq> i) (role_permissions w), tick := n\<rparr>)"
    and "\<And>n e. Q (Inl (ErrDB e)) (w\<lparr>tick := n\<rparr>)"
    and "\<And>n. Q (Inr ()) (w\<lparr>role_permissions := filter (\<lambda>p. rp_id p \<noteq> i) (role_permissions w), tick := n\<rparr>)"
  shows "wp (ent_delete_one E role_permissions role_permissions_update c rp_id i) Q w"
  by (rule wp_ent_delete_one) (simp_all add: table_put assms)

section \<open>Syncing\<close>

lemma wp_sync_adds:
  assumes "rp_wf w" and hav: "\<And>p. hav p = None \<longleftrightarrow> p \<notin> set (role_perms w roleID)"
  shows "wp (for_each want (\<lambda>p _. sync_add E roleID hav p) ())
    (\<lambda>r w'. \<exists>news n. w' = w\<lparr>role_permissions := role_permissions w @ news, tick := n\<rparr> \<and> rp_wf w' \<and>
       (\<forall>p \<in> set news. rp_role_id p = roleID) \<and> rp_permission ` set news \<subseteq> set want \<and>
       (r = Inr () \<longrightarrow> rp_permission ` set news = set want - set (role_perms w roleID))) w"
proof (rule wp_for_each [where I = "\<lambda>xs _ w'. \<exists>news n.
    w' = w\<lparr>role_permissions := role_permissions w @ news, tick := n\<rparr> \<and> rp_wf w' \<and>
    (\<forall>p \<in> set news. rp_role_id p = roleID) \<and>
    rp_permission ` set news = set xs - set (role_perms w roleID)"], goal_cases)
  case 1
  have "w = w\<lparr>role_permissions := role_permissions w @ [], tick := tick w\<rparr>" by simp
  then show ?case using assms(1) by (intro exI [of _ "[]"] exI [of _ "tick w"]) simp
next
  case (2 xs1 x xs2 a t)
  then obtain news n where t: "t = w\<lparr>role_permissions := role_permissions w @ news, tick := n\<rparr>"
    and wf: "rp_wf t" and news: "\<forall>p \<in> set news. rp_role_id p = roleID"
    and perms: "rp_permission ` set news = set xs1 - set (role_perms w roleID)" by auto
  have wanted: "rp_permission ` set news \<subseteq> set want" using perms 2(1) by auto
  show ?case
  proof (cases "hav x")
    case (Some i)
    then have "x \<in> set (role_perms w roleID)" using hav [of x] by auto
    then show ?thesis using Some t wf news perms
      by (auto simp: sync_add_def intro!: exI [of _ news] exI [of _ n])
  next
    case None
    then have x: "x \<notin> set (role_perms w roleID)" using hav by auto
    show ?thesis unfolding sync_add_def None option.case wp_bind
    proof (rule wp_short_id, unfold wp_attempt, rule wp_create_role_permission, goal_cases)
      case (1 i m n' e)
      then show ?case using t wf news wanted by (auto intro!: exI [of _ news] exI [of _ n'])
    next
      case (2 i m n')
      let ?p = "\<lparr>rp_id = i, rp_role_id = roleID, rp_permission = x\<rparr>"
      have "rp_wf (w\<lparr>role_permissions := role_permissions w @ news @ [?p], tick := n'\<rparr>)"
        using wf 2 by (auto simp: rp_wf_def keyed_def t)
      moreover have "rp_permission ` set (news @ [?p]) = set (xs1 @ [x]) - set (role_perms w roleID)"
        unfolding set_append image_Un perms using x by auto
      ultimately show ?case using t news
        unfolding sum.case wp_ok by (intro exI [of _ "news @ [?p]"] exI [of _ n']) simp
    qed
  qed
qed auto


lemma wp_sync_removes:
  assumes "\<And>k. k \<in> set keys \<Longrightarrow> hav k = Some (idof k)"
  shows "wp (for_each keys (\<lambda>perm _. sync_remove E hav want perm) ())
    (\<lambda>r w'. \<exists>D n. w' = w\<lparr>role_permissions := filter (\<lambda>p. rp_id p \<notin> D) (role_permissions w), tick := n\<rparr> \<and>
       D \<subseteq> idof ` (set keys - set want) \<and> (r = Inr () \<longrightarrow> D = idof ` (set keys - set want))) w"
proof (rule wp_for_each [where I = "\<lambda>xs _ w'. \<exists>n.
    w' = w\<lparr>role_permissions := filter (\<lambda>p. rp_id p \<notin> idof ` (set xs - set want)) (role_permissions w), tick := n\<rparr>"],
    goal_cases)
  case 1
  then show ?case by (auto intro: exI [of _ "tick w"])
next
  case (2 xs1 x xs2 a t)
  then obtain n where t: "t = w\<lparr>role_permissions :=
    filter (\<lambda>p. rp_id p \<notin> idof ` (set xs1 - set want)) (role_permissions w), tick := n\<rparr>" by auto
  have x: "the (hav x) = idof x" using 2(1) assms [of x] by simp
  show ?case
  proof (cases "x \<in> set want")
    case True
    then have "set (xs1 @ [x]) - set want = set xs1 - set want" by auto
    then show ?thesis using True t by (auto simp: sync_remove_def)
  next
    case False
    let ?D1 = "idof ` (set xs1 - set want)" and ?D2 = "idof ` (set (xs1 @ [x]) - set want)"
    let ?w = "\<lambda>D n. w\<lparr>role_permissions := filter (\<lambda>p. rp_id p \<notin> D) (role_permissions w), tick := n\<rparr>"
    have "?D2 = insert (idof x) ?D1" using False by auto
    then have A: "t\<lparr>tick := m\<rparr> = ?w ?D1 m"
      and B: "t\<lparr>role_permissions := filter (\<lambda>p. rp_id p \<noteq> idof x) (role_permissions t), tick := m\<rparr> = ?w ?D2 m"
      for m by (simp_all add: t conj_commute)
    have sub: "?D1 \<subseteq> idof ` (set keys - set want)" "?D2 \<subseteq> idof ` (set keys - set want)"
      using 2(1) by auto
    show ?thesis unfolding sync_remove_def x if_P [OF False] wp_attempt
      by (rule wp_delete_role_permission; unfold A B sum.case wp_ok; use sub in blast)
  qed
qed auto


text \<open>What both loops leave behind, over the list of rows alone.\<close>

lemma sync_rows:
  assumes ids: "distinct (map rp_id (rs @ news))"
    and ex: "mset existing = mset (filter (\<lambda>p. rp_role_id p = roleID) rs)"
    and uniq: "distinct (map rp_permission existing)"
    and news: "\<forall>p \<in> set news. rp_role_id p = roleID" "rp_permission ` set news \<subseteq> set want"
    and D: "D \<subseteq> (the \<circ> have_map existing) ` (rp_permission ` set existing - set want)"
    and p: "p \<in> set (rs @ news)"
  shows "rp_role_id p \<noteq> roleID \<or> rp_permission p \<in> set want \<Longrightarrow> rp_id p \<notin> D"
    and "D = (the \<circ> have_map existing) ` (rp_permission ` set existing - set want) \<Longrightarrow>
      rp_role_id p = roleID \<Longrightarrow> rp_permission p \<notin> set want \<Longrightarrow> rp_id p \<in> D"
proof -
  have set_ex: "set existing = {p \<in> set rs. rp_role_id p = roleID}"
    using ex by (metis mset_eq_setD set_filter)
  have id: "the (have_map existing (rp_permission q)) = rp_id q" if "q \<in> set existing" for q
    using have_map_row [OF uniq that] by simp
  show "rp_id p \<notin> D" if "rp_role_id p \<noteq> roleID \<or> rp_permission p \<in> set want"
  proof
    assume "rp_id p \<in> D"
    then obtain q where q: "q \<in> set existing" "rp_permission q \<notin> set want" "rp_id p = rp_id q"
      using D id by fastforce
    then have "p = q" using ids p set_ex by (metis (mono_tags, lifting) UnI1 inj_onD distinct_map mem_Collect_eq set_append)
    then show False using that q set_ex by auto
  qed
  show "rp_id p \<in> D" if "D = (the \<circ> have_map existing) ` (rp_permission ` set existing - set want)"
    "rp_role_id p = roleID" "rp_permission p \<notin> set want"
  proof -
    have "p \<in> set existing" using p news that set_ex by auto
    then show ?thesis using that id by force
  qed
qed

lemma sync_outcome:
  fixes k :: nat
  assumes w1: "w1 = w\<lparr>role_permissions := role_permissions w @ news, tick := n1\<rparr>" "rp_wf w1"
    and ex: "mset existing = mset (filter (\<lambda>p. rp_role_id p = roleID) (role_permissions w))"
    and uniq: "distinct (map rp_permission existing)"
    and news: "\<forall>p \<in> set news. rp_role_id p = roleID" "rp_permission ` set news \<subseteq> set want"
    and D: "D \<subseteq> (the \<circ> have_map existing) ` (rp_permission ` set existing - set want)"
  defines "w2 \<equiv> w1\<lparr>role_permissions := filter (\<lambda>p. rp_id p \<notin> D) (role_permissions w1), tick := k\<rparr>"
  shows "rp_wf w2" and "other \<noteq> roleID \<Longrightarrow> role_perms w2 other = role_perms w other"
    and "set (role_perms w roleID) \<inter> set want \<subseteq> set (role_perms w2 roleID)"
    and "set (role_perms w2 roleID) \<subseteq> set (role_perms w roleID) \<union> set want"
    and "D = (the \<circ> have_map existing) ` (rp_permission ` set existing - set want) \<Longrightarrow>
      rp_permission ` set news = set want - set (role_perms w roleID) \<Longrightarrow>
      set (role_perms w2 roleID) = set want"
proof -
  have ids: "distinct (map rp_id (role_permissions w @ news))"
    using w1 by (simp add: rp_wf_def keyed_def)
  note keep = sync_rows(1) [OF ids ex uniq news D] and drop = sync_rows(2) [OF ids ex uniq news D]
  show "rp_wf w2" using w1(2) by (simp add: w2_def rp_wf_def keyed_def distinct_map_filter)
  have view: "set (role_perms w2 roleID) =
      {rp_permission p | p. p \<in> set (role_permissions w @ news) \<and> rp_role_id p = roleID \<and> rp_id p \<notin> D}"
    by (auto simp: role_perms_def w2_def w1(1))
  show "role_perms w2 other = role_perms w other" if "other \<noteq> roleID"
  proof -
    have "filter (\<lambda>p. rp_id p \<notin> D \<and> rp_role_id p = other) (role_permissions w @ news) =
        filter (\<lambda>p. rp_role_id p = other) (role_permissions w @ news)"
      using keep that by (intro filter_cong) auto
    moreover have "filter (\<lambda>p. rp_role_id p = other) news = []"
      using news(1) that by (auto simp: filter_empty_conv)
    ultimately show ?thesis by (simp add: role_perms_def w1(1) w2_def conj_commute)
  qed
  show lower: "set (role_perms w roleID) \<inter> set want \<subseteq> set (role_perms w2 roleID)"
    unfolding view using keep by (auto simp: role_perms_def)
  show "set (role_perms w2 roleID) \<subseteq> set (role_perms w roleID) \<union> set want"
    unfolding view using news(2) by (auto simp: role_perms_def)
  show "set (role_perms w2 roleID) = set want"
    if full: "D = (the \<circ> have_map existing) ` (rp_permission ` set existing - set want)"
      "rp_permission ` set news = set want - set (role_perms w roleID)"
  proof (intro equalityI subsetI)
    fix x assume "x \<in> set (role_perms w2 roleID)"
    then show "x \<in> set want" unfolding view using drop [OF _ full(1)] by auto
  next
    fix x assume x: "x \<in> set want"
    show "x \<in> set (role_perms w2 roleID)"
    proof (cases "x \<in> set (role_perms w roleID)")
      case True then show ?thesis using lower x by auto
    next
      case False
      then obtain p where "p \<in> set news" "x = rp_permission p" using full(2) x by auto
      then show ?thesis unfolding view using keep [of p] news by auto
    qed
  qed
qed

lemma wp_syncPermissions:
  assumes wf: "rp_wf w"
  shows "wp (syncPermissions E roleID want) (\<lambda>r w'.
    (\<exists>rps n. w' = w\<lparr>role_permissions := rps, tick := n\<rparr>) \<and> rp_wf w' \<and>
    (\<forall>other. other \<noteq> roleID \<longrightarrow> role_perms w' other = role_perms w other) \<and>
    set (role_perms w roleID) \<inter> set want \<subseteq> set (role_perms w' roleID) \<and>
    set (role_perms w' roleID) \<subseteq> set (role_perms w roleID) \<union> set want \<and>
    (r = Inr () \<longrightarrow> set (role_perms w' roleID) = set want)) w"
    (is "wp _ ?Q w")
proof -
  have quiet: "?Q (Inl e) (w\<lparr>tick := n\<rparr>)" for e n
    using wf by (auto intro!: exI [of _ "role_permissions w"] exI [of _ n])
  show ?thesis unfolding syncPermissions_def wp_attempt Let_def
  proof (rule wp_ent_all, goal_cases)
    case 1 show ?case by simp
  next
    case (2 n)
    show ?case using quiet by simp
  next
    case (3 n existing)
    note 0 = 3
    have perms: "set (map rp_permission existing) = set (role_perms w roleID)"
      using 3 by (metis mset_map role_perms_def set_mset_mset)
    have uniq: "distinct (map rp_permission existing)"
    proof -
      have "distinct (map rp_permission (filter (\<lambda>p. rp_role_id p = roleID) (role_permissions w)))"
        using wf unfolding rp_wf_def distinct_map by (auto simp: inj_on_def)
      then show ?thesis using 3 by (metis mset_eq_imp_distinct_iff mset_map)
    qed
    show ?case unfolding sum.case wp_handle
    proof (rule wp_mono [OF wp_sync_adds [where roleID = roleID]], goal_cases)
      case 1 show ?case using wf by simp
    next
      case (2 p) show ?case using perms by (auto simp: have_map_None)
    next
      case (3 r w1)
      then obtain news n1 where
        w1: "w1 = w\<lparr>role_permissions := role_permissions w @ news, tick := n1\<rparr>" "rp_wf w1" and
        news: "\<forall>p \<in> set news. rp_role_id p = roleID" "rp_permission ` set news \<subseteq> set want" and
        all: "r = Inr () \<longrightarrow> rp_permission ` set news = set want - set (role_perms w roleID)"
        by auto
      let ?D = "(the \<circ> have_map existing) ` (rp_permission ` set existing - set want)"
      have Q: "?Q r' (w1\<lparr>role_permissions := filter (\<lambda>p. rp_id p \<notin> D) (role_permissions w1), tick := k\<rparr>)"
        if D: "D \<subseteq> ?D" "r' = Inr () \<longrightarrow> D = ?D \<and> r = Inr ()" for r' D k
        using sync_outcome [OF w1 0 uniq news D(1)] D(2) all w1(1) by auto
      show ?case
      proof (cases r)
        case (Inl e)
        then show ?thesis using Q [of "{}" "Inl e" "tick w1"] by simp
      next
        case (Inr u)
        show ?thesis unfolding Inr sum.case wp_bind
        proof (rule wp_range_keys, rule wp_mono [OF wp_sync_removes [where idof = "the \<circ> have_map existing"]], goal_cases)
          case (1 keys n2 k)
          then have "k \<in> rp_permission ` set existing"
            by (metis list.set_map mset_eq_setD set_remdups)
          then show ?case by (cases "have_map existing k") (auto simp: have_map_None)
        next
          case (2 keys n2 r' w2)
          then have "set keys = rp_permission ` set existing"
            by (metis list.set_map mset_eq_setD set_remdups)
          moreover from 2(2) obtain D n3 where "w2 = w1\<lparr>role_permissions :=
                filter (\<lambda>p. rp_id p \<notin> D) (role_permissions w1), tick := n3\<rparr>"
              "D \<subseteq> (the \<circ> have_map existing) ` (set keys - set want)"
              "r' = Inr () \<longrightarrow> D = (the \<circ> have_map existing) ` (set keys - set want)"
            by auto
          ultimately show ?case using Q [of D r' n3] Inr by simp
        qed
      qed
    qed
  qed
qed


text \<open>Syncing a role that already has the wanted set touches no row.\<close>

lemma wp_syncPermissions_same:
  assumes wf: "rp_wf w" and same: "set (role_perms w roleID) = set want"
  shows "wp (syncPermissions E roleID want) (\<lambda>_ w'. \<exists>n. w' = w\<lparr>tick := n\<rparr>) w"
  unfolding syncPermissions_def wp_attempt Let_def
proof (rule wp_ent_all, goal_cases)
  case (3 n existing)
  have perms: "set (map rp_permission existing) = set want"
    unfolding same [symmetric] role_perms_def using 3 by (metis mset_map set_mset_mset)
  have none: "have_map existing p \<noteq> None" if "p \<in> set want" for p
    using perms that by (simp add: have_map_None)
  have adds: "for_each want (\<lambda>p _. sync_add E roleID (have_map existing) p) () = ok ()"
  proof (rule for_each_skip)
    fix p assume "p \<in> set want"
    then obtain i where "have_map existing p = Some i" using none by blast
    then show "sync_add E roleID (have_map existing) p = ok ()" by (simp add: sync_add_def)
  qed
  have removes: "for_each ks (\<lambda>k _. sync_remove E hav want k) () = ok ()" if "set ks \<subseteq> set want" for ks hav
    by (rule for_each_skip) (use that in \<open>auto simp: sync_remove_def\<close>)
  show ?case unfolding sum.case wp_handle adds wp_ok wp_bind
  proof (rule wp_range_keys, goal_cases)
    case (1 keys m)
    then have "set keys \<subseteq> set want"
      using perms by (metis mset_eq_setD set_remdups subset_refl)
    then show ?case by (auto simp: removes)
  qed
qed auto

section \<open>Seeding\<close>

definition roles_wf :: "world \<Rightarrow> bool" where
  "roles_wf w \<longleftrightarrow> keyed r_id roles w \<and> distinct (map (\<lambda>r. (r_tenant_id r, r_slug r)) (roles w))"

lemma roles_wf_frame [simp]:
  "roles_wf (w\<lparr>tick := n\<rparr>) = roles_wf w" "roles_wf (w\<lparr>role_permissions := rps\<rparr>) = roles_wf w"
  by (simp_all add: roles_wf_def keyed_def)

definition has_system_role :: "world \<Rightarrow> (string \<rightharpoonup> string) \<Rightarrow> SystemRole \<Rightarrow> bool" where
  "has_system_role w ids sr \<longleftrightarrow> (\<exists>r \<in> set (roles w). ids (sr_slug sr) = Some (r_id r) \<and>
     r_tenant_id r = [] \<and> r_slug r = sr_slug sr \<and> set (role_perms w (r_id r)) = set (sr_permissions sr))"

text \<open>The step every iteration of \<open>SeedSystemRoles\<close> makes: roles are only added, roles of tenants
  and the permission sets of all roles but the seeded one stay.\<close>

definition seed_step :: "string \<Rightarrow> world \<Rightarrow> world \<Rightarrow> bool" where
  "seed_step slug w w' \<longleftrightarrow> roles_wf w' \<and> rp_wf w' \<and> set (roles w) \<subseteq> set (roles w') \<and>
     (\<forall>r \<in> set (roles w). r_tenant_id r \<noteq> [] \<or> r_slug r \<noteq> slug \<longrightarrow>
        role_perms w' (r_id r) = role_perms w (r_id r))"

lemma has_system_role_step:
  assumes "has_system_role w ids sr" "seed_step slug w w'" "sr_slug sr \<noteq> slug"
  shows "has_system_role w' (ids(slug \<mapsto> i)) sr"
  using assms unfolding has_system_role_def seed_step_def
  by (metis fun_upd_other subsetD)

lemma wp_create_role:
  assumes "\<And>n e. Q (Inl (ErrDB e)) (w\<lparr>tick := n\<rparr>)"
    and "\<And>n r. r_id r = i \<Longrightarrow> r_tenant_id r = t \<Longrightarrow> r_slug r = slug \<Longrightarrow> r_name r = nm \<Longrightarrow> r_is_system r = sys \<Longrightarrow>
      i \<notin> r_id ` set (roles w) \<Longrightarrow>
      \<forall>x \<in> set (roles w). r_tenant_id x \<noteq> t \<or> r_slug x \<noteq> slug \<Longrightarrow>
      Q (Inr r) (w\<lparr>roles := roles w @ [r], tick := n\<rparr>)"
  shows "wp (create_role E i t slug nm sys) Q w"
  unfolding create_role_def wp_bind
proof (rule wp_time_now, rule wp_ent_create, goal_cases)
  case (2 now m n)
  let ?r = "\<lparr>r_id = i, r_tenant_id = t, r_slug = slug, r_name = nm, r_is_system = sys, r_created_at = now\<rparr>"
  from 2 have "Q (Inr ?r) (w\<lparr>roles := roles w @ [?r], tick := n\<rparr>)"
    by (intro assms(2)) (auto simp: role_clash_def)
  then show ?case by (simp add: table_put)
qed (simp_all add: assms)


lemma seed_sync_step:
  assumes wf: "roles_wf w" "rp_wf w" and r: "r \<in> set (roles w)" "r_tenant_id r = []" "r_slug r = slug"
  shows "wp (syncPermissions E (r_id r) want)
    (\<lambda>res w'. seed_step slug w w' \<and> roles w' = roles w \<and>
       (res = Inr () \<longrightarrow> set (role_perms w' (r_id r)) = set want)) w"
proof (rule wp_mono [OF wp_syncPermissions [OF wf(2)]], goal_cases)
  case (1 res w')
  then obtain rps n where w': "w' = w\<lparr>role_permissions := rps, tick := n\<rparr>" by blast
  have "x = r" if "x \<in> set (roles w)" "r_id x = r_id r" for x
    using that r wf(1) by (auto simp: roles_wf_def keyed_def distinct_map inj_on_def)
  then show ?case using 1 w' wf(1) r by (auto simp: seed_step_def)
qed

lemma seed_step_trans:
  "seed_step slug u v \<Longrightarrow> seed_step slug v w \<Longrightarrow> seed_step slug u w"
  unfolding seed_step_def by (metis subset_iff)

lemma seed_step_tick: "roles_wf w \<Longrightarrow> rp_wf w \<Longrightarrow> seed_step slug w (w\<lparr>tick := n\<rparr>)"
  by (simp add: seed_step_def)

lemma wp_seed_role:
  assumes wf: "roles_wf w" "rp_wf w"
  shows "wp (seed_role E sr ids) (\<lambda>res w'. seed_step (sr_slug sr) w w' \<and>
    (\<forall>ids'. res = Inr ids' \<longrightarrow> (\<exists>i. ids' = ids(sr_slug sr \<mapsto> i)) \<and> has_system_role w' ids' sr)) w"
    (is "wp _ ?Q w")
proof -
  have found: "wp (syncPermissions E (r_id r) (sr_permissions sr))
      (\<lambda>res w'. seed_step (sr_slug sr) w w' \<and>
         (res = Inr () \<longrightarrow> has_system_role w' (ids(sr_slug sr \<mapsto> r_id r)) sr)) v"
    if v: "seed_step (sr_slug sr) w v"
      and r: "r \<in> set (roles v)" "r_tenant_id r = []" "r_slug r = sr_slug sr" for r v
  proof (rule wp_mono [OF seed_sync_step [OF _ _ r]], goal_cases)
    case (3 res w')
    then have "seed_step (sr_slug sr) w w'" using seed_step_trans v by blast
    then show ?case using 3 r by (auto simp: has_system_role_def)
  qed (use v in \<open>auto simp: seed_step_def\<close>)
  note quiet = seed_step_tick [OF wf]
  show ?thesis unfolding seed_role_def wp_handle wp_attempt
  proof (rule wp_ent_only, goal_cases)
    case (3 n)
    show ?case
    proof (simp, rule wp_short_id, unfold wp_attempt, rule wp_create_role, goal_cases)
      case (2 i m k r)
      let ?v = "w\<lparr>roles := roles w @ [r], tick := k\<rparr>"
      have "seed_step (sr_slug sr) w ?v"
        using wf 2 by (auto simp: seed_step_def roles_wf_def keyed_def rp_wf_def role_perms_def)
      then have "wp (syncPermissions E (r_id r) (sr_permissions sr)) (\<lambda>res w'. seed_step (sr_slug sr) w w' \<and>
          (res = Inr () \<longrightarrow> has_system_role w' (ids(sr_slug sr \<mapsto> r_id r)) sr)) ?v"
        using 2 by (intro found) simp_all
      then show ?case unfolding sum.case wp_ok
        by (simp, elim wp_mono) (auto split: sum.splits)
    qed (simp add: quiet)
  next
    case (5 n r)
    then have "r \<in> set (roles w)" "r_tenant_id r = []" "r_slug r = sr_slug sr"
      by (auto dest!: arg_cong [of _ _ set])
    from found [OF quiet, of r n] this show ?case unfolding sum.case wp_ok
      by (simp, elim wp_mono) (auto split: sum.splits)
  qed (simp_all add: quiet)
qed


lemma seed_step_all:
  assumes wf: "roles_wf w" "rp_wf w"
  shows "wp (SeedSystemRoles E) (\<lambda>res w'. roles_wf w' \<and> rp_wf w' \<and>
    (\<forall>r \<in> set (roles w). r_tenant_id r \<noteq> [] \<longrightarrow>
       r \<in> set (roles w') \<and> role_perms w' (r_id r) = role_perms w (r_id r)) \<and>
    (\<forall>ids. res = Inr ids \<longrightarrow> (\<forall>sr \<in> set SystemRoles. has_system_role w' ids sr))) w"
  unfolding SeedSystemRoles_def
proof (rule wp_for_each [where I = "\<lambda>done ids w'. roles_wf w' \<and> rp_wf w' \<and>
    set (roles w) \<subseteq> set (roles w') \<and>
    (\<forall>r \<in> set (roles w). r_tenant_id r \<noteq> [] \<longrightarrow> role_perms w' (r_id r) = role_perms w (r_id r)) \<and>
    (\<forall>sr \<in> set done. has_system_role w' ids sr)"], goal_cases)
  case 1
  then show ?case using wf by simp
next
  case (2 xs1 sr xs2 ids t)
  have distinct: "distinct (map sr_slug SystemRoles)" by (simp add: SystemRoles_def)
  have other: "sr_slug x \<noteq> sr_slug sr" if "x \<in> set xs1" for x
    using distinct that unfolding 2(1) by (simp, metis image_eqI)
  show ?case
  proof (rule wp_mono [OF wp_seed_role [of t E sr ids]], goal_cases)
    case (3 res w')
    then have step: "seed_step (sr_slug sr) t w'" by simp
    have "\<forall>r \<in> set (roles w). r_tenant_id r \<noteq> [] \<longrightarrow> role_perms w' (r_id r) = role_perms w (r_id r)"
      "set (roles w) \<subseteq> set (roles w')" "roles_wf w'" "rp_wf w'"
      using step 2(2) unfolding seed_step_def by auto
    moreover have "has_system_role w' ids' x" if "res = Inr ids'" "x \<in> set (xs1 @ [sr])" for ids' x
    proof (cases "x = sr")
      case True
      then show ?thesis using that 3 by auto
    next
      case False
      then have "x \<in> set xs1" using that by auto
      then show ?thesis using that 3 step 2(2) other has_system_role_step by blast
    qed
    ultimately show ?case by (cases res) auto
  qed (use 2 in auto)
qed auto

text \<open>When the built-in roles are already there, seeding again changes no table, whatever fails.\<close>

lemma seed_again:
  assumes wf: "roles_wf w" "rp_wf w" and seeded: "\<forall>sr \<in> set SystemRoles. has_system_role w ids sr"
  shows "wp (SeedSystemRoles E) (\<lambda>_ w'. \<exists>n. w' = w\<lparr>tick := n\<rparr>) w"
  unfolding SeedSystemRoles_def
proof (rule wp_for_each [where I = "\<lambda>_ _ w'. \<exists>n. w' = w\<lparr>tick := n\<rparr>"], goal_cases)
  case 1
  then show ?case by (intro exI [of _ "tick w"]) simp
next
  case (2 xs1 sr xs2 a t)
  then obtain n where t: "t = w\<lparr>tick := n\<rparr>" by auto
  have "sr \<in> set SystemRoles" unfolding 2(1) by simp
  with seeded obtain r where r: "r \<in> set (roles w)" "r_tenant_id r = []" "r_slug r = sr_slug sr"
    "set (role_perms w (r_id r)) = set (sr_permissions sr)"
    by (auto simp: has_system_role_def)
  have one: "filter (\<lambda>r. r_tenant_id r = [] \<and> r_slug r = sr_slug sr) (roles w) = [r]"
    using filter_key_unique [of "\<lambda>r. (r_tenant_id r, r_slug r)" "roles w" r] wf(1) r
    by (simp add: roles_wf_def)
  have same: "wp (syncPermissions E (r_id r) (sr_permissions sr)) (\<lambda>_ w'. \<exists>n. w' = w\<lparr>tick := n\<rparr>) (w\<lparr>tick := k\<rparr>)" for k
    using wp_syncPermissions_same [of "w\<lparr>tick := k\<rparr>" "r_id r" "sr_permissions sr" E] wf(2) r(4) by simp
  show ?case unfolding seed_role_def wp_handle wp_attempt t
  proof (rule wp_ent_only, goal_cases)
    case (5 k r')
    with one have "r' = r" by simp
    show ?case unfolding \<open>r' = r\<close> sum.case wp_ok by simp (rule wp_mono [OF same], auto split: sum.splits)
  qed (use one in \<open>auto intro: exI [of _ k for k]\<close>)
qed auto

section \<open>Properties\<close>

text \<open>C23. Seeding the built-in roles on any database, whatever its contents: when it returns no
  error, each of the four system roles exists under the returned id with exactly its declared
  permission set, and no role owned by a tenant was touched. Uniqueness of the role and
  role-permission indexes is all it relies on.\<close>

theorem SeedSystemRoles_correct:
  assumes "roles_wf w" and "rp_wf w" and "run_state (SeedSystemRoles E) w = (Inr ids, w')"
  shows "(\<forall>sr \<in> set SystemRoles. has_system_role w' ids sr) \<and>
    (\<forall>r \<in> set (roles w). r_tenant_id r \<noteq> [] \<longrightarrow>
       r \<in> set (roles w') \<and> role_perms w' (r_id r) = role_perms w (r_id r))"
  using wpD [OF seed_step_all [OF assms(1,2)] assms(3)] by blast

text \<open>Seeding is idempotent: once it has succeeded, running it again (at the next start of
  the plugin, in any environment, with any call failing) leaves every table as it is.\<close>

theorem SeedSystemRoles_idempotent:
  assumes "roles_wf w" and "rp_wf w" and "run_state (SeedSystemRoles E) w = (Inr ids, w')"
  shows "\<exists>n. snd (run_state (SeedSystemRoles E') w') = w'\<lparr>tick := n\<rparr>"
proof -
  have "roles_wf w'" "rp_wf w'" "\<forall>sr \<in> set SystemRoles. has_system_role w' ids sr"
    using wpD [OF seed_step_all [OF assms(1,2)] assms(3)] by auto
  from wpD [OF seed_again [OF this] surjective_pairing] show ?thesis .
qed

lemma seed_world0:
  obtains ids w' where "run_state (SeedSystemRoles env0) world0 = (Inr ids, w')"
proof -
  have "\<not> isl (fst (run_state (SeedSystemRoles env0) world0))"
    by code_simp
  then show ?thesis
    using that by (metis isl_def prod.collapse sum.exhaust)
qed

lemma world0_wf: "roles_wf world0" "rp_wf world0"
  by (simp_all add: roles_wf_def rp_wf_def keyed_def world0_def)

theorem SeedSystemRoles_correct_witness:
  "list_all (has_system_role (snd (run_state (SeedSystemRoles env0) world0))
      (projr (fst (run_state (SeedSystemRoles env0) world0)))) SystemRoles"
  by (rule seed_world0) (use SeedSystemRoles_correct [OF world0_wf] in \<open>simp add: list_all_iff\<close>)

theorem SeedSystemRoles_idempotent_witness:
  "\<exists>n. snd (run_state (SeedSystemRoles (env_faulty {9})) (snd (run_state (SeedSystemRoles env0) world0))) =
     (snd (run_state (SeedSystemRoles env0) world0))\<lparr>tick := n\<rparr>"
  by (rule seed_world0) (use SeedSystemRoles_idempotent [OF world0_wf] in simp)

end
