(* ===== verification/Roles.thy ===== *)
theory Roles
  imports RoleStore
begin

text \<open>
  \<open>src/internal/auth/roles.go\<close>: the tenant's custom roles. \<open>validatePermissions\<close> is the gate of
  every permission list a tenant stores; the lemmas show what it admits, that the role
  operations never touch another role, and that system roles cannot be changed through them.
\<close>

section \<open>Validation\<close>

definition slug_rest :: "char \<Rightarrow> bool" where
  "slug_rest c \<longleftrightarrow> is_lower c \<or> is_digit c \<or> c = CHR ''_'' \<or> c = CHR ''-''"

text \<open>\<open>^[a-z][a-z0-9_-]{1,31}$\<close>\<close>

definition roleSlugPattern :: regex where
  "roleSlugPattern = Cat (Class is_lower 1 (Some 1)) (Class slug_rest 1 (Some 31))"

text \<open>\<open>^(\*|[a-z][a-z0-9_-]*):(\*|[a-z][a-z0-9_-]*)$\<close>\<close>

definition permPattern :: regex where
  "permPattern =
     (let seg = Alt (Lit ''*'') (Cat (Class is_lower 1 (Some 1)) (Class slug_rest 0 None))
      in Cat seg (Cat (Lit '':'') seg))"

fun validatePermissions :: "string list \<Rightarrow> error option" where
  "validatePermissions [] = None"
| "validatePermissions (p # ps) =
     (if \<not> MatchString permPattern p
      then Some (ErrText (''invalid permission '' @ p @ '': must be resource:action (or with * wildcards)''))
      else validatePermissions ps)"

section \<open>Operations\<close>

record RoleInfo =
  ri_id :: string
  ri_slug :: string
  ri_name :: string
  ri_is_system :: bool
  ri_permissions :: "string list"

definition ListRoles :: "env \<Rightarrow> string \<Rightarrow> (world, error + RoleInfo list) state" where
  "ListRoles E tenantID =
     attempt (ent_all_asc E roles (\<lambda>r. r_tenant_id r = [] \<or> r_tenant_id r = tenantID) r_created_at) id
       (\<lambda>rs. for_each rs (\<lambda>r out.
          attempt (Permissions E (r_id r)) id (\<lambda>perms.
            ok (out @ [\<lparr>ri_id = r_id r, ri_slug = r_slug r, ri_name = r_name r,
                        ri_is_system = r_is_system r, ri_permissions = perms\<rparr>]))) [])"

text \<open>\<open>replacePermissions\<close>: the accumulator of the loop is the set \<open>seen\<close>.\<close>

definition replacePermissions :: "env \<Rightarrow> string \<Rightarrow> string list \<Rightarrow> (world, error + unit) state" where
  "replacePermissions E roleID permissions =
     attempt (ent_delete E role_permissions role_permissions_update (\<lambda>_ _. False) (\<lambda>p. rp_role_id p = roleID))
       (ErrWrap ''clear permissions'') (\<lambda>_.
         attempt (for_each permissions (\<lambda>p seen.
            if p \<in> seen then ok seen
            else do {
              i \<leftarrow> short_id E ''rp_'';
              attempt (create_role_permission E i roleID p) (ErrWrap (''add permission '' @ p))
                (\<lambda>_. ok (insert p seen)) }) {}) id (\<lambda>_. ok ()))"

definition CreateRole ::
  "env \<Rightarrow> string \<Rightarrow> string \<Rightarrow> string \<Rightarrow> string list \<Rightarrow> (world, error + RoleInfo) state" where
  "CreateRole E tenantID slug nm permissions =
     (if \<not> MatchString roleSlugPattern slug
      then fail (ErrText ''invalid role slug: 2-32 chars, lowercase letters/digits/-/_, starting with a letter'')
      else case validatePermissions permissions of Some e \<Rightarrow> fail e | None \<Rightarrow>
        attempt (ent_exist E roles (\<lambda>r. r_slug r = slug \<and> (r_tenant_id r = [] \<or> r_tenant_id r = tenantID))) id
          (\<lambda>clash. if clash then fail (ErrText ''a role with that slug already exists'')
             else do {
               i \<leftarrow> short_id E ''role_'';
               attempt (create_role E i tenantID slug nm False) (ErrWrap ''create role'') (\<lambda>r.
                 attempt (replacePermissions E (r_id r) permissions) id (\<lambda>_.
                   ok \<lparr>ri_id = r_id r, ri_slug = r_slug r, ri_name = r_name r, ri_is_system = False,
                       ri_permissions = permissions\<rparr>)) }))"

text \<open>\<open>UpdateRole\<close>: \<open>None\<close> stands for a nil \<open>permissions\<close>.\<close>

definition UpdateRole ::
  "env \<Rightarrow> string \<Rightarrow> string \<Rightarrow> string \<Rightarrow> string list option \<Rightarrow> (world, error + RoleInfo) state" where
  "UpdateRole E tenantID roleID nm permissions =
     handle (ent_get E roles r_id roleID) (\<lambda>_. fail (ErrText ''role not found'')) (\<lambda>r.
       if r_tenant_id r \<noteq> tenantID then fail (ErrText ''role not found'')
       else if r_is_system r then fail (ErrText ''system roles cannot be modified'')
       else
         attempt (if nm \<noteq> [] then
                    attempt (ent_update_one E roles roles_update r_id no_clash (r_id r) (\<lambda>x. x\<lparr>r_name := nm\<rparr>))
                      (ErrWrap ''update role'') ok
                  else ok r) id (\<lambda>r.
           attempt (case permissions of None \<Rightarrow> ok () | Some ps \<Rightarrow>
                      (case validatePermissions ps of Some e \<Rightarrow> fail e
                       | None \<Rightarrow> replacePermissions E (r_id r) ps)) id (\<lambda>_.
             attempt (Permissions E (r_id r)) id (\<lambda>perms.
               ok \<lparr>ri_id = r_id r, ri_slug = r_slug r, ri_name = r_name r, ri_is_system = False,
                   ri_permissions = perms\<rparr>))))"

definition DeleteRole :: "env \<Rightarrow> string \<Rightarrow> string \<Rightarrow> (world, error + unit) state" where
  "DeleteRole E tenantID roleID =
     handle (ent_get E roles r_id roleID) (\<lambda>_. fail (ErrText ''role not found'')) (\<lambda>r.
       if r_tenant_id r \<noteq> tenantID then fail (ErrText ''role not found'')
       else if r_is_system r then fail (ErrText ''system roles cannot be deleted'')
       else
         attempt (ent_exist E tenant_users (\<lambda>m. tu_role_id m = roleID)) id (\<lambda>inUse.
           if inUse then fail (ErrText ''role is assigned to members; reassign them first'')
           else
             attempt (ent_delete E role_permissions role_permissions_update (\<lambda>_ _. False)
                        (\<lambda>p. rp_role_id p = roleID)) (ErrWrap ''delete role permissions'') (\<lambda>_.
               ent_delete_one E roles roles_update role_referenced r_id roleID)))"

section \<open>What validation admits\<close>

lemma validatePermissions_iff:
  "validatePermissions ps = None \<longleftrightarrow> (\<forall>p \<in> set ps. MatchString permPattern p)"
  by (induction ps) auto

lemma segment_chars:
  assumes "s \<in> lang (Alt (Lit ''*'') (Cat (Class is_lower 1 (Some 1)) (Class slug_rest 0 None)))"
  shows "s \<noteq> []" and "CHR '':'' \<notin> set s" and "CHR '','' \<notin> set s"
  using assms
  by (auto simp: list_all_iff slug_rest_def is_lower_def is_digit_def less_eq_char_def length_Suc_conv
      dest!: bspec)

lemma lang_around: "p \<in> lang (Cat r (Cat (Lit l) r')) \<longleftrightarrow> (\<exists>u v. u \<in> lang r \<and> v \<in> lang r' \<and> p = u @ l @ v)"
  by auto

lemma permPattern_lang:
  assumes "MatchString permPattern p"
  shows "\<exists>res act. p = res @ '':'' @ act \<and> res \<noteq> [] \<and> act \<noteq> [] \<and> CHR '':'' \<notin> set res \<and> CHR '','' \<notin> set p"
proof -
  let ?seg = "Alt (Lit ''*'') (Cat (Class is_lower 1 (Some 1)) (Class slug_rest 0 None))"
  obtain u v where uv: "u \<in> lang ?seg" "v \<in> lang ?seg" "p = u @ '':'' @ v"
    using assms unfolding MatchString_lang permPattern_def Let_def lang_around by blast
  from segment_chars [OF uv(1)] segment_chars [OF uv(2)] uv(3) show ?thesis by auto
qed

lemma permPattern_splits: "MatchString permPattern p \<Longrightarrow> \<exists>q. splitPerm p = Some q"
  by (auto dest!: permPattern_lang)

lemma HeaderList_join:
  assumes "\<forall>p \<in> set ps. p \<noteq> [] \<and> CHR '','' \<notin> set p"
  shows "HeaderList (join_with CHR '','' ps) = ps"
proof (cases ps)
  case Nil
  then show ?thesis by (simp add: HeaderList_def)
next
  case (Cons p qs)
  then have "join_with CHR '','' ps \<noteq> []" using assms by (cases qs) auto
  then show ?thesis using assms split_join [of ps "CHR '',''"] Cons by (simp add: HeaderList_def)
qed

section \<open>What the operations leave alone\<close>

lemma wp_replacePermissions:
  "wp (replacePermissions E roleID permissions) (\<lambda>r w'.
    (\<exists>rps n. w' = w\<lparr>role_permissions := rps, tick := n\<rparr>) \<and> (rp_wf w \<longrightarrow> rp_wf w') \<and>
    (\<forall>other. other \<noteq> roleID \<longrightarrow> role_perms w' other = role_perms w other) \<and>
    set (role_perms w' roleID) \<subseteq> set (role_perms w roleID) \<union> set permissions \<and>
    (r = Inr () \<longrightarrow> set (role_perms w' roleID) = set permissions)) w"
    (is "wp _ ?Q w")
proof -
  let ?cleared = "filter (\<lambda>p. rp_role_id p \<noteq> roleID) (role_permissions w)"
  have others: "filter (\<lambda>p. rp_role_id p \<noteq> roleID \<and> rp_role_id p = other) rs =
      filter (\<lambda>p. rp_role_id p = other) rs" if "other \<noteq> roleID" for other rs
    using that by (intro filter_cong) auto
  show ?thesis unfolding replacePermissions_def wp_attempt
  proof (rule wp_ent_delete, goal_cases)
    case (1 n e)
    show ?case by (auto intro!: exI [of _ "role_permissions w"] exI [of _ n])
  next
    case (2 n)
    show ?case unfolding sum.case
    proof (rule wp_for_each [where I = "\<lambda>xs seen w'. seen = set xs \<and>
        (\<exists>rps n. w' = w\<lparr>role_permissions := rps, tick := n\<rparr>) \<and> (rp_wf w \<longrightarrow> rp_wf w') \<and>
        (\<forall>other. other \<noteq> roleID \<longrightarrow> role_perms w' other = role_perms w other) \<and>
        set (role_perms w' roleID) = set xs"], goal_cases)
      case 1
      have "rp_wf (w\<lparr>role_permissions := ?cleared, tick := n\<rparr>)" if "rp_wf w"
        using that by (simp add: rp_wf_def keyed_def distinct_map_filter)
      then show ?case
        by (auto simp: table_put role_perms_def others)
    next
      case (2 xs1 x xs2 seen t)
      then obtain rps k where t: "t = w\<lparr>role_permissions := rps, tick := k\<rparr>" and seen: "seen = set xs1"
        and wf: "rp_wf w \<Longrightarrow> rp_wf t" and other: "\<And>other. other \<noteq> roleID \<Longrightarrow> role_perms t other = role_perms w other"
        and own: "set (role_perms t roleID) = set xs1" by blast
      show ?case
      proof (cases "x \<in> seen")
        case True
        then show ?thesis using 2(2) by (simp add: insert_absorb seen)
      next
        case False
        show ?thesis unfolding if_not_P [OF False] wp_bind
        proof (rule wp_short_id, unfold wp_attempt, rule wp_create_role_permission, goal_cases)
          case (1 i m n e)
          have "set xs1 \<subseteq> set permissions" using \<open>permissions = xs1 @ x # xs2\<close> by auto
          then show ?case using t wf other own by auto
        next
          case (2 i m n)
          let ?p = "\<lparr>rp_id = i, rp_role_id = roleID, rp_permission = x\<rparr>"
          let ?t = "t\<lparr>role_permissions := role_permissions t @ [?p], tick := n\<rparr>"
          have "rp_wf ?t" if "rp_wf w"
            using wf [OF that] 2 by (auto simp: rp_wf_def keyed_def)
          moreover have "role_perms ?t other = role_perms w other" if "other \<noteq> roleID" for other
            using other [OF that] that by (simp add: role_perms_def)
          moreover have "set (role_perms ?t roleID) = insert x (set xs1)"
            using own by (simp add: role_perms_def)
          moreover have "?t = w\<lparr>role_permissions := role_permissions t @ [?p], tick := n\<rparr>"
            by (simp add: t)
          ultimately show ?case using seen unfolding sum.case wp_ok
            by (simp, blast)
        qed
      qed
    qed auto
  qed
qed

text \<open>Everything outside the tenant's own custom roles: the other tables, the system roles and the
  roles of other tenants, with their permission rows.\<close>

definition roles_frame :: "string \<Rightarrow> world \<Rightarrow> world \<Rightarrow> bool" where
  "roles_frame tenantID w w' \<longleftrightarrow>
     (\<exists>rs rps n. w' = w\<lparr>roles := rs, role_permissions := rps, tick := n\<rparr>) \<and>
     (\<forall>r \<in> set (roles w). r_tenant_id r \<noteq> tenantID \<or> r_is_system r \<longrightarrow>
        r \<in> set (roles w') \<and> role_perms w' (r_id r) = role_perms w (r_id r))"

lemma roles_frame_tick [simp]: "roles_frame T w (w\<lparr>tick := n\<rparr>)"
  unfolding roles_frame_def
  by (auto intro!: exI [of _ "roles w"] exI [of _ "role_permissions w"] exI [of _ n])

lemma roles_frame_perms:
  assumes "\<exists>rps n. w' = v\<lparr>role_permissions := rps, tick := n\<rparr>"
    and "\<forall>other. other \<noteq> i \<longrightarrow> role_perms w' other = role_perms v other"
    and "\<exists>rs n. v = w\<lparr>roles := rs, tick := n\<rparr>"
    and "\<And>r. r \<in> set (roles w) \<Longrightarrow> r_tenant_id r \<noteq> T \<or> r_is_system r \<Longrightarrow> r \<in> set (roles v) \<and> r_id r \<noteq> i"
  shows "roles_frame T w w'"
proof -
  from assms(1,3) obtain rps n rs m where v: "v = w\<lparr>roles := rs, tick := m\<rparr>"
    and w': "w' = v\<lparr>role_permissions := rps, tick := n\<rparr>" by blast
  have "w' = w\<lparr>roles := rs, role_permissions := rps, tick := n\<rparr>" by (simp add: v w')
  moreover have "role_perms v r = role_perms w r" for r by (simp add: v role_perms_def)
  moreover have "r \<in> set (roles w') \<and> role_perms w' (r_id r) = role_perms w (r_id r)"
    if "r \<in> set (roles w)" "r_tenant_id r \<noteq> T \<or> r_is_system r" for r
    using assms(4) [OF that] assms(2) \<open>\<And>r. role_perms v r = role_perms w r\<close> by (auto simp: w')
  ultimately show ?thesis unfolding roles_frame_def by blast
qed

definition new_role :: "string \<Rightarrow> string \<Rightarrow> string \<Rightarrow> string list \<Rightarrow> world \<Rightarrow> RoleInfo \<Rightarrow> bool" where
  "new_role tenantID slug nm permissions w info \<longleftrightarrow>
     (\<exists>r \<in> set (roles w). r_id r = ri_id info \<and> r_tenant_id r = tenantID \<and> r_slug r = slug \<and>
        r_name r = nm \<and> \<not> r_is_system r) \<and>
     set (role_perms w (ri_id info)) = set permissions \<and>
     info = \<lparr>ri_id = ri_id info, ri_slug = slug, ri_name = nm, ri_is_system = False,
             ri_permissions = permissions\<rparr>"

lemma wp_CreateRole:
  "wp (CreateRole E tenantID slug nm permissions) (\<lambda>res w'. roles_frame tenantID w w' \<and>
     (roles_wf w \<longrightarrow> roles_wf w') \<and>
     (\<forall>info. res = Inr info \<longrightarrow> new_role tenantID slug nm permissions w' info \<and>
        MatchString roleSlugPattern slug \<and> validatePermissions permissions = None \<and>
        \<not> (\<exists>r \<in> set (roles w). r_slug r = slug \<and> (r_tenant_id r = [] \<or> r_tenant_id r = tenantID)))) w"
    (is "wp _ ?Q w")
proof -
  have stop: "?Q (Inl e) (w\<lparr>tick := n\<rparr>)" for e n by simp
  then have now: "?Q (Inl e) w" for e by (metis (lifting) world.surjective world.update_convs(11))
  show ?thesis
  proof (cases "MatchString roleSlugPattern slug \<and> validatePermissions permissions = None")
    case False
    then show ?thesis using now by (auto simp: CreateRole_def split: option.splits)
  next
    case True
    then have V: "MatchString roleSlugPattern slug" "validatePermissions permissions = None" by auto
    show ?thesis unfolding CreateRole_def V(2) option.case if_not_P [OF V(1) [THEN not_not [THEN iffD2]]] wp_attempt
    proof (rule wp_ent_exist, goal_cases)
      case (3 n)
      show ?case
      proof (cases "filter (\<lambda>r. r_slug r = slug \<and> (r_tenant_id r = [] \<or> r_tenant_id r = tenantID)) (roles w) \<noteq> []")
        case True
        then show ?thesis by simp
      next
        case False
        then have free: "\<not> (\<exists>r \<in> set (roles w). r_slug r = slug \<and> (r_tenant_id r = [] \<or> r_tenant_id r = tenantID))"
          by (auto simp: filter_empty_conv)
        show ?thesis unfolding sum.case if_not_P [OF False] wp_bind
        proof (rule wp_short_id, unfold wp_attempt, rule wp_create_role, goal_cases)
          case (2 i m k r)
          let ?v = "w\<lparr>roles := roles w @ [r], tick := k\<rparr>"
          have wf: "roles_wf ?v" if "roles_wf w"
            using that 2 by (auto simp: roles_wf_def keyed_def)
          have fresh: "r_id x \<noteq> r_id r" if "x \<in> set (roles w)" for x
            using 2 imageI [OF that, of r_id] by auto
          have Q: "?Q (case res of Inl e \<Rightarrow> Inl e | Inr u \<Rightarrow> Inr \<lparr>ri_id = r_id r, ri_slug = r_slug r, ri_name = r_name r,
              ri_is_system = False, ri_permissions = permissions\<rparr>) w'"
            if post: "(\<exists>rps n. w' = ?v\<lparr>role_permissions := rps, tick := n\<rparr>) \<and>
              (\<forall>other. other \<noteq> r_id r \<longrightarrow> role_perms w' other = role_perms ?v other) \<and>
              (res = Inr () \<longrightarrow> set (role_perms w' (r_id r)) = set permissions)" for res w'
          proof -
            have "roles_frame tenantID w w'"
              by (rule roles_frame_perms [of w' ?v "r_id r"]) (use post fresh in \<open>auto intro!: exI [of _ k]\<close>)
            moreover obtain rps n where "w' = ?v\<lparr>role_permissions := rps, tick := n\<rparr>" using post by blast
            ultimately show ?thesis using wf 2 free V post
              by (auto simp: new_role_def split: sum.splits)
          qed
          show ?case unfolding sum.case wp_ok
          proof (rule wp_mono [OF wp_replacePermissions], goal_cases)
            case (1 res w')
            then show ?case using Q [of w' res] by (cases res) simp_all
          qed
        qed simp
      qed
    qed simp_all
  qed
qed

lemma one_role:
  assumes "filter (\<lambda>r. r_id r = i) (roles w) = [r]"
  shows "r \<in> set (roles w)" and "r_id r = i" and "\<And>x. x \<in> set (roles w) \<Longrightarrow> r_id x = i \<Longrightarrow> x = r"
proof -
  have "{x \<in> set (roles w). r_id x = i} = {r}" using arg_cong [OF assms, of set] by simp
  then show "r \<in> set (roles w)" and "r_id r = i" and "\<And>x. x \<in> set (roles w) \<Longrightarrow> r_id x = i \<Longrightarrow> x = r"
    by blast+
qed

definition updated_role ::
  "string \<Rightarrow> string \<Rightarrow> string \<Rightarrow> string list option \<Rightarrow> world \<Rightarrow> world \<Rightarrow> RoleInfo \<Rightarrow> bool" where
  "updated_role tenantID roleID nm permissions w w' info \<longleftrightarrow>
     (\<exists>r \<in> set (roles w). r_id r = roleID \<and> r_tenant_id r = tenantID \<and> \<not> r_is_system r \<and>
        ri_id info = roleID \<and> ri_slug info = r_slug r \<and>
        ri_name info = (if nm = [] then r_name r else nm)) \<and>
     (case permissions of None \<Rightarrow> role_perms w' roleID = role_perms w roleID
      | Some ps \<Rightarrow> validatePermissions ps = None \<and> set (role_perms w' roleID) = set ps) \<and>
     mset (ri_permissions info) = mset (role_perms w' roleID)"

lemma wp_set_permissions:
  "wp (case permissions of None \<Rightarrow> ok () | Some ps \<Rightarrow>
         (case validatePermissions ps of Some e \<Rightarrow> fail e | None \<Rightarrow> replacePermissions E roleID ps))
     (\<lambda>res w'. (\<exists>rps n. w' = w\<lparr>role_permissions := rps, tick := n\<rparr>) \<and>
        (\<forall>other. other \<noteq> roleID \<longrightarrow> role_perms w' other = role_perms w other) \<and>
        (res = Inr () \<longrightarrow> (case permissions of None \<Rightarrow> role_perms w' roleID = role_perms w roleID
          | Some ps \<Rightarrow> validatePermissions ps = None \<and> set (role_perms w' roleID) = set ps))) w"
proof -
  have "w = w\<lparr>role_permissions := role_permissions w, tick := tick w\<rparr>" by simp
  then have same: "\<exists>rps n. w = w\<lparr>role_permissions := rps, tick := n\<rparr>" by blast
  show ?thesis
  proof (cases permissions)
    case None
    then show ?thesis using same by simp
  next
    case (Some ps)
    show ?thesis
    proof (cases "validatePermissions ps")
      case None
      show ?thesis unfolding Some None option.case
        by (rule wp_mono [OF wp_replacePermissions]) simp
    qed (use Some same in simp)
  qed
qed

lemma rps_tick:
  assumes "\<exists>rps n. w' = v\<lparr>role_permissions := rps, tick := n\<rparr>"
  shows "\<exists>rps n. w'\<lparr>tick := k\<rparr> = v\<lparr>role_permissions := rps, tick := n\<rparr>"
proof -
  from assms obtain rps n where "w' = v\<lparr>role_permissions := rps, tick := n\<rparr>" by blast
  then have "w'\<lparr>tick := k\<rparr> = v\<lparr>role_permissions := rps, tick := k\<rparr>" by simp
  then show ?thesis by blast
qed

lemma wp_UpdateRole:
  "wp (UpdateRole E tenantID roleID nm permissions) (\<lambda>res w'. roles_frame tenantID w w' \<and>
     (\<forall>info. res = Inr info \<longrightarrow> updated_role tenantID roleID nm permissions w w' info)) w"
    (is "wp _ ?Q w")
  unfolding UpdateRole_def wp_handle
proof (rule wp_ent_get, goal_cases)
  case (5 n r)
  note r = one_role [OF 5]
  show ?case
  proof (cases "r_tenant_id r = tenantID \<and> \<not> r_is_system r")
    case False
    then show ?thesis by auto
  next
    case True
    let ?set = "\<lambda>i. case permissions of None \<Rightarrow> ok () | Some ps \<Rightarrow>
             (case validatePermissions ps of Some e \<Rightarrow> fail e | None \<Rightarrow> replacePermissions E i ps)"
    have rest: "wp (attempt (?set (r_id r')) id (\<lambda>_. attempt (Permissions E (r_id r')) id (\<lambda>perms.
               ok \<lparr>ri_id = r_id r', ri_slug = r_slug r', ri_name = r_name r', ri_is_system = False,
                   ri_permissions = perms\<rparr>))) ?Q v"
      if v: "v = w\<lparr>roles := rs, tick := k\<rparr>"
        and rs: "\<forall>x \<in> set (roles w). r_id x \<noteq> roleID \<longrightarrow> x \<in> set rs"
        and r': "r_id r' = roleID" "r_slug r' = r_slug r" "r_name r' = (if nm = [] then r_name r else nm)"
      for v r' k rs
    proof -
      have frame: "roles_frame tenantID w w'"
        if "\<exists>rps n. w' = v\<lparr>role_permissions := rps, tick := n\<rparr>"
          "\<forall>other. other \<noteq> roleID \<longrightarrow> role_perms w' other = role_perms v other" for w'
      proof (rule roles_frame_perms [OF that])
        show "\<exists>rs n. v = w\<lparr>roles := rs, tick := n\<rparr>" using v by blast
        fix x assume "x \<in> set (roles w)" "r_tenant_id x \<noteq> tenantID \<or> r_is_system x"
        then have "r_id x \<noteq> roleID" using r(3) True by blast
        then show "x \<in> set (roles v) \<and> r_id x \<noteq> roleID" using rs v \<open>x \<in> _\<close> by simp
      qed
      show ?thesis unfolding r'(1) wp_attempt
      proof (rule wp_mono [OF wp_set_permissions], goal_cases)
        case (1 res w')
        then have f: "roles_frame tenantID w w'" using frame by blast
        show ?case
        proof (cases res)
          case (Inl e)
          then show ?thesis using f by simp
        next
          case (Inr u)
          have f': "roles_frame tenantID w (w'\<lparr>tick := n\<rparr>)" for n
            by (rule frame, rule rps_tick) (use 1 in auto)
          have "role_perms v x = role_perms w x" for x by (simp add: v role_perms_def)
          then have post: "case permissions of None \<Rightarrow> role_perms w' roleID = role_perms w roleID
              | Some ps \<Rightarrow> validatePermissions ps = None \<and> set (role_perms w' roleID) = set ps"
            using 1 Inr by (auto split: option.splits)
          have exact: "\<exists>x \<in> set (roles w). r_id x = roleID \<and> r_tenant_id x = tenantID \<and> \<not> r_is_system x \<and>
              roleID = roleID \<and> r_slug r' = r_slug x \<and> r_name r' = (if nm = [] then r_name x else nm)"
            using r(1,2) True r' by blast
          show ?thesis unfolding Inr sum.case wp_ok
            by (rule wp_Permissions) (use f' post exact in \<open>auto simp: updated_role_def split: option.splits\<close>)
        qed
      qed
    qed
    show ?thesis
    proof (cases "nm = []")
      case Nil: True
      have "w\<lparr>tick := n\<rparr> = w\<lparr>roles := roles w, tick := n\<rparr>" by simp
      from rest [OF this, of r] show ?thesis using True Nil r(2) by simp
    next
      case False
      show ?thesis
      proof (simp add: True False, rule wp_ent_update_one, goal_cases)
        case (2 k x xs)
        let ?rs = "map (\<lambda>x. if r_id x = r_id r then x\<lparr>r_name := nm\<rparr> else x) (roles w)"
        have "x \<in> set (roles w) \<and> r_id x = r_id r" using arg_cong [OF 2(1), of set] by auto
        then have "x = r" using r(2,3) by simp
        moreover have "\<forall>y \<in> set (roles w). r_id y \<noteq> roleID \<longrightarrow> y \<in> set ?rs"
          using r(2) by (auto intro: rev_image_eqI)
        moreover have "w\<lparr>roles := ?rs, tick := k\<rparr> = w\<lparr>roles := ?rs, tick := k\<rparr>" ..
        ultimately show ?case using rest [of _ k ?rs "r\<lparr>r_name := nm\<rparr>"] r(2) False
          unfolding sum.case by (simp add: table_put)
      qed auto
    qed
  qed
qed simp_all


definition deleted_role :: "string \<Rightarrow> string \<Rightarrow> world \<Rightarrow> world \<Rightarrow> bool" where
  "deleted_role tenantID roleID w w' \<longleftrightarrow>
     (\<exists>r \<in> set (roles w). r_id r = roleID \<and> r_tenant_id r = tenantID \<and> \<not> r_is_system r) \<and>
     (\<forall>m \<in> set (tenant_users w). tu_role_id m \<noteq> roleID) \<and>
     (\<forall>r \<in> set (roles w'). r_id r \<noteq> roleID) \<and> role_perms w' roleID = []"

lemma role_updates_commute:
  "(w :: world)\<lparr>role_permissions := ps, roles := rs\<rparr> = w\<lparr>roles := rs, role_permissions := ps\<rparr>"
  by (cases w) simp

lemma wp_DeleteRole:
  "wp (DeleteRole E tenantID roleID) (\<lambda>res w'. roles_frame tenantID w w' \<and>
     ((\<exists>m \<in> set (tenant_users w). tu_role_id m = roleID) \<longrightarrow> (\<exists>n. w' = w\<lparr>tick := n\<rparr>)) \<and>
     (res = Inr () \<longrightarrow> deleted_role tenantID roleID w w')) w"
    (is "wp _ ?Q w")
  unfolding DeleteRole_def wp_handle
proof (rule wp_ent_get, goal_cases)
  case (5 n r)
  note r = one_role [OF 5]
  show ?case
  proof (cases "r_tenant_id r = tenantID \<and> \<not> r_is_system r")
    case False
    then show ?thesis by auto
  next
    case True
    have other: "r_id x \<noteq> roleID" if "x \<in> set (roles w)" "r_tenant_id x \<noteq> tenantID \<or> r_is_system x" for x
      using r(3) True that by blast
    have frame: "roles_frame tenantID w (w\<lparr>roles := rs, role_permissions := rps, tick := k\<rparr>)"
      if "rs = roles w \<or> rs = filter (\<lambda>r. r_id r \<noteq> roleID) (roles w)"
        "rps = filter (\<lambda>p. rp_role_id p \<noteq> roleID) (role_permissions w)" for rs rps k
    proof -
      have "filter (\<lambda>p. rp_role_id p \<noteq> roleID \<and> rp_role_id p = i) xs = filter (\<lambda>p. rp_role_id p = i) xs"
        if "i \<noteq> roleID" for i and xs :: "role_permission list"
        using that by (intro filter_cong) auto
      then show ?thesis using that other unfolding roles_frame_def by (auto simp: role_perms_def)
    qed
    show ?thesis
    proof (simp add: True, rule wp_ent_exist, goal_cases)
      case (3 k)
      show ?case
      proof (cases "filter (\<lambda>m. tu_role_id m = roleID) (tenant_users w) \<noteq> []")
        case True
        then show ?thesis by auto
      next
        case False
        then have unused: "\<forall>m \<in> set (tenant_users w). tu_role_id m \<noteq> roleID"
          by (auto simp: filter_empty_conv)
        let ?rps = "filter (\<lambda>p. rp_role_id p \<noteq> roleID) (role_permissions w)"
        let ?rs = "filter (\<lambda>r. r_id r \<noteq> roleID) (roles w)"
        have F1: "roles_frame tenantID w (w\<lparr>role_permissions := ?rps, tick := m\<rparr>)"
          and F2: "roles_frame tenantID w (w\<lparr>role_permissions := ?rps, roles := ?rs, tick := m\<rparr>)" for m
          using frame [of "roles w" ?rps m] frame [of ?rs ?rps m] by (simp_all add: role_updates_commute)
        have D: "deleted_role tenantID roleID w (w\<lparr>role_permissions := ?rps, roles := ?rs, tick := m\<rparr>)" for m
          unfolding deleted_role_def using r(1,2) True unused
          by (intro conjI bexI [of _ r]) (simp_all add: role_perms_def filter_empty_conv)
        have used: "\<not> (\<exists>m \<in> set (tenant_users w). tu_role_id m = roleID)" using unused by blast
        show ?thesis using False
        proof (simp, intro wp_ent_delete, goal_cases)
          case (2 m)
          show ?case unfolding sum.case table_put
          proof (rule wp_ent_delete_one, goal_cases)
            case (1 k e)
            then show ?case using F1 used by simp
          next
            case (2 k)
            then show ?case using F2 used by (simp add: table_put)
          next
            case (3 k)
            then show ?case using F2 D used by (simp add: table_put)
          qed
        qed (use unused in auto)
      qed
    qed auto
  qed
qed auto

section \<open>Properties\<close>

text \<open>Isolation of the role operations. Whatever the arguments, the environment and the
  failures, creating, updating or deleting a role for a tenant changes only the tables of roles
  and role permissions, and no system role and no role of another tenant, nor any of their
  permissions, changes.\<close>

theorem role_operations_isolated:
  "roles_frame tenantID w (snd (run_state (CreateRole E tenantID slug nm permissions) w)) \<and>
   roles_frame tenantID w (snd (run_state (UpdateRole E tenantID roleID nm permissions') w)) \<and>
   roles_frame tenantID w (snd (run_state (DeleteRole E tenantID roleID) w))"
  by (intro conjI wpD [OF wp_CreateRole surjective_pairing, THEN conjunct1]
      wpD [OF wp_UpdateRole surjective_pairing, THEN conjunct1]
      wpD [OF wp_DeleteRole surjective_pairing, THEN conjunct1])

text \<open>C27. A role that \<open>CreateRole\<close> reports as created is in the database as a custom role of the
  tenant with exactly the requested permissions; its slug is well formed and was used neither by
  the tenant nor by a system role, and every permission passed validation.\<close>

theorem CreateRole_correct:
  assumes "run_state (CreateRole E tenantID slug nm permissions) w = (Inr info, w')"
  shows "new_role tenantID slug nm permissions w' info \<and>
    MatchString roleSlugPattern slug \<and> validatePermissions permissions = None \<and>
    \<not> (\<exists>r \<in> set (roles w). r_slug r = slug \<and> (r_tenant_id r = [] \<or> r_tenant_id r = tenantID))"
  using wpD [OF wp_CreateRole assms] by blast

theorem CreateRole_correct_witness:
  "new_role ''t1'' ''clerk'' ''Clerk'' [''sale:*'']
     (snd (run_state (CreateRole env0 ''t1'' ''clerk'' ''Clerk'' [''sale:*'']) shop))
     \<lparr>ri_id = ''role_101'', ri_slug = ''clerk'', ri_name = ''Clerk'', ri_is_system = False,
      ri_permissions = [''sale:*'']\<rparr>"
proof -
  have "fst (run_state (CreateRole env0 ''t1'' ''clerk'' ''Clerk'' [''sale:*'']) shop) =
      Inr \<lparr>ri_id = ''role_101'', ri_slug = ''clerk'', ri_name = ''Clerk'', ri_is_system = False,
           ri_permissions = [''sale:*'']\<rparr>"
    by code_simp
  then show ?thesis by (metis CreateRole_correct prod.collapse)
qed

text \<open>C28. A successful \<open>UpdateRole\<close> acted on a custom role of the caller's tenant; given a
  permission list it made it the role's exact permission set, given none it left the
  permissions alone, and it reports the permissions the role now has.\<close>

theorem UpdateRole_correct:
  assumes "run_state (UpdateRole E tenantID roleID nm permissions) w = (Inr info, w')"
  shows "updated_role tenantID roleID nm permissions w w' info"
  using wpD [OF wp_UpdateRole assms] by blast

theorem UpdateRole_correct_witness:
  "updated_role ''t1'' ''r2'' [] (Some [''sale:void'', ''sale:refund'']) shop
     (snd (run_state (UpdateRole env0 ''t1'' ''r2'' [] (Some [''sale:void'', ''sale:refund''])) shop))
     \<lparr>ri_id = ''r2'', ri_slug = ''cashier'', ri_name = ''Cashier'', ri_is_system = False,
      ri_permissions = [''sale:void'', ''sale:refund'']\<rparr>"
proof -
  have "fst (run_state (UpdateRole env0 ''t1'' ''r2'' [] (Some [''sale:void'', ''sale:refund''])) shop) =
      Inr \<lparr>ri_id = ''r2'', ri_slug = ''cashier'', ri_name = ''Cashier'', ri_is_system = False,
      ri_permissions = [''sale:void'', ''sale:refund'']\<rparr>"
    by code_simp
  then show ?thesis by (metis UpdateRole_correct prod.collapse)
qed

text \<open>C29. A role some member still holds is never deleted: the call changes no table. A successful
  \<open>DeleteRole\<close> removed a custom role of the tenant that no member held, with its permissions.\<close>

theorem DeleteRole_safe:
  "(case run_state (DeleteRole E tenantID roleID) w of (res, w') \<Rightarrow>
     ((\<exists>m \<in> set (tenant_users w). tu_role_id m = roleID) \<longrightarrow> (\<exists>n. w' = w\<lparr>tick := n\<rparr>)) \<and>
     (res = Inr () \<longrightarrow> deleted_role tenantID roleID w w'))"
  using wp_DeleteRole [of E tenantID roleID w] by (auto simp: wp_def split: prod.splits)

theorem DeleteRole_safe_witness:
  "deleted_role ''t1'' ''r3'' shop (snd (run_state (DeleteRole env0 ''t1'' ''r3'') shop))"
proof -
  have "fst (run_state (DeleteRole env0 ''t1'' ''r3'') shop) = Inr ()"
    by code_simp
  then show ?thesis
    using DeleteRole_safe [where E = env0 and tenantID = "''t1''" and roleID = "''r3''" and w = shop] by (simp split: prod.splits)
qed

text \<open>C30. A validated permission list survives the permissions header: the plugin runtime, which
  gets the list joined by commas, grants a permission of the form \<open>resource:action\<close> (one that
  \<open>splitPerm\<close> accepts) exactly when the rbac package does. For a required permission of another form,
  such as the empty one, the two can differ, and the theorem says nothing.\<close>

theorem validated_permissions_roundtrip:
  assumes "validatePermissions ps = None" and "splitPerm required = Some q"
  shows "HasPermission (join_with CHR '','' ps) required \<longleftrightarrow> Allows ps required"
proof -
  have "\<forall>p \<in> set ps. p \<noteq> [] \<and> CHR '','' \<notin> set p"
    using assms(1) by (auto simp: validatePermissions_iff dest!: bspec permPattern_lang)
  moreover have "required \<noteq> []" using assms(2) by (auto simp: splitPerm_def)
  ultimately show ?thesis
    using assms(2) by (simp add: HasPermission_def HeaderList_join Allows_def any_match_iff permMatch_match)
qed

theorem validated_permissions_roundtrip_witness:
  "HasPermission (join_with CHR '','' [''sale:*'', ''user:read'']) ''sale:void''
     \<longleftrightarrow> Allows [''sale:*'', ''user:read''] ''sale:void''"
  by (rule validated_permissions_roundtrip; code_simp)

text \<open>\<open>UpdateRole\<close> is not atomic: called with a new name and a permission list that fails
  validation it returns the validation error, but the role has already been renamed.\<close>

theorem UpdateRole_renames_before_validating:
  "case run_state (UpdateRole env0 ''t1'' ''r2'' ''Boss'' (Some [''nonsense''])) shop of (res, w') \<Rightarrow>
     res = Inl (ErrText ''invalid permission nonsense: must be resource:action (or with * wildcards)'') \<and>
     map r_name (filter (\<lambda>r. r_id r = ''r2'') (roles w')) = [''Boss'']"
  by code_simp

end
