(* ===== verification/Members.thy ===== *)
theory Members
  imports Roles
begin

text \<open>
  \<open>src/internal/auth/member_manage.go\<close>, membership part: changing a member's role, removing,
  suspending and reactivating a member, and the guard all three share, that the tenant keeps at
  least one active member who can manage it. \<open>active_managers\<close> is the abstract view of a tenant;
  \<open>keeps_managers\<close> is the contract, a preorder on states that composes over any sequence of
  operations.
\<close>

section \<open>Operations\<close>

definition roleHasPerm :: "env \<Rightarrow> string \<Rightarrow> string \<Rightarrow> (world, error + bool) state" where
  "roleHasPerm E roleID perm =
     attempt (Permissions E roleID) id (\<lambda>perms. ok (Allows perms perm))"

definition countManagers :: "env \<Rightarrow> string \<Rightarrow> (world, error + nat) state" where
  "countManagers E tenantID =
     attempt (ent_all E tenant_users (\<lambda>m. tu_tenant_id m = tenantID \<and> tu_status m \<noteq> ''suspended'')) id
       (\<lambda>memberships.
          attempt (for_each memberships (\<lambda>m (managerRole, count).
             attempt (case managerRole (tu_role_id m) of
                        Some b \<Rightarrow> ok (b, managerRole)
                      | None \<Rightarrow> attempt (roleHasPerm E (tu_role_id m) PermTenantManage) id
                          (\<lambda>b. ok (b, managerRole(tu_role_id m \<mapsto> b)))) id
               (\<lambda>(b, managerRole'). ok (managerRole', if b then count + 1 else count)))
             (Map.empty, 0)) id
            (\<lambda>(_, count). ok count))"

definition UpdateMemberRole :: "env \<Rightarrow> string \<Rightarrow> string \<Rightarrow> string \<Rightarrow> (world, error + unit) state" where
  "UpdateMemberRole E tenantID userID roleSlug =
     (if tenantID = [] \<or> userID = [] then fail ErrMemberNotFound
      else attempt (ent_only E tenant_users (\<lambda>m. tu_user_id m = userID \<and> tu_tenant_id m = tenantID))
        (\<lambda>_. ErrMemberNotFound) (\<lambda>m.
          attempt (ResolveRoleID E tenantID roleSlug) (\<lambda>_. ErrText (''unknown role '' @ roleSlug)) (\<lambda>newRoleID.
            attempt (roleHasPerm E (tu_role_id m) PermTenantManage) id (\<lambda>wasManager.
              attempt (if wasManager then
                  attempt (roleHasPerm E newRoleID PermTenantManage) id (\<lambda>willManage.
                    if \<not> willManage then
                      attempt (countManagers E tenantID) id (\<lambda>n.
                        if n \<le> 1 then fail ErrLastManager else ok ())
                    else ok ())
                else ok ()) id (\<lambda>_.
                  attempt (ent_update_one E tenant_users tenant_users_update tu_id no_clash (tu_id m)
                             (\<lambda>x. x\<lparr>tu_role_id := newRoleID\<rparr>)) id (\<lambda>_. ok ()))))))"

text \<open>\<open>DeviceToken.Update().Where(user, tenant, not revoked).SetRevokedAt(time.Now())\<close>.\<close>

definition revoke_owned_tokens :: "env \<Rightarrow> string \<Rightarrow> string \<Rightarrow> (world, error + nat) state" where
  "revoke_owned_tokens E tenantID userID = do {
     now \<leftarrow> time_now E;
     ent_update E device_tokens device_tokens_update
       (\<lambda>d. dt_user_id d = userID \<and> dt_tenant_id d = tenantID \<and> dt_revoked_at d = None)
       (\<lambda>d. d\<lparr>dt_revoked_at := Some now\<rparr>) }"

definition RemoveMember :: "env \<Rightarrow> string \<Rightarrow> string \<Rightarrow> (world, error + unit) state" where
  "RemoveMember E tenantID userID =
     (if tenantID = [] \<or> userID = [] then fail ErrMemberNotFound
      else attempt (ent_only E tenant_users (\<lambda>m. tu_user_id m = userID \<and> tu_tenant_id m = tenantID))
        (\<lambda>_. ErrMemberNotFound) (\<lambda>m.
          attempt (roleHasPerm E (tu_role_id m) PermTenantManage) id (\<lambda>isManager.
            attempt (if isManager then
                attempt (countManagers E tenantID) id (\<lambda>n.
                  if n \<le> 1 then fail ErrLastManager else ok ())
              else ok ()) id (\<lambda>_.
              attempt (ent_delete_one E tenant_users tenant_users_update (\<lambda>_ _. False) tu_id (tu_id m)) id (\<lambda>_.
                do {
                  _ \<leftarrow> revoke_owned_tokens E tenantID userID;
                  handle (ent_get E tenants t_id tenantID) (\<lambda>_. ok ()) (\<lambda>t. do {
                    _ \<leftarrow> in_schema E (t_schema_name t)
                           (ent_delete E (profiles (t_schema_name t)) (profiles_update (t_schema_name t))
                             (\<lambda>_ _. False) (\<lambda>p. p_id p = userID));
                    ok () }) })))))"

definition SetMemberStatus :: "env \<Rightarrow> string \<Rightarrow> string \<Rightarrow> string \<Rightarrow> (world, error + unit) state" where
  "SetMemberStatus E tenantID userID status =
     (if tenantID = [] \<or> userID = [] then fail ErrMemberNotFound
      else if status \<noteq> ''active'' \<and> status \<noteq> ''suspended''
      then fail (ErrText ''status must be active or suspended'')
      else attempt (ent_only E tenant_users (\<lambda>m. tu_user_id m = userID \<and> tu_tenant_id m = tenantID))
        (\<lambda>_. ErrMemberNotFound) (\<lambda>m.
          if tu_status m = status then ok ()
          else
            attempt (if status = ''suspended'' then
                attempt (roleHasPerm E (tu_role_id m) PermTenantManage) id (\<lambda>isManager.
                  if isManager then
                    attempt (countManagers E tenantID) id (\<lambda>n.
                      if n \<le> 1 then fail ErrLastManager else ok ())
                  else ok ())
              else ok ()) id (\<lambda>_.
              attempt (ent_update_one E tenant_users tenant_users_update tu_id no_clash (tu_id m)
                         (\<lambda>x. x\<lparr>tu_status := status\<rparr>)) id (\<lambda>_.
                if status = ''suspended'' then do { _ \<leftarrow> revoke_owned_tokens E tenantID userID; ok () }
                else ok ()))))"

definition IsMember :: "env \<Rightarrow> string \<Rightarrow> string \<Rightarrow> (world, error + bool) state" where
  "IsMember E tenantID userID =
     (if tenantID = [] \<or> userID = [] then ok False
      else ent_exist E tenant_users
        (\<lambda>m. tu_user_id m = userID \<and> tu_tenant_id m = tenantID \<and> tu_status m \<noteq> ''suspended''))"

section \<open>The managers of a tenant\<close>

definition manages :: "world \<Rightarrow> tenant_user \<Rightarrow> bool" where
  "manages w m \<longleftrightarrow> Allows (role_perms w (tu_role_id m)) PermTenantManage"

definition active_managers :: "world \<Rightarrow> string \<Rightarrow> tenant_user list" where
  "active_managers w T =
     filter (\<lambda>m. tu_tenant_id m = T \<and> tu_status m \<noteq> ''suspended'' \<and> manages w m) (tenant_users w)"

definition has_manager :: "world \<Rightarrow> string \<Rightarrow> bool" where
  "has_manager w T \<longleftrightarrow> active_managers w T \<noteq> []"

lemma manages_tick [simp]:
  "manages (w\<lparr>tick := n\<rparr>) m = manages w m" "active_managers (w\<lparr>tick := n\<rparr>) T = active_managers w T"
  "has_manager (w\<lparr>tick := n\<rparr>) T = has_manager w T"
  by (simp_all add: manages_def active_managers_def has_manager_def)

lemma manages_memberships [simp]: "manages (w\<lparr>tenant_users := ms\<rparr>) m = manages w m"
  by (simp add: manages_def role_perms_def)

lemma Allows_mset: "mset ps = mset qs \<Longrightarrow> Allows ps r = Allows qs r"
  by (auto simp: Allows_def any_match_iff dest: mset_eq_setD)

lemma wp_roleHasPerm [wp_intro]:
  assumes "\<And>n. Q (Inl (ErrDB Fault)) (w\<lparr>tick := n\<rparr>)"
    and "\<And>n. Q (Inr (Allows (role_perms w roleID) perm)) (w\<lparr>tick := n\<rparr>)"
  shows "wp (roleHasPerm E roleID perm) Q w"
  unfolding roleHasPerm_def wp_attempt
proof (rule wp_Permissions, goal_cases)
  case (2 n ps)
  then show ?case using assms(2) Allows_mset [of ps "role_perms w roleID" perm] by simp
qed (simp add: assms(1))

lemma wp_countManagers [wp_intro]:
  assumes fault: "\<And>n. Q (Inl (ErrDB Fault)) (w\<lparr>tick := n\<rparr>)"
    and count: "\<And>n. Q (Inr (length (active_managers w T))) (w\<lparr>tick := n\<rparr>)"
  shows "wp (countManagers E T) Q w"
  unfolding countManagers_def wp_attempt
proof (rule wp_ent_all, goal_cases)
  case (3 n ms)
  have all: "length (filter (manages w) ms) = length (active_managers w T)"
  proof -
    have "mset (filter (manages w) ms) =
        mset (filter (manages w) (filter (\<lambda>m. tu_tenant_id m = T \<and> tu_status m \<noteq> ''suspended'') (tenant_users w)))"
      using 3 by (simp only: mset_filter)
    then have "mset (filter (manages w) ms) = mset (active_managers w T)"
      by (simp only: active_managers_def filter_filter conj_assoc)
    then show ?thesis by (metis size_mset)
  qed
  show ?case unfolding sum.case
  proof (rule wp_for_each [where I = "\<lambda>xs (known, c) w'. \<exists>k. w' = w\<lparr>tick := k\<rparr> \<and>
      c = length (filter (manages w) xs) \<and>
      (\<forall>r b. known r = Some b \<longrightarrow> b = Allows (role_perms w r) PermTenantManage)"], goal_cases)
    case (2 xs1 m xs2 acc t)
    obtain known c where acc: "acc = (known, c)" by (cases acc)
    with 2 obtain k where t: "t = w\<lparr>tick := k\<rparr>" and c: "c = length (filter (manages w) xs1)"
      and known: "\<forall>r b. known r = Some b \<longrightarrow> b = Allows (role_perms w r) PermTenantManage" by auto
    show ?case
    proof (cases "known (tu_role_id m)")
      case (Some b)
      then show ?thesis using known by (auto simp: acc t c manages_def)
    next
      case None
      show ?thesis unfolding acc prod.case None option.case wp_attempt t
        by (rule wp_roleHasPerm) (use known in \<open>auto simp: fault c manages_def\<close>)
    qed
  qed (auto simp: all count)
qed (auto simp: fault)


section \<open>The contract\<close>

definition keeps_managers :: "world \<Rightarrow> world \<Rightarrow> bool" where
  "keeps_managers w w' \<longleftrightarrow> (keyed tu_id tenant_users w \<longrightarrow>
     keyed tu_id tenant_users w' \<and> (\<forall>T. has_manager w T \<longrightarrow> has_manager w' T))"

interpretation managers: step_preorder keeps_managers
  by unfold_locales (auto simp: keeps_managers_def)

lemma keyed_unique:
  "keyed key rows w \<Longrightarrow> x \<in> set (rows w) \<Longrightarrow> y \<in> set (rows w) \<Longrightarrow> key x = key y \<Longrightarrow> x = y"
  by (auto simp: keyed_def distinct_map dest: inj_onD)

lemma keyed_tick [simp]: "stable rows \<Longrightarrow> keyed key rows (w\<lparr>tick := n\<rparr>) = keyed key rows w"
  by (simp add: keyed_def stable_def)

lemma keeps_managers_frame:
  assumes "tenant_users w' = tenant_users w" and "role_permissions w' = role_permissions w"
  shows "keeps_managers w w'"
proof -
  have "role_perms w' r = role_perms w r" for r using assms(2) by (simp add: role_perms_def)
  then have "has_manager w' T = has_manager w T" for T
    using assms(1) by (simp add: has_manager_def active_managers_def manages_def)
  then show ?thesis using assms(1) by (simp add: keeps_managers_def keyed_def)
qed

lemma keeps_managers_tick [simp]: "keeps_managers w (w\<lparr>tick := n\<rparr>)"
  by (rule keeps_managers_frame) simp_all

text \<open>Why the guard is enough: changing or dropping one member leaves the tenant a manager when
  that member was not an active manager, or there was a second one.\<close>

lemma other_manager:
  assumes keyed: "keyed tu_id tenant_users w" and m: "m \<in> set (tenant_users w)" and "has_manager w T"
    and guard: "m \<in> set (active_managers w T) \<Longrightarrow> 1 < length (active_managers w T)"
  obtains m' where "m' \<in> set (active_managers w T)" "tu_id m' \<noteq> tu_id m"
proof -
  have inj: "distinct (map tu_id (active_managers w T))"
    using keyed by (simp add: keyed_def active_managers_def distinct_map_filter)
  obtain x xs where x: "active_managers w T = x # xs"
    using assms(3) by (cases "active_managers w T") (auto simp: has_manager_def)
  show ?thesis
  proof (cases "tu_id x = tu_id m")
    case False
    then show ?thesis using that [of x] x by simp
  next
    case same: True
    have "x \<in> set (tenant_users w)" using arg_cong [OF x, of set] by (auto simp: active_managers_def)
    then have "x = m" using same m keyed by (auto simp: keyed_def distinct_map inj_on_def)
    then obtain y ys where "xs = y # ys" using guard x by (cases xs) auto
    then show ?thesis using that [of y] inj x same by auto
  qed
qed

lemma active_managers_mem:
  "m \<in> set (active_managers w T) \<longleftrightarrow>
     m \<in> set (tenant_users w) \<and> tu_tenant_id m = T \<and> tu_status m \<noteq> ''suspended'' \<and> manages w m"
  by (auto simp: active_managers_def)

lemma has_manager_iff: "has_manager w T \<longleftrightarrow> (\<exists>m. m \<in> set (active_managers w T))"
  by (cases "active_managers w T") (auto simp: has_manager_def)

lemma keeps_managers_update:
  assumes m: "m \<in> set (tenant_users w)"
    and f: "\<And>x. tu_id (f x) = tu_id x" "\<And>x. tu_tenant_id (f x) = tu_tenant_id x"
    and guard: "m \<in> set (active_managers w (tu_tenant_id m)) \<Longrightarrow>
      1 < length (active_managers w (tu_tenant_id m)) \<or> (tu_status (f m) \<noteq> ''suspended'' \<and> manages w (f m))"
  shows "keeps_managers w (w\<lparr>tenant_users := map (\<lambda>x. if tu_id x = tu_id m then f x else x) (tenant_users w), tick := n\<rparr>)"
    (is "keeps_managers w ?w")
  unfolding keeps_managers_def
proof (intro impI conjI allI)
  assume keyed: "keyed tu_id tenant_users w"
  have "map tu_id (tenant_users ?w) = map tu_id (tenant_users w)"
    using map_key_update [of tu_id f] f(1) by simp
  then show "keyed tu_id tenant_users ?w" using keyed by (simp only: keyed_def)
  fix T assume T: "has_manager w T"
  show "has_manager ?w T"
  proof (cases "m \<in> set (active_managers w T) \<and> tu_status (f m) \<noteq> ''suspended'' \<and> manages w (f m)")
    case True
    then have "f m \<in> set (active_managers ?w T)"
      using f m by (auto simp: active_managers_mem intro!: rev_image_eqI)
    then show ?thesis by (auto simp: has_manager_iff)
  next
    case False
    then have "m \<in> set (active_managers w T) \<Longrightarrow> 1 < length (active_managers w T)"
      using guard by (auto simp: active_managers_mem)
    from other_manager [OF keyed m T this] obtain m' where
      m': "m' \<in> set (active_managers w T)" "tu_id m' \<noteq> tu_id m" .
    then have "m' \<in> set (active_managers ?w T)"
      by (auto simp: active_managers_mem intro!: rev_image_eqI)
    then show ?thesis by (auto simp: has_manager_iff)
  qed
qed

lemma keeps_managers_delete:
  assumes m: "m \<in> set (tenant_users w)"
    and guard: "m \<in> set (active_managers w (tu_tenant_id m)) \<Longrightarrow> 1 < length (active_managers w (tu_tenant_id m))"
  shows "keeps_managers w (w\<lparr>tenant_users := filter (\<lambda>x. tu_id x \<noteq> tu_id m) (tenant_users w), tick := n\<rparr>)"
    (is "keeps_managers w ?w")
  unfolding keeps_managers_def
proof (intro impI conjI allI)
  assume keyed: "keyed tu_id tenant_users w"
  then show "keyed tu_id tenant_users ?w" by (simp add: keyed_def distinct_map_filter)
  fix T assume T: "has_manager w T"
  have "m \<in> set (active_managers w T) \<Longrightarrow> 1 < length (active_managers w T)"
    using guard by (auto simp: active_managers_mem)
  from other_manager [OF keyed m T this] obtain m' where
    m': "m' \<in> set (active_managers w T)" "tu_id m' \<noteq> tu_id m" .
  then have "m' \<in> set (active_managers ?w T)"
    by (auto simp: active_managers_mem)
  then show "has_manager ?w T" by (auto simp: has_manager_iff)
qed


lemmas read_rules = reads.ok reads.fail reads.return reads.handle reads.attempt reads.bind reads.for_each

lemma reads_Permissions [guarantees_intro]: "guarantees same_tables (Permissions E r)"
  unfolding Permissions_def by (intro guarantees_intro same_tables_tick)

lemma reads_ResolveRoleID [guarantees_intro]: "guarantees same_tables (ResolveRoleID E T slug)"
  unfolding ResolveRoleID_def by (intro guarantees_intro same_tables_tick)

lemma reads_IsMember [guarantees_intro]: "guarantees same_tables (IsMember E T u)"
  unfolding IsMember_def by (intro guarantees_intro same_tables_tick)

text \<open>The guard the three operations share.\<close>

lemma wp_manager_guard:
  assumes "\<And>n e. Q (Inl e) (w\<lparr>tick := n\<rparr>)"
    and "\<And>n. (b \<Longrightarrow> 1 < length (active_managers w T)) \<Longrightarrow> Q (Inr ()) (w\<lparr>tick := n\<rparr>)"
  shows "wp (if b then attempt (countManagers E T) id (\<lambda>n. if n \<le> 1 then fail ErrLastManager else ok ())
             else ok ()) Q w"
proof (cases b)
  case True
  then show ?thesis unfolding if_P [OF True] wp_attempt
    by (intro wp_countManagers) (auto simp: assms)
next
  case False
  then show ?thesis using assms(2) [of "tick w"] by simp
qed

lemma wp_demotion_guard:
  assumes fail: "\<And>n e. Q (Inl e) (w\<lparr>tick := n\<rparr>)"
    and pass: "\<And>n. (b \<Longrightarrow> \<not> Allows (role_perms w r) PermTenantManage \<Longrightarrow> 1 < length (active_managers w T)) \<Longrightarrow>
      Q (Inr ()) (w\<lparr>tick := n\<rparr>)"
  shows "wp (if b then attempt (roleHasPerm E r PermTenantManage) id (\<lambda>willManage.
      if \<not> willManage then attempt (countManagers E T) id (\<lambda>n. if n \<le> 1 then fail ErrLastManager else ok ())
      else ok ()) else ok ()) Q w"
proof (cases b)
  case False
  then show ?thesis using pass [of "tick w"] by simp
next
  case True
  show ?thesis unfolding if_P [OF True] wp_attempt
  proof (rule wp_roleHasPerm, goal_cases)
    case (2 n)
    show ?case
      using wp_manager_guard [of Q "w\<lparr>tick := n\<rparr>" "\<not> Allows (role_perms w r) PermTenantManage" T E] fail pass
      by simp
  qed (simp add: fail)
qed

lemma one_membership:
  assumes "filter P (tenant_users w) = [m]"
  shows "m \<in> set (tenant_users w)" "P m"
  using arg_cong [OF assms, of set] by auto

lemma UpdateMemberRole_keeps: "guarantees keeps_managers (UpdateMemberRole E T u slug)"
proof (rule guarantees_wp)
  fix w
  show "wp (UpdateMemberRole E T u slug) (\<lambda>_. keeps_managers w) w"
  proof (cases "T = [] \<or> u = []")
    case True
    then show ?thesis by (simp add: UpdateMemberRole_def managers.refl)
  next
    case False
    show ?thesis unfolding UpdateMemberRole_def if_not_P [OF False] wp_attempt
    proof (rule wp_ent_only, goal_cases)
      case (5 n m)
      note m = one_membership [OF 5]
      show ?case unfolding sum.case
      proof (rule wp_reads [OF reads_ResolveRoleID], goal_cases)
        case (1 r k)
        show ?case
        proof (cases r)
          case (Inl e) then show ?thesis by simp
        next
          case (Inr newRoleID)
          show ?thesis unfolding Inr sum.case
          proof (rule wp_roleHasPerm, goal_cases)
            case (2 k2)
            have upd: "keeps_managers w (w\<lparr>tenant_users := map (\<lambda>x. if tu_id x = tu_id m then x\<lparr>tu_role_id := newRoleID\<rparr> else x) (tenant_users w), tick := j\<rparr>)"
              if "manages w m \<Longrightarrow> \<not> Allows (role_perms w newRoleID) PermTenantManage \<Longrightarrow> 1 < length (active_managers w T)" for j
              using m that
              by (intro keeps_managers_update) (auto simp: active_managers_mem manages_def)
            show ?case unfolding sum.case wp_attempt
            proof (rule wp_demotion_guard, goal_cases)
              case (2 k3)
              then show ?case unfolding sum.case
                by (intro wp_ent_update_one) (use upd in \<open>simp_all add: table_put manages_def\<close>)
            qed simp
          qed simp
        qed
      qed
    qed simp_all
  qed
qed


lemma wp_revoke_owned_tokens:
  assumes "\<And>n k. db_fault E k \<Longrightarrow> Q (Inl (ErrDB Fault)) (w\<lparr>tick := n\<rparr>)"
    and "\<And>n c now. Q (Inr c) (w\<lparr>device_tokens := map (\<lambda>d. if dt_user_id d = u \<and> dt_tenant_id d = T \<and>
        dt_revoked_at d = None then d\<lparr>dt_revoked_at := Some now\<rparr> else d) (device_tokens w), tick := n\<rparr>)"
  shows "wp (revoke_owned_tokens E T u) Q w"
  using assms by (auto simp: revoke_owned_tokens_def time_now_def wp_def run_ent_update table_put)

definition no_live_token :: "world \<Rightarrow> string \<Rightarrow> string \<Rightarrow> bool" where
  "no_live_token w T u \<longleftrightarrow>
     (\<forall>d \<in> set (device_tokens w). dt_user_id d = u \<and> dt_tenant_id d = T \<longrightarrow> dt_revoked_at d \<noteq> None)"

text \<open>The last steps of \<open>RemoveMember\<close>, after the membership is gone: tokens and profile.\<close>

definition cleanup_frame :: "world \<Rightarrow> world \<Rightarrow> bool" where
  "cleanup_frame v w' \<longleftrightarrow> tenant_users w' = tenant_users v \<and> role_permissions w' = role_permissions v \<and>
     users w' = users v \<and> roles w' = roles v \<and> tenants w' = tenants v"

lemma keeps_managers_then_frame:
  "keeps_managers w v \<Longrightarrow> cleanup_frame v w' \<Longrightarrow> keeps_managers w w'"
  by (erule managers.trans) (simp add: keeps_managers_frame cleanup_frame_def)

lemma ball_map: "(\<forall>y \<in> set (map f xs). P y) \<longleftrightarrow> (\<forall>x \<in> set xs. P (f x))"
  by simp

lemma bex_map: "(\<exists>y \<in> set (map f xs). P y) \<longleftrightarrow> (\<exists>x \<in> set xs. P (f x))"
  by simp

lemma tokens_put: "device_tokens (w\<lparr>device_tokens := ds, tick := n\<rparr>) = ds"
  by simp

lemma wp_cleanup:
  assumes "\<And>w'. cleanup_frame w w' \<Longrightarrow> ((\<forall>n. \<not> db_fault E n) \<Longrightarrow> no_live_token w' T u) \<Longrightarrow> Q (Inr ()) w'"
  shows "wp (do {
      _ \<leftarrow> revoke_owned_tokens E T u;
      handle (ent_get E tenants t_id T) (\<lambda>_. ok ()) (\<lambda>t. do {
        _ \<leftarrow> in_schema E (t_schema_name t)
               (ent_delete E (profiles (t_schema_name t)) (profiles_update (t_schema_name t))
                 (\<lambda>_ _. False) (\<lambda>p. p_id p = u));
        ok () }) }) Q w"
proof -
  have delete: "wp (in_schema E s (ent_delete E (profiles s) (profiles_update s) (\<lambda>_ _. False) P)) (\<lambda>_. R) v"
    if "\<And>n. R (v\<lparr>tick := n\<rparr>)" "\<And>f n. R (profiles_update s f (v\<lparr>tick := n\<rparr>))" for s P R v
    by (rule wp_in_schema, rule that(1), rule wp_ent_delete, rule that(1), rule that(2))
  have rest: "wp (handle (ent_get E tenants t_id T) (\<lambda>_. ok ()) (\<lambda>t. do {
        _ \<leftarrow> in_schema E (t_schema_name t)
               (ent_delete E (profiles (t_schema_name t)) (profiles_update (t_schema_name t))
                 (\<lambda>_ _. False) (\<lambda>p. p_id p = u));
        ok () })) Q v"
    if "cleanup_frame w v" "(\<forall>n. \<not> db_fault E n) \<Longrightarrow> no_live_token v T u" for v
  proof -
    have Q1: "Q (Inr ()) (v\<lparr>tick := n\<rparr>)" and Q2: "Q (Inr ()) (profiles_update s f (v\<lparr>tick := n\<rparr>))" for n s f
      by (rule assms; use that in \<open>simp add: cleanup_frame_def no_live_token_def\<close>)+
    show ?thesis unfolding wp_handle
    proof (rule wp_ent_get, goal_cases)
      case (5 n t)
      show ?case unfolding sum.case wp_bind wp_ok
        by (rule delete) (use Q1 Q2 in simp_all)
    qed (use Q1 in auto)
  qed
  show ?thesis unfolding wp_bind
  proof (rule wp_revoke_owned_tokens, goal_cases)
    case (1 n k)
    then show ?case by (intro rest) (simp_all add: cleanup_frame_def)
  next
    case (2 n c now)
    let ?f = "\<lambda>d. if dt_user_id d = u \<and> dt_tenant_id d = T \<and> dt_revoked_at d = None
      then d\<lparr>dt_revoked_at := Some now\<rparr> else d"
    have "dt_user_id (?f d) = u \<and> dt_tenant_id (?f d) = T \<longrightarrow> dt_revoked_at (?f d) \<noteq> None" for d
      by simp
    then have "no_live_token (w\<lparr>device_tokens := map ?f (device_tokens w), tick := n\<rparr>) T u"
      using ball_map [of ?f "device_tokens w"] by (simp only: no_live_token_def tokens_put) blast
    then show ?case by (intro rest) (simp_all add: cleanup_frame_def)
  qed
qed

lemma wp_RemoveMember:
  "wp (RemoveMember E T u) (\<lambda>res w'. keeps_managers w w' \<and> users w' = users w \<and> roles w' = roles w \<and>
     role_permissions w' = role_permissions w \<and>
     (\<forall>x \<in> set (tenant_users w). tu_user_id x \<noteq> u \<or> tu_tenant_id x \<noteq> T \<longrightarrow>
        keyed tu_id tenant_users w \<longrightarrow> x \<in> set (tenant_users w')) \<and>
     (res = Inr () \<longrightarrow> (\<forall>x \<in> set (tenant_users w'). tu_user_id x \<noteq> u \<or> tu_tenant_id x \<noteq> T) \<and>
        ((\<forall>n. \<not> db_fault E n) \<longrightarrow> no_live_token w' T u))) w"
    (is "wp _ ?Q w")
proof (cases "T = [] \<or> u = []")
  case True
  then show ?thesis by (simp add: RemoveMember_def managers.refl)
next
  case False
  show ?thesis unfolding RemoveMember_def if_not_P [OF False] wp_attempt
  proof (rule wp_ent_only, goal_cases)
    case (5 n m)
    note m = one_membership [OF 5]
    have only: "x = m" if "x \<in> set (tenant_users w)" "tu_user_id x = u" "tu_tenant_id x = T" for x
      using arg_cong [OF 5, of set] that by auto
    show ?case unfolding sum.case
    proof (rule wp_roleHasPerm, goal_cases)
      case (2 k)
      show ?case unfolding sum.case
      proof (rule wp_manager_guard, goal_cases)
        case (2 j)
        then have guard: "m \<in> set (active_managers w T) \<Longrightarrow> 1 < length (active_managers w T)"
          by (simp add: active_managers_mem manages_def)
        let ?ms = "filter (\<lambda>x. tu_id x \<noteq> tu_id m) (tenant_users w)"
        have keeps: "keeps_managers w (w\<lparr>tenant_users := ?ms, tick := i\<rparr>)" for i
          by (rule keeps_managers_delete) (use m guard in auto)
        have gone: "\<forall>x \<in> set ?ms. tu_user_id x \<noteq> u \<or> tu_tenant_id x \<noteq> T" using only by auto
        have others: "x \<in> set ?ms" if "x \<in> set (tenant_users w)" "keyed tu_id tenant_users w"
          "tu_user_id x \<noteq> u \<or> tu_tenant_id x \<noteq> T" for x
          using that m keyed_unique [of tu_id tenant_users w x m] by auto
        have Q: "?Q (Inr ()) w'" if "cleanup_frame (w\<lparr>tenant_users := ?ms, tick := i\<rparr>) w'"
          "(\<forall>n. \<not> db_fault E n) \<Longrightarrow> no_live_token w' T u" for w' i
        proof -
          note keep = keeps_managers_then_frame [OF keeps that(1)]
          from that(1) have "tenant_users w' = ?ms" "users w' = users w" "roles w' = roles w"
            "role_permissions w' = role_permissions w"
            by (simp_all add: cleanup_frame_def)
          with keep gone others that(2) show ?thesis by metis
        qed
        show ?case unfolding sum.case
        proof (rule wp_ent_delete_one, goal_cases)
          case (1 i e)
          then show ?case by simp
        next
          case (2 i)
          have "m \<in> set (filter (\<lambda>x. tu_id x = tu_id m) (tenant_users w))" using m by simp
          then show ?case using 2 by (auto simp: filter_empty_conv)
        next
          case (3 i)
          show ?case unfolding sum.case
            by (rule wp_cleanup, rule Q) (simp_all add: table_put)
        qed
      qed simp
    qed simp
  qed simp_all
qed


lemma wp_SetMemberStatus:
  "wp (SetMemberStatus E T u status) (\<lambda>res w'. keeps_managers w w' \<and>
     (res = Inr () \<longrightarrow> status \<in> {''active'', ''suspended''} \<and>
        (\<exists>m \<in> set (tenant_users w'). tu_user_id m = u \<and> tu_tenant_id m = T) \<and>
        (\<forall>x \<in> set (tenant_users w'). tu_user_id x = u \<and> tu_tenant_id x = T \<longrightarrow> tu_status x = status))) w"
    (is "wp _ ?Q w")
proof (cases "(T = [] \<or> u = []) \<or> (status \<noteq> ''active'' \<and> status \<noteq> ''suspended'')")
  case True
  then show ?thesis by (auto simp: SetMemberStatus_def managers.refl)
next
  case False
  then have C: "\<not> (T = [] \<or> u = [])" "\<not> (status \<noteq> ''active'' \<and> status \<noteq> ''suspended'')" by blast+
  show ?thesis unfolding SetMemberStatus_def if_not_P [OF C(1)] if_not_P [OF C(2)] wp_attempt
  proof (rule wp_ent_only, goal_cases)
    case (5 n m)
    note m = one_membership [OF 5]
    have only: "x = m" if "x \<in> set (tenant_users w)" "tu_user_id x = u" "tu_tenant_id x = T" for x
      using arg_cong [OF 5, of set] that by auto
    have same_id: "tu_id x = tu_id m" if "x \<in> set (tenant_users w)" "tu_user_id x = u" "tu_tenant_id x = T" for x
      using only [OF that] by simp
    show ?case
    proof (cases "tu_status m = status")
      case True
      have "\<forall>x \<in> set (tenant_users w). tu_user_id x = u \<and> tu_tenant_id x = T \<longrightarrow> tu_status x = status"
        using only True by blast
      then have "?Q (Inr ()) (w\<lparr>tick := n\<rparr>)" using m C(2) by auto
      then show ?thesis using True by simp
    next
      case False
      let ?ms = "map (\<lambda>x. if tu_id x = tu_id m then x\<lparr>tu_status := status\<rparr> else x) (tenant_users w)"
      have fin: "?Q (Inr ()) w'"
        if w': "tenant_users w' = ?ms" "role_permissions w' = role_permissions w"
          and guard: "status = ''suspended'' \<Longrightarrow> manages w m \<Longrightarrow> 1 < length (active_managers w T)" for w'
      proof -
        have "keeps_managers w (w\<lparr>tenant_users := ?ms, tick := tick w\<rparr>)"
          by (rule keeps_managers_update) (use m guard C(2) in \<open>auto simp: active_managers_mem manages_def\<close>)
        then have keep: "keeps_managers w w'"
          by (rule managers.trans) (simp add: keeps_managers_frame w')
        have "\<exists>x \<in> set ?ms. tu_user_id x = u \<and> tu_tenant_id x = T"
          unfolding bex_map by (rule bexI [of _ m]) (use m in auto)
        moreover have "\<forall>x \<in> set ?ms. tu_user_id x = u \<and> tu_tenant_id x = T \<longrightarrow> tu_status x = status"
          unfolding ball_map using same_id by auto
        ultimately show ?thesis using keep C(2) unfolding w'(1) [symmetric] by blast
      qed
      have err: "?Q (Inl e) (w\<lparr>tick := k\<rparr>)" for e k by simp
      let ?after = "\<lambda>_. if status = ''suspended'' then do { _ \<leftarrow> revoke_owned_tokens E T u; ok () } else ok ()"
      have update: "wp (attempt (ent_update_one E tenant_users tenant_users_update tu_id no_clash (tu_id m)
              (\<lambda>x. x\<lparr>tu_status := status\<rparr>)) id ?after) ?Q v"
        if v: "v = w\<lparr>tick := k\<rparr>" and guard: "status = ''suspended'' \<Longrightarrow> manages w m \<Longrightarrow> 1 < length (active_managers w T)" for v k
        unfolding wp_attempt v
      proof (rule wp_ent_update_one, goal_cases)
        case (2 j x xs)
        show ?case
        proof (cases "status = ''suspended''")
          case True
          show ?thesis unfolding sum.case if_P [OF True] wp_bind wp_ok table_put
            by (rule wp_revoke_owned_tokens; rule fin) (use guard True in simp_all)
        next
          case False
          show ?thesis unfolding sum.case if_not_P [OF False] wp_ok table_put
            by (rule fin) (use guard False in simp_all)
        qed
      qed (use err in simp)
      show ?thesis
      proof (cases "status = ''suspended''")
        case True
        show ?thesis unfolding sum.case if_not_P [OF False] if_P [OF True] wp_attempt
        proof (rule wp_roleHasPerm, goal_cases)
          case (2 k)
          show ?case unfolding sum.case
          proof (rule wp_manager_guard, goal_cases)
            case (2 j)
            show ?case unfolding sum.case
              by (rule update [of _ j, unfolded wp_attempt if_P [OF True]]) (use 2 in \<open>simp_all add: manages_def\<close>)
          qed (use err in simp)
        qed (use err in simp)
      next
        case no: False
        show ?thesis unfolding sum.case if_not_P [OF False] if_not_P [OF no] wp_attempt wp_ok
          by (rule update [of _ n, unfolded wp_attempt wp_ok if_not_P [OF no]]) (simp_all add: no)
      qed
    qed
  qed simp_all
qed


section \<open>Properties\<close>

text \<open>Any sequence of membership operations, on any tenants and members, each in an environment of
  its own.\<close>

inductive member_step :: "world \<Rightarrow> world \<Rightarrow> bool" where
  update_role: "member_step w (snd (run_state (UpdateMemberRole E T u slug) w))"
| remove: "member_step w (snd (run_state (RemoveMember E T u) w))"
| set_status: "member_step w (snd (run_state (SetMemberStatus E T u status) w))"

inductive_cases member_stepE: "member_step w w'"

lemma member_step_keeps: "member_step w w' \<Longrightarrow> keeps_managers w w'"
proof (induction rule: member_step.induct)
  case (update_role w E T u slug)
  then show ?case using UpdateMemberRole_keeps [of E T u slug] by (simp add: guarantees_def)
next
  case (remove w E T u)
  then show ?case using wpD [OF wp_RemoveMember surjective_pairing] by blast
next
  case (set_status w E T u status)
  then show ?case using wpD [OF wp_SetMemberStatus surjective_pairing] by blast
qed

lemma member_steps_keep: "member_step\<^sup>*\<^sup>* w w' \<Longrightarrow> keeps_managers w w'"
  by (induction rule: rtranclp_induct) (auto intro: managers.refl managers.trans member_step_keeps)

text \<open>C7. A tenant never loses its last manager. Starting from a database in which a tenant has an
  active member whose role grants \<open>tenant:manage\<close>, no sequence of role changes, removals and
  suspensions, on whatever tenants and members, with whatever database failures in between,
  leaves that tenant without one.\<close>

theorem tenant_keeps_a_manager:
  assumes "keyed tu_id tenant_users w" and "has_manager w T" and "member_step\<^sup>*\<^sup>* w w'"
  shows "has_manager w' T"
  using member_steps_keep [OF assms(3)] assms(1,2) by (simp add: keeps_managers_def)

lemma shop_keyed: "keyed tu_id tenant_users shop"
  by (simp add: keyed_def shop_def)

lemma shop_has_manager: "has_manager shop ''t1''"
  by code_simp

theorem tenant_keeps_a_manager_witness:
  "has_manager (snd (run_state (RemoveMember env0 ''t1'' ''u1'') shop)) ''t1''"
  by (rule tenant_keeps_a_manager [OF shop_keyed shop_has_manager])
    (rule r_into_rtranclp, rule member_step.remove)

text \<open>C26. After \<open>RemoveMember\<close> returned without error the user has no membership in the tenant and,
  when no database call failed, no live device token of theirs in it; the memberships of
  everyone else, the users, the roles and their permissions are as before.\<close>

theorem RemoveMember_correct:
  assumes "run_state (RemoveMember E T u) w = (Inr (), w')" and "keyed tu_id tenant_users w"
  shows "(\<forall>x \<in> set (tenant_users w'). tu_user_id x \<noteq> u \<or> tu_tenant_id x \<noteq> T) \<and>
    (\<forall>x \<in> set (tenant_users w). tu_user_id x \<noteq> u \<or> tu_tenant_id x \<noteq> T \<longrightarrow> x \<in> set (tenant_users w')) \<and>
    ((\<forall>n. \<not> db_fault E n) \<longrightarrow> no_live_token w' T u) \<and>
    users w' = users w \<and> roles w' = roles w \<and> role_permissions w' = role_permissions w"
  using wpD [OF wp_RemoveMember assms(1)] assms(2) by blast

theorem RemoveMember_correct_witness:
  "filter (\<lambda>x. tu_user_id x = ''u2'' \<and> tu_tenant_id x = ''t1'')
     (tenant_users (snd (run_state (RemoveMember env0 ''t1'' ''u2'') shop))) = []"
proof -
  have "fst (run_state (RemoveMember env0 ''t1'' ''u2'') shop) = Inr ()"
    by code_simp
  then have "run_state (RemoveMember env0 ''t1'' ''u2'') shop =
      (Inr (), snd (run_state (RemoveMember env0 ''t1'' ''u2'') shop))"
    by (metis prod.collapse)
  from RemoveMember_correct [OF this shop_keyed] show ?thesis unfolding filter_empty_conv by blast
qed

text \<open>After \<open>SetMemberStatus\<close> returned without error the status is one of the two legal ones,
  the member exists, and every membership row of that user in that tenant carries it.\<close>

theorem SetMemberStatus_correct:
  assumes "run_state (SetMemberStatus E T u status) w = (Inr (), w')"
  shows "status \<in> {''active'', ''suspended''} \<and>
    (\<exists>m \<in> set (tenant_users w'). tu_user_id m = u \<and> tu_tenant_id m = T) \<and>
    (\<forall>x \<in> set (tenant_users w'). tu_user_id x = u \<and> tu_tenant_id x = T \<longrightarrow> tu_status x = status)"
  using wpD [OF wp_SetMemberStatus assms] by blast

theorem SetMemberStatus_correct_witness:
  "list_all (\<lambda>s. s = ''suspended'') (map tu_status (filter (\<lambda>x. tu_user_id x = ''u2'' \<and> tu_tenant_id x = ''t1'')
     (tenant_users (snd (run_state (SetMemberStatus env0 ''t1'' ''u2'' ''suspended'') shop)))))"
proof -
  have "fst (run_state (SetMemberStatus env0 ''t1'' ''u2'' ''suspended'') shop) = Inr ()"
    by code_simp
  then have "run_state (SetMemberStatus env0 ''t1'' ''u2'' ''suspended'') shop =
      (Inr (), snd (run_state (SetMemberStatus env0 ''t1'' ''u2'' ''suspended'') shop))"
    by (metis prod.collapse)
  from SetMemberStatus_correct [OF this] show ?thesis by (auto simp: list_all_iff)
qed

text \<open>The guard on the last manager does not cover the role itself: when the only manager of a
  tenant holds a custom role, \<open>UpdateRole\<close> on that role succeeds in taking \<open>tenant:manage\<close>
  away, and the tenant has no manager left.\<close>

theorem UpdateRole_bypasses_the_guard:
  "let w = shop\<lparr>role_permissions := [\<lparr>rp_id = ''p2'', rp_role_id = ''r2'', rp_permission = ''tenant:manage''\<rparr>]\<rparr>;
       out = run_state (UpdateRole env0 ''t1'' ''r2'' [] (Some [])) w
   in has_manager w ''t1'' \<and> \<not> isl (fst out) \<and> \<not> has_manager (snd out) ''t1''"
  by code_simp

end
