(* ===== verification/Login.thy ===== *)
theory Login
  imports Members
begin

text \<open>
  \<open>src/internal/auth/device_token.go\<close> and \<open>src/internal/auth/login.go\<close>: opaque device tokens,
  password and Google login, the choice of the tenant, logout. \<open>may_sign_in\<close> says when a user
  may get a token for a tenant; the lemmas show that every login that succeeds satisfies it and
  stores exactly one new live token, of which only the hash is kept.
\<close>

section \<open>Device tokens\<close>

definition deviceTokenPrefix :: string where
  "deviceTokenPrefix = ''zdt_''"

definition GenerateDeviceToken :: "env \<Rightarrow> (world, error + string) state" where
  "GenerateDeviceToken E = do {
     r \<leftarrow> sys_call (entropy E);
     (case r of None \<Rightarrow> fail (ErrWrap ''generate device token'' (ErrText ''rand.Read''))
      | Some buf \<Rightarrow> ok (deviceTokenPrefix @ b64url_encode buf)) }"

definition HashToken :: "env \<Rightarrow> string \<Rightarrow> string" where
  "HashToken E raw = hex_encode (sha256 E raw)"

section \<open>Login\<close>

definition distinctTenantIDs :: "tenant_user list \<Rightarrow> string list" where
  "distinctTenantIDs ms = fst (append_unseen (map tu_tenant_id ms) {} [])"

fun contains :: "string list \<Rightarrow> string \<Rightarrow> bool" where
  "contains [] i = False"
| "contains (x # xs) i = (if x = i then True else contains xs i)"

fun membershipForTenant :: "tenant_user list \<Rightarrow> string \<Rightarrow> tenant_user option" where
  "membershipForTenant [] tenantID = None"
| "membershipForTenant (m # ms) tenantID =
     (if tu_tenant_id m = tenantID then Some m else membershipForTenant ms tenantID)"

definition multiTenantError :: "env \<Rightarrow> string list \<Rightarrow> (world, error) state" where
  "multiTenantError E tenantIDs = do {
     r \<leftarrow> for_each tenantIDs (\<lambda>i opts. handle (ent_get E tenants t_id i) (\<lambda>_. ok opts)
            (\<lambda>t. ok (opts @ [\<lparr>opt_slug = t_slug t, opt_name = t_name t\<rparr>]))) [];
     State_Monad.return (case r of Inl e \<Rightarrow> e | Inr opts \<Rightarrow> MultiTenantError opts) }"

text \<open>\<open>issueDeviceToken\<close>: the raw token is returned, its hash is stored.\<close>

definition issueDeviceToken ::
  "env \<Rightarrow> user \<Rightarrow> tenant \<Rightarrow> branch option \<Rightarrow> (world, error + string) state" where
  "issueDeviceToken E u t b =
     attempt (GenerateDeviceToken E) id (\<lambda>raw. do {
       i \<leftarrow> uuid_string E;
       attempt (create_device_token E i (HashToken E raw) (u_id u) (t_id t)
                  (case b of None \<Rightarrow> [] | Some b \<Rightarrow> b_id b))
         (ErrWrap ''create device token'') (\<lambda>_. ok raw) })"

definition resolveTenantAndIssue :: "env \<Rightarrow> user \<Rightarrow> string \<Rightarrow> (world, error + string) state" where
  "resolveTenantAndIssue E u slug =
     attempt (ent_all_asc E tenant_users (\<lambda>m. tu_user_id m = u_id u \<and> tu_status m \<noteq> ''suspended'') tu_created_at)
       (ErrWrap ''load memberships'') (\<lambda>memberships.
         if memberships = [] then fail (ErrText ''no tenant access'')
         else let tenantIDs = distinctTenantIDs memberships in
           attempt
             (if slug \<noteq> [] then
                attempt (ent_only E tenants (\<lambda>t. t_slug t = slug \<and> t_status t = ''active''))
                  (\<lambda>_. ErrText ''tenant not found'')
                  (\<lambda>t. if \<not> contains tenantIDs (t_id t) then fail (ErrText ''no access to tenant'') else ok t)
              else if length tenantIDs = 1 then
                attempt (ent_get E tenants t_id (tenantIDs ! 0)) (\<lambda>_. ErrText ''tenant not available'')
                  (\<lambda>t. if t_status t \<noteq> ''active'' then fail (ErrText ''tenant not available'') else ok t)
              else do { e \<leftarrow> multiTenantError E tenantIDs; fail e }) id
             (\<lambda>t. case membershipForTenant memberships (t_id t) of
                None \<Rightarrow> fail (ErrText ''no access to tenant'')
              | Some m \<Rightarrow>
                  if tu_status m = ''suspended'' then fail (ErrText ''no access to tenant'')
                  else
                    attempt (if tu_branch_id m \<noteq> []
                             then attempt (ent_get E branches b_id (tu_branch_id m))
                                    (\<lambda>_. ErrText ''branch not available'') (\<lambda>b. ok (Some b))
                             else ok None) id
                      (\<lambda>b. issueDeviceToken E u t b)))"

text \<open>\<open>Login\<close> with \<open>LoginInput\<close> \<open>slug\<close>, \<open>email\<close>, \<open>password\<close>.\<close>

definition Login :: "env \<Rightarrow> string \<Rightarrow> string \<Rightarrow> string \<Rightarrow> (world, error + string) state" where
  "Login E slug email password =
     attempt (ent_only E users (\<lambda>u. u_email u = email)) (\<lambda>_. ErrText ''invalid credentials'') (\<lambda>u.
       if \<not> bcrypt_match E (u_password_hash u) password then fail (ErrText ''invalid credentials'')
       else resolveTenantAndIssue E u slug)"

record GoogleClaims =
  g_email :: string
  g_sub :: string
  g_email_verified :: bool

text \<open>\<open>LoginWithGoogle\<close>: \<open>verified\<close> is what \<open>s.google.Verify(ctx, in.IDToken)\<close> returned, \<open>None\<close>
  when no verifier is configured.\<close>

definition LoginWithGoogle ::
  "env \<Rightarrow> (error + GoogleClaims) option \<Rightarrow> string \<Rightarrow> (world, error + string) state" where
  "LoginWithGoogle E verified slug =
     (case verified of None \<Rightarrow> fail ErrGoogleDisabled
      | Some (Inl e) \<Rightarrow> fail e
      | Some (Inr claims) \<Rightarrow>
          handle (ent_only E users (\<lambda>u. u_google_sub u = Some (g_sub claims)))
            (\<lambda>e. if e \<noteq> ErrDB NotFound then fail (ErrWrap ''lookup by google sub'' e)
                 else
                   handle (ent_only E users (\<lambda>u. u_email u = g_email claims))
                     (\<lambda>e. if e = ErrDB NotFound then fail ErrNoGoogleAccount
                          else fail (ErrWrap ''lookup by email'' e))
                     (\<lambda>u. if u_google_sub u = None then
                              handle (ent_update_one E users users_update u_id user_sub_clash (u_id u)
                                        (\<lambda>x. x\<lparr>u_google_sub := Some (g_sub claims)\<rparr>))
                                (\<lambda>_. resolveTenantAndIssue E u slug)
                                (\<lambda>bound. resolveTenantAndIssue E bound slug)
                           else resolveTenantAndIssue E u slug))
            (\<lambda>u. resolveTenantAndIssue E u slug))"

section \<open>Role, plugins, logout\<close>

definition resolveRole :: "env \<Rightarrow> string \<Rightarrow> (world, error + string list \<times> string list) state" where
  "resolveRole E roleID =
     (if roleID = [] then ok ([], WithBaseline [])
      else attempt (ent_get E roles r_id roleID) (ErrWrap ''load role'') (\<lambda>r.
        attempt (Permissions E roleID) (ErrWrap ''load permissions'') (\<lambda>perms.
          ok ([r_slug r], WithBaseline perms))))"

definition InstalledPlugins :: "env \<Rightarrow> string \<Rightarrow> (world, string list) state" where
  "InstalledPlugins E tenantID = do {
     r \<leftarrow> ent_all E plugin_installs (\<lambda>p. pi_tenant_id p = tenantID);
     let installs = (case r of Inl _ \<Rightarrow> [] | Inr ps \<Rightarrow> ps);
     State_Monad.return
       (foldl (\<lambda>out p. if pi_plugin_name p \<noteq> ''identity'' then out @ [pi_plugin_name p] else out)
          [''identity''] installs) }"

definition Logout :: "env \<Rightarrow> string \<Rightarrow> (world, error + unit) state" where
  "Logout E tokenHash =
     (if tokenHash = [] then ok ()
      else do {
        now \<leftarrow> time_now E;
        attempt (ent_update E device_tokens device_tokens_update
                   (\<lambda>d. dt_token_hash d = tokenHash \<and> dt_revoked_at d = None)
                   (\<lambda>d. d\<lparr>dt_revoked_at := Some now\<rparr>)) id (\<lambda>_. ok ()) })"

section \<open>The helper functions\<close>

lemma distinctTenantIDs_props:
  "set (distinctTenantIDs ms) = tu_tenant_id ` set ms" "distinct (distinctTenantIDs ms)"
proof -
  obtain out seen where "append_unseen (map tu_tenant_id ms) {} [] = (out, seen)" by fastforce
  from append_unseen_props [OF this] this
  show "set (distinctTenantIDs ms) = tu_tenant_id ` set ms" "distinct (distinctTenantIDs ms)"
    by (simp_all add: distinctTenantIDs_def)
qed

lemma contains_iff [simp]: "contains xs i \<longleftrightarrow> i \<in> set xs"
  by (induction xs) auto

lemma membershipForTenant_Some:
  "membershipForTenant ms T = Some m \<Longrightarrow> m \<in> set ms \<and> tu_tenant_id m = T"
  by (induction ms) (auto split: if_splits)

lemma membershipForTenant_None: "membershipForTenant ms T = None \<longleftrightarrow> T \<notin> tu_tenant_id ` set ms"
  by (induction ms) auto

section \<open>What a login does\<close>

lemma one_row: "filter P xs = [m] \<Longrightarrow> m \<in> set xs \<and> P m"
  by (drule arg_cong [of _ _ set]) auto

lemma same_rows: "mset ms = mset (filter P xs) \<Longrightarrow> m \<in> set ms \<longleftrightarrow> m \<in> set xs \<and> P m"
  by (drule mset_eq_setD) auto

definition may_sign_in :: "world \<Rightarrow> string \<Rightarrow> string \<Rightarrow> bool" where
  "may_sign_in w u T \<longleftrightarrow>
     (\<exists>t \<in> set (tenants w). t_id t = T \<and> t_status t = ''active'') \<and>
     (\<exists>m \<in> set (tenant_users w). tu_user_id m = u \<and> tu_tenant_id m = T \<and> tu_status m \<noteq> ''suspended'')"

definition fresh_token :: "env \<Rightarrow> world \<Rightarrow> string \<Rightarrow> string \<Rightarrow> string \<Rightarrow> string \<Rightarrow> device_token \<Rightarrow> bool" where
  "fresh_token E w raw u T b d \<longleftrightarrow> dt_token_hash d = HashToken E raw \<and> dt_user_id d = u \<and>
     dt_tenant_id d = T \<and> dt_branch_id d = b \<and> dt_revoked_at d = None \<and> dt_last_used_at d = None \<and>
     (\<forall>x \<in> set (device_tokens w). dt_token_hash x \<noteq> HashToken E raw \<and> dt_id x \<noteq> dt_id d) \<and>
     take 4 raw = deviceTokenPrefix"

lemma wp_create_device_token:
  assumes "\<And>n e. Q (Inl (ErrDB e)) (w\<lparr>tick := n\<rparr>)"
    and "\<And>n d. dt_id d = i \<Longrightarrow> dt_token_hash d = h \<Longrightarrow> dt_user_id d = u \<Longrightarrow> dt_tenant_id d = T \<Longrightarrow> dt_branch_id d = b \<Longrightarrow>
      dt_revoked_at d = None \<Longrightarrow> dt_last_used_at d = None \<Longrightarrow>
      \<forall>x \<in> set (device_tokens w). dt_token_hash x \<noteq> h \<and> dt_id x \<noteq> i \<Longrightarrow>
      Q (Inr d) (w\<lparr>device_tokens := device_tokens w @ [d], tick := n\<rparr>)"
  shows "wp (create_device_token E i h u T b) Q w"
  unfolding create_device_token_def wp_bind
proof (rule wp_time_now, goal_cases)
  case (1 now n)
  show ?case
  proof (cases "h = [] \<or> u = [] \<or> T = []")
    case True
    then show ?thesis using assms(1) by simp
  next
    case False
    let ?d = "\<lparr>dt_id = i, dt_token_hash = h, dt_user_id = u, dt_tenant_id = T, dt_branch_id = b,
      dt_device_name = [], dt_created_at = now, dt_last_used_at = None, dt_revoked_at = None\<rparr>"
    show ?thesis unfolding if_not_P [OF False]
    proof (rule wp_ent_create, goal_cases)
      case (2 k)
      have "Q (Inr ?d) (w\<lparr>device_tokens := device_tokens w @ [?d], tick := k\<rparr>)"
        by (rule assms(2)) (use 2 in \<open>auto simp: device_token_clash_def\<close>)
      then show ?case by (simp add: table_put)
    qed (simp add: assms(1))
  qed
qed

lemma wp_issueDeviceToken:
  assumes "\<And>n e. Q (Inl e) (w\<lparr>tick := n\<rparr>)"
    and "\<And>n raw d. fresh_token E w raw (u_id u) (t_id t) (case b of None \<Rightarrow> [] | Some b \<Rightarrow> b_id b) d \<Longrightarrow>
      Q (Inr raw) (w\<lparr>device_tokens := device_tokens w @ [d], tick := n\<rparr>)"
  shows "wp (issueDeviceToken E u t b) Q w"
  unfolding issueDeviceToken_def wp_attempt GenerateDeviceToken_def wp_bind
proof (rule wp_sys_call, goal_cases)
  case (1 k m)
  show ?case
  proof (cases "entropy E k")
    case None
    then show ?thesis using assms(1) by simp
  next
    case (Some buf)
    show ?thesis unfolding Some option.case wp_ok sum.case wp_bind wp_attempt
    proof (rule wp_uuid_string, rule wp_create_device_token, goal_cases)
      case (2 i n n' d)
      then have "fresh_token E w (deviceTokenPrefix @ b64url_encode buf) (u_id u) (t_id t)
          (case b of None \<Rightarrow> [] | Some b \<Rightarrow> b_id b) d"
        by (simp add: fresh_token_def deviceTokenPrefix_def)
      from assms(2) [OF this] show ?case by simp
    qed (simp add: assms(1))
  qed
qed

lemma reads_multiTenantError [guarantees_intro]: "guarantees same_tables (multiTenantError E ids)"
  unfolding multiTenantError_def by (intro guarantees_intro same_tables_tick)

text \<open>The choice of the tenant, and what \<open>resolveTenantAndIssue\<close> leaves behind.\<close>

definition issued :: "env \<Rightarrow> string \<Rightarrow> string \<Rightarrow> world \<Rightarrow> string \<Rightarrow> world \<Rightarrow> bool" where
  "issued E uid slug w raw w' \<longleftrightarrow> (\<exists>T b d n. w' = w\<lparr>device_tokens := device_tokens w @ [d], tick := n\<rparr> \<and>
     fresh_token E w raw uid T b d \<and> may_sign_in w uid T \<and>
     (\<exists>m \<in> set (tenant_users w). tu_user_id m = uid \<and> tu_tenant_id m = T \<and> tu_status m \<noteq> ''suspended'' \<and> tu_branch_id m = b) \<and>
     (slug \<noteq> [] \<longrightarrow> (\<exists>t \<in> set (tenants w). t_id t = T \<and> t_slug t = slug)))"

lemma wp_resolveTenantAndIssue:
  "wp (resolveTenantAndIssue E u slug) (\<lambda>r w'. case r of Inl _ \<Rightarrow> same_tables w w'
     | Inr raw \<Rightarrow> issued E (u_id u) slug w raw w') w"
    (is "wp _ ?Q w")
  unfolding resolveTenantAndIssue_def wp_attempt
proof (rule wp_ent_all_asc, goal_cases)
  case (3 n ms)
  have mem: "m \<in> set ms \<Longrightarrow> m \<in> set (tenant_users w) \<and> tu_user_id m = u_id u \<and> tu_status m \<noteq> ''suspended''" for m
    using same_rows [OF 3(1)] by blast
  have issue: "wp (case membershipForTenant ms (t_id t) of
                None \<Rightarrow> fail (ErrText ''no access to tenant'')
              | Some m \<Rightarrow>
                  if tu_status m = ''suspended'' then fail (ErrText ''no access to tenant'')
                  else
                    attempt (if tu_branch_id m \<noteq> []
                             then attempt (ent_get E branches b_id (tu_branch_id m))
                                    (\<lambda>_. ErrText ''branch not available'') (\<lambda>b. ok (Some b))
                             else ok None) id
                      (\<lambda>b. issueDeviceToken E u t b)) ?Q v"
    if v: "v = w\<lparr>tick := k\<rparr>" and t: "t \<in> set (tenants w)" "t_status t = ''active''" "slug \<noteq> [] \<longrightarrow> t_slug t = slug" for t v k
  proof (cases "membershipForTenant ms (t_id t)")
    case None
    then show ?thesis by (simp add: v)
  next
    case (Some m)
    note m = membershipForTenant_Some [OF Some] mem [of m]
    have token: "wp (issueDeviceToken E u t b) ?Q x"
      if "(case b of None \<Rightarrow> [] | Some b \<Rightarrow> b_id b) = tu_branch_id m" "x = w\<lparr>tick := j\<rparr>" for b x j
    proof (rule wp_issueDeviceToken, goal_cases)
      case (2 i raw d)
      have "fresh_token E w raw (u_id u) (t_id t) (tu_branch_id m) d"
        using 2 that by (simp add: fresh_token_def)
      then have "issued E (u_id u) slug w raw (w\<lparr>device_tokens := device_tokens w @ [d], tick := i\<rparr>)"
        unfolding issued_def may_sign_in_def using m t by blast
      then show ?case by (simp add: that(2))
    qed (simp add: that(2))
    have live: "\<not> tu_status m = ''suspended''" using m by blast
    show ?thesis
    proof (cases "tu_branch_id m = []")
      case True
      then show ?thesis using token [of None v k] v unfolding Some option.case if_not_P [OF live] wp_attempt
        by simp
    next
      case False
      show ?thesis unfolding Some option.case if_not_P [OF live] if_P [OF False] wp_attempt v
      proof (rule wp_ent_get, goal_cases)
        case (5 j b)
        have "b_id b = tu_branch_id m" using one_row [OF 5] by simp
        then show ?case unfolding sum.case wp_ok by (intro token [of _ _ j]) simp_all
      qed simp_all
    qed
  qed
  let ?pick = "if slug \<noteq> [] then
                attempt (ent_only E tenants (\<lambda>t. t_slug t = slug \<and> t_status t = ''active''))
                  (\<lambda>_. ErrText ''tenant not found'')
                  (\<lambda>t. if \<not> contains (distinctTenantIDs ms) (t_id t) then fail (ErrText ''no access to tenant'') else ok t)
              else if length (distinctTenantIDs ms) = 1 then
                attempt (ent_get E tenants t_id (distinctTenantIDs ms ! 0)) (\<lambda>_. ErrText ''tenant not available'')
                  (\<lambda>t. if t_status t \<noteq> ''active'' then fail (ErrText ''tenant not available'') else ok t)
              else do { e \<leftarrow> multiTenantError E (distinctTenantIDs ms); fail e }"
  have pick: "wp ?pick (\<lambda>r v. \<exists>k. v = w\<lparr>tick := k\<rparr> \<and> (\<forall>t. r = Inr t \<longrightarrow>
      t \<in> set (tenants w) \<and> t_status t = ''active'' \<and> (slug \<noteq> [] \<longrightarrow> t_slug t = slug))) (w\<lparr>tick := n\<rparr>)"
    (is "wp _ ?R _")
  proof -
    have err: "?R (Inl e) (w\<lparr>tick := k\<rparr>)" for e k by auto
    consider "slug \<noteq> []" | "slug = []" "length (distinctTenantIDs ms) = 1" | "slug = []" "length (distinctTenantIDs ms) \<noteq> 1"
      by blast
    then show ?thesis
    proof cases
      case 1
      show ?thesis unfolding if_P [OF 1] wp_attempt
        by (rule wp_ent_only) (auto dest: one_row)
    next
      case 2
      then show ?thesis
        by simp (rule wp_ent_get; auto dest: one_row)
    next
      case 3
      then show ?thesis
        by (auto intro!: wp_reads [OF reads_multiTenantError])
    qed
  qed
  show ?case
  proof (cases "ms = []")
    case True
    then show ?thesis by simp
  next
    case False
    show ?thesis unfolding sum.case if_not_P [OF False] Let_def wp_attempt [of ?pick]
    proof (rule wp_mono [OF pick], goal_cases)
      case (1 r v)
      show ?case
      proof (cases r)
        case (Inl e)
        then show ?thesis using 1 by auto
      next
        case (Inr t)
        then obtain k where "v = w\<lparr>tick := k\<rparr>" using 1 by blast
        then show ?thesis unfolding Inr sum.case by (rule issue) (use 1 Inr in auto)
      qed
    qed
  qed
qed simp_all

lemma wp_Login:
  "wp (Login E slug email password) (\<lambda>r w'. case r of Inl _ \<Rightarrow> same_tables w w'
     | Inr raw \<Rightarrow> \<exists>u \<in> set (users w). u_email u = email \<and> bcrypt_match E (u_password_hash u) password \<and>
         issued E (u_id u) slug w raw w') w"
  unfolding Login_def wp_attempt
proof (rule wp_ent_only, goal_cases)
  case (5 n u)
  note u = one_row [OF 5]
  show ?case
  proof (cases "bcrypt_match E (u_password_hash u) password")
    case False
    then show ?thesis by simp
  next
    case True
    have move: "issued E uid slug (w\<lparr>tick := n\<rparr>) raw w' \<Longrightarrow> issued E uid slug w raw w'" for uid raw w'
      by (auto simp: issued_def may_sign_in_def fresh_token_def)
    have move': "same_tables (w\<lparr>tick := n\<rparr>) w' \<Longrightarrow> same_tables w w'" for w'
      by (metis reads.trans same_tables_tick)
    show ?thesis using True
      by simp (rule wp_mono [OF wp_resolveTenantAndIssue], use u True move move' in \<open>auto split: sum.splits\<close>)
  qed
qed simp_all

text \<open>Binding a Google account: at most the matched user's empty \<open>google_sub\<close> is filled in.\<close>

definition google_matched :: "world \<Rightarrow> GoogleClaims \<Rightarrow> user \<Rightarrow> bool" where
  "google_matched w claims u \<longleftrightarrow> u \<in> set (users w) \<and>
     (u_google_sub u = Some (g_sub claims) \<or>
      u_email u = g_email claims \<and> \<not> (\<exists>x \<in> set (users w). u_google_sub x = Some (g_sub claims)))"

text \<open>What every successful login achieves, in terms of the tables it depends on.\<close>

definition signed_in :: "env \<Rightarrow> string \<Rightarrow> string \<Rightarrow> world \<Rightarrow> string \<Rightarrow> world \<Rightarrow> bool" where
  "signed_in E uid slug w raw w' \<longleftrightarrow> (\<exists>T b d. device_tokens w' = device_tokens w @ [d] \<and>
     fresh_token E w raw uid T b d \<and> may_sign_in w uid T \<and>
     (slug \<noteq> [] \<longrightarrow> (\<exists>t \<in> set (tenants w). t_id t = T \<and> t_slug t = slug)))"

lemma issued_signed_in:
  assumes "issued E uid slug v raw w'" and "tenants v = tenants w" "tenant_users v = tenant_users w"
    "device_tokens v = device_tokens w"
  shows "signed_in E uid slug w raw w'"
proof -
  from assms(1) obtain T b d n where w': "w' = v\<lparr>device_tokens := device_tokens v @ [d], tick := n\<rparr>"
    and d: "fresh_token E v raw uid T b d" "may_sign_in v uid T"
      "slug \<noteq> [] \<longrightarrow> (\<exists>t \<in> set (tenants v). t_id t = T \<and> t_slug t = slug)"
    unfolding issued_def by blast
  have "fresh_token E w raw uid T b d" "may_sign_in w uid T"
      "slug \<noteq> [] \<longrightarrow> (\<exists>t \<in> set (tenants w). t_id t = T \<and> t_slug t = slug)"
    using d assms(2-4) by (simp_all add: fresh_token_def may_sign_in_def)
  moreover have "device_tokens w' = device_tokens w @ [d]" by (simp add: w' assms(4))
  ultimately show ?thesis unfolding signed_in_def by blast
qed

lemma wp_LoginWithGoogle_verified:
  "wp (LoginWithGoogle E (Some (Inr claims)) slug) (\<lambda>r w'. device_tokens w' = device_tokens w \<and> isl r \<or>
     (\<exists>raw u. r = Inr raw \<and> google_matched w claims u \<and> signed_in E (u_id u) slug w raw w')) w"
    (is "wp _ ?Q w")
proof -
    have finish: "wp (resolveTenantAndIssue E u' slug) ?Q v"
      if "google_matched w claims u" "u_id u' = u_id u" "tenants v = tenants w" "tenant_users v = tenant_users w"
        "device_tokens v = device_tokens w" for u u' v
    proof (rule wp_mono [OF wp_resolveTenantAndIssue], goal_cases)
      case (1 r w')
      show ?case
      proof (cases r)
        case (Inl e)
        then have "device_tokens w' = device_tokens v"
          using 1 by (simp add: same_tables_def) (metis world.select_convs(7) world.surjective world.update_convs(11))
        then show ?thesis using Inl that by simp
      next
        case (Inr raw)
        then show ?thesis using 1 that issued_signed_in [of E "u_id u" slug v raw w' w]
          by auto
      qed
    qed
    show ?thesis unfolding LoginWithGoogle_def option.case sum.case wp_handle
    proof (rule wp_ent_only, goal_cases)
      case (5 n u)
      show ?case unfolding sum.case
        by (rule finish [of u]) (use one_row [OF 5] in \<open>auto simp: google_matched_def\<close>)
    next
      case (3 n)
      then have nobody: "\<not> (\<exists>x \<in> set (users w). u_google_sub x = Some (g_sub claims))"
        by (auto simp: filter_empty_conv)
      show ?case
      proof (unfold sum.case, subst if_not_P, simp, unfold wp_handle, rule wp_ent_only, goal_cases)
        case (5 k u)
        have m: "google_matched w claims u" using one_row [OF 5] nobody by (auto simp: google_matched_def)
        show ?case
        proof (cases "u_google_sub u = None")
          case False
          show ?thesis unfolding sum.case if_not_P [OF False] by (rule finish [OF m]) simp_all
        next
          case True
          show ?thesis unfolding sum.case if_P [OF True] wp_handle
          proof (rule wp_ent_update_one, goal_cases)
            case (1 j e)
            show ?case unfolding sum.case by (rule finish [OF m]) simp_all
          next
            case (2 j x xs)
            have "u_id x = u_id u" using arg_cong [OF 2(1), of set] by auto
            then show ?case unfolding sum.case by (intro finish [OF m]) simp_all
          qed
        qed
      qed auto
    qed auto
qed

lemma wp_LoginWithGoogle:
  "wp (LoginWithGoogle E verified slug) (\<lambda>r w'. device_tokens w' = device_tokens w \<and> isl r \<or>
     (\<exists>raw claims u. r = Inr raw \<and> verified = Some (Inr claims) \<and> google_matched w claims u \<and>
        signed_in E (u_id u) slug w raw w')) w"
proof (cases "\<exists>claims. verified = Some (Inr claims)")
  case True
  then obtain claims where "verified = Some (Inr claims)" by blast
  then show ?thesis using wp_LoginWithGoogle_verified [of E claims slug w] by simp
next
  case False
  then show ?thesis by (auto simp: LoginWithGoogle_def split: option.splits sum.splits)
qed

section \<open>Properties\<close>

text \<open>C11. Password login is sound: a token is only issued to a stored user with that email whose
  password hash matches, for an active tenant in which the user has an unsuspended membership
  (the one named by the slug when one was given), and the database has gained exactly one
  device token, live, whose hash is that of the token and is shared with no other row. A
  refused login changes no table.\<close>

theorem Login_sound:
  "(case run_state (Login E slug email password) w of (r, w') \<Rightarrow>
     case r of Inl _ \<Rightarrow> same_tables w w'
     | Inr raw \<Rightarrow> (\<exists>u \<in> set (users w). u_email u = email \<and> bcrypt_match E (u_password_hash u) password \<and>
         issued E (u_id u) slug w raw w'))"
  using wp_Login [of E slug email password w] by (simp add: wp_def)

theorem Login_sound_witness:
  "take 4 (projr (fst (run_state (Login env0 ''acme'' ''b@x.io'' ''hunter22'') shop))) = ''zdt_''"
proof -
  have "\<not> isl (fst (run_state (Login env0 ''acme'' ''b@x.io'' ''hunter22'') shop))" by code_simp
  then show ?thesis
    using Login_sound [where E = env0 and slug = "''acme''" and email = "''b@x.io''" and password = "''hunter22''" and w = shop]
    by (auto simp: isl_def issued_def fresh_token_def deviceTokenPrefix_def split: prod.splits sum.splits)
qed

text \<open>C16. Google login is sound: without a verified ID token no token is issued, and a token is only
  issued to a user bound to that Google subject or, when nobody is bound to it, to the user
  with the verified email, under the same conditions as a password login. A refused login
  stores no token.\<close>

theorem LoginWithGoogle_sound:
  "(case run_state (LoginWithGoogle E verified slug) w of (r, w') \<Rightarrow>
     device_tokens w' = device_tokens w \<and> isl r \<or>
     (\<exists>raw claims u. r = Inr raw \<and> verified = Some (Inr claims) \<and> google_matched w claims u \<and>
        signed_in E (u_id u) slug w raw w'))"
  using wp_LoginWithGoogle [of E verified slug w] by (simp add: wp_def)

text \<open>A user already bound to one Google subject can still sign in with a different subject
  that carries the same verified email: the binding is kept but not checked.\<close>

theorem LoginWithGoogle_ignores_the_binding:
  "let w = shop\<lparr>users := map (\<lambda>u. u\<lparr>u_google_sub := (if u_id u = ''u2'' then Some ''sub-A'' else None)\<rparr>) (users shop)\<rparr>;
       out = run_state (LoginWithGoogle env0
         (Some (Inr \<lparr>g_email = ''b@x.io'', g_sub = ''sub-B'', g_email_verified = True\<rparr>)) []) w
   in \<not> isl (fst out) \<and> map dt_user_id (device_tokens (snd out)) = [''u1'', ''u2''] \<and>
      map u_google_sub (users (snd out)) = [None, Some ''sub-A'']"
  by code_simp

end
