(* ===== verification/Introspect.thy ===== *)
theory Introspect
  imports Login
begin

text \<open>
  \<open>src/internal/auth/introspect.go\<close>: the check Core makes on every request. \<open>authorized\<close> is the
  abstract policy (live token, active tenant, owner and acting user active members, or a platform
  admin); \<open>Introspect\<close> is shown to accept only what the policy allows, to report the role,
  permissions and branch stored at that moment, and, with a working database, to accept the
  requests a member makes on the own device.
\<close>

section \<open>Operations\<close>

record IntrospectResult =
  ir_tenant_id :: string
  ir_tenant_slug :: string
  ir_schema_name :: string
  ir_branch_id :: string
  ir_branch_slug :: string
  ir_user_id :: string
  ir_user_type :: string
  ir_roles :: "string list"
  ir_permissions :: "string list"

text \<open>Five minutes in nanoseconds, the unit of \<open>time.Duration\<close> and of the model's clock.\<close>

definition lastUsedThrottle :: nat where
  "lastUsedThrottle = 5 * 60 * 1000000000"

definition activeMembership :: "env \<Rightarrow> string \<Rightarrow> string \<Rightarrow> (world, error + tenant_user) state" where
  "activeMembership E tenantID userID =
     ent_only E tenant_users
       (\<lambda>m. tu_user_id m = userID \<and> tu_tenant_id m = tenantID \<and> tu_status m \<noteq> ''suspended'')"

text \<open>The owner's membership: optional for a platform admin.\<close>

definition owner_membership ::
  "env \<Rightarrow> device_token \<Rightarrow> bool \<Rightarrow> (world, error + tenant_user option) state" where
  "owner_membership E dt ownerIsAdmin =
     handle (activeMembership E (dt_tenant_id dt) (dt_user_id dt))
       (\<lambda>_. if \<not> ownerIsAdmin then fail ErrMembershipRevoked else ok None) (\<lambda>m. ok (Some m))"

text \<open>The acting user, its membership and whether it is a platform admin.\<close>

definition resolve_acting ::
  "env \<Rightarrow> device_token \<Rightarrow> string \<Rightarrow> tenant_user option \<Rightarrow> bool \<Rightarrow>
   (world, error + string \<times> tenant_user option \<times> bool) state" where
  "resolve_acting E dt actingUserID ownerM ownerIsAdmin =
     (if actingUserID \<noteq> [] \<and> actingUserID \<noteq> dt_user_id dt then
        attempt (activeMembership E (dt_tenant_id dt) actingUserID) (\<lambda>_. ErrMembershipRevoked) (\<lambda>m. do {
          au \<leftarrow> ent_get E users u_id actingUserID;
          ok (actingUserID, Some m,
              case au of Inl _ \<Rightarrow> ownerIsAdmin | Inr u \<Rightarrow> u_is_platform_admin u) })
      else ok (dt_user_id dt, ownerM, ownerIsAdmin))"

text \<open>The throttled last-used stamp; its error is ignored.\<close>

definition stamp_last_used :: "env \<Rightarrow> device_token \<Rightarrow> (world, unit) state" where
  "stamp_last_used E dt = do {
     due \<leftarrow> (case dt_last_used_at dt of None \<Rightarrow> State_Monad.return True
             | Some used \<Rightarrow> do { now \<leftarrow> time_now E; State_Monad.return (lastUsedThrottle < now - used) });
     (if due then do {
        now \<leftarrow> time_now E;
        _ \<leftarrow> ent_update_one E device_tokens device_tokens_update dt_id no_clash (dt_id dt)
               (\<lambda>d. d\<lparr>dt_last_used_at := Some now\<rparr>);
        State_Monad.return () }
      else State_Monad.return ()) }"

text \<open>The branch of the device token, when it still exists.\<close>

definition token_branch :: "env \<Rightarrow> device_token \<Rightarrow> (world, string \<times> string) state" where
  "token_branch E dt =
     (if dt_branch_id dt \<noteq> []
      then handle (ent_get E branches b_id (dt_branch_id dt)) (\<lambda>_. State_Monad.return ([], []))
             (\<lambda>b. State_Monad.return (b_id b, b_slug b))
      else State_Monad.return ([], []))"

text \<open>From the resolved acting user to the result: role and permissions, branch, stamp.\<close>

definition introspect_result ::
  "env \<Rightarrow> device_token \<Rightarrow> tenant \<Rightarrow> string \<Rightarrow> tenant_user option \<Rightarrow> bool \<Rightarrow>
   (world, error + IntrospectResult) state" where
  "introspect_result E dt t acting m actingIsAdmin =
     attempt (case m of None \<Rightarrow> ok ([], []) | Some m \<Rightarrow> resolveRole E (tu_role_id m)) id
       (\<lambda>(role_slugs, permissions). do {
          (bid, bslug) \<leftarrow> token_branch E dt;
          _ \<leftarrow> stamp_last_used E dt;
          ok \<lparr>ir_tenant_id = t_id t, ir_tenant_slug = t_slug t, ir_schema_name = t_schema_name t,
              ir_branch_id = bid, ir_branch_slug = bslug, ir_user_id = acting,
              ir_user_type = (if actingIsAdmin then ''platform_admin'' else ''tenant_user''),
              ir_roles = role_slugs, ir_permissions = permissions\<rparr> })"

definition Introspect :: "env \<Rightarrow> string \<Rightarrow> string \<Rightarrow> (world, error + IntrospectResult) state" where
  "Introspect E tokenHash actingUserID =
     attempt (ent_only E device_tokens (\<lambda>d. dt_token_hash d = tokenHash \<and> dt_revoked_at d = None))
       (\<lambda>_. ErrInvalidToken) (\<lambda>dt.
     attempt (ent_get E tenants t_id (dt_tenant_id dt)) (\<lambda>_. ErrInvalidToken) (\<lambda>t.
     if t_status t \<noteq> ''active'' then fail ErrInvalidToken
     else do {
       owner \<leftarrow> ent_get E users u_id (dt_user_id dt);
       let ownerIsAdmin = (case owner of Inl _ \<Rightarrow> False | Inr u \<Rightarrow> u_is_platform_admin u);
       attempt (owner_membership E dt ownerIsAdmin) id (\<lambda>ownerM.
       attempt (resolve_acting E dt actingUserID ownerM ownerIsAdmin) id (\<lambda>(acting, m, actingIsAdmin).
       introspect_result E dt t acting m actingIsAdmin)) }))"

section \<open>The policy\<close>

definition active_member :: "world \<Rightarrow> string \<Rightarrow> string \<Rightarrow> bool" where
  "active_member w T u \<longleftrightarrow>
     (\<exists>m \<in> set (tenant_users w). tu_user_id m = u \<and> tu_tenant_id m = T \<and> tu_status m \<noteq> ''suspended'')"

definition is_admin :: "world \<Rightarrow> string \<Rightarrow> bool" where
  "is_admin w u \<longleftrightarrow> (\<exists>x \<in> set (users w). u_id x = u \<and> u_is_platform_admin x)"

text \<open>What a role gives: its slug, and the baseline with the permissions stored for it. No role gives
  the baseline alone.\<close>

definition role_gives :: "world \<Rightarrow> string \<Rightarrow> string list \<Rightarrow> string set \<Rightarrow> bool" where
  "role_gives w rid slugs ps \<longleftrightarrow>
     (if rid = [] then slugs = [] \<and> ps = set BaselinePermissions
      else \<exists>r \<in> set (roles w). r_id r = rid \<and> slugs = [r_slug r] \<and>
        ps = set BaselinePermissions \<union> set (role_perms w rid))"

text \<open>The role and permissions of an unsuspended member of the tenant.\<close>

definition member_access :: "world \<Rightarrow> string \<Rightarrow> string \<Rightarrow> string list \<Rightarrow> string set \<Rightarrow> bool" where
  "member_access w T u slugs ps \<longleftrightarrow>
     (\<exists>m \<in> set (tenant_users w). tu_user_id m = u \<and> tu_tenant_id m = T \<and> tu_status m \<noteq> ''suspended'' \<and>
        role_gives w (tu_role_id m) slugs ps)"

text \<open>The branch of a device: none, or the id and the slug of the branch the device is bound to.\<close>

definition device_branch :: "world \<Rightarrow> device_token \<Rightarrow> string \<Rightarrow> string \<Rightarrow> bool" where
  "device_branch w d b slug \<longleftrightarrow> b = [] \<and> slug = [] \<or>
     dt_branch_id d \<noteq> [] \<and> (\<exists>x \<in> set (branches w). b_id x = dt_branch_id d \<and> b = b_id x \<and> slug = b_slug x)"

definition authorized :: "world \<Rightarrow> string \<Rightarrow> string \<Rightarrow> IntrospectResult \<Rightarrow> bool" where
  "authorized w h acting res \<longleftrightarrow>
     (\<exists>d \<in> set (device_tokens w). \<exists>t \<in> set (tenants w).
        dt_token_hash d = h \<and> dt_revoked_at d = None \<and> t_id t = dt_tenant_id d \<and> t_status t = ''active'' \<and>
        ir_tenant_id res = t_id t \<and> ir_tenant_slug res = t_slug t \<and> ir_schema_name res = t_schema_name t \<and>
        (active_member w (t_id t) (dt_user_id d) \<or> is_admin w (dt_user_id d)) \<and>
        (if acting = [] \<or> acting = dt_user_id d
         then ir_user_id res = dt_user_id d
         else ir_user_id res = acting \<and> active_member w (t_id t) acting) \<and>
        (member_access w (t_id t) (ir_user_id res) (ir_roles res) (set (ir_permissions res)) \<or>
         ir_user_id res = dt_user_id d \<and> is_admin w (dt_user_id d) \<and> ir_permissions res = [] \<and> ir_roles res = []) \<and>
        ir_user_type res \<in> {''platform_admin'', ''tenant_user''} \<and>
        (ir_user_type res = ''platform_admin'' \<longrightarrow> is_admin w (ir_user_id res) \<or> is_admin w (dt_user_id d)) \<and>
        device_branch w d (ir_branch_id res) (ir_branch_slug res))"


section \<open>Soundness\<close>

text \<open>All that \<open>Introspect\<close> may write is the last-used stamp.\<close>

definition stamped :: "world \<Rightarrow> world \<Rightarrow> bool" where
  "stamped w w' \<longleftrightarrow> w' = w\<lparr>device_tokens := device_tokens w', tick := tick w'\<rparr> \<and>
     map (dt_last_used_at_update (\<lambda>_. None)) (device_tokens w') =
     map (dt_last_used_at_update (\<lambda>_. None)) (device_tokens w)"

lemma stamped_tick [simp]: "stamped w (w\<lparr>tick := n\<rparr>)"
  by (simp add: stamped_def)

lemma wp_stamp_last_used:
  assumes "\<And>w'. stamped w w' \<Longrightarrow> Q () w'"
  shows "wp (stamp_last_used E dt) Q w"
proof -
  have stamp: "wp (do {
        now \<leftarrow> time_now E;
        _ \<leftarrow> ent_update_one E device_tokens device_tokens_update dt_id no_clash (dt_id dt)
               (\<lambda>d. d\<lparr>dt_last_used_at := Some now\<rparr>);
        State_Monad.return () }) Q (w\<lparr>tick := n\<rparr>)" for n
    unfolding wp_bind wp_return
  proof (rule wp_time_now, rule wp_ent_update_one, goal_cases)
    case (2 now m k r rs)
    let ?f = "\<lambda>r. if dt_id r = dt_id dt then r\<lparr>dt_last_used_at := Some now\<rparr> else r"
    have "map (dt_last_used_at_update (\<lambda>_. None)) (map ?f ds) = map (dt_last_used_at_update (\<lambda>_. None)) ds" for ds
      by simp
    then have "stamped w (w\<lparr>device_tokens := map ?f (device_tokens w), tick := k\<rparr>)"
      unfolding stamped_def by simp
    then show ?case using assms by (simp add: table_put)
  qed (simp add: assms)
  have skip: "Q () (w\<lparr>tick := n\<rparr>)" for n by (simp add: assms)
  show ?thesis
  proof (cases "dt_last_used_at dt")
    case None
    then show ?thesis using stamp [of "tick w"] by (simp add: stamp_last_used_def)
  next
    case (Some used)
    show ?thesis
    proof (rule wpI)
      fix u w'
      assume run: "run_state (stamp_last_used E dt) w = (u, w')"
      let ?now = "clock E (tick w)"
      show "Q u w'"
      proof (cases "lastUsedThrottle < ?now - used")
        case True
        then have "run_state (do {
            now \<leftarrow> time_now E;
            _ \<leftarrow> ent_update_one E device_tokens device_tokens_update dt_id no_clash (dt_id dt)
                   (\<lambda>d. d\<lparr>dt_last_used_at := Some now\<rparr>);
            State_Monad.return () }) (ticked w) = (u, w')"
          using run by (simp add: stamp_last_used_def Some time_now_def)
        from wpD [OF stamp this] show ?thesis by simp
      next
        case False
        then have "w' = ticked w" using run by (simp add: stamp_last_used_def Some time_now_def)
        then show ?thesis using skip by simp
      qed
    qed
  qed
qed

lemma active_member_frame [simp]: "active_member (w\<lparr>tick := n\<rparr>) T u = active_member w T u"
  by (simp add: active_member_def)

lemma wp_activeMembership:
  assumes "\<And>n e. Q (Inl e) (w\<lparr>tick := n\<rparr>)"
    and "\<And>n m. m \<in> set (tenant_users w) \<Longrightarrow> tu_user_id m = u \<Longrightarrow> tu_tenant_id m = T \<Longrightarrow> tu_status m \<noteq> ''suspended'' \<Longrightarrow>
      Q (Inr m) (w\<lparr>tick := n\<rparr>)"
  shows "wp (activeMembership E T u) Q w"
  unfolding activeMembership_def
  by (rule wp_ent_only) (use assms in \<open>auto dest: one_row\<close>)

lemma wp_resolveRole:
  assumes "\<And>n e. Q (Inl e) (w\<lparr>tick := n\<rparr>)"
    and "\<And>n rs ps. role_gives w r rs (set ps) \<Longrightarrow> Q (Inr (rs, ps)) (w\<lparr>tick := n\<rparr>)"
  shows "wp (resolveRole E r) Q w"
proof (cases "r = []")
  case True
  have "w = w\<lparr>tick := tick w\<rparr>" by simp
  then have "Q (Inr ([], WithBaseline [])) w"
    using assms(2) [of "[]" "WithBaseline []" "tick w"] True by (simp add: role_gives_def WithBaseline_props)
  then show ?thesis using True by (simp add: resolveRole_def)
next
  case False
  show ?thesis unfolding resolveRole_def if_not_P [OF False] wp_attempt
  proof (rule wp_ent_get, goal_cases)
    case (5 n x)
    then have x: "x \<in> set (roles w)" "r_id x = r" using one_row by fastforce+
    show ?case unfolding sum.case
    proof (rule wp_Permissions, goal_cases)
      case (2 k ps)
      then have "set ps = set (role_perms w r)" by (metis mset_eq_setD role_perms_tick)
      then have "role_gives w r [r_slug x] (set (WithBaseline ps))"
        using False x by (auto simp: role_gives_def WithBaseline_props)
      then show ?case using assms(2) [of "[r_slug x]" "WithBaseline ps" k] by simp
    qed (simp add: assms(1))
  qed (simp_all add: assms(1))
qed


text \<open>What is known about the acting user once \<open>owner_membership\<close> and \<open>resolve_acting\<close> are through.\<close>

definition acting_ok :: "world \<Rightarrow> device_token \<Rightarrow> string \<Rightarrow> string \<Rightarrow> tenant_user option \<Rightarrow> bool \<Rightarrow> bool" where
  "acting_ok w d acting uid m admin \<longleftrightarrow>
     (if acting = [] \<or> acting = dt_user_id d then uid = dt_user_id d
      else uid = acting \<and> active_member w (dt_tenant_id d) acting) \<and>
     (case m of None \<Rightarrow> uid = dt_user_id d \<and> is_admin w (dt_user_id d)
      | Some m \<Rightarrow> m \<in> set (tenant_users w) \<and> tu_user_id m = uid \<and> tu_tenant_id m = dt_tenant_id d \<and>
          tu_status m \<noteq> ''suspended'') \<and>
     (admin \<longrightarrow> is_admin w uid \<or> is_admin w (dt_user_id d))"

lemma wp_resolve_acting:
  assumes "\<And>n e. Q (Inl e) (w\<lparr>tick := n\<rparr>)"
    and "\<And>n uid m admin. acting_ok w d acting uid m admin \<Longrightarrow> Q (Inr (uid, m, admin)) (w\<lparr>tick := n\<rparr>)"
    and "\<And>m. ownerM = Some m \<Longrightarrow> m \<in> set (tenant_users w) \<and> tu_user_id m = dt_user_id d \<and>
      tu_tenant_id m = dt_tenant_id d \<and> tu_status m \<noteq> ''suspended''"
    and "ownerM = None \<Longrightarrow> is_admin w (dt_user_id d)" and "ownerIsAdmin \<Longrightarrow> is_admin w (dt_user_id d)"
  shows "wp (resolve_acting E d acting ownerM ownerIsAdmin) Q w"
proof (cases "acting \<noteq> [] \<and> acting \<noteq> dt_user_id d")
  case False
  then have "acting_ok w d acting (dt_user_id d) ownerM ownerIsAdmin"
    using assms(3-5) by (auto simp: acting_ok_def split: option.splits)
  moreover have "w = w\<lparr>tick := tick w\<rparr>" by simp
  ultimately have "Q (Inr (dt_user_id d, ownerM, ownerIsAdmin)) w" using assms(2) by metis
  then show ?thesis using False by (auto simp: resolve_acting_def)
next
  case True
  show ?thesis unfolding resolve_acting_def if_P [OF True] wp_attempt
  proof (rule wp_activeMembership, goal_cases)
    case (2 n m)
    have act: "active_member w (dt_tenant_id d) acting" using 2 by (auto simp: active_member_def)
    have ok: "Q (Inr (acting, Some m, admin)) (w\<lparr>tick := k\<rparr>)"
      if "admin \<Longrightarrow> is_admin w acting \<or> is_admin w (dt_user_id d)" for admin k
      by (rule assms(2)) (use True act 2 that in \<open>auto simp: acting_ok_def\<close>)
    show ?case unfolding sum.case wp_bind wp_ok
    proof (rule wp_ent_get, goal_cases)
      case (5 k x)
      from one_row [OF 5] show ?case by (auto intro!: ok simp: is_admin_def)
    qed (auto intro!: ok assms(5))
  qed (simp add: assms(1))
qed

lemma wp_owner_membership:
  assumes "\<And>n e. Q (Inl e) (w\<lparr>tick := n\<rparr>)"
    and "\<And>n. admin \<Longrightarrow> Q (Inr None) (w\<lparr>tick := n\<rparr>)"
    and "\<And>n m. m \<in> set (tenant_users w) \<Longrightarrow> tu_user_id m = dt_user_id d \<Longrightarrow> tu_tenant_id m = dt_tenant_id d \<Longrightarrow>
      tu_status m \<noteq> ''suspended'' \<Longrightarrow> Q (Inr (Some m)) (w\<lparr>tick := n\<rparr>)"
  shows "wp (owner_membership E d admin) Q w"
  unfolding owner_membership_def wp_handle
  by (rule wp_activeMembership) (use assms in auto)

lemma is_admin_tick [simp]: "is_admin (w\<lparr>tick := n\<rparr>) u = is_admin w u"
  by (simp add: is_admin_def)

lemma acting_ok_tick [simp]: "acting_ok (w\<lparr>tick := n\<rparr>) d a u m b = acting_ok w d a u m b"
  by (cases m) (simp_all add: acting_ok_def)

lemma stamped_from_tick: "stamped (w\<lparr>tick := n\<rparr>) w' \<Longrightarrow> stamped w w'"
  by (simp add: stamped_def)

lemma authorizedI:
  assumes "d \<in> set (device_tokens w)" "dt_token_hash d = h" "dt_revoked_at d = None"
    "t \<in> set (tenants w)" "t_id t = dt_tenant_id d" "t_status t = ''active''"
    and a: "acting_ok w d acting uid m admin"
    and owner: "active_member w (dt_tenant_id d) (dt_user_id d) \<or> is_admin w (dt_user_id d)"
    and perms: "case m of None \<Rightarrow> rs = [] \<and> ps = []
      | Some m \<Rightarrow> role_gives w (tu_role_id m) rs (set ps)"
    and b: "device_branch w d b bs"
  shows "authorized w h acting \<lparr>ir_tenant_id = t_id t, ir_tenant_slug = t_slug t, ir_schema_name = t_schema_name t,
     ir_branch_id = b, ir_branch_slug = bs, ir_user_id = uid,
     ir_user_type = (if admin then ''platform_admin'' else ''tenant_user''), ir_roles = rs, ir_permissions = ps\<rparr>"
proof -
  have "member_access w (t_id t) uid rs (set ps) \<or> uid = dt_user_id d \<and> is_admin w (dt_user_id d) \<and> ps = [] \<and> rs = []"
  proof (cases m)
    case None
    then show ?thesis using a perms by (simp add: acting_ok_def)
  next
    case (Some m')
    then have "member_access w (t_id t) uid rs (set ps)"
      unfolding member_access_def using a perms assms(5)
      by (intro bexI [of _ m']) (auto simp: acting_ok_def)
    then show ?thesis ..
  qed
  then show ?thesis unfolding authorized_def
    using assms(1-6) a owner b by (intro bexI [of _ d] bexI [of _ t]) (auto simp: acting_ok_def)
qed


lemma attempt_ok: "attempt (ok x) h k = k x"
  by (simp add: attempt_def)

lemma wp_token_branch:
  assumes "\<And>n b bs. device_branch w d b bs \<Longrightarrow> Q (b, bs) (w\<lparr>tick := n\<rparr>)"
  shows "wp (token_branch E d) Q w"
proof (cases "dt_branch_id d = []")
  case True
  have "w = w\<lparr>tick := tick w\<rparr>" by simp
  then have "Q ([], []) w" using assms [of "[]" "[]" "tick w"] by (simp add: device_branch_def)
  then show ?thesis using True by (simp add: token_branch_def)
next
  case False
  show ?thesis unfolding token_branch_def if_P [OF False] wp_handle
  proof (rule wp_ent_get, goal_cases)
    case (5 n b)
    then have "b \<in> set (branches w)" "b_id b = dt_branch_id d" using one_row by fastforce+
    then have "device_branch w d (b_id b) (b_slug b)" using False unfolding device_branch_def by blast
    then show ?case by (simp add: assms)
  qed (auto intro!: assms simp: device_branch_def)
qed

lemma device_branch_tick [simp]: "device_branch (w\<lparr>tick := n\<rparr>) d b slug = device_branch w d b slug"
  by (simp add: device_branch_def)

lemma role_gives_tick [simp]: "role_gives (w\<lparr>tick := n\<rparr>) rid slugs ps = role_gives w rid slugs ps"
  by (simp add: role_gives_def)

lemma wp_introspect_result:
  assumes token: "d \<in> set (device_tokens w)" "dt_token_hash d = h" "dt_revoked_at d = None"
    and tenant: "t \<in> set (tenants w)" "t_id t = dt_tenant_id d" "t_status t = ''active''"
    and acting: "acting_ok w d acting uid m admin"
    and owner: "active_member w (dt_tenant_id d) (dt_user_id d) \<or> is_admin w (dt_user_id d)"
  shows "wp (introspect_result E d t uid m admin)
    (\<lambda>r w'. stamped w w' \<and> (\<forall>res. r = Inr res \<longrightarrow> authorized w h acting res)) (w\<lparr>tick := n\<rparr>)"
    (is "wp _ ?Q _")
proof -
  note authorized = authorizedI [OF token tenant acting owner]
  have fin: "wp (do {
          (bid, bslug) \<leftarrow> token_branch E d;
          _ \<leftarrow> stamp_last_used E d;
          ok \<lparr>ir_tenant_id = t_id t, ir_tenant_slug = t_slug t, ir_schema_name = t_schema_name t,
              ir_branch_id = bid, ir_branch_slug = bslug, ir_user_id = uid,
              ir_user_type = (if admin then ''platform_admin'' else ''tenant_user''),
              ir_roles = rs, ir_permissions = ps\<rparr> }) ?Q (w\<lparr>tick := k\<rparr>)"
    if "case m of None \<Rightarrow> rs = [] \<and> ps = []
      | Some m \<Rightarrow> role_gives w (tu_role_id m) rs (set ps)"
    for rs ps k
    unfolding wp_bind
  proof (rule wp_token_branch, unfold prod.case wp_bind, rule wp_stamp_last_used, unfold wp_ok, goal_cases)
    case (1 j b bs w')
    from 1(2) have "stamped w w'" by (simp add: stamped_def)
    moreover have "device_branch w d b bs" using 1(1) by simp
    ultimately show ?case using authorized [OF that] by simp
  qed
  show ?thesis
  proof (cases m)
    case None
    then show ?thesis using fin [of "[]" "[]" n] by (simp add: introspect_result_def attempt_ok)
  next
    case (Some m')
    show ?thesis unfolding introspect_result_def Some option.case wp_attempt
    proof (rule wp_resolveRole, goal_cases)
      case (2 k rs ps)
      then show ?case unfolding sum.case prod.case using fin [of rs ps k] Some by simp
    qed simp
  qed
qed

lemma wp_Introspect:
  "wp (Introspect E h acting) (\<lambda>r w'. stamped w w' \<and> (\<forall>res. r = Inr res \<longrightarrow> authorized w h acting res)) w"
    (is "wp _ ?Q w")
  unfolding Introspect_def wp_attempt
proof (rule wp_ent_only, goal_cases)
  case (5 n d)
  then have d: "d \<in> set (device_tokens w)" "dt_token_hash d = h" "dt_revoked_at d = None"
    using one_row by fastforce+
  show ?case unfolding sum.case
  proof (rule wp_ent_get, goal_cases)
    case (5 n t)
    then have t: "t \<in> set (tenants w)" "t_id t = dt_tenant_id d" using one_row by fastforce+
    show ?case
    proof (cases "t_status t = ''active''")
      case False
      then show ?thesis by simp
    next
      case active: True
      note result = wp_introspect_result [OF d t active]
      have rest: "wp (attempt (owner_membership E d admin) id (\<lambda>ownerM.
          attempt (resolve_acting E d acting ownerM admin) id (\<lambda>(acting, m, actingIsAdmin).
            introspect_result E d t acting m actingIsAdmin))) ?Q (w\<lparr>tick := k\<rparr>)"
        if adm: "admin \<Longrightarrow> is_admin w (dt_user_id d)" for admin k
        unfolding wp_attempt
      proof (rule wp_owner_membership, goal_cases)
        case (2 j)
        show ?case unfolding sum.case
          by (rule wp_resolve_acting) (use result adm 2 in \<open>auto simp: is_admin_def\<close>)
      next
        case (3 j m)
        then have "active_member w (dt_tenant_id d) (dt_user_id d)" by (auto simp: active_member_def)
        then show ?case unfolding sum.case
          by (intro wp_resolve_acting) (use result adm 3 in auto)
      qed simp
      show ?thesis unfolding sum.case if_not_P [OF active [THEN not_not [THEN iffD2]]] wp_bind Let_def
      proof (rule wp_ent_get, goal_cases)
        case (5 k u)
        then show ?case using rest [of "u_is_platform_admin u" k] one_row [OF 5]
          by (auto simp: is_admin_def simp del: wp_attempt)
      qed (use rest [of False] in \<open>auto simp del: wp_attempt\<close>)
    qed
  qed simp_all
qed simp_all

section \<open>Completeness\<close>

definition no_faults :: "env \<Rightarrow> bool" where
  "no_faults E \<longleftrightarrow> (\<forall>n. \<not> db_fault E n)"

lemma returns_result:
  assumes E: "\<And>n. tick w \<le> n \<Longrightarrow> \<not> db_fault E n"
    and role: "tu_role_id m \<noteq> [] \<Longrightarrow> \<exists>r. filter (\<lambda>r. r_id r = tu_role_id m) (roles w) = [r]"
  shows "\<exists>res. fst (run_state (introspect_result E d t uid (Some m) admin) w) = Inr res \<and> ir_user_id res = uid \<and>
    ir_user_type res = (if admin then ''platform_admin'' else ''tenant_user'')"
proof -
  have "\<exists>rs ps w'. run_state (resolveRole E (tu_role_id m)) w = (Inr (rs, ps), w')"
  proof (cases "tu_role_id m = []")
    case True
    then show ?thesis by (simp add: resolveRole_def)
  next
    case False
    with role obtain r where "filter (\<lambda>r. r_id r = tu_role_id m) (roles w) = [r]" by blast
    then show ?thesis using E [of "tick w"] E [of "Suc (tick w)"] False
      by (simp add: resolveRole_def Permissions_def ent_run)
  qed
  then obtain rs ps w' where r: "run_state (resolveRole E (tu_role_id m)) w = (Inr (rs, ps), w')" by blast
  obtain b bs v where "run_state (token_branch E d) w' = ((b, bs), v)" by (metis surj_pair)
  with r show ?thesis by (simp add: introspect_result_def split: prod.splits)
qed

text \<open>The one-row rules of a working database.\<close>

lemma wp_only_one:
  assumes "no_faults E" "stable rows" "filter P (rows w) = [r]" "Q (Inr r) (ticked w)"
  shows "wp (ent_only E rows P) Q w"
  using assms by (simp add: wp_def run_ent_only no_faults_def stable_tick)

lemma wp_get_one:
  assumes "no_faults E" "stable rows" "filter (\<lambda>r. key r = i) (rows w) = [r]" "Q (Inr r) (ticked w)"
  shows "wp (ent_get E rows key i) Q w"
  unfolding ent_get_def using assms by (rule wp_only_one)

lemma Introspect_accepts:
  assumes E: "no_faults E"
    and d: "filter (\<lambda>d. dt_token_hash d = h \<and> dt_revoked_at d = None) (device_tokens w) = [d]"
    and t: "filter (\<lambda>t. t_id t = dt_tenant_id d) (tenants w) = [t]" "t_status t = ''active''"
    and m: "filter (\<lambda>m. tu_user_id m = dt_user_id d \<and> tu_tenant_id m = dt_tenant_id d \<and> tu_status m \<noteq> ''suspended'')
      (tenant_users w) = [m]"
    and r: "tu_role_id m \<noteq> [] \<Longrightarrow> \<exists>r. filter (\<lambda>r. r_id r = tu_role_id m) (roles w) = [r]"
  shows "\<exists>res. fst (run_state (Introspect E h []) w) = Inr res"
proof -
  let ?Q = "\<lambda>r (_ :: world). \<exists>res. r = Inr res"
  have result: "wp (introspect_result E d t uid (Some m) admin) ?Q (w\<lparr>tick := n\<rparr>)" for uid admin n
    using returns_result [where E = E and m = m and w = "w\<lparr>tick := n\<rparr>" and d = d and t = t and uid = uid and admin = admin] E r
    by (auto simp: wp_def case_prod_unfold no_faults_def)
  have owner: "wp (attempt (owner_membership E d admin) id (\<lambda>ownerM.
      attempt (resolve_acting E d [] ownerM admin) id (\<lambda>(acting, m, actingIsAdmin).
        introspect_result E d t acting m actingIsAdmin))) ?Q (w\<lparr>tick := n\<rparr>)" for admin n
    unfolding owner_membership_def activeMembership_def wp_attempt wp_handle
    by (rule wp_only_one [OF E, where r = m]) (use m result in \<open>simp_all add: resolve_acting_def\<close>)
  have "wp (Introspect E h []) ?Q w"
    unfolding Introspect_def wp_attempt
  proof (rule wp_only_one [OF E, where r = d], goal_cases)
    case 3
    show ?case unfolding sum.case
    proof (rule wp_get_one [OF E, where r = t], goal_cases)
      case 3
      show ?case unfolding sum.case if_not_P [OF t(2) [THEN not_not [THEN iffD2]]] wp_bind Let_def
        by (rule wp_reads, intro guarantees_intro same_tables_tick)
          (use owner in \<open>auto simp del: wp_attempt split: sum.splits\<close>)
    qed (use t in simp_all)
  qed (use d in simp_all)
  then show ?thesis by (simp add: wp_def case_prod_unfold)
qed

section \<open>Properties\<close>

text \<open>C2. Introspection is sound. Whatever fails, a request is accepted only for a stored, unrevoked
  token of an active tenant whose owner is an active member or a platform admin; the acting user
  reported is the owner or an active member of that tenant; the reported role is the slug of the role
  of the acting user's membership at that moment and the permissions are the baseline and those
  stored for that role (only the baseline for a membership without role, neither for an admin
  without membership); the branch is none or the id and slug of the one the device is bound to; and
  the platform-admin type is only given when the acting user or the owner is one. Nothing but
  the last-used stamp is written.\<close>

theorem Introspect_sound:
  "(case run_state (Introspect E h acting) w of (r, w') \<Rightarrow>
     stamped w w' \<and> (\<forall>res. r = Inr res \<longrightarrow> authorized w h acting res))"
  using wp_Introspect [of E h acting w] by (simp add: wp_def)

theorem Introspect_sound_witness:
  "ir_permissions (projr (fst (run_state (Introspect env0 ''abc'' ''u2'')
      (shop\<lparr>device_tokens := map (dt_token_hash_update (\<lambda>_. ''abc'')) (device_tokens shop)\<rparr>)))) =
     [''user:read'', ''branch:read'', ''sale:void''] \<and>
   authorized (shop\<lparr>device_tokens := map (dt_token_hash_update (\<lambda>_. ''abc'')) (device_tokens shop)\<rparr>) ''abc'' ''u2''
     (projr (fst (run_state (Introspect env0 ''abc'' ''u2'')
      (shop\<lparr>device_tokens := map (dt_token_hash_update (\<lambda>_. ''abc'')) (device_tokens shop)\<rparr>))))"
  (is "?perms \<and> authorized ?w _ _ (projr (fst ?run))")
proof
  show ?perms by code_simp
  have "\<not> isl (fst ?run)" by code_simp
  then show "authorized ?w ''abc'' ''u2'' (projr (fst ?run))"
    using Introspect_sound [where E = env0 and h = "''abc''" and acting = "''u2''" and w = ?w] by (auto simp: isl_def split: prod.splits sum.splits)
qed

lemma locked_out:
  assumes "authorized w h acting res" and "\<not> active_member w T u" and "\<not> is_admin w u"
  shows "\<not> (ir_user_id res = u \<and> ir_tenant_id res = T) \<and>
    (\<exists>d \<in> set (device_tokens w). dt_token_hash d = h \<and> \<not> (dt_user_id d = u \<and> dt_tenant_id d = T))"
proof -
  from assms(1) obtain d t where d: "d \<in> set (device_tokens w)" "t \<in> set (tenants w)" "dt_token_hash d = h" "t_id t = dt_tenant_id d"
    "ir_tenant_id res = t_id t" "active_member w (t_id t) (dt_user_id d) \<or> is_admin w (dt_user_id d)"
    and acting: "if acting = [] \<or> acting = dt_user_id d then ir_user_id res = dt_user_id d
      else ir_user_id res = acting \<and> active_member w (t_id t) acting"
    unfolding authorized_def by blast
  then have owner: "\<not> (dt_user_id d = u \<and> dt_tenant_id d = T)" using assms(2,3) by auto
  moreover have "\<not> (ir_user_id res = u \<and> ir_tenant_id res = T)"
    using acting d owner assms(2) by (auto split: if_splits)
  ultimately show ?thesis using d by blast
qed

text \<open>C5. Removal takes effect on the next request. After \<open>RemoveMember\<close> succeeded for a user who is
  no platform admin, no introspection, with whatever token and acting user and whatever calls
  failing, reports that user in that tenant, and none accepts a token owned by the user there.\<close>

theorem removed_member_is_locked_out:
  assumes "run_state (RemoveMember E T u) w = (Inr (), w')" and "\<not> is_admin w u"
    and "run_state (Introspect E' h acting) w' = (Inr res, w'')"
  shows "\<not> (ir_user_id res = u \<and> ir_tenant_id res = T) \<and>
    (\<exists>d \<in> set (device_tokens w'). dt_token_hash d = h \<and> \<not> (dt_user_id d = u \<and> dt_tenant_id d = T))"
proof -
  have gone: "\<forall>x \<in> set (tenant_users w'). tu_user_id x \<noteq> u \<or> tu_tenant_id x \<noteq> T" "users w' = users w"
    using wpD [OF wp_RemoveMember assms(1)] by auto
  have "authorized w' h acting res" using wpD [OF wp_Introspect assms(3)] by blast
  then show ?thesis
    by (rule locked_out) (use gone assms(2) in \<open>auto simp: active_member_def is_admin_def\<close>)
qed

theorem removed_member_is_locked_out_witness:
  "\<not> (ir_user_id (projr (fst (run_state (Introspect env0 ''1kot'' [])
       (snd (run_state (RemoveMember env0 ''t1'' ''u2'') shop))))) = ''u2'' \<and>
     ir_tenant_id (projr (fst (run_state (Introspect env0 ''1kot'' [])
       (snd (run_state (RemoveMember env0 ''t1'' ''u2'') shop))))) = ''t1'')"
  (is "\<not> (ir_user_id (projr (fst (run_state ?i (snd ?r)))) = _ \<and> _)")
proof -
  have "fst ?r = Inr ()" by code_simp
  then have r: "?r = (Inr (), snd ?r)" by (metis prod.collapse)
  have "\<not> isl (fst (run_state ?i (snd ?r)))" by code_simp
  then have i: "run_state ?i (snd ?r) = (Inr (projr (fst (run_state ?i (snd ?r)))), snd (run_state ?i (snd ?r)))"
    by (metis prod.collapse sum.collapse(2))
  have "\<not> is_admin shop ''u2''" by code_simp
  from removed_member_is_locked_out [OF r this i] show ?thesis by blast
qed

text \<open>C6. Logging out kills the token: once \<open>Logout\<close> returned without error, introspecting that hash
  never succeeds, for any acting user and any environment.\<close>

theorem Logout_kills_the_token:
  assumes "run_state (Logout E h) w = (Inr (), w')" and "h \<noteq> []"
  shows "isl (fst (run_state (Introspect E' h acting) w'))"
proof -
  have dead: "\<forall>d \<in> set (device_tokens w'). dt_token_hash d = h \<longrightarrow> dt_revoked_at d \<noteq> None"
  proof -
    obtain now n where "w' = w\<lparr>device_tokens := map (\<lambda>d. if dt_token_hash d = h \<and> dt_revoked_at d = None
        then d\<lparr>dt_revoked_at := Some now\<rparr> else d) (device_tokens w), tick := n\<rparr>"
      using assms by (auto simp: Logout_def time_now_def run_ent_update table_put split: if_splits)
    then have "device_tokens w' = map (\<lambda>d. if dt_token_hash d = h \<and> dt_revoked_at d = None
        then d\<lparr>dt_revoked_at := Some now\<rparr> else d) (device_tokens w)" by simp
    then show ?thesis unfolding ball_map by (simp only: ball_map) auto
  qed
  obtain r w'' where run: "run_state (Introspect E' h acting) w' = (r, w'')" by fastforce
  have "\<not> authorized w' h acting res" for res using dead by (auto simp: authorized_def)
  then show ?thesis using wpD [OF wp_Introspect run] run by (cases r) auto
qed

theorem Logout_kills_the_token_witness:
  "isl (fst (run_state (Introspect env0 ''1kot'' []) (snd (run_state (Logout env0 ''1kot'') shop)))) \<and>
   \<not> isl (fst (run_state (Introspect env0 ''1kot'' []) shop))"
proof
  have "fst (run_state (Logout env0 ''1kot'') shop) = Inr ()" by code_simp
  then have "run_state (Logout env0 ''1kot'') shop = (Inr (), snd (run_state (Logout env0 ''1kot'') shop))"
    by (metis prod.collapse)
  then show "isl (fst (run_state (Introspect env0 ''1kot'' []) (snd (run_state (Logout env0 ''1kot'') shop))))"
    by (rule Logout_kills_the_token) simp
  show "\<not> isl (fst (run_state (Introspect env0 ''1kot'' []) shop))" by code_simp
qed

text \<open>The rows a login and the introspection after it rely on: primary keys, one membership per user
  and tenant, and every membership's role present.\<close>

definition memberships_wf :: "world \<Rightarrow> bool" where
  "memberships_wf w \<longleftrightarrow> keyed t_id tenants w \<and> keyed r_id roles w \<and>
     distinct (map (\<lambda>m. (tu_user_id m, tu_tenant_id m)) (tenant_users w)) \<and>
     list_all (\<lambda>m. tu_role_id m = [] \<or> tu_role_id m \<in> set (map r_id (roles w))) (tenant_users w)"

lemma membership_row:
  assumes "memberships_wf w" "m \<in> set (tenant_users w)" "tu_user_id m = u" "tu_tenant_id m = T" "tu_status m \<noteq> ''suspended''"
  shows "filter (\<lambda>m. tu_user_id m = u \<and> tu_tenant_id m = T \<and> tu_status m \<noteq> ''suspended'') (tenant_users w) = [m]"
proof -
  have "filter (\<lambda>m. (tu_user_id m, tu_tenant_id m) = (u, T)) (tenant_users w) = [m]"
    using filter_key_unique [of "\<lambda>m. (tu_user_id m, tu_tenant_id m)" "tenant_users w" m] assms(1,2)
    unfolding assms(3,4) memberships_wf_def by blast
  then have "filter (\<lambda>m. tu_status m \<noteq> ''suspended'')
      (filter (\<lambda>m. (tu_user_id m, tu_tenant_id m) = (u, T)) (tenant_users w)) = [m]"
    using assms(5) by simp
  then show ?thesis by (simp add: conj_ac)
qed

lemma role_row:
  assumes "memberships_wf w" "m \<in> set (tenant_users w)" "tu_role_id m \<noteq> []"
  shows "\<exists>r. filter (\<lambda>r. r_id r = tu_role_id m) (roles w) = [r]"
proof -
  from assms obtain r where r: "r \<in> set (roles w)" "tu_role_id m = r_id r"
    by (auto simp: memberships_wf_def list_all_iff)
  then show ?thesis using filter_key_unique [of r_id "roles w" r] assms(1)
    unfolding r(2) memberships_wf_def keyed_def by blast
qed

lemma token_introspects:
  assumes E: "no_faults E" and wf: "memberships_wf w"
    and d1: "filter (\<lambda>d. dt_token_hash d = h) (device_tokens w) = [d]" "dt_revoked_at d = None"
    and may: "may_sign_in w (dt_user_id d) (dt_tenant_id d)"
  shows "\<exists>res t. fst (run_state (Introspect E h []) w) = Inr res \<and> t \<in> set (tenants w) \<and>
    t_id t = dt_tenant_id d \<and> ir_user_id res = dt_user_id d \<and> ir_tenant_id res = t_id t \<and> ir_tenant_slug res = t_slug t"
proof -
  have "filter (\<lambda>d. dt_revoked_at d = None) (filter (\<lambda>d. dt_token_hash d = h) (device_tokens w)) = [d]"
    unfolding d1(1) using d1(2) by simp
  then have live: "filter (\<lambda>d. dt_token_hash d = h \<and> dt_revoked_at d = None) (device_tokens w) = [d]"
    by (simp add: conj_commute)
  from may obtain t m where t: "t \<in> set (tenants w)" "t_id t = dt_tenant_id d" "t_status t = ''active''"
    and m: "m \<in> set (tenant_users w)" "(tu_user_id m, tu_tenant_id m) = (dt_user_id d, dt_tenant_id d)"
      "tu_status m \<noteq> ''suspended''"
    unfolding may_sign_in_def by blast
  have t1: "filter (\<lambda>t. t_id t = dt_tenant_id d) (tenants w) = [t]"
    using filter_key_unique [of t_id "tenants w" t] wf t(1,2) by (simp add: memberships_wf_def keyed_def)
  have m1: "filter (\<lambda>m. tu_user_id m = dt_user_id d \<and> tu_tenant_id m = dt_tenant_id d \<and> tu_status m \<noteq> ''suspended'')
      (tenant_users w) = [m]" using membership_row [OF wf m(1) _ _ m(3)] m(2) by simp
  have r1: "\<exists>r. filter (\<lambda>r. r_id r = tu_role_id m) (roles w) = [r]" if "tu_role_id m \<noteq> []"
    by (rule role_row [OF wf m(1) that])
  obtain res where res: "fst (run_state (Introspect E h []) w) = Inr res"
    using Introspect_accepts [OF E live t1 t(3) m1 r1] by blast
  then obtain w' where "run_state (Introspect E h []) w = (Inr res, w')" by (metis prod.collapse)
  from wpD [OF wp_Introspect this] have a: "authorized w h [] res" by simp
  have only_d: "x = d" if "x \<in> set (device_tokens w)" "dt_token_hash x = h" for x
    using one_row [OF d1(1)] that arg_cong [OF d1(1), of set] by auto
  from a obtain x t where "x \<in> set (device_tokens w)" "dt_token_hash x = h" "t \<in> set (tenants w)"
    "t_id t = dt_tenant_id x" "ir_tenant_id res = t_id t" "ir_tenant_slug res = t_slug t" "ir_user_id res = dt_user_id x"
    unfolding authorized_def by auto
  then show ?thesis using res only_d by blast
qed

text \<open>C4. Login and introspection fit together: the token a login returns is accepted by the next
  introspection of its hash when the database works, and identifies the user who proved the
  password, in a tenant the user may sign in to, the one named by the slug when one was given.\<close>

theorem login_then_introspect:
  assumes login: "run_state (Login E slug email password) w = (Inr raw, w')"
    and wf: "memberships_wf w" and E': "no_faults E'"
  shows "\<exists>res u. fst (run_state (Introspect E' (HashToken E raw) []) w') = Inr res \<and>
    u \<in> set (users w) \<and> u_email u = email \<and> bcrypt_match E (u_password_hash u) password \<and>
    ir_user_id res = u_id u \<and> may_sign_in w (u_id u) (ir_tenant_id res) \<and>
    (slug \<noteq> [] \<longrightarrow> ir_tenant_slug res = slug)"
proof -
  from wpD [OF wp_Login login] obtain u where u: "u \<in> set (users w)" "u_email u = email"
    "bcrypt_match E (u_password_hash u) password" and "issued E (u_id u) slug w raw w'" by auto
  then obtain T b d n where w': "w' = w\<lparr>device_tokens := device_tokens w @ [d], tick := n\<rparr>"
    and fresh: "fresh_token E w raw (u_id u) T b d" and may: "may_sign_in w (u_id u) T"
    and slug: "slug \<noteq> [] \<longrightarrow> (\<exists>t \<in> set (tenants w). t_id t = T \<and> t_slug t = slug)"
    unfolding issued_def by blast
  have d: "dt_token_hash d = HashToken E raw" "dt_revoked_at d = None" "dt_user_id d = u_id u" "dt_tenant_id d = T"
    using fresh by (simp_all add: fresh_token_def)
  have tabs: "tenants w' = tenants w" "memberships_wf w' = memberships_wf w"
      "may_sign_in w' (u_id u) T = may_sign_in w (u_id u) T"
    by (simp_all add: w' memberships_wf_def may_sign_in_def keyed_def)
  have "filter (\<lambda>d. dt_token_hash d = HashToken E raw) (device_tokens w) = []"
    using fresh by (simp add: fresh_token_def filter_empty_conv)
  then have "filter (\<lambda>d. dt_token_hash d = HashToken E raw) (device_tokens w') = [d]" by (simp add: w' d(1))
  from token_introspects [OF E' _ this d(2)] wf may obtain res t
    where res: "fst (run_state (Introspect E' (HashToken E raw) []) w') = Inr res" "t \<in> set (tenants w)" "t_id t = T"
      "ir_user_id res = u_id u" "ir_tenant_id res = t_id t" "ir_tenant_slug res = t_slug t"
    unfolding d(3,4) tabs by blast
  have "t_slug t = slug" if "slug \<noteq> []"
    using slug that res(2,3) wf keyed_unique [of t_id tenants w] unfolding memberships_wf_def by metis
  then have "slug \<noteq> [] \<longrightarrow> ir_tenant_slug res = slug" unfolding res(6) ..
  then show ?thesis using res u may by metis
qed

theorem login_then_introspect_witness:
  "ir_user_id (projr (fst (run_state (Introspect env0
      (HashToken env0 (projr (fst (run_state (Login env0 ''acme'' ''b@x.io'' ''hunter22'') shop)))) [])
      (snd (run_state (Login env0 ''acme'' ''b@x.io'' ''hunter22'') shop))))) = ''u2''"
  (is "ir_user_id (projr (fst (run_state (Introspect _ (HashToken _ (projr (fst ?l))) _) (snd ?l)))) = _")
proof -
  have "\<not> isl (fst ?l)" by code_simp
  then have l: "?l = (Inr (projr (fst ?l)), snd ?l)" by (metis prod.collapse sum.collapse(2))
  have wf: "memberships_wf shop" unfolding memberships_wf_def keyed_def by code_simp
  have "no_faults env0" by (simp add: no_faults_def env0_def)
  from login_then_introspect [OF l wf this] obtain res u
    where res: "fst (run_state (Introspect env0 (HashToken env0 (projr (fst ?l))) []) (snd ?l)) = Inr res"
      "u \<in> set (users shop)" "u_email u = ''b@x.io''" "ir_user_id res = u_id u" by blast
  then have "u_id u = ''u2''" by (auto simp: shop_def)
  then show ?thesis using res by simp
qed

text \<open>C37. The acting user's admin flag fails open. Take any database with well-formed memberships and unique
  user ids, and a live device of an active tenant that a platform admin owns, on which another user
  acts who is an active member of the tenant and no admin. If every call of the introspection works
  except possibly the sixth, the read of the acting user's row, the request is accepted for that user,
  and the reported user type is platform admin exactly if that read failed.\<close>

theorem Introspect_fails_open:
  assumes wf: "memberships_wf w" "keyed u_id users w"
    and d: "filter (\<lambda>d. dt_token_hash d = h \<and> dt_revoked_at d = None) (device_tokens w) = [d]"
    and t: "t \<in> set (tenants w)" "t_id t = dt_tenant_id d" "t_status t = ''active''"
    and owner: "is_admin w (dt_user_id d)"
    and acting: "acting \<noteq> []" "acting \<noteq> dt_user_id d" "active_member w (dt_tenant_id d) acting"
    and user: "acting \<in> set (map u_id (users w))" "\<not> is_admin w acting"
    and E: "\<And>n. db_fault E n \<Longrightarrow> n = tick w + 5"
  shows "\<exists>res. fst (run_state (Introspect E h acting) w) = Inr res \<and> ir_user_id res = acting \<and>
    (ir_user_type res = ''platform_admin'' \<longleftrightarrow> db_fault E (tick w + 5))"
proof -
  obtain u where u: "u \<in> set (users w)" "u_id u = acting" "\<not> u_is_platform_admin u"
    using user by (auto simp: is_admin_def)
  obtain x where x: "x \<in> set (users w)" "u_id x = dt_user_id d" "u_is_platform_admin x"
    using owner by (auto simp: is_admin_def)
  obtain m where m: "m \<in> set (tenant_users w)" "tu_user_id m = acting" "tu_tenant_id m = dt_tenant_id d" "tu_status m \<noteq> ''suspended''"
    using acting(3) by (auto simp: active_member_def)
  have t1: "filter (\<lambda>t. t_id t = dt_tenant_id d) (tenants w) = [t]"
    using filter_key_unique [of t_id "tenants w" t] wf(1) t(1,2) by (simp add: memberships_wf_def keyed_def)
  have x1: "filter (\<lambda>u. u_id u = dt_user_id d) (users w) = [x]" and u1: "filter (\<lambda>u. u_id u = acting) (users w) = [u]"
    using filter_key_unique [of u_id "users w" x] filter_key_unique [of u_id "users w" u] wf(2) x(1,2) u(1,2) by (simp_all add: keyed_def)
  have m1: "filter (\<lambda>m. tu_user_id m = acting \<and> tu_tenant_id m = dt_tenant_id d \<and> tu_status m \<noteq> ''suspended'') (tenant_users w) = [m]"
    by (rule membership_row [OF wf(1) m])
  have role: "\<exists>r. filter (\<lambda>r. r_id r = tu_role_id m) (roles w) = [r]" if "tu_role_id m \<noteq> []"
    by (rule role_row [OF wf(1) m(1) that])
  have up: "\<not> db_fault E (tick w)" "\<not> db_fault E (Suc (tick w))" "\<not> db_fault E (Suc (Suc (tick w)))"
    "\<not> db_fault E (tick w + 4)" "\<And>n. tick w + 6 \<le> n \<Longrightarrow> \<not> db_fault E n" using E by fastforce+
  have owner_m: "\<exists>om. run_state (owner_membership E d True) (w\<lparr>tick := tick w + 3\<rparr>) = (Inr om, w\<lparr>tick := tick w + 4\<rparr>)"
    by (simp add: owner_membership_def activeMembership_def ent_run split: list.split)
  let ?f = "db_fault E (tick w + 5)"
  have act: "run_state (resolve_acting E d acting om True) (w\<lparr>tick := tick w + 4\<rparr>) =
      (Inr (acting, Some m, ?f), w\<lparr>tick := tick w + 6\<rparr>)" for om
    using up acting(1,2) u(3) by (simp add: resolve_acting_def activeMembership_def ent_run m1 u1 add.commute)
  obtain res where "fst (run_state (introspect_result E d t acting (Some m) ?f) (w\<lparr>tick := tick w + 6\<rparr>)) = Inr res"
    "ir_user_id res = acting" "ir_user_type res = (if ?f then ''platform_admin'' else ''tenant_user'')"
    using returns_result [where w = "w\<lparr>tick := tick w + 6\<rparr>" and m = m] up(5) role by fastforce
  with owner_m up d t1 x1 x(3) t(3) act show ?thesis
    by (auto simp: Introspect_def ent_run eval_nat_numeral)
qed

theorem Introspect_fails_open_witness:
  "(let w = shop\<lparr>users := map (\<lambda>u. u\<lparr>u_is_platform_admin := (u_id u = ''u1'')\<rparr>) (users shop)\<rparr> in
    ir_user_type (projr (fst (run_state (Introspect (env_faulty {105}) ''1kot'' ''u2'') w))) = ''platform_admin'' \<and>
    ir_user_type (projr (fst (run_state (Introspect env0 ''1kot'' ''u2'') w))) = ''tenant_user'')"
  (is "let w = ?w in _")
proof -
  have h: "memberships_wf ?w" "keyed u_id users ?w" unfolding memberships_wf_def keyed_def by code_simp+
  have d: "filter (\<lambda>d. dt_token_hash d = ''1kot'' \<and> dt_revoked_at d = None) (device_tokens ?w) = [hd (device_tokens shop)]" by code_simp
  have t: "hd (tenants shop) \<in> set (tenants ?w)" "t_id (hd (tenants shop)) = dt_tenant_id (hd (device_tokens shop))"
    "t_status (hd (tenants shop)) = ''active''" by code_simp+
  have o: "is_admin ?w (dt_user_id (hd (device_tokens shop)))" by code_simp
  have a: "''u2'' \<noteq> []" "''u2'' \<noteq> dt_user_id (hd (device_tokens shop))"
    "active_member ?w (dt_tenant_id (hd (device_tokens shop))) ''u2''" by code_simp+
  have u: "''u2'' \<in> set (map u_id (users ?w))" "\<not> is_admin ?w ''u2''" by code_simp+
  note fails_open = Introspect_fails_open [OF h d t o a u]
  have "tick ?w = 100" by (simp add: shop_def)
  then have "\<exists>res. fst (run_state (Introspect (env_faulty {105}) ''1kot'' ''u2'') ?w) = Inr res \<and> ir_user_id res = ''u2'' \<and>
      (ir_user_type res = ''platform_admin'' \<longleftrightarrow> db_fault (env_faulty {105}) (tick ?w + 5))"
    by (intro fails_open) (simp add: env_faulty_def env0_def)
  moreover have "ir_user_type (projr (fst (run_state (Introspect env0 ''1kot'' ''u2'') ?w))) = ''tenant_user''" by code_simp
  ultimately show ?thesis using \<open>tick ?w = 100\<close> by (auto simp: Let_def env_faulty_def env0_def)
qed

end
