(* ===== verification/Queries.thy ===== *)
theory Queries
  imports Builders Introspect
begin

text \<open>
  The generated query builder of memberships: \<open>TenantUserQuery\<close> of \<open>src/ent/tenantuser_query.go\<close>,
  \<open>TenantUserClient.Get\<close> and the part of the mutation that queries.

  \<^item> A query is a record; the methods that configure it return it changed, and a method that
    runs it also returns the query it leaves behind: \<open>Only\<close> has set its limit to 2, \<open>Exist\<close> has
    set it to 1 and selected the id column only.
  \<^item> \<open>sql_reads\<close> names what sqlgraph documents of \<open>QueryNodes\<close>, \<open>CountNodes\<close> and a plain query.
  \<^item> The theorems: under that contract \<open>All\<close>, \<open>Only\<close>, \<open>Exist\<close>, \<open>Get\<close>, ordered and eager-loading
    queries give what \<open>ent_all\<close>, \<open>ent_only\<close>, \<open>ent_exist\<close>, \<open>ent_get\<close>, \<open>ent_all_asc\<close> and \<open>with_user\<close> say.

  The queries of the edges (\<open>UserQuery\<close>, \<open>TenantQuery\<close>) are other instances of the template;
  they are arguments of \<open>WithUser\<close> and \<open>WithTenant\<close>. Interceptors are absent (no client registers
  one), and so are grouping and aggregation, which the services do not use.
\<close>

section \<open>The query\<close>

record TenantUserQuery =
  q_limit :: "int option"
  q_offset :: "int option"
  q_unique :: "bool option"
  q_fields :: "string list"
  q_order :: "(Selector \<Rightarrow> Selector) list"
  q_predicates :: "predicate list"
  q_withUser :: "(string list \<Rightarrow> (world, ent_error + user list) state) option"
  q_withTenant :: "(string list \<Rightarrow> (world, ent_error + tenant list) state) option"
  q_sql :: "Selector option"
  q_path :: "(world, ent_error + Selector) state option"

definition client_Query :: TenantUserQuery where
  "client_Query = \<lparr>q_limit = None, q_offset = None, q_unique = None, q_fields = [], q_order = [],
     q_predicates = [], q_withUser = None, q_withTenant = None, q_sql = None, q_path = None\<rparr>"

definition query_Where :: "predicate list \<Rightarrow> TenantUserQuery \<Rightarrow> TenantUserQuery" where
  "query_Where ps q = q\<lparr>q_predicates := q_predicates q @ ps\<rparr>"

definition Limit :: "int \<Rightarrow> TenantUserQuery \<Rightarrow> TenantUserQuery" where
  "Limit n q = q\<lparr>q_limit := Some n\<rparr>"

definition Offset :: "int \<Rightarrow> TenantUserQuery \<Rightarrow> TenantUserQuery" where
  "Offset n q = q\<lparr>q_offset := Some n\<rparr>"

definition Unique :: "bool \<Rightarrow> TenantUserQuery \<Rightarrow> TenantUserQuery" where
  "Unique u q = q\<lparr>q_unique := Some u\<rparr>"

definition Order :: "(Selector \<Rightarrow> Selector) list \<Rightarrow> TenantUserQuery \<Rightarrow> TenantUserQuery" where
  "Order os q = q\<lparr>q_order := q_order q @ os\<rparr>"

definition WithUser ::
  "(string list \<Rightarrow> (world, ent_error + user list) state) \<Rightarrow> TenantUserQuery \<Rightarrow> TenantUserQuery" where
  "WithUser uq q = q\<lparr>q_withUser := Some uq\<rparr>"

definition WithTenant ::
  "(string list \<Rightarrow> (world, ent_error + tenant list) state) \<Rightarrow> TenantUserQuery \<Rightarrow> TenantUserQuery" where
  "WithTenant tq q = q\<lparr>q_withTenant := Some tq\<rparr>"

definition Select :: "string list \<Rightarrow> TenantUserQuery \<Rightarrow> TenantUserQuery" where
  "Select fs q = q\<lparr>q_fields := q_fields q @ fs\<rparr>"

text \<open>\<open>ent.Asc\<close> on a selector of this table; a column the table lacks is recorded as an error.\<close>

definition asc_term :: "string \<Rightarrow> Selector \<Rightarrow> Selector" where
  "asc_term f s = s\<lparr>sel_errors := sel_errors s @
       (if ValidColumn f then [] else [ValidationError f (''ent: unknown column '' @ f)]),
     sel_order := sel_order s @ [OrderAsc f]\<rparr>"

definition Asc :: "string list \<Rightarrow> Selector \<Rightarrow> Selector" where
  "Asc fs s = fold asc_term fs s"

section \<open>Running it\<close>

definition prepareQuery :: "TenantUserQuery \<Rightarrow> (world, ent_error + TenantUserQuery) state" where
  "prepareQuery q =
     (case invalid_column (q_fields q) of
        Some f \<Rightarrow> fail (invalid_field f)
      | None \<Rightarrow>
     (case q_path q of
        None \<Rightarrow> ok q
      | Some path \<Rightarrow> attempt path id (\<lambda>prev. ok (q\<lparr>q_sql := Some prev\<rparr>))))"

definition add_column_once :: "string \<Rightarrow> string list \<Rightarrow> string list" where
  "add_column_once c cs = (if c \<in> set cs then cs else cs @ [c])"

definition query_columns :: "TenantUserQuery \<Rightarrow> string list" where
  "query_columns q =
     (if q_fields q = [] then Columns
      else (if q_withTenant q = None then id else add_column_once FieldTenantID)
        ((if q_withUser q = None then id else add_column_once FieldUserID)
          (FieldID # filter (\<lambda>f. f \<noteq> FieldID) (q_fields q))))"

definition querySpec :: "config \<Rightarrow> TenantUserQuery \<Rightarrow> QuerySpec" where
  "querySpec C q =
     \<lparr>qs_table = Table, qs_schema = schema_TenantUser C, qs_columns = query_columns q,
      qs_from = q_sql q, qs_where = q_predicates q, qs_order = q_order q,
      qs_limit = or_zero 0 (q_limit q), qs_offset = or_zero 0 (q_offset q),
      qs_unique = (case q_unique q of Some u \<Rightarrow> u | None \<Rightarrow> q_path q \<noteq> None)\<rparr>"

fun assign_nodes :: "bool \<times> bool \<Rightarrow> scanned_row list \<Rightarrow> ent_error + TenantUser list" where
  "assign_nodes loaded [] = Inr []"
| "assign_nodes loaded ((columns, values) # rows) =
     (case assignValues columns values (zero_TenantUser\<lparr>loadedTypes := loaded\<rparr>) of
        Inl e \<Rightarrow> Inl e
      | Inr n \<Rightarrow> (case assign_nodes loaded rows of Inl e \<Rightarrow> Inl e | Inr ns \<Rightarrow> Inr (n # ns)))"

subsection \<open>Eager loading\<close>

text \<open>The distinct foreign keys in the order of the nodes.\<close>

fun collect_keys :: "string list \<Rightarrow> string list \<Rightarrow> string list" where
  "collect_keys seen [] = seen"
| "collect_keys seen (k # ks) = collect_keys (if k \<in> set seen then seen else seen @ [k]) ks"

definition attach ::
  "string \<Rightarrow> (TenantUser \<Rightarrow> string) \<Rightarrow> ('e \<Rightarrow> string) \<Rightarrow> ('e \<Rightarrow> TenantUser \<Rightarrow> TenantUser) \<Rightarrow> 'e \<Rightarrow>
   TenantUser list \<Rightarrow> ent_error + TenantUser list" where
  "attach column fk key assign e nodes =
     (if key e \<in> fk ` set nodes
      then Inr (map (\<lambda>n. if fk n = key e then assign e n else n) nodes)
      else Inl (PlainError (''unexpected foreign-key '' @ column @ '' returned '' @ key e)))"

fun attach_all :: "('e \<Rightarrow> 'n list \<Rightarrow> ent_error + 'n list) \<Rightarrow> 'e list \<Rightarrow> 'n list \<Rightarrow> ent_error + 'n list" where
  "attach_all f [] nodes = Inr nodes"
| "attach_all f (e # es) nodes = (case f e nodes of Inl x \<Rightarrow> Inl x | Inr nodes' \<Rightarrow> attach_all f es nodes')"

definition loadUser ::
  "(string list \<Rightarrow> (world, ent_error + user list) state) \<Rightarrow> TenantUser list \<Rightarrow>
   (world, ent_error + TenantUser list) state" where
  "loadUser query nodes = (let ids = collect_keys [] (map tu_user_id nodes) in
     if ids = [] then ok nodes
     else attempt (query ids) id (\<lambda>neighbors. State_Monad.return
       (attach_all (attach FieldUserID tu_user_id u_id (\<lambda>u. edge_user_update (\<lambda>_. Some u))) neighbors nodes)))"

definition loadTenant ::
  "(string list \<Rightarrow> (world, ent_error + tenant list) state) \<Rightarrow> TenantUser list \<Rightarrow>
   (world, ent_error + TenantUser list) state" where
  "loadTenant query nodes = (let ids = collect_keys [] (map tu_tenant_id nodes) in
     if ids = [] then ok nodes
     else attempt (query ids) id (\<lambda>neighbors. State_Monad.return
       (attach_all (attach FieldTenantID tu_tenant_id t_id (\<lambda>t. edge_tenant_update (\<lambda>_. Some t))) neighbors nodes)))"

definition sqlAll :: "config \<Rightarrow> TenantUserQuery \<Rightarrow> (world, ent_error + TenantUser list) state" where
  "sqlAll C q =
     attempt (QueryNodes C (querySpec C q) scanValues) RawError (\<lambda>rows.
     (case assign_nodes (q_withUser q \<noteq> None, q_withTenant q \<noteq> None) rows of
        Inl e \<Rightarrow> fail e
      | Inr nodes \<Rightarrow>
        if nodes = [] then ok nodes
        else attempt (case q_withUser q of None \<Rightarrow> ok nodes | Some uq \<Rightarrow> loadUser uq nodes) id (\<lambda>nodes.
          (case q_withTenant q of None \<Rightarrow> ok nodes | Some tq \<Rightarrow> loadTenant tq nodes))))"

subsection \<open>The terminal methods\<close>

definition All ::
  "config \<Rightarrow> TenantUserQuery \<Rightarrow> (world, (ent_error + TenantUser list) \<times> TenantUserQuery) state" where
  "All C q = handle (prepareQuery q) (\<lambda>e. State_Monad.return (Inl e, q))
     (\<lambda>q'. do { r \<leftarrow> sqlAll C q'; State_Monad.return (r, q') })"

definition First ::
  "config \<Rightarrow> TenantUserQuery \<Rightarrow> (world, (ent_error + TenantUser) \<times> TenantUserQuery) state" where
  "First C q = do {
     (r, q') \<leftarrow> All C (Limit 1 q);
     State_Monad.return (case r of
         Inl e \<Rightarrow> Inl e
       | Inr [] \<Rightarrow> Inl (NotFoundError Label)
       | Inr (n # _) \<Rightarrow> Inr n, q') }"

definition only_one :: "'a list \<Rightarrow> ent_error + 'a" where
  "only_one xs = (case xs of
     [x] \<Rightarrow> Inr x
   | [] \<Rightarrow> Inl (NotFoundError Label)
   | _ \<Rightarrow> Inl (NotSingularError Label))"

definition Only ::
  "config \<Rightarrow> TenantUserQuery \<Rightarrow> (world, (ent_error + TenantUser) \<times> TenantUserQuery) state" where
  "Only C q = do {
     (r, q') \<leftarrow> All C (Limit 2 q);
     State_Monad.return (case r of Inl e \<Rightarrow> Inl e | Inr nodes \<Rightarrow> only_one nodes, q') }"

definition MaxInt32 :: int where
  "MaxInt32 = 2147483647"

definition sqlQuery :: "config \<Rightarrow> TenantUserQuery \<Rightarrow> Selector" where
  "sqlQuery C q =
     (let columns = (if q_fields q = [] then Columns else q_fields q);
          s = (case q_sql q of
              None \<Rightarrow> \<lparr>sel_table = Table, sel_schema = schema_TenantUser C, sel_columns = columns, sel_where = [],
                sel_order = [], sel_offset = None, sel_limit = None, sel_distinct = False, sel_errors = []\<rparr>
            | Some sub \<Rightarrow> sub\<lparr>sel_columns := columns\<rparr>);
          s = (if q_unique q = Some True then s\<lparr>sel_distinct := True\<rparr> else s);
          s = s\<lparr>sel_where := sel_where s @ q_predicates q\<rparr>;
          s = fold (\<lambda>f s. f s) (q_order q) s;
          s = (case q_offset q of None \<Rightarrow> s | Some n \<Rightarrow> s\<lparr>sel_offset := Some n, sel_limit := Some MaxInt32\<rparr>)
      in (case q_limit q of None \<Rightarrow> s | Some n \<Rightarrow> s\<lparr>sel_limit := Some n\<rparr>))"

text \<open>\<open>sql.ScanSlice\<close> into a slice of strings.\<close>

fun scan_strings :: "ent_value list list \<Rightarrow> ent_error + string list" where
  "scan_strings [] = Inr []"
| "scan_strings ([VString s] # rows) = (case scan_strings rows of Inl e \<Rightarrow> Inl e | Inr ss \<Rightarrow> Inr (s # ss))"
| "scan_strings (_ # rows) = Inl (PlainError ''sql/scan: failed scanning rows'')"

definition IDs ::
  "config \<Rightarrow> TenantUserQuery \<Rightarrow> (world, (ent_error + string list) \<times> TenantUserQuery) state" where
  "IDs C q = (let q = Select [FieldID] (if q_unique q = None \<and> q_path q \<noteq> None then Unique True q else q) in
     handle (prepareQuery q) (\<lambda>e. State_Monad.return (Inl e, q))
       (\<lambda>q'. handle (driver_Query C (sqlQuery C q'))
          (\<lambda>e. State_Monad.return (Inl (RawError e), q'))
          (\<lambda>rows. State_Monad.return (scan_strings rows, q'))))"

definition FirstID ::
  "config \<Rightarrow> TenantUserQuery \<Rightarrow> (world, (ent_error + string) \<times> TenantUserQuery) state" where
  "FirstID C q = do {
     (r, q') \<leftarrow> IDs C (Limit 1 q);
     State_Monad.return (case r of
         Inl e \<Rightarrow> Inl e
       | Inr [] \<Rightarrow> Inl (NotFoundError Label)
       | Inr (i # _) \<Rightarrow> Inr i, q') }"

definition OnlyID ::
  "config \<Rightarrow> TenantUserQuery \<Rightarrow> (world, (ent_error + string) \<times> TenantUserQuery) state" where
  "OnlyID C q = do {
     (r, q') \<leftarrow> IDs C (Limit 2 q);
     State_Monad.return (case r of Inl e \<Rightarrow> Inl e | Inr ids \<Rightarrow> only_one ids, q') }"

definition Exist ::
  "config \<Rightarrow> TenantUserQuery \<Rightarrow> (world, (ent_error + bool) \<times> TenantUserQuery) state" where
  "Exist C q = do {
     (r, q') \<leftarrow> FirstID C q;
     State_Monad.return (case r of
         Inl e \<Rightarrow> if IsNotFound e then Inr False else Inl (WrappedError ''ent: check existence: '' e)
       | Inr i \<Rightarrow> Inr True, q') }"

definition sqlCount :: "config \<Rightarrow> TenantUserQuery \<Rightarrow> (world, ent_error + nat) state" where
  "sqlCount C q = (let spec = (querySpec C q)\<lparr>qs_columns := q_fields q\<rparr>;
       spec = (if q_fields q \<noteq> [] then spec\<lparr>qs_unique := (q_unique q = Some True)\<rparr> else spec) in
     attempt (CountNodes C spec) RawError ok)"

definition Count ::
  "config \<Rightarrow> TenantUserQuery \<Rightarrow> (world, (ent_error + nat) \<times> TenantUserQuery) state" where
  "Count C q = handle (prepareQuery q) (\<lambda>e. State_Monad.return (Inl e, q))
     (\<lambda>q'. do { r \<leftarrow> sqlCount C q'; State_Monad.return (r, q') })"

definition client_Get :: "config \<Rightarrow> getter" where
  "client_Get C i = do {
     (r, _) \<leftarrow> Only C (query_Where [tenantuser_ID i] client_Query);
     State_Monad.return r }"

text \<open>\<open>TenantUserMutation.IDs\<close>.\<close>

definition mutation_IDs :: "config \<Rightarrow> TenantUserMutation \<Rightarrow> (world, ent_error + string list) state" where
  "mutation_IDs C m =
     (if m_op m \<in> {OpUpdateOne, OpDeleteOne} \<and> ID m \<noteq> None then ok [the (ID m)]
      else if m_op m \<in> {OpUpdateOne, OpDeleteOne, OpUpdate, OpDelete}
      then do { (r, _) \<leftarrow> IDs C (query_Where (m_predicates m) client_Query); State_Monad.return r }
      else fail (PlainError ''IDs is not allowed on OpCreate operations''))"

section \<open>What sqlgraph documents of reads\<close>

definition blank_selector :: Selector where
  "blank_selector = \<lparr>sel_table = Table, sel_schema = [], sel_columns = Columns, sel_where = [],
     sel_order = [], sel_offset = None, sel_limit = None, sel_distinct = False, sel_errors = []\<rparr>"

text \<open>Two orders are described: none, and ascending by creation time.\<close>

definition described_order :: "order_term list \<Rightarrow> bool" where
  "described_order os \<longleftrightarrow> os \<in> {[], [OrderAsc FieldCreatedAt]}"

definition ordered :: "order_term list \<Rightarrow> tenant_user list \<Rightarrow> tenant_user list" where
  "ordered os xs = (if os = [] then xs else sort_key tu_created_at xs)"

definition limited :: "int \<Rightarrow> 'a list \<Rightarrow> 'a list" where
  "limited n xs = (if n = 0 then xs else take (nat n) xs)"

definition select_rows ::
  "env \<Rightarrow> predicate list \<Rightarrow> order_term list \<Rightarrow> int \<Rightarrow> (world, error + tenant_user list) state" where
  "select_rows E ps os n = db_step E (\<lambda>w.
     Inr (limited n (ordered os (arrange E w (filter (selected ps) (tenant_users w)))), w))"

definition count_rows :: "env \<Rightarrow> predicate list \<Rightarrow> (world, error + nat) state" where
  "count_rows E ps = db_step E (\<lambda>w. Inr (length (filter (selected ps) (tenant_users w)), w))"

definition spec_order :: "QuerySpec \<Rightarrow> Selector" where
  "spec_order spec = fold (\<lambda>f s. f s) (qs_order spec) blank_selector"

definition described :: "QuerySpec \<Rightarrow> bool" where
  "described spec \<longleftrightarrow> qs_table spec = Table \<and> qs_schema spec = [] \<and> qs_from spec = None \<and>
     known_columns (qs_where spec) \<and> sel_errors (spec_order spec) = [] \<and>
     described_order (sel_order (spec_order spec)) \<and> 0 \<le> qs_limit spec \<and> qs_offset spec = 0 \<and>
     \<not> qs_unique spec"

definition described_selector :: "Selector \<Rightarrow> bool" where
  "described_selector s \<longleftrightarrow> sel_table s = Table \<and> sel_schema s = [] \<and> sel_columns s = [FieldID] \<and>
     known_columns (sel_where s) \<and> sel_errors s = [] \<and> described_order (sel_order s) \<and>
     sel_offset s = None \<and> (\<forall>n. sel_limit s = Some n \<longrightarrow> 0 < n) \<and> \<not> sel_distinct s"

definition nodes_sql ::
  "env \<Rightarrow> QuerySpec \<Rightarrow> (string list \<Rightarrow> scanned list) \<Rightarrow> (world, sg_error + scanned_row list) state" where
  "nodes_sql E spec scan = sg_map (map (render (qs_columns spec) (scan (qs_columns spec))))
     (select_rows E (qs_where spec) (sel_order (spec_order spec)) (qs_limit spec))"

definition ids_sql :: "env \<Rightarrow> Selector \<Rightarrow> (world, sg_error + ent_value list list) state" where
  "ids_sql E s = sg_map (map (\<lambda>r. [VString (tu_id r)]))
     (select_rows E (sel_where s) (sel_order s) (or_zero 0 (sel_limit s)))"

definition sql_reads :: "env \<Rightarrow> config \<Rightarrow> bool" where
  "sql_reads E C \<longleftrightarrow> schema_TenantUser C = [] \<and>
     (\<forall>spec scan. described spec \<longrightarrow> QueryNodes C spec scan = nodes_sql E spec scan) \<and>
     (\<forall>spec. described spec \<and> qs_limit spec = 0 \<and> qs_columns spec = [] \<longrightarrow>
        CountNodes C spec = sg_map id (count_rows E (qs_where spec))) \<and>
     (\<forall>s. described_selector s \<longrightarrow> driver_Query C s = ids_sql E s)"

section \<open>The queries against the operations of the store\<close>

lemma assign_render_loaded:
  "assignValues Columns (snd (render Columns (scanValues Columns) r)) (zero_TenantUser\<lparr>loadedTypes := l\<rparr>) =
    Inr ((node_of r)\<lparr>loadedTypes := l\<rparr>)"
  by (simp add: render_def row_columns_def Columns_def scanValues_def assignValues_def assignValue_def
      set_string_def zero_TenantUser_def node_of_def tenant_user.defs)

lemma assign_nodes_render:
  "assign_nodes l (map (render Columns (scanValues Columns)) rs) =
     Inr (map (\<lambda>r. (node_of r)\<lparr>loadedTypes := l\<rparr>) rs)"
proof (induction rs)
  case (Cons r rs)
  define v where "v = snd (render Columns (scanValues Columns) r)"
  have "render Columns (scanValues Columns) r = (Columns, v)"
    and "assignValues Columns v (zero_TenantUser\<lparr>loadedTypes := l\<rparr>) = Inr ((node_of r)\<lparr>loadedTypes := l\<rparr>)"
    unfolding v_def assign_render_loaded by (simp_all add: render_def)
  with Cons show ?case by simp
qed simp

lemma run_select_rows:
  "run_state (select_rows E ps os n) w =
     (if db_fault E (tick w) then (Inl (ErrDB Fault), ticked w)
      else (Inr (limited n (ordered os (arrange E (ticked w) (filter (selected ps) (tenant_users (ticked w)))))), ticked w))"
  by (simp add: select_rows_def run_db_step)

lemma run_count_rows:
  "run_state (count_rows E ps) w =
     (if db_fault E (tick w) then (Inl (ErrDB Fault), ticked w)
      else (Inr (length (filter (selected ps) (tenant_users w))), ticked w))"
  by (simp add: count_rows_def run_db_step)

text \<open>A query as the services build it: predicates, perhaps an order, perhaps a limit.\<close>

definition service_query :: "predicate list \<Rightarrow> (Selector \<Rightarrow> Selector) list \<Rightarrow> int option \<Rightarrow> TenantUserQuery" where
  "service_query ps os n = client_Query\<lparr>q_predicates := ps, q_order := os, q_limit := n\<rparr>"

lemma service_query_simps [simp]:
  "query_Where ps client_Query = service_query ps [] None"
  "Order os (service_query ps [] n) = service_query ps os n"
  "Limit k (service_query ps os n) = service_query ps os (Some k)"
  by (simp_all add: service_query_def client_Query_def query_Where_def Order_def Limit_def)

lemma fold_asc [simp]:
  "ValidColumn f \<Longrightarrow> Asc [f] s = s\<lparr>sel_order := sel_order s @ [OrderAsc f]\<rparr>"
  by (simp add: Asc_def asc_term_def)

definition described_orders :: "(Selector \<Rightarrow> Selector) list \<Rightarrow> bool" where
  "described_orders os \<longleftrightarrow> os = [] \<or> os = [Asc [FieldCreatedAt]]"

definition order_terms :: "(Selector \<Rightarrow> Selector) list \<Rightarrow> order_term list" where
  "order_terms os = sel_order (fold (\<lambda>f s. f s) os blank_selector)"

lemma order_terms [simp]:
  "order_terms [] = []" "order_terms [Asc [FieldCreatedAt]] = [OrderAsc FieldCreatedAt]"
  by (simp_all add: order_terms_def blank_selector_def ValidColumn_def Columns_def)

lemma service_query_spec:
  assumes "sql_reads E C" and "known_columns ps" and "described_orders os" and "\<forall>k. n = Some k \<longrightarrow> 0 \<le> k"
  shows "QueryNodes C (querySpec C (service_query ps os n)) scanValues =
    sg_map (map (render Columns (scanValues Columns))) (select_rows E ps (order_terms os) (or_zero 0 n))"
proof -
  let ?spec = "querySpec C (service_query ps os n)"
  have "described ?spec"
    using assms by (auto simp: described_def querySpec_def service_query_def client_Query_def spec_order_def
        sql_reads_def described_orders_def described_order_def blank_selector_def ValidColumn_def
        Columns_def or_zero_def split: option.splits)
  then have "QueryNodes C ?spec scanValues = nodes_sql E ?spec scanValues"
    using assms(1) by (simp add: sql_reads_def)
  then show ?thesis
    by (simp add: nodes_sql_def querySpec_def query_columns_def service_query_def client_Query_def
        spec_order_def order_terms_def)
qed

lemma run_All:
  assumes "sql_reads E C" and "known_columns ps" and "described_orders os" and "\<forall>k. n = Some k \<longrightarrow> 0 \<le> k"
  shows "run_state (All C (service_query ps os n)) w =
    (case run_state (select_rows E ps (order_terms os) (or_zero 0 n)) w of
       (Inl e, w') \<Rightarrow> ((Inl (RawError (sg_of e)), service_query ps os n), w')
     | (Inr rs, w') \<Rightarrow> ((Inr (map node_of rs), service_query ps os n), w'))"
proof -
  have prep: "prepareQuery (service_query ps os n) = ok (service_query ps os n)"
    and plain: "q_withUser (service_query ps os n) = None" "q_withTenant (service_query ps os n) = None"
    by (simp_all add: prepareQuery_def service_query_def client_Query_def)
  have "map (\<lambda>r. (node_of r)\<lparr>loadedTypes := (False, False)\<rparr>) rs = map node_of rs" for rs
    by (simp add: node_of_def tenant_user.defs)
  then show ?thesis
    by (simp add: All_def prep sqlAll_def plain service_query_spec [OF assms] run_sg_map assign_nodes_render
        run_select_rows)
qed

lemma run_IDs:
  assumes "sql_reads E C" and "known_columns ps" and "\<forall>k. n = Some k \<longrightarrow> 0 < k"
  shows "\<exists>q'. run_state (IDs C (service_query ps [] n)) w =
    (case run_state (select_rows E ps [] (or_zero 0 n)) w of
       (Inl e, w') \<Rightarrow> ((Inl (RawError (sg_of e)), q'), w')
     | (Inr rs, w') \<Rightarrow> ((Inr (map tu_id rs), q'), w'))"
proof -
  let ?q = "Select [FieldID] (service_query ps [] n)"
  have prep: "prepareQuery ?q = ok ?q" and plain: "q_path (service_query ps [] n) = None"
    by (simp_all add: prepareQuery_def service_query_def client_Query_def Select_def ValidColumn_def Columns_def)
  have sel: "sqlQuery C ?q = \<lparr>sel_table = Table, sel_schema = schema_TenantUser C, sel_columns = [FieldID],
      sel_where = ps, sel_order = [], sel_offset = None, sel_limit = n, sel_distinct = False, sel_errors = []\<rparr>"
    by (cases n) (simp_all add: sqlQuery_def service_query_def client_Query_def Select_def Let_def)
  then have "described_selector (sqlQuery C ?q)"
    using assms by (simp add: described_selector_def sql_reads_def described_order_def)
  then have "driver_Query C (sqlQuery C ?q) = ids_sql E (sqlQuery C ?q)"
    using assms(1) by (simp add: sql_reads_def)
  then have query: "driver_Query C (sqlQuery C ?q) =
      sg_map (map (\<lambda>r. [VString (tu_id r)])) (select_rows E ps [] (or_zero 0 n))"
    by (simp add: ids_sql_def sel)
  have scan: "scan_strings (map (\<lambda>r. [VString (tu_id r)]) rs) = Inr (map tu_id rs)" for rs
    by (induction rs) simp_all
  have "run_state (IDs C (service_query ps [] n)) w =
    (case run_state (select_rows E ps [] (or_zero 0 n)) w of
       (Inl e, w') \<Rightarrow> ((Inl (RawError (sg_of e)), ?q), w')
     | (Inr rs, w') \<Rightarrow> ((Inr (map tu_id rs), ?q), w'))"
    by (simp add: IDs_def Let_def plain prep query run_sg_map run_select_rows scan comp_def)
  then show ?thesis by blast
qed

lemma All_refines:
  assumes "sql_reads E C" and "known_columns ps"
  shows "run_state (builder_result (map tenant_user.truncate) (All C (query_Where ps client_Query))) w =
    run_state (ent_all E tenant_users (selected ps)) w"
  using run_All [OF assms, of "[]" None w]
  by (simp add: run_builder_result described_orders_def run_select_rows run_ent_all or_zero_def limited_def
      ordered_def comp_def)

lemma All_asc_refines:
  assumes "sql_reads E C" and "known_columns ps"
  shows "run_state (builder_result (map tenant_user.truncate)
      (All C (Order [Asc [FieldCreatedAt]] (query_Where ps client_Query)))) w =
    run_state (ent_all_asc E tenant_users (selected ps) tu_created_at) w"
  using run_All [OF assms, of "[Asc [FieldCreatedAt]]" None w]
  by (simp add: run_builder_result described_orders_def run_select_rows run_ent_all_asc or_zero_def limited_def
      ordered_def comp_def)

lemma Only_refines:
  assumes "sql_reads E C" and "known_columns ps"
  shows "run_state (builder_result tenant_user.truncate (Only C (query_Where ps client_Query))) w =
    run_state (ent_only E tenant_users (selected ps)) w"
proof -
  let ?rows = "arrange E (ticked w) (filter (selected ps) (tenant_users w))"
  have "run_state (All C (service_query ps [] (Some 2))) w =
      (if db_fault E (tick w) then ((Inl (RawError (SgOther (ErrDB Fault))), service_query ps [] (Some 2)), ticked w)
       else ((Inr (map node_of (take 2 ?rows)), service_query ps [] (Some 2)), ticked w))"
    using run_All [OF assms, of "[]" "Some 2" w]
    by (simp add: described_orders_def run_select_rows or_zero_def limited_def ordered_def)
  then show ?thesis
    by (simp add: run_builder_result Only_def only_one_def ent_only_def run_db_step split: list.splits)
qed

lemma selected_ID: "selected [tenantuser_ID i] = (\<lambda>r. tu_id r = i)"
  by (rule ext) (simp add: selected_def tenantuser_ID_def row_columns_def)

lemma known_ID [simp]: "known_columns [tenantuser_ID i]"
  by (simp add: known_columns_def tenantuser_ID_def ValidColumn_def Columns_def)

lemma Get_refines:
  assumes "sql_reads E C"
  shows "map_prod (map_sum err_of tenant_user.truncate) id (run_state (client_Get C i) w) =
    run_state (ent_get E tenant_users tu_id i) w"
  using Only_refines [OF assms known_ID, of i w]
  by (simp add: client_Get_def ent_get_def selected_ID run_builder_result split: prod.splits)

lemma Exist_refines:
  assumes "sql_reads E C" and "known_columns ps"
  shows "run_state (builder_result id (Exist C (query_Where ps client_Query))) w =
    run_state (ent_exist E tenant_users (selected ps)) w"
proof -
  let ?rows = "arrange E (ticked w) (filter (selected ps) (tenant_users w))"
  obtain q where ids: "run_state (IDs C (service_query ps [] (Some 1))) w =
      (if db_fault E (tick w) then ((Inl (RawError (SgOther (ErrDB Fault))), q), ticked w)
       else ((Inr (map tu_id (take 1 ?rows)), q), ticked w))"
    using run_IDs [OF assms, of "Some 1" w]
    by (auto simp: run_select_rows or_zero_def limited_def ordered_def)
  have "?rows = [] \<longleftrightarrow> filter (selected ps) (tenant_users w) = []"
    by (metis length_0_conv length_arrange)
  then show ?thesis
    by (cases ?rows) (simp_all add: run_builder_result Exist_def FirstID_def ids run_ent_exist)
qed

lemma Count_refines:
  assumes "sql_reads E C" and "known_columns ps"
  shows "run_state (builder_result id (Count C (query_Where ps client_Query))) w =
    run_state (count_rows E ps) w"
proof -
  let ?q = "service_query ps [] None" and ?spec = "(querySpec C (service_query ps [] None))\<lparr>qs_columns := []\<rparr>"
  have prep: "prepareQuery ?q = ok ?q" and fields: "q_fields ?q = []"
    by (simp_all add: prepareQuery_def service_query_def client_Query_def)
  have "described ?spec" and "qs_limit ?spec = 0" and "qs_columns ?spec = []" and "qs_where ?spec = ps"
    using assms by (simp_all add: described_def querySpec_def service_query_def client_Query_def spec_order_def
        sql_reads_def described_order_def blank_selector_def or_zero_def)
  then have "CountNodes C ?spec = sg_map id (count_rows E ps)"
    using assms(1) by (simp add: sql_reads_def)
  then show ?thesis
    by (simp add: run_builder_result Count_def prep sqlCount_def fields run_sg_map run_count_rows)
qed

lemma First_refines:
  assumes "sql_reads E C" and "known_columns ps"
  shows "run_state (builder_result tenant_user.truncate (First C (query_Where ps client_Query))) w =
    (if db_fault E (tick w) then (Inl (ErrDB Fault), ticked w)
     else case arrange E (ticked w) (filter (selected ps) (tenant_users w)) of
         [] \<Rightarrow> (Inl (ErrDB NotFound), ticked w)
       | r # _ \<Rightarrow> (Inr r, ticked w))"
proof -
  let ?rows = "arrange E (ticked w) (filter (selected ps) (tenant_users w))"
  have "run_state (All C (service_query ps [] (Some 1))) w =
      (if db_fault E (tick w) then ((Inl (RawError (SgOther (ErrDB Fault))), service_query ps [] (Some 1)), ticked w)
       else ((Inr (map node_of (take 1 ?rows)), service_query ps [] (Some 1)), ticked w))"
    using run_All [OF assms, of "[]" "Some 1" w]
    by (simp add: described_orders_def run_select_rows or_zero_def limited_def ordered_def)
  then show ?thesis
    by (simp add: run_builder_result First_def split: list.splits)
qed

subsection \<open>Eager loading of the users\<close>

lemma set_collect_keys: "set (collect_keys seen ks) = set seen \<union> set ks"
  by (induction ks arbitrary: seen) auto

lemma distinct_collect_keys: "distinct seen \<Longrightarrow> distinct (collect_keys seen ks)"
  by (induction ks arbitrary: seen) auto

abbreviation attach_user :: "user \<Rightarrow> TenantUser list \<Rightarrow> ent_error + TenantUser list" where
  "attach_user \<equiv> attach FieldUserID tu_user_id u_id (\<lambda>u. edge_user_update (\<lambda>_. Some u))"

text \<open>Attaching users with distinct ids, all of them wanted, gives every node its user.\<close>

lemma attach_users:
  assumes "distinct (map u_id us)" and "u_id ` set us \<subseteq> tu_user_id ` set nodes"
  shows "attach_all attach_user us nodes = Inr (map (\<lambda>n. case find (\<lambda>u. u_id u = tu_user_id n) us of
      None \<Rightarrow> n | Some u \<Rightarrow> n\<lparr>edge_user := Some u\<rparr>) nodes)"
  using assms
proof (induction us arbitrary: nodes)
  case (Cons u us)
  let ?nodes = "map (\<lambda>n. if tu_user_id n = u_id u then n\<lparr>edge_user := Some u\<rparr> else n) nodes"
  have "map tu_user_id ?nodes = map tu_user_id nodes" by simp
  then have ids: "tu_user_id ` set ?nodes = tu_user_id ` set nodes" by (metis list.set_map)
  have "attach_all attach_user us ?nodes = Inr (map (\<lambda>n. case find (\<lambda>u. u_id u = tu_user_id n) us of
      None \<Rightarrow> n | Some u \<Rightarrow> n\<lparr>edge_user := Some u\<rparr>) ?nodes)"
    using Cons.prems by (intro Cons.IH) (simp_all only: ids, simp_all)
  moreover have "find (\<lambda>v. u_id v = u_id u) us = None"
    using Cons.prems(1) unfolding find_None_iff by (metis distinct.simps(2) image_eqI list.map(2) list.set_map)
  ultimately have rest: "attach_all attach_user us ?nodes = Inr (map (\<lambda>n. case find (\<lambda>v. u_id v = tu_user_id n)
      (u # us) of None \<Rightarrow> n | Some v \<Rightarrow> n\<lparr>edge_user := Some v\<rparr>) nodes)"
    by (auto split: option.splits)
  have "attach_user u nodes = Inr ?nodes" using Cons.prems(2) by (simp add: attach_def)
  with rest show ?case by simp
qed simp

text \<open>The query \<open>user.IDIn(ids...)\<close> on the users, as the template's other instance gives it.\<close>

definition users_query ::
  "env \<Rightarrow> (string list \<Rightarrow> (world, ent_error + user list) state) \<Rightarrow> bool" where
  "users_query E uq \<longleftrightarrow> (\<forall>ids w. run_state (uq ids) w =
     map_prod (map_sum (RawError \<circ> sg_of) id) id (run_state (ent_all E users (\<lambda>u. u_id u \<in> set ids)) w))"

definition loaded_node :: "tenant_user \<Rightarrow> TenantUser" where
  "loaded_node r = (node_of r)\<lparr>loadedTypes := (True, False)\<rparr>"

lemma loaded_node_simps [simp]:
  "tu_user_id (loaded_node r) = tu_user_id r" "edge_user (loaded_node r) = None"
  "tenant_user.truncate (loaded_node r) = r"
  "tenant_user.truncate ((loaded_node r)\<lparr>edge_user := x\<rparr>) = r"
  by (simp_all add: loaded_node_def node_of_def tenant_user.defs)

lemma loadUser_run:
  assumes "users_query E uq" and "ms \<noteq> []"
  shows "run_state (loadUser uq (map loaded_node ms)) w =
      (case run_state (ent_all E users (\<lambda>u. u_id u \<in> set (map tu_user_id ms))) w of
         (Inl e, w') \<Rightarrow> (Inl (RawError (sg_of e)), w')
       | (Inr us, w') \<Rightarrow> (attach_all attach_user us (map loaded_node ms), w'))"
proof -
  let ?ids = "collect_keys [] (map tu_user_id (map loaded_node ms))"
  have ids: "set ?ids = set (map tu_user_id ms)" by (simp only: set_collect_keys) simp
  with assms(2) have "?ids \<noteq> []" by (metis list.map_disc_iff set_empty)
  moreover have "run_state (uq ?ids) w = map_prod (map_sum (RawError \<circ> sg_of) id) id
      (run_state (ent_all E users (\<lambda>u. u_id u \<in> set ?ids)) w)"
    using assms(1) unfolding users_query_def by blast
  note this [unfolded ids]
  ultimately show ?thesis
    by (cases "run_state (ent_all E users (\<lambda>u. u_id u \<in> set (map tu_user_id ms))) w"; cases "fst (run_state
        (ent_all E users (\<lambda>u. u_id u \<in> set (map tu_user_id ms))) w)")
      (simp_all add: loadUser_def Let_def)
qed

text \<open>The rows with their users, as \<open>with_user\<close> pairs them.\<close>

lemma attached_users:
  assumes "keyed u_id users w" and "mset us = mset (filter (\<lambda>u. u_id u \<in> set (map tu_user_id ms)) (users w))"
  shows "attach_all attach_user us (map loaded_node ms) = Inr (map (\<lambda>m. (loaded_node m)\<lparr>edge_user :=
    find (\<lambda>u. u_id u = tu_user_id m) us\<rparr>) ms)"
proof -
  have "mset (map u_id us) = mset (map u_id (filter (\<lambda>u. u_id u \<in> set (map tu_user_id ms)) (users w)))"
    using assms(2) by simp
  moreover have "distinct (map u_id (filter (\<lambda>u. u_id u \<in> set (map tu_user_id ms)) (users w)))"
    using assms(1) by (simp add: keyed_def distinct_map_filter)
  ultimately have distinct: "distinct (map u_id us)" by (metis mset_eq_imp_distinct_iff)
  have "set us = set (filter (\<lambda>u. u_id u \<in> set (map tu_user_id ms)) (users w))"
    using assms(2) by (metis mset_eq_setD)
  then have wanted: "u_id ` set us \<subseteq> tu_user_id ` set (map loaded_node ms)" by force
  have same: "(loaded_node m)\<lparr>edge_user := None\<rparr> = loaded_node m" for m
    by (simp add: loaded_node_def node_of_def tenant_user.defs)
  show ?thesis unfolding attach_users [OF distinct wanted]
    by (auto simp: same split: option.splits)
qed

lemma WithUser_refines:
  assumes C: "sql_reads E C" and ps: "known_columns ps" and keyed: "keyed u_id users w" and uq: "users_query E uq"
  shows "run_state (builder_result (map (\<lambda>n. (tenant_user.truncate n, edge_user n)))
      (All C (WithUser uq (query_Where ps client_Query)))) w =
    run_state (attempt (ent_all E tenant_users (selected ps)) id (with_user E)) w"
proof -
  let ?q = "WithUser uq (service_query ps [] None)"
  obtain ms where ms: "arrange E (ticked w) (filter (selected ps) (tenant_users w)) = ms" by blast
  have prep: "prepareQuery ?q = ok ?q" and plain: "q_withUser ?q = Some uq" "q_withTenant ?q = None"
    by (simp_all add: prepareQuery_def service_query_def client_Query_def WithUser_def)
  have "querySpec C ?q = querySpec C (service_query ps [] None)"
    by (simp add: querySpec_def query_columns_def WithUser_def service_query_def client_Query_def)
  then have spec: "QueryNodes C (querySpec C ?q) scanValues =
      sg_map (map (render Columns (scanValues Columns))) (select_rows E ps [] 0)"
    using service_query_spec [OF C ps, of "[]" None] by (simp add: described_orders_def or_zero_def)
  have rows: "run_state (select_rows E ps [] 0) w =
      (if db_fault E (tick w) then (Inl (ErrDB Fault), ticked w) else (Inr ms, ticked w))"
    by (simp add: run_select_rows limited_def ordered_def ms)
  have nodes: "assign_nodes (True, False) (map (render Columns (scanValues Columns)) ms) = Inr (map loaded_node ms)"
    unfolding assign_nodes_render loaded_node_def ..
  obtain us where arranged: "arrange E (ticked (ticked w))
      (filter (\<lambda>u. u_id u \<in> set (map tu_user_id ms)) (users w)) = us" by blast
  then have us: "mset us = mset (filter (\<lambda>u. u_id u \<in> set (map tu_user_id ms)) (users w))"
    by (metis mset_arrange)
  have users: "run_state (ent_all E users (\<lambda>u. u_id u \<in> set (map tu_user_id ms))) (ticked w) =
      (if db_fault E (Suc (tick w)) then (Inl (ErrDB Fault), ticked (ticked w)) else (Inr us, ticked (ticked w)))"
    using arranged by (simp add: run_ent_all del: list.set_map)
  have all: "run_state (All C ?q) w =
      (if db_fault E (tick w) then ((Inl (RawError (SgOther (ErrDB Fault))), ?q), ticked w)
       else if ms = [] then ((Inr [], ?q), ticked w)
       else case run_state (loadUser uq (map loaded_node ms)) (ticked w) of
           (r, w') \<Rightarrow> ((r, ?q), w'))"
    by (simp add: All_def prep sqlAll_def plain spec run_sg_map rows nodes split: prod.splits sum.splits)
  have rhs: "run_state (ent_all E tenant_users (selected ps)) w =
      (if db_fault E (tick w) then (Inl (ErrDB Fault), ticked w) else (Inr ms, ticked w))"
    by (simp add: run_ent_all ms)
  show ?thesis
  proof (cases "ms = []")
    case True
    then show ?thesis by (simp add: run_builder_result all rhs with_user_def)
  next
    case False
    show ?thesis
      by (simp add: run_builder_result all rhs False loadUser_run [OF uq False] users [unfolded list.set_map] with_user_def
          attached_users [OF keyed us] comp_def)
  qed
qed

subsection \<open>The queries of the services\<close>

lemma selected_simps [simp]:
  "selected [] r = True"
  "selected (tenantuser_ID i # ps) r = (tu_id r = i \<and> selected ps r)"
  "selected (tenantuser_UserID u # ps) r = (tu_user_id r = u \<and> selected ps r)"
  "selected (tenantuser_TenantID t # ps) r = (tu_tenant_id r = t \<and> selected ps r)"
  "selected (tenantuser_RoleID k # ps) r = (tu_role_id r = k \<and> selected ps r)"
  "selected (tenantuser_StatusNEQ s # ps) r = (tu_status r \<noteq> s \<and> selected ps r)"
  by (simp_all add: selected_def row_columns_def tenantuser_ID_def tenantuser_UserID_def
      tenantuser_TenantID_def tenantuser_RoleID_def tenantuser_StatusNEQ_def)

lemma known_columns_simps [simp]:
  "known_columns []"
  "known_columns (tenantuser_ID i # ps) = known_columns ps"
  "known_columns (tenantuser_UserID u # ps) = known_columns ps"
  "known_columns (tenantuser_TenantID t # ps) = known_columns ps"
  "known_columns (tenantuser_RoleID k # ps) = known_columns ps"
  "known_columns (tenantuser_StatusNEQ s # ps) = known_columns ps"
  by (simp_all add: known_columns_def ValidColumn_def Columns_def tenantuser_ID_def tenantuser_UserID_def
      tenantuser_TenantID_def tenantuser_RoleID_def tenantuser_StatusNEQ_def)

lemma selected_service:
  "selected [tenantuser_UserID u, tenantuser_TenantID t, tenantuser_StatusNEQ s] =
    (\<lambda>m. tu_user_id m = u \<and> tu_tenant_id m = t \<and> tu_status m \<noteq> s)"
  "selected [tenantuser_UserID u, tenantuser_TenantID t] = (\<lambda>m. tu_user_id m = u \<and> tu_tenant_id m = t)"
  "selected [tenantuser_UserID u, tenantuser_StatusNEQ s] = (\<lambda>m. tu_user_id m = u \<and> tu_status m \<noteq> s)"
  "selected [tenantuser_TenantID t] = (\<lambda>m. tu_tenant_id m = t)"
  "selected [tenantuser_RoleID k] = (\<lambda>m. tu_role_id m = k)"
  by (simp_all add: fun_eq_iff)

text \<open>C40. The generated queries read what the services' models say they read. Under the documented
  behaviour of sqlgraph: the \<open>Only\<close> query of the token introspection has the outcome of
  \<open>activeMembership\<close>, not-found and not-singular included (it fetches at most two rows to tell);
  the query that decides whether a role is in use agrees with \<open>ent_exist\<close> although it fetches one
  id; the memberships of a login come oldest first; \<open>Get\<close> reads the row of that id; and
  \<open>WithUser\<close> pairs every membership of a tenant with its user by one more statement, or none when
  there is no membership.\<close>

theorem membership_queries_refine:
  assumes "sql_reads E C"
  shows "run_state (builder_result tenant_user.truncate (Only C (query_Where
      [tenantuser_UserID u, tenantuser_TenantID t, tenantuser_StatusNEQ ''suspended''] client_Query))) w =
    run_state (activeMembership E t u) w
    \<and> run_state (builder_result id (Exist C (query_Where [tenantuser_RoleID k] client_Query))) w =
    run_state (ent_exist E tenant_users (\<lambda>m. tu_role_id m = k)) w
    \<and> run_state (builder_result (map tenant_user.truncate) (All C (Order [Asc [FieldCreatedAt]]
      (query_Where [tenantuser_UserID u, tenantuser_StatusNEQ ''suspended''] client_Query)))) w =
    run_state (ent_all_asc E tenant_users (\<lambda>m. tu_user_id m = u \<and> tu_status m \<noteq> ''suspended'') tu_created_at) w
    \<and> map_prod (map_sum err_of tenant_user.truncate) id (run_state (client_Get C i) w) =
    run_state (ent_get E tenant_users tu_id i) w
    \<and> (keyed u_id users w \<and> users_query E uq \<longrightarrow>
    run_state (builder_result (map (\<lambda>n. (tenant_user.truncate n, edge_user n)))
      (All C (WithUser uq (query_Where [tenantuser_TenantID t] client_Query)))) w =
    run_state (attempt (ent_all E tenant_users (\<lambda>m. tu_tenant_id m = t)) id (with_user E)) w)"
  unfolding activeMembership_def selected_service [symmetric]
  using Only_refines [OF assms] Exist_refines [OF assms] All_asc_refines [OF assms] Get_refines [OF assms]
    WithUser_refines [OF assms]
  by (intro conjI impI) simp_all

definition read_config :: "env \<Rightarrow> config" where
  "read_config E = (sql_config E)\<lparr>QueryNodes := nodes_sql E,
     CountNodes := (\<lambda>spec. sg_map id (count_rows E (qs_where spec))), driver_Query := ids_sql E\<rparr>"

lemma read_config_contract: "sql_reads E (read_config E)" "sql_writes E (read_config E)"
  by (simp_all add: sql_reads_def sql_writes_def read_config_def sql_config_def)

definition toy_users :: "env \<Rightarrow> string list \<Rightarrow> (world, ent_error + user list) state" where
  "toy_users E ids = do {
     r \<leftarrow> ent_all E users (\<lambda>u. u_id u \<in> set ids);
     State_Monad.return (map_sum (RawError \<circ> sg_of) id r) }"

lemma toy_users_query: "users_query E (toy_users E)"
  by (simp add: users_query_def toy_users_def map_prod_def split: prod.splits)

theorem membership_queries_refine_witness:
  "map_sum id (map (\<lambda>(m, u). (tu_id m, map_option u_email u))) (fst (run_state
      (builder_result (map (\<lambda>n. (tenant_user.truncate n, edge_user n)))
        (All (read_config env0) (WithUser (toy_users env0) (query_Where [tenantuser_TenantID ''t1''] client_Query)))) shop))
   = Inr [(''m1'', Some ''a@x.io''), (''m2'', Some ''b@x.io'')]"
proof -
  have keyed: "keyed u_id users shop" by (simp add: keyed_def shop_def)
  have all: "fst (run_state (attempt (ent_all env0 tenant_users (\<lambda>m. tu_tenant_id m = ''t1'')) id (with_user env0)) shop) =
      Inr [(tenant_users shop ! 0, Some (users shop ! 0)), (tenant_users shop ! 1, Some (users shop ! 1))]"
    by code_simp
  have "run_state (builder_result (map (\<lambda>n. (tenant_user.truncate n, edge_user n)))
        (All (read_config env0) (WithUser (toy_users env0) (query_Where [tenantuser_TenantID ''t1''] client_Query)))) shop =
      run_state (attempt (ent_all env0 tenant_users (\<lambda>m. tu_tenant_id m = ''t1'')) id (with_user env0)) shop"
    using membership_queries_refine [OF read_config_contract(1)] keyed toy_users_query by blast
  then show ?thesis using all by (simp add: shop_def)
qed

text \<open>A query object is spent by running it: \<open>Exist\<close> leaves it limited to one row and to the id
  column, so that \<open>All\<close> on the same object would return at most one membership, without its
  other fields. The program builds a new query for every call.\<close>

lemma Exist_spends_the_query:
  assumes "run_state (Exist C (query_Where ps client_Query)) w = ((r, q), w')"
  shows "q_limit q = Some 1" and "q_fields q = [FieldID]" and "query_columns q = [FieldID]"
proof -
  let ?p = "service_query ps [] (Some 1)"
  have prep: "prepareQuery (Select [FieldID] ?p) = ok (Select [FieldID] ?p)" and path: "q_path ?p = None"
    by (simp_all add: prepareQuery_def Select_def service_query_def client_Query_def ValidColumn_def Columns_def)
  have "q = Select [FieldID] ?p"
    using assms by (auto simp: Exist_def FirstID_def IDs_def path Let_def prep split: prod.splits sum.splits)
  then show "q_limit q = Some 1" "q_fields q = [FieldID]" "query_columns q = [FieldID]"
    by (simp_all add: Select_def service_query_def client_Query_def query_columns_def)
qed

text \<open>The old value of a mutation started by id is the column of the stored row.\<close>

lemma OldStatus_refines:
  assumes "sql_reads E C"
  shows "map_prod (map_sum err_of id \<circ> fst) id (run_state (OldStatus (client_Get C)
      (tuuo_mutation (client_UpdateOneID i))) w) =
    map_prod (map_sum id tu_status) id (run_state (ent_get E tenant_users tu_id i) w)"
proof -
  obtain r w' where get: "run_state (client_Get C i) w = (r, w')" by fastforce
  with Get_refines [OF assms, of i w] have ent: "run_state (ent_get E tenant_users tu_id i) w =
      (map_sum err_of tenant_user.truncate r, w')" by simp
  show ?thesis unfolding ent
    by (cases r) (simp_all add: OldStatus_def old_field_def old_value_def client_UpdateOneID_def
        newTenantUserMutation_def withTenantUserID_def get tenant_user.defs)
qed

end
