(* ===== verification/Profiles.thy ===== *)
theory Profiles
  imports Introspect
begin

text \<open>
  Profiles, PINs and passwords: \<open>src/internal/auth/members.go\<close>, the second half of
  \<open>src/internal/auth/member_manage.go\<close>, \<open>src/internal/auth/password.go\<close> and \<open>LoadProfile\<close> of
  \<open>src/internal/auth/login.go\<close>. Profiles live in the tenant's own schema, so what one tenant
  writes there is invisible to another; passwords live in the shared \<open>users\<close> table. The lemmas
  show what a PIN identifies and which rows each operation may change.
\<close>

section \<open>Profiles\<close>

text \<open>\<open>Profile\<close> is the tenant's \<open>user_profiles\<close> row without id and creation time.\<close>

record Profile =
  pf_full_name :: string
  pf_phone :: string
  pf_job_title :: string
  pf_system_role :: string
  pf_pin_hash :: string

definition LoadProfile :: "env \<Rightarrow> string \<Rightarrow> string \<Rightarrow> (world, error + Profile) state" where
  "LoadProfile E schemaName userID =
     attempt (profile_get E schemaName userID) id
       (\<lambda>p. ok \<lparr>pf_full_name = p_full_name p, pf_phone = p_phone p, pf_job_title = p_job_title p,
               pf_system_role = p_system_role p, pf_pin_hash = p_pin_hash p\<rparr>)"

definition LoadProfileForTenant :: "env \<Rightarrow> string \<Rightarrow> string \<Rightarrow> (world, error + Profile) state" where
  "LoadProfileForTenant E tenantID userID =
     attempt (ent_get E tenants t_id tenantID) (ErrWrap ''load tenant'')
       (\<lambda>t. LoadProfile E (t_schema_name t) userID)"

text \<open>Empty fields are left unchanged; a failed existence check counts as a missing profile.\<close>

definition patch_profile :: "string \<Rightarrow> string \<Rightarrow> string \<Rightarrow> user_profile \<Rightarrow> user_profile" where
  "patch_profile fullName phone jobTitle p =
     p\<lparr>p_full_name := (if fullName \<noteq> [] then fullName else p_full_name p),
       p_phone := (if phone \<noteq> [] then phone else p_phone p),
       p_job_title := (if jobTitle \<noteq> [] then jobTitle else p_job_title p)\<rparr>"

definition UpdateOwnProfile ::
  "env \<Rightarrow> string \<Rightarrow> string \<Rightarrow> string \<Rightarrow> string \<Rightarrow> string \<Rightarrow> (world, error + unit) state" where
  "UpdateOwnProfile E tenantID userID fullName phone jobTitle =
     (if tenantID = [] \<or> userID = [] then fail ErrMemberNotFound
      else attempt (ent_get E tenants t_id tenantID) (ErrWrap ''load tenant'') (\<lambda>t. do {
        let s = t_schema_name t;
        exists \<leftarrow> handle (in_schema E s (ent_exist E (profiles s) (\<lambda>p. p_id p = userID)))
                   (\<lambda>_. State_Monad.return False) State_Monad.return;
        (if \<not> exists then
           attempt (create_profile E s userID fullName phone jobTitle ''customer'')
             (ErrWrap ''create profile'') (\<lambda>_. ok ())
         else
           attempt (in_schema E s (ent_update_one E (profiles s) (profiles_update s) p_id no_clash userID
                      (patch_profile fullName phone jobTitle)))
             id (\<lambda>_. ok ())) }))"

section \<open>The member list\<close>

record MemberInfo =
  mi_user_id :: string
  mi_email :: string
  mi_full_name :: string
  mi_phone :: string
  mi_role_id :: string
  mi_role_slug :: string
  mi_role_name :: string
  mi_branch_id :: string
  mi_status :: string

text \<open>The closure \<open>resolveRole\<close>: each distinct role is read once, a failed read gives blanks.\<close>

definition cached_role ::
  "env \<Rightarrow> (string \<rightharpoonup> string \<times> string) \<Rightarrow> string \<Rightarrow> (world, (string \<times> string) \<times> (string \<rightharpoonup> string \<times> string)) state" where
  "cached_role E cache roleID =
     (case cache roleID of
        Some r \<Rightarrow> State_Monad.return (r, cache)
      | None \<Rightarrow> do {
          r \<leftarrow> handle (ent_get E roles r_id roleID) (\<lambda>_. State_Monad.return ([], []))
                 (\<lambda>r. State_Monad.return (r_slug r, r_name r));
          State_Monad.return (r, cache(roleID \<mapsto> r)) })"

primrec member_infos ::
  "env \<Rightarrow> (string \<rightharpoonup> string \<times> string) \<Rightarrow> (tenant_user \<times> user option) list \<Rightarrow>
   (string \<rightharpoonup> string \<times> string) \<Rightarrow> MemberInfo list \<Rightarrow> (world, MemberInfo list) state" where
  "member_infos E profileByID [] cache out = State_Monad.return out"
| "member_infos E profileByID (mu # rest) cache out = do {
     (r, cache') \<leftarrow> cached_role E cache (tu_role_id (fst mu));
     let m = fst mu;
     let prof = (case profileByID (tu_user_id m) of None \<Rightarrow> ([], []) | Some p \<Rightarrow> p);
     member_infos E profileByID rest cache' (out @
       [\<lparr>mi_user_id = tu_user_id m, mi_email = (case snd mu of None \<Rightarrow> [] | Some u \<Rightarrow> u_email u),
         mi_full_name = fst prof, mi_phone = snd prof, mi_role_id = tu_role_id m,
         mi_role_slug = fst r, mi_role_name = snd r, mi_branch_id = tu_branch_id m,
         mi_status = tu_status m\<rparr>]) }"

definition ListMembers :: "env \<Rightarrow> string \<Rightarrow> (world, error + MemberInfo list) state" where
  "ListMembers E tenantID =
     (if tenantID = [] then fail (ErrText ''tenant required'')
      else attempt (ent_all E tenant_users (\<lambda>m. tu_tenant_id m = tenantID)) id (\<lambda>ms.
        attempt (with_user E ms) id (\<lambda>memberships.
        if memberships = [] then ok []
        else attempt (ent_get E tenants t_id tenantID) (ErrWrap ''load tenant'') (\<lambda>t. do {
          let s = t_schema_name t;
          let userIDs = map (tu_user_id \<circ> fst) memberships;
          profileByID \<leftarrow> handle (in_schema E s (ent_all E (profiles s) (\<lambda>p. p_id p \<in> set userIDs)))
            (\<lambda>_. State_Monad.return Map.empty)
            (\<lambda>ps. State_Monad.return (foldl (\<lambda>m p. m(p_id p \<mapsto> (p_full_name p, p_phone p))) Map.empty ps));
          out \<leftarrow> member_infos E profileByID memberships Map.empty [];
          ok out }))))"

section \<open>Device-unlock PINs\<close>

text \<open>\<open>^\d{4}$\<close>\<close>

definition pinPattern :: regex where
  "pinPattern = Class is_digit 4 (Some 4)"

record ResolvedMember =
  rm_user_id :: string
  rm_full_name :: string
  rm_email :: string

primrec pin_holder ::
  "env \<Rightarrow> string \<Rightarrow> string \<Rightarrow> (tenant_user \<times> user option) list \<Rightarrow> (world, error + ResolvedMember) state" where
  "pin_holder E schema pin [] = fail ErrInvalidPin"
| "pin_holder E schema pin (mu # rest) =
     handle (profile_get E schema (tu_user_id (fst mu))) (\<lambda>_. pin_holder E schema pin rest)
       (\<lambda>p. if p_pin_hash p = [] then pin_holder E schema pin rest
            else if bcrypt_match E (p_pin_hash p) pin then
              ok \<lparr>rm_user_id = tu_user_id (fst mu), rm_full_name = p_full_name p,
                  rm_email = (case snd mu of None \<Rightarrow> [] | Some u \<Rightarrow> u_email u)\<rparr>
            else pin_holder E schema pin rest)"

definition ResolvePin :: "env \<Rightarrow> string \<Rightarrow> string \<Rightarrow> (world, error + ResolvedMember) state" where
  "ResolvePin E tenantID pin =
     (if tenantID = [] then fail ErrMemberNotFound
      else if \<not> MatchString pinPattern pin then fail ErrInvalidPin
      else attempt (ent_get E tenants t_id tenantID) (ErrWrap ''load tenant'') (\<lambda>t.
        attempt (ent_all_asc E tenant_users
                   (\<lambda>m. tu_tenant_id m = tenantID \<and> tu_status m \<noteq> ''suspended'') tu_created_at) id (\<lambda>ms.
        attempt (with_user E ms) id (\<lambda>memberships.
        pin_holder E (t_schema_name t) pin memberships))))"

primrec pin_free ::
  "env \<Rightarrow> string \<Rightarrow> string \<Rightarrow> string \<Rightarrow> tenant_user list \<Rightarrow> (world, error + bool) state" where
  "pin_free E schema pin exceptUserID [] = ok True"
| "pin_free E schema pin exceptUserID (m # rest) =
     (if tu_user_id m = exceptUserID then pin_free E schema pin exceptUserID rest
      else handle (profile_get E schema (tu_user_id m)) (\<lambda>_. pin_free E schema pin exceptUserID rest)
        (\<lambda>p. if p_pin_hash p = [] then pin_free E schema pin exceptUserID rest
             else if bcrypt_match E (p_pin_hash p) pin then ok False
             else pin_free E schema pin exceptUserID rest))"

definition PinAvailable :: "env \<Rightarrow> string \<Rightarrow> string \<Rightarrow> string \<Rightarrow> (world, error + bool) state" where
  "PinAvailable E tenantID pin exceptUserID =
     (if tenantID = [] then fail ErrMemberNotFound
      else if \<not> MatchString pinPattern pin then ok False
      else attempt (ent_get E tenants t_id tenantID) (ErrWrap ''load tenant'') (\<lambda>t.
        attempt (ent_all E tenant_users (\<lambda>m. tu_tenant_id m = tenantID \<and> tu_status m \<noteq> ''suspended'')) id
          (\<lambda>memberships. pin_free E (t_schema_name t) pin exceptUserID memberships)))"

text \<open>The hash of a new PIN, the empty string when it is cleared.\<close>

definition hashed_pin :: "env \<Rightarrow> string \<Rightarrow> string \<Rightarrow> string \<Rightarrow> (world, error + string) state" where
  "hashed_pin E tenantID userID pin =
     (if pin = [] then ok []
      else if \<not> MatchString pinPattern pin then fail ErrInvalidPin
      else attempt (PinAvailable E tenantID pin userID) id (\<lambda>free.
        if \<not> free then fail ErrPinTaken
        else attempt (GenerateFromPassword E pin) (ErrWrap ''hash pin'') ok))"

definition writePinHash :: "env \<Rightarrow> string \<Rightarrow> string \<Rightarrow> string \<Rightarrow> (world, error + unit) state" where
  "writePinHash E tenantID userID pin =
     attempt (hashed_pin E tenantID userID pin) id (\<lambda>hash.
     attempt (ent_get E tenants t_id tenantID) (ErrWrap ''load tenant'') (\<lambda>t.
     attempt (in_schema E (t_schema_name t)
                (ent_update_one E (profiles (t_schema_name t)) (profiles_update (t_schema_name t)) p_id no_clash
                   userID (\<lambda>p. p\<lparr>p_pin_hash := hash\<rparr>))) id (\<lambda>_. ok ())))"

definition SetMemberPin :: "env \<Rightarrow> string \<Rightarrow> string \<Rightarrow> string \<Rightarrow> (world, error + unit) state" where
  "SetMemberPin E tenantID userID pin =
     (if tenantID = [] \<or> userID = [] then fail ErrMemberNotFound
      else attempt (ent_exist E tenant_users (\<lambda>m. tu_user_id m = userID \<and> tu_tenant_id m = tenantID))
        (\<lambda>_. ErrMemberNotFound)
        (\<lambda>exists. if \<not> exists then fail ErrMemberNotFound else writePinHash E tenantID userID pin))"

definition SetOwnPin :: "env \<Rightarrow> string \<Rightarrow> string \<Rightarrow> string \<Rightarrow> (world, error + unit) state" where
  "SetOwnPin E tenantID userID pin =
     (if tenantID = [] \<or> userID = [] then fail ErrMemberNotFound else writePinHash E tenantID userID pin)"

definition VerifyOwnPin :: "env \<Rightarrow> string \<Rightarrow> string \<Rightarrow> string \<Rightarrow> (world, error + bool) state" where
  "VerifyOwnPin E tenantID userID pin =
     (if tenantID = [] \<or> userID = [] then fail ErrMemberNotFound
      else attempt (LoadProfileForTenant E tenantID userID) id
        (\<lambda>p. if pf_pin_hash p = [] then ok False else ok (bcrypt_match E (pf_pin_hash p) pin)))"

section \<open>Passwords\<close>

definition minPasswordLen :: nat where
  "minPasswordLen = 4"

definition writePasswordHash :: "env \<Rightarrow> string \<Rightarrow> string \<Rightarrow> (world, error + unit) state" where
  "writePasswordHash E userID password =
     attempt (GenerateFromPassword E password) id (\<lambda>h.
     attempt (ent_update E users users_update (\<lambda>u. u_id u = userID) (\<lambda>u. u\<lparr>u_password_hash := h\<rparr>)) id
       (\<lambda>_. ok ()))"

definition ChangeOwnPassword :: "env \<Rightarrow> string \<Rightarrow> string \<Rightarrow> string \<Rightarrow> (world, error + unit) state" where
  "ChangeOwnPassword E userID current_pw next_pw =
     (if length next_pw < minPasswordLen then fail ErrWeakPassword
      else attempt (ent_get E users u_id userID) (\<lambda>_. ErrMemberNotFound) (\<lambda>u.
        if \<not> bcrypt_match E (u_password_hash u) current_pw then fail ErrWrongPassword
        else writePasswordHash E userID next_pw))"

definition SetMemberPassword :: "env \<Rightarrow> string \<Rightarrow> string \<Rightarrow> string \<Rightarrow> (world, error + unit) state" where
  "SetMemberPassword E tenantID userID next_pw =
     (if tenantID = [] \<or> userID = [] then fail ErrMemberNotFound
      else if length next_pw < minPasswordLen then fail ErrWeakPassword
      else attempt (ent_exist E tenant_users (\<lambda>m. tu_user_id m = userID \<and> tu_tenant_id m = tenantID))
        (\<lambda>_. ErrMemberNotFound)
        (\<lambda>exists. if \<not> exists then fail ErrMemberNotFound else writePasswordHash E userID next_pw))"

section \<open>What the operations may change\<close>

text \<open>Only the profile row of \<open>u\<close> in the schema \<open>s\<close>.\<close>

definition schema_frame :: "string \<Rightarrow> string \<Rightarrow> world \<Rightarrow> world \<Rightarrow> bool" where
  "schema_frame s u w w' \<longleftrightarrow> w' = w\<lparr>schemas := schemas w', tick := tick w'\<rparr> \<and>
     (\<forall>x. x \<noteq> s \<longrightarrow> schemas w' x = schemas w x) \<and>
     filter (\<lambda>p. p_id p \<noteq> u) (profiles s w') = filter (\<lambda>p. p_id p \<noteq> u) (profiles s w)"

lemma schema_frame_tick [simp]: "schema_frame s u w (w\<lparr>tick := n\<rparr>)"
  by (simp add: schema_frame_def)

interpretation profile_writes: step_preorder "schema_frame s u" for s u
proof
  show "schema_frame s u w w" for w by (simp add: schema_frame_def)
  fix x y z assume a: "schema_frame s u x y" and b: "schema_frame s u y z"
  have "z = (x\<lparr>schemas := schemas y, tick := tick y\<rparr>)\<lparr>schemas := schemas z, tick := tick z\<rparr>"
    using a b unfolding schema_frame_def by metis
  then show "schema_frame s u x z" using a b by (simp add: schema_frame_def)
qed

lemma schema_frame_put:
  assumes "\<And>ps. filter (\<lambda>p. p_id p \<noteq> u) (f ps) = filter (\<lambda>p. p_id p \<noteq> u) ps"
  shows "schema_frame s u w (profiles_update s f (w\<lparr>tick := n\<rparr>))"
proof -
  have "filter (\<lambda>p. p_id p \<noteq> u) (profiles s (profiles_update s f (w\<lparr>tick := n\<rparr>))) =
      filter (\<lambda>p. p_id p \<noteq> u) (profiles s w)"
    using assms by (auto simp: profiles_def profiles_update_def split: option.splits)
  moreover have "schemas (profiles_update s f (w\<lparr>tick := n\<rparr>)) x = schemas w x" if "x \<noteq> s" for x
    using that by (simp add: profiles_update_def split: option.splits)
  ultimately show ?thesis by (auto simp: schema_frame_def profiles_update_def split: option.splits)
qed

lemma others_map: "(\<And>p. p_id p = u \<Longrightarrow> p_id (f p) = u) \<Longrightarrow>
    filter (\<lambda>p. p_id p \<noteq> u) (map (\<lambda>p. if p_id p = u then f p else p) ps) = filter (\<lambda>p. p_id p \<noteq> u) ps"
  by (induction ps) auto

lemma reads_profile_get [guarantees_intro]: "guarantees same_tables (profile_get E s u)"
  unfolding profile_get_def by (intro guarantees_intro same_tables_tick)

lemma reads_pin_free [guarantees_intro]: "guarantees same_tables (pin_free E s pin except ms)"
  by (induction ms) (auto intro!: guarantees_intro simp: reads.ok)

lemma reads_hashed_pin: "guarantees same_tables (hashed_pin E T u pin)"
  unfolding hashed_pin_def PinAvailable_def by (intro guarantees_intro same_tables_tick)

text \<open>The schema is that of the tenant row read.\<close>

definition member_frame :: "string \<Rightarrow> string \<Rightarrow> world \<Rightarrow> world \<Rightarrow> bool" where
  "member_frame T u w w' \<longleftrightarrow> same_tables w w' \<or>
     (\<exists>t \<in> set (tenants w). t_id t = T \<and> schema_frame (t_schema_name t) u w w')"

lemma member_frame_refl [simp]: "member_frame T u w w" "member_frame T u w (w\<lparr>tick := n\<rparr>)"
  by (simp_all add: member_frame_def reads.refl)

lemma wp_in_tenant_schema:
  assumes "\<And>t. t_id t = T \<Longrightarrow> guarantees (schema_frame (t_schema_name t) u) (k t)"
  shows "wp (attempt (ent_get E tenants t_id T) h k) (\<lambda>_. member_frame T u w) (w\<lparr>tick := n\<rparr>)"
  unfolding wp_attempt
proof (rule wp_ent_get, goal_cases)
  case (5 m t)
  from one_row [OF 5] have t: "t \<in> set (tenants w)" "t_id t = T" by auto
  show ?case unfolding sum.case
  proof (rule wpI)
    fix r w' assume "run_state (k t) (w\<lparr>tick := n, tick := m\<rparr>) = (r, w')"
    from guaranteesD [OF assms [OF t(2)] this]
    have "schema_frame (t_schema_name t) u (w\<lparr>tick := m\<rparr>) w'" by simp
    then have "schema_frame (t_schema_name t) u w w'" by (rule profile_writes.trans [OF schema_frame_tick])
    then show "member_frame T u w w'" using t unfolding member_frame_def by blast
  qed
qed auto

lemma wp_writePinHash: "wp (writePinHash E T u pin) (\<lambda>_. member_frame T u w) (w\<lparr>tick := n\<rparr>)"
  unfolding writePinHash_def wp_attempt [of "hashed_pin E T u pin"]
proof (rule wp_reads [OF reads_hashed_pin], goal_cases)
  case (1 r m)
  show ?case
  proof (cases r)
    case (Inl e)
    then show ?thesis by simp
  next
    case (Inr hash)
    have "wp (attempt (ent_get E tenants t_id T) (ErrWrap ''load tenant'') (\<lambda>t.
        attempt (in_schema E (t_schema_name t) (ent_update_one E (profiles (t_schema_name t))
          (profiles_update (t_schema_name t)) p_id no_clash u (\<lambda>p. p\<lparr>p_pin_hash := hash\<rparr>))) id (\<lambda>_. ok ())))
        (\<lambda>_. member_frame T u w) (w\<lparr>tick := m\<rparr>)"
      by (rule wp_in_tenant_schema)
        (intro guarantees_intro profile_writes.attempt profile_writes.ok schema_frame_put others_map schema_frame_tick; simp)
    then show ?thesis using Inr by simp
  qed
qed

lemma reads_membership_check:
  "guarantees same_tables (ent_exist E tenant_users P)"
  by (intro guarantees_intro same_tables_tick)

lemma wp_SetOwnPin: "wp (SetOwnPin E T u pin) (\<lambda>_. member_frame T u w) w"
  using wp_writePinHash [of E T u pin w "tick w"] by (simp add: SetOwnPin_def)

lemma wp_SetMemberPin: "wp (SetMemberPin E T u pin) (\<lambda>_. member_frame T u w) w"
proof (cases "T = [] \<or> u = []")
  case True
  then show ?thesis by (auto simp: SetMemberPin_def)
next
  case False
  show ?thesis unfolding SetMemberPin_def if_not_P [OF False] wp_attempt
  proof (rule wp_reads [OF reads_membership_check], goal_cases)
    case (1 r n)
    show ?case
    proof (cases r)
      case (Inl e)
      then show ?thesis by simp
    next
      case (Inr b)
      show ?thesis unfolding Inr sum.case using wp_writePinHash [of E T u pin w n]
        by (cases b) simp_all
    qed
  qed
qed

lemma wp_UpdateOwnProfile: "wp (UpdateOwnProfile E T u fullName phone jobTitle) (\<lambda>_. member_frame T u w) w"
proof (cases "T = [] \<or> u = []")
  case True
  then show ?thesis by (auto simp: UpdateOwnProfile_def)
next
  case False
  let ?k = "\<lambda>t. do {
        let s = t_schema_name t;
        exists \<leftarrow> handle (in_schema E s (ent_exist E (profiles s) (\<lambda>p. p_id p = u)))
                   (\<lambda>_. State_Monad.return False) State_Monad.return;
        (if \<not> exists then
           attempt (create_profile E s u fullName phone jobTitle ''customer'')
             (ErrWrap ''create profile'') (\<lambda>_. ok ())
         else
           attempt (in_schema E s (ent_update_one E (profiles s) (profiles_update s) p_id no_clash u
                      (patch_profile fullName phone jobTitle)))
             id (\<lambda>_. ok ())) }"
  have k: "guarantees (schema_frame (t_schema_name t) u) (?k t)" for t :: tenant
    unfolding create_profile_def Let_def
    by (intro guarantees_intro profile_writes.bind profile_writes.handle profile_writes.attempt profile_writes.ok
        profile_writes.return schema_frame_put others_map schema_frame_tick) (simp_all add: patch_profile_def)
  have "wp (attempt (ent_get E tenants t_id T) (ErrWrap ''load tenant'') ?k) (\<lambda>_. member_frame T u w) (w\<lparr>tick := tick w\<rparr>)"
    by (rule wp_in_tenant_schema) (rule k)
  then show ?thesis unfolding UpdateOwnProfile_def if_not_P [OF False] by simp
qed

section \<open>What a PIN identifies\<close>

definition profile_of :: "string \<Rightarrow> string \<Rightarrow> world \<Rightarrow> user_profile option" where
  "profile_of s v w = (if has_profiles s w then
     case filter (\<lambda>p. p_id p = v) (profiles s w) of [p] \<Rightarrow> Some p | _ \<Rightarrow> None else None)"

definition has_pin :: "env \<Rightarrow> string \<Rightarrow> world \<Rightarrow> string \<Rightarrow> string \<Rightarrow> bool" where
  "has_pin E s w pin v = (case profile_of s v w of None \<Rightarrow> False
     | Some p \<Rightarrow> p_pin_hash p \<noteq> [] \<and> bcrypt_match E (p_pin_hash p) pin)"

lemma profile_of_tick [simp]: "profile_of s v (w\<lparr>tick := n\<rparr>) = profile_of s v w"
  by (simp add: profile_of_def)

lemma has_pin_tick [simp]: "has_pin E s (w\<lparr>tick := n\<rparr>) pin v = has_pin E s w pin v"
  by (simp add: has_pin_def)

lemma wp_profile_get:
  assumes "no_faults E" and "\<And>n e. profile_of s v w = None \<Longrightarrow> Q (Inl e) (w\<lparr>tick := n\<rparr>)"
    and "\<And>n p. profile_of s v w = Some p \<Longrightarrow> Q (Inr p) (w\<lparr>tick := n\<rparr>)"
  shows "wp (profile_get E s v) Q w"
  using assms by (auto simp: wp_def profile_get_def run_in_schema run_ent_get no_faults_def profile_of_def
      split: list.splits)

lemma wp_pin_free:
  assumes E: "no_faults E"
    and "\<And>n. Q (Inr (list_all (\<lambda>m. tu_user_id m = except \<or> \<not> has_pin E s w pin (tu_user_id m)) ms)) (w\<lparr>tick := n\<rparr>)"
  shows "wp (pin_free E s pin except ms) Q (w\<lparr>tick := k\<rparr>)"
  using assms(2)
proof (induction ms arbitrary: k)
  case Nil
  then show ?case by simp
next
  case (Cons m ms)
  show ?case
  proof (cases "tu_user_id m = except")
    case True
    then show ?thesis using Cons by simp
  next
    case False
    show ?thesis unfolding pin_free.simps if_not_P [OF False] wp_handle
    proof (rule wp_profile_get [OF E], goal_cases)
      case (1 n e)
      then show ?case using Cons by (simp add: has_pin_def)
    next
      case (2 n p)
      have "p_pin_hash p = [] \<or> \<not> bcrypt_match E (p_pin_hash p) pin \<longleftrightarrow> \<not> has_pin E s w pin (tu_user_id m)"
        using 2 by (auto simp: has_pin_def)
      then show ?case using Cons False by (auto simp del: wp_handle)
    qed
  qed
qed

lemma wp_pin_holder:
  assumes E: "no_faults E" and "\<exists>mu \<in> set ms. has_pin E s w pin (tu_user_id (fst mu))"
    and "\<And>n x. has_pin E s w pin (rm_user_id x) \<Longrightarrow> rm_user_id x \<in> (\<lambda>mu. tu_user_id (fst mu)) ` set ms \<Longrightarrow>
      Q (Inr x) (w\<lparr>tick := n\<rparr>)"
  shows "wp (pin_holder E s pin ms) Q (w\<lparr>tick := k\<rparr>)"
  using assms(2,3)
proof (induction ms arbitrary: k)
  case Nil
  then show ?case by simp
next
  case (Cons mu ms)
  have rest: "wp (pin_holder E s pin ms) Q (w\<lparr>tick := n\<rparr>)" if "\<not> has_pin E s w pin (tu_user_id (fst mu))" for n
    using Cons that by auto
  show ?case unfolding pin_holder.simps wp_handle
  proof (rule wp_profile_get [OF E], goal_cases)
    case (1 n e)
    then show ?case using rest by (simp add: has_pin_def)
  next
    case (2 n p)
    show ?case
    proof (cases "has_pin E s w pin (tu_user_id (fst mu))")
      case True
      then have "p_pin_hash p \<noteq> []" "bcrypt_match E (p_pin_hash p) pin" using 2 by (auto simp: has_pin_def)
      then show ?thesis using Cons.prems(2) True by simp
    next
      case False
      then have "p_pin_hash p = [] \<or> \<not> bcrypt_match E (p_pin_hash p) pin" using 2 by (auto simp: has_pin_def)
      then show ?thesis using rest [OF False] by auto
    qed
  qed
qed

lemma wp_with_user:
  assumes "no_faults E" and "\<And>n us. map fst us = ms \<Longrightarrow> Q (Inr us) (w\<lparr>tick := n\<rparr>)"
  shows "wp (with_user E ms) Q (w\<lparr>tick := k\<rparr>)"
  using assms by (auto simp: wp_def with_user_def run_ent_all no_faults_def comp_def)

lemma wp_hashed_pin:
  assumes E: "no_faults E" and t: "filter (\<lambda>t. t_id t = T) (tenants w) = [t]" and pin: "pin \<noteq> []"
    and err: "\<And>n e. Q (Inl e) (w\<lparr>tick := n\<rparr>)"
    and good: "\<And>n k h. MatchString pinPattern pin \<Longrightarrow> bcrypt_hash E k pin = Some h \<Longrightarrow>
      \<forall>m \<in> set (tenant_users w). tu_tenant_id m = T \<and> tu_status m \<noteq> ''suspended'' \<and> tu_user_id m \<noteq> u \<longrightarrow>
        \<not> has_pin E (t_schema_name t) w pin (tu_user_id m) \<Longrightarrow> Q (Inr h) (w\<lparr>tick := n\<rparr>)"
  shows "wp (hashed_pin E T u pin) Q (w\<lparr>tick := k\<rparr>)"
proof (cases "MatchString pinPattern pin")
  case False
  then show ?thesis using pin err by (simp add: hashed_pin_def)
next
  case ok: True
  let ?act = "\<lambda>m. tu_tenant_id m = T \<and> tu_status m \<noteq> ''suspended''"
  let ?free = "\<lambda>ms. list_all (\<lambda>m. tu_user_id m = u \<or> \<not> has_pin E (t_schema_name t) w pin (tu_user_id m)) ms"
  let ?k = "\<lambda>free. if \<not> free then fail ErrPinTaken else attempt (GenerateFromPassword E pin) (ErrWrap ''hash pin'') ok"
  have rest: "wp (?k (?free ms)) Q (w\<lparr>tick := n\<rparr>)" if "mset ms = mset (filter ?act (tenant_users w))" for ms n
  proof (cases "?free ms")
    case True
    have "\<forall>m \<in> set (tenant_users w). ?act m \<and> tu_user_id m \<noteq> u \<longrightarrow> \<not> has_pin E (t_schema_name t) w pin (tu_user_id m)"
      using True same_rows [OF that] by (auto simp: list_all_iff)
    then have "wp (GenerateFromPassword E pin) (\<lambda>r. case r of Inl e \<Rightarrow> Q (Inl (ErrWrap ''hash pin'' e)) | Inr x \<Rightarrow> wp (ok x) Q)
        (w\<lparr>tick := n\<rparr>)"
      by (intro wp_GenerateFromPassword) (simp_all add: err good ok)
    then show ?thesis using True by simp
  qed (simp add: err)
  have avail: "wp (PinAvailable E T pin u) (\<lambda>r v. \<exists>n. v = w\<lparr>tick := n\<rparr> \<and>
      (\<forall>b. r = Inr b \<longrightarrow> (\<exists>ms. mset ms = mset (filter ?act (tenant_users w)) \<and> b = ?free ms))) (w\<lparr>tick := k\<rparr>)"
  proof (cases "T = []")
    case False
    show ?thesis unfolding PinAvailable_def if_not_P [OF False] if_not_P [OF ok [THEN not_not [THEN iffD2]]] wp_attempt
    proof (rule wp_get_one [OF E, where r = t], goal_cases)
      case 3
      show ?case unfolding sum.case wp_attempt
      proof (rule wp_ent_all, goal_cases)
        case (3 n ms)
        show ?case unfolding sum.case by (rule wp_pin_free [OF E]) (use 3 in auto)
      qed auto
    qed (use t in auto)
  qed (auto simp: PinAvailable_def)
  show ?thesis unfolding hashed_pin_def if_not_P [OF pin] if_not_P [OF ok [THEN not_not [THEN iffD2]]] wp_attempt [of "PinAvailable E T pin u"]
  proof (rule wp_mono [OF avail], goal_cases)
    case (1 r v)
    then obtain n where v: "v = w\<lparr>tick := n\<rparr>" by blast
    show ?case
    proof (cases r)
      case (Inl e)
      then show ?thesis using v err by simp
    next
      case (Inr b)
      then obtain ms where "mset ms = mset (filter ?act (tenant_users w))" "b = ?free ms" using 1 by blast
      then show ?thesis unfolding Inr sum.case v using rest by blast
    qed
  qed
qed

text \<open>What a successful PIN change leaves behind when the database works.\<close>

definition pin_set :: "env \<Rightarrow> tenant \<Rightarrow> string \<Rightarrow> string \<Rightarrow> world \<Rightarrow> world \<Rightarrow> bool" where
  "pin_set E t u pin w w' \<longleftrightarrow> (\<exists>h k n. let s = t_schema_name t in
     MatchString pinPattern pin \<and> bcrypt_hash E k pin = Some h \<and> has_profiles s w \<and> u \<in> p_id ` set (profiles s w) \<and>
     w' = profiles_update s (map (\<lambda>p. if p_id p = u then p\<lparr>p_pin_hash := h\<rparr> else p)) (w\<lparr>tick := n\<rparr>) \<and>
     (\<forall>m \<in> set (tenant_users w). tu_tenant_id m = t_id t \<and> tu_status m \<noteq> ''suspended'' \<and> tu_user_id m \<noteq> u \<longrightarrow>
        \<not> has_pin E s w pin (tu_user_id m)))"

lemma wp_writePinHash_sets:
  assumes E: "no_faults E" and t: "filter (\<lambda>t. t_id t = T) (tenants w) = [t]" and pin: "pin \<noteq> []"
  shows "wp (writePinHash E T u pin) (\<lambda>r w'. r = Inr () \<longrightarrow> pin_set E t u pin w w') (w\<lparr>tick := k\<rparr>)"
  unfolding writePinHash_def wp_attempt [of "hashed_pin E T u pin"]
proof (rule wp_hashed_pin [OF E t pin], goal_cases)
  case (2 n k h)
  note h = 2
  show ?case unfolding sum.case wp_attempt
  proof (rule wp_get_one [OF E, where r = t], goal_cases)
    case 3
    show ?case unfolding sum.case
    proof (rule wp_in_schema, goal_cases)
      case 2
      note has = this
      show ?case
      proof (rule wp_ent_update_one, goal_cases)
        case (2 m r rs)
        from arg_cong [OF 2(1), of set] have "u \<in> p_id ` set (profiles (t_schema_name t) w)" by auto
        then have "pin_set E t u pin w (profiles_update (t_schema_name t)
            (map (\<lambda>p. if p_id p = u then p\<lparr>p_pin_hash := h\<rparr> else p)) (w\<lparr>tick := m\<rparr>))"
          unfolding pin_set_def Let_def using h has one_row [OF t] by auto
        then show ?case by simp
      qed simp
    qed simp
  qed (use t in auto)
qed simp

lemma pin_set_holders:
  assumes "pin_set E t u pin w w'" and keys: "keyed p_id (profiles (t_schema_name t)) w"
    and bcrypt: "\<forall>k h. bcrypt_hash E k pin = Some h \<longrightarrow> h \<noteq> [] \<and> bcrypt_match E h pin"
  shows "has_pin E (t_schema_name t) w' pin u" and "tenants w' = tenants w" and "tenant_users w' = tenant_users w"
    and "v \<noteq> u \<Longrightarrow> has_pin E (t_schema_name t) w' pin v = has_pin E (t_schema_name t) w pin v"
proof -
  let ?s = "t_schema_name t"
  from assms(1) obtain h k n where set: "bcrypt_hash E k pin = Some h" "has_profiles ?s w" "u \<in> p_id ` set (profiles ?s w)"
    and w': "w' = profiles_update ?s (map (\<lambda>p. if p_id p = u then p\<lparr>p_pin_hash := h\<rparr> else p)) (w\<lparr>tick := n\<rparr>)"
    unfolding pin_set_def Let_def by blast
  show "tenants w' = tenants w" "tenant_users w' = tenant_users w" by (simp_all add: w')
  have has: "has_profiles ?s w'" using set(2) by (simp add: w' has_profiles_put)
  have rows: "profiles ?s w' = map (\<lambda>p. if p_id p = u then p\<lparr>p_pin_hash := h\<rparr> else p) (profiles ?s w)"
    unfolding w' using set(2) by (simp add: profiles_put)
  have filt: "filter (\<lambda>p. p_id p = v) (profiles ?s w') =
      map (\<lambda>p. if p_id p = u then p\<lparr>p_pin_hash := h\<rparr> else p) (filter (\<lambda>p. p_id p = v) (profiles ?s w))" for v
    unfolding rows filter_map comp_def by (rule arg_cong [of _ _ "map _"], rule filter_cong) auto
  from set(3) obtain p where p: "p \<in> set (profiles ?s w)" "p_id p = u" by blast
  then have "filter (\<lambda>p. p_id p = u) (profiles ?s w) = [p]"
    using filter_key_unique [of p_id "profiles ?s w" p] keys by (simp add: keyed_def)
  then have "profile_of ?s u w' = Some (p\<lparr>p_pin_hash := h\<rparr>)"
    using has p(2) by (simp add: profile_of_def filt)
  then show "has_pin E ?s w' pin u" using bcrypt set(1) by (simp add: has_pin_def)
  show "has_pin E ?s w' pin v = has_pin E ?s w pin v" if "v \<noteq> u"
  proof -
    have "filter (\<lambda>p. p_id p = v) (profiles ?s w') = filter (\<lambda>p. p_id p = v) (profiles ?s w)"
      unfolding filt by (rule map_idI) (use that in auto)
    then show ?thesis using has set(2) by (simp add: profile_of_def has_pin_def)
  qed
qed

lemma wp_all_asc_ok:
  assumes "no_faults E" and "stable rows" and "\<And>n xs. mset xs = mset (filter P (rows w)) \<Longrightarrow> Q (Inr xs) (w\<lparr>tick := n\<rparr>)"
  shows "wp (ent_all_asc E rows P key) Q w"
  using assms by (simp add: wp_def run_ent_all_asc no_faults_def stable_tick)

lemma wp_ResolvePin:
  assumes E: "no_faults E" and T: "T \<noteq> []" and pin: "MatchString pinPattern pin"
    and t: "filter (\<lambda>t. t_id t = T) (tenants w) = [t]"
    and holder: "active_member w T u" "has_pin E (t_schema_name t) w pin u"
    and only: "\<And>m. m \<in> set (tenant_users w) \<Longrightarrow> tu_tenant_id m = T \<Longrightarrow> tu_status m \<noteq> ''suspended'' \<Longrightarrow>
      has_pin E (t_schema_name t) w pin (tu_user_id m) \<Longrightarrow> tu_user_id m = u"
  shows "wp (ResolvePin E T pin) (\<lambda>r _. \<exists>x. r = Inr x \<and> rm_user_id x = u) w"
  unfolding ResolvePin_def if_not_P [OF T] if_not_P [OF pin [THEN not_not [THEN iffD2]]] wp_attempt
proof (rule wp_get_one [OF E, where r = t], goal_cases)
  case 3
  let ?act = "\<lambda>m. tu_tenant_id m = T \<and> tu_status m \<noteq> ''suspended''"
  have "wp (attempt (with_user E ms) id (pin_holder E (t_schema_name t) pin)) (\<lambda>r _. \<exists>x. r = Inr x \<and> rm_user_id x = u)
      (w\<lparr>tick := n\<rparr>)" if "mset ms = mset (filter ?act (tenant_users w))" for ms n
    unfolding wp_attempt
  proof (rule wp_with_user [OF E], goal_cases)
    case (1 j us)
    have us: "set us = set us" "fst ` set us = set ms" using 1 by (auto simp flip: list.set_map)
    note ms = same_rows [OF that]
    obtain m where "m \<in> set ms" "tu_user_id m = u" using holder(1) ms unfolding active_member_def by blast
    then have ex: "\<exists>mu \<in> set us. has_pin E (t_schema_name t) w pin (tu_user_id (fst mu))"
      using us(2) holder(2) by force
    show ?case unfolding sum.case
    proof (rule wp_pin_holder [OF E ex], goal_cases)
      case (1 n x)
      then obtain m where "m \<in> set ms" "tu_user_id m = rm_user_id x" using us(2) by force
      then show ?case using only ms 1(1) by metis
    qed
  qed
  then show ?case unfolding sum.case wp_attempt by (intro wp_all_asc_ok [OF E]) auto
qed (use t in auto)

section \<open>Properties\<close>

text \<open>C31. A PIN that was set identifies its member: after \<open>SetMemberPin\<close> succeeded with a non-empty PIN for an
  active member, \<open>ResolvePin\<close> of that PIN in that tenant returns exactly this member. No call to the
  database fails in either operation, bcrypt accepts the hash it made, the tenant has one row, and
  profiles in its schema have unique ids.\<close>

theorem set_pin_then_resolve:
  assumes set_pin: "run_state (SetMemberPin E T u pin) w = (Inr (), w')" and pin: "pin \<noteq> []"
    and E: "no_faults E" and bcrypt: "\<forall>k h. bcrypt_hash E k pin = Some h \<longrightarrow> h \<noteq> [] \<and> bcrypt_match E h pin"
    and t: "filter (\<lambda>t. t_id t = T) (tenants w) = [t]" and keys: "keyed p_id (profiles (t_schema_name t)) w"
    and active: "active_member w T u"
  shows "\<exists>x. fst (run_state (ResolvePin E T pin) w') = Inr x \<and> rm_user_id x = u"
proof -
  have T: "T \<noteq> []" and "u \<noteq> []" using set_pin by (auto simp: SetMemberPin_def)
  have "wp (SetMemberPin E T u pin) (\<lambda>r w'. r = Inr () \<longrightarrow> pin_set E t u pin w w') w"
    unfolding SetMemberPin_def using T \<open>u \<noteq> []\<close> wp_writePinHash_sets [OF E t pin, of u]
    by simp (rule wp_reads [OF reads_membership_check], auto split: sum.splits)
  from wpD [OF this set_pin] have set: "pin_set E t u pin w w'" by blast
  note after = pin_set_holders [OF set keys bcrypt]
  have "wp (ResolvePin E T pin) (\<lambda>r _. \<exists>x. r = Inr x \<and> rm_user_id x = u) w'"
  proof (rule wp_ResolvePin [OF E T _ _ _ after(1)])
    show "MatchString pinPattern pin" using set by (auto simp: pin_set_def Let_def)
    show "filter (\<lambda>t. t_id t = T) (tenants w') = [t]" using t after(2) by simp
    show "active_member w' T u" using active after(3) by (simp add: active_member_def)
    show "tu_user_id m = u" if "m \<in> set (tenant_users w')" "tu_tenant_id m = T" "tu_status m \<noteq> ''suspended''"
      "has_pin E (t_schema_name t) w' pin (tu_user_id m)" for m
    proof (rule ccontr)
      assume other: "tu_user_id m \<noteq> u"
      have "tu_tenant_id m = t_id t" using that(2) one_row [OF t] by simp
      then have "\<not> has_pin E (t_schema_name t) w pin (tu_user_id m)"
        using set that(1,3) after(3) other unfolding pin_set_def Let_def by auto
      then show False using after(4) [OF other] that(4) by simp
    qed
  qed
  then show ?thesis by (simp add: wp_def case_prod_unfold)
qed

theorem set_pin_then_resolve_witness:
  "rm_user_id (projr (fst (run_state (ResolvePin env0 ''t1'' ''7777'')
     (snd (run_state (SetMemberPin env0 ''t1'' ''u2'' ''7777'') shop))))) = ''u2''"
proof -
  have "fst (run_state (SetMemberPin env0 ''t1'' ''u2'' ''7777'') shop) = Inr ()" by code_simp
  then have run: "run_state (SetMemberPin env0 ''t1'' ''u2'' ''7777'') shop =
      (Inr (), snd (run_state (SetMemberPin env0 ''t1'' ''u2'' ''7777'') shop))" by (metis prod.collapse)
  have "active_member shop ''t1'' ''u2''" by code_simp
  from set_pin_then_resolve [OF run _ _ _ _ _ this, of "hd (tenants shop)"] obtain x
    where "fst (run_state (ResolvePin env0 ''t1'' ''7777'')
      (snd (run_state (SetMemberPin env0 ''t1'' ''u2'' ''7777'') shop))) = Inr x" "rm_user_id x = ''u2''"
    by (auto simp: no_faults_def env0_def keyed_def profiles_def shop_def)
  then show ?thesis by simp
qed

text \<open>C32. PINs and profiles stay apart: whatever fails, \<open>SetMemberPin\<close>, \<open>SetOwnPin\<close> and
  \<open>UpdateOwnProfile\<close> change no table of the shared schema, no schema but that of the tenant, and
  in it no profile but that of the user named.\<close>

theorem profile_operations_isolated:
  assumes "m \<in> {SetMemberPin E T u pin, SetOwnPin E T u pin, UpdateOwnProfile E T u fullName phone jobTitle}"
    and "run_state m w = (r, w')"
  shows "w' = w\<lparr>schemas := schemas w', tick := tick w'\<rparr> \<and>
    (\<forall>x. x \<notin> t_schema_name ` {t \<in> set (tenants w). t_id t = T} \<longrightarrow> schemas w' x = schemas w x) \<and>
    (\<forall>x. filter (\<lambda>p. p_id p \<noteq> u) (profiles x w') = filter (\<lambda>p. p_id p \<noteq> u) (profiles x w))"
proof -
  have "wp m (\<lambda>_. member_frame T u w) w"
    using assms(1) by (elim insertE emptyE) (simp_all add: wp_SetMemberPin wp_SetOwnPin wp_UpdateOwnProfile)
  from wpD [OF this assms(2)] consider "same_tables w w'" | t where "t \<in> set (tenants w)" "t_id t = T" "schema_frame (t_schema_name t) u w w'"
    unfolding member_frame_def by blast
  then show ?thesis
  proof cases
    case 1
    then obtain n where "w' = w\<lparr>tick := n\<rparr>" unfolding same_tables_def by blast
    then show ?thesis by simp
  next
    case 2
    have "filter (\<lambda>p. p_id p \<noteq> u) (profiles x w') = filter (\<lambda>p. p_id p \<noteq> u) (profiles x w)" for x
      using 2(3) by (cases "x = t_schema_name t") (simp_all add: schema_frame_def profiles_def)
    then show ?thesis using 2 unfolding schema_frame_def by blast
  qed
qed

theorem profile_operations_isolated_witness:
  "map p_pin_hash (profiles ''tenant_acme'' (snd (run_state (SetMemberPin env0 ''t1'' ''u2'' ''7777'') shop))) =
     [''#1234'', ''#7777''] \<and>
   filter (\<lambda>p. p_id p \<noteq> ''u2'') (profiles ''tenant_acme'' (snd (run_state (SetMemberPin env0 ''t1'' ''u2'' ''7777'') shop))) =
   filter (\<lambda>p. p_id p \<noteq> ''u2'') (profiles ''tenant_acme'' shop)"
proof
  show "map p_pin_hash (profiles ''tenant_acme'' (snd (run_state (SetMemberPin env0 ''t1'' ''u2'' ''7777'') shop))) =
     [''#1234'', ''#7777'']" by code_simp
  show "filter (\<lambda>p. p_id p \<noteq> ''u2'') (profiles ''tenant_acme'' (snd (run_state (SetMemberPin env0 ''t1'' ''u2'' ''7777'') shop))) =
   filter (\<lambda>p. p_id p \<noteq> ''u2'') (profiles ''tenant_acme'' shop)"
    using profile_operations_isolated [OF insertI1 surjective_pairing] by blast
qed

text \<open>The uniqueness of PINs does not survive a suspension: a suspended member's PIN is free for
  others, and reactivating the member leaves two active members with the same PIN. The PIN then
  unlocks the till as the member who joined first, for both of them.\<close>

theorem suspended_pins_collide:
  "let w1 = snd (run_state (SetMemberPin env0 ''t1'' ''u2'' ''7777'') shop);
       w2 = snd (run_state (SetMemberStatus env0 ''t1'' ''u2'' ''suspended'') w1);
       out = run_state (SetMemberPin env0 ''t1'' ''u1'' ''7777'') w2;
       w4 = snd (run_state (SetMemberStatus env0 ''t1'' ''u2'' ''active'') (snd out));
       holder = projr (fst (run_state (ResolvePin env0 ''t1'' ''7777'') w4))
   in \<not> isl (fst out) \<and> map p_pin_hash (profiles ''tenant_acme'' w4) = [''#7777'', ''#7777''] \<and>
      map tu_status (tenant_users w4) = [''active'', ''active''] \<and> rm_user_id holder = ''u1''"
  by code_simp

end
