(* ===== verification/Branches.thy ===== *)
theory Branches
  imports Profiles
begin

text \<open>
  \<open>src/internal/auth/branch.go\<close>: the branches of a tenant, adding a member (and the global
  account when the email is new) and moving a device and its user to another branch.
\<close>

section \<open>Operations\<close>

text \<open>\<open>^[a-z][a-z0-9_-]{1,31}$\<close>\<close>

definition branchSlugPattern :: regex where
  "branchSlugPattern = Cat (Class is_lower 1 (Some 1)) (Class slug_rest 1 (Some 31))"

record BranchInfo =
  bi_id :: string
  bi_slug :: string
  bi_name :: string
  bi_status :: string

definition toBranchInfo :: "branch \<Rightarrow> BranchInfo" where
  "toBranchInfo b = \<lparr>bi_id = b_id b, bi_slug = b_slug b, bi_name = b_name b, bi_status = b_status b\<rparr>"

definition ListBranches :: "env \<Rightarrow> string \<Rightarrow> (world, error + BranchInfo list) state" where
  "ListBranches E tenantID =
     attempt (ent_all_asc E branches (\<lambda>b. b_tenant_id b = tenantID) b_created_at) id
       (\<lambda>bs. ok (map toBranchInfo bs))"

definition CreateBranch :: "env \<Rightarrow> string \<Rightarrow> string \<Rightarrow> string \<Rightarrow> (world, error + BranchInfo) state" where
  "CreateBranch E tenantID slug nm =
     (if \<not> MatchString branchSlugPattern slug then fail ErrInvalidBranchSlug
      else attempt (ent_exist E branches (\<lambda>b. b_tenant_id b = tenantID \<and> b_slug b = slug)) id (\<lambda>exists.
        if exists then fail (ErrText ''a branch with that slug already exists'')
        else do {
          i \<leftarrow> short_id E ''br_'';
          attempt (create_branch E i tenantID slug nm ''active'') (ErrWrap ''create branch'')
            (\<lambda>b. ok (toBranchInfo b)) }))"

definition UpdateBranch ::
  "env \<Rightarrow> string \<Rightarrow> string \<Rightarrow> string \<Rightarrow> string \<Rightarrow> (world, error + BranchInfo) state" where
  "UpdateBranch E tenantID branchID nm status =
     attempt (ent_only E branches (\<lambda>b. b_id b = branchID \<and> b_tenant_id b = tenantID))
       (\<lambda>_. ErrText ''branch not found'') (\<lambda>b.
     if status \<noteq> [] \<and> status \<noteq> ''active'' \<and> status \<noteq> ''archived''
     then fail (ErrText ''status must be active or archived'')
     else attempt (ent_update_one E branches branches_update b_id no_clash (b_id b)
              (\<lambda>b. b\<lparr>b_name := (if nm \<noteq> [] then nm else b_name b),
                      b_status := (if status \<noteq> [] then status else b_status b)\<rparr>))
            (ErrWrap ''update branch'') (\<lambda>b. ok (toBranchInfo b)))"

record AddMemberInput =
  am_email :: string
  am_role :: string
  am_password :: string
  am_full_name :: string
  am_phone :: string
  am_job_title :: string

text \<open>The global user: found by email, or created with the given password.\<close>

definition member_user :: "env \<Rightarrow> AddMemberInput \<Rightarrow> (world, error + user \<times> bool) state" where
  "member_user E inp =
     handle (ent_only E users (\<lambda>u. u_email u = am_email inp))
       (\<lambda>e. if e \<noteq> ErrDB NotFound then fail e
            else if am_password inp = [] then fail (ErrText ''password required to create a new user'')
            else attempt (GenerateFromPassword E (am_password inp)) (ErrWrap ''hash password'') (\<lambda>hash. do {
              i \<leftarrow> short_id E ''u_'';
              attempt (create_user E i (am_email inp) hash) (ErrWrap ''create user'') (\<lambda>u. ok (u, True)) }))
       (\<lambda>u. ok (u, False))"

text \<open>The profile of a freshly created user.\<close>

definition member_profile :: "env \<Rightarrow> string \<Rightarrow> string \<Rightarrow> string \<Rightarrow> AddMemberInput \<Rightarrow> (world, error + unit) state" where
  "member_profile E tenantID userID roleSlug inp =
     attempt (ent_get E tenants t_id tenantID) (ErrWrap ''load tenant schema'') (\<lambda>t.
     attempt (create_profile E (t_schema_name t) userID (am_full_name inp) (am_phone inp) (am_job_title inp) roleSlug)
       (ErrWrap ''create profile'') (\<lambda>_. ok ()))"

definition AddMember :: "env \<Rightarrow> string \<Rightarrow> string \<Rightarrow> AddMemberInput \<Rightarrow> (world, error + unit) state" where
  "AddMember E tenantID branchID inp =
     (let roleSlug = (if am_role inp = [] then ''member'' else am_role inp) in
      attempt (ResolveRoleID E tenantID roleSlug) id (\<lambda>roleID.
      attempt (ent_only E branches (\<lambda>b. b_id b = branchID \<and> b_tenant_id b = tenantID))
        (\<lambda>_. ErrText ''branch not found'') (\<lambda>b.
      attempt (member_user E inp) id (\<lambda>(u, createdProfile).
      attempt (ent_exist E tenant_users (\<lambda>m. tu_user_id m = u_id u \<and> tu_tenant_id m = tenantID)) id (\<lambda>exists.
      if exists then fail (ErrText ''user is already a member of this tenant'')
      else do {
        i \<leftarrow> short_id E ''tu_'';
        attempt (create_tenant_user E i (u_id u) tenantID (b_id b) roleID) (ErrWrap ''add member'') (\<lambda>_.
          if createdProfile then member_profile E tenantID (u_id u) roleSlug inp else ok ()) })))))"

definition SwitchBranch ::
  "env \<Rightarrow> string \<Rightarrow> string \<Rightarrow> string \<Rightarrow> string \<Rightarrow> (world, error + BranchInfo) state" where
  "SwitchBranch E userID tenantID branchID tokenHash =
     attempt (ent_only E tenant_users (\<lambda>m. tu_user_id m = userID \<and> tu_tenant_id m = tenantID))
       (\<lambda>_. ErrText ''no access to tenant'') (\<lambda>m.
     attempt (ent_only E tenants (\<lambda>t. t_id t = tenantID \<and> t_status t = ''active''))
       (\<lambda>_. ErrText ''tenant not available'') (\<lambda>_.
     attempt (ent_only E branches (\<lambda>b. b_id b = branchID \<and> b_tenant_id b = tenantID))
       (\<lambda>_. ErrText ''branch not available'') (\<lambda>b.
     if b_status b \<noteq> ''active'' then fail (ErrText ''branch not available'')
     else
       attempt (if tu_branch_id m \<noteq> branchID
                then attempt (ent_update_one E tenant_users tenant_users_update tu_id no_clash (tu_id m)
                         (\<lambda>m. m\<lparr>tu_branch_id := branchID\<rparr>)) (ErrWrap ''switch branch'') (\<lambda>_. ok ())
                else ok ()) id (\<lambda>_.
       attempt (if tokenHash \<noteq> []
                then attempt (ent_update E device_tokens device_tokens_update
                         (\<lambda>d. dt_token_hash d = tokenHash \<and> dt_revoked_at d = None)
                         (\<lambda>d. d\<lparr>dt_branch_id := branchID\<rparr>)) (ErrWrap ''re-scope device token'') (\<lambda>_. ok ())
                else ok ()) id (\<lambda>_.
       ok (toBranchInfo b))))))"

end
