(* ===== verification/Tenants.thy ===== *)
theory Tenants
  imports Branches
begin

text \<open>
  \<open>src/internal/auth/tenant.go\<close>, \<open>src/internal/auth/platform_admin.go\<close> and
  \<open>src/internal/auth/platform_admins_manage.go\<close>: tenant settings and status, the flag of the
  platform admins and its bootstrap from the environment.
\<close>

section \<open>Tenants\<close>

record TenantInfo =
  ti_id :: string
  ti_slug :: string
  ti_name :: string
  ti_plan :: string

record TenantSummary =
  ts_id :: string
  ts_slug :: string
  ts_name :: string
  ts_plan :: string
  ts_status :: string

definition toTenantSummary :: "tenant \<Rightarrow> TenantSummary" where
  "toTenantSummary t = \<lparr>ts_id = t_id t, ts_slug = t_slug t, ts_name = t_name t, ts_plan = t_plan t,
     ts_status = t_status t\<rparr>"

text \<open>\<open>ORDER BY id DESC\<close>: byte order, in which the collations agree on the ids the program makes.\<close>

definition ListTenants :: "env \<Rightarrow> (world, error + TenantSummary list) state" where
  "ListTenants E = attempt (ent_all_asc E tenants (\<lambda>_. True) t_id) (ErrWrap ''list tenants'')
     (\<lambda>ts. ok (map toTenantSummary (rev ts)))"

definition tenantStatuses :: "string list" where
  "tenantStatuses = [''active'', ''suspended'']"

definition SetTenantStatus :: "env \<Rightarrow> string \<Rightarrow> string \<Rightarrow> (world, error + TenantSummary) state" where
  "SetTenantStatus E tenantID status =
     (if status \<notin> set tenantStatuses then fail (ErrText ''status must be active or suspended'')
      else attempt (ent_get E tenants t_id tenantID) (\<lambda>_. ErrText ''tenant not found'') (\<lambda>t.
        if t_status t = ''provisioning'' then fail (ErrText ''tenant is still provisioning'')
        else attempt (ent_update_one E tenants tenants_update t_id no_clash (t_id t) (\<lambda>t. t\<lparr>t_status := status\<rparr>))
               (ErrWrap ''set tenant status'') (\<lambda>t. ok (toTenantSummary t))))"

definition UpdateTenant :: "env \<Rightarrow> string \<Rightarrow> string \<Rightarrow> string \<Rightarrow> (world, error + TenantInfo) state" where
  "UpdateTenant E tenantID nm plan =
     attempt (ent_get E tenants t_id tenantID) (\<lambda>_. ErrText ''tenant not found'') (\<lambda>t.
     attempt (if nm \<noteq> [] \<or> plan \<noteq> []
              then attempt (ent_update_one E tenants tenants_update t_id no_clash (t_id t)
                       (\<lambda>t. t\<lparr>t_name := (if nm \<noteq> [] then nm else t_name t),
                               t_plan := (if plan \<noteq> [] then plan else t_plan t)\<rparr>))
                     (ErrWrap ''update tenant'') ok
              else ok t) id
       (\<lambda>t. ok \<lparr>ti_id = t_id t, ti_slug = t_slug t, ti_name = t_name t, ti_plan = t_plan t\<rparr>))"

definition GetTenant :: "env \<Rightarrow> string \<Rightarrow> (world, error + TenantSummary) state" where
  "GetTenant E tenantID = attempt (ent_get E tenants t_id tenantID) (\<lambda>_. ErrText ''tenant not found'')
     (\<lambda>t. ok (toTenantSummary t))"

section \<open>Platform admins\<close>

text \<open>The keys of the Go map, in the order they were inserted; \<open>utrim\<close> and \<open>ulower\<close> are the
  Unicode parts of \<open>strings.TrimSpace\<close> and \<open>strings.ToLower\<close>.\<close>

definition ParsePlatformAdminEmails :: "(string \<Rightarrow> string) \<Rightarrow> (string \<Rightarrow> string) \<Rightarrow> string \<Rightarrow> string list" where
  "ParsePlatformAdminEmails utrim ulower csv =
     foldl (\<lambda>keys e. let e = ToLower ulower (TrimSpace utrim e)
            in if e \<noteq> [] \<and> e \<notin> set keys then keys @ [e] else keys) [] (split_on CHR '','' csv)"

primrec grant_all :: "env \<Rightarrow> string list \<Rightarrow> nat \<Rightarrow> (world, nat \<times> error option) state" where
  "grant_all E [] granted = State_Monad.return (granted, None)"
| "grant_all E (email # rest) granted =
     handle (ent_update E users users_update (\<lambda>u. u_email u = email \<and> \<not> u_is_platform_admin u)
               (\<lambda>u. u\<lparr>u_is_platform_admin := True\<rparr>))
       (\<lambda>e. State_Monad.return (granted, Some (ErrWrap (''bootstrap platform admin '' @ email) e)))
       (\<lambda>n. grant_all E rest (granted + n))"

definition SyncPlatformAdminsFromEnv :: "env \<Rightarrow> string list \<Rightarrow> (world, nat \<times> error option) state" where
  "SyncPlatformAdminsFromEnv E emails = do { keys \<leftarrow> range_keys E emails; grant_all E keys 0 }"

record PlatformAdminInfo =
  pa_user_id :: string
  pa_email :: string

definition ListPlatformAdmins :: "env \<Rightarrow> (world, error + PlatformAdminInfo list) state" where
  "ListPlatformAdmins E = attempt (ent_all E users u_is_platform_admin) id
     (\<lambda>us. ok (map (\<lambda>u. \<lparr>pa_user_id = u_id u, pa_email = u_email u\<rparr>) us))"

definition GrantPlatformAdmin :: "env \<Rightarrow> string \<Rightarrow> (world, error + PlatformAdminInfo) state" where
  "GrantPlatformAdmin E email =
     attempt (ent_only E users (\<lambda>u. u_email u = email)) (\<lambda>_. ErrText ''no user with that email'') (\<lambda>u.
     attempt (ent_update_one E users users_update u_id no_clash (u_id u) (\<lambda>u. u\<lparr>u_is_platform_admin := True\<rparr>))
       (ErrWrap ''grant platform admin'') (\<lambda>_. ok \<lparr>pa_user_id = u_id u, pa_email = u_email u\<rparr>))"

definition RevokePlatformAdmin :: "env \<Rightarrow> string \<Rightarrow> (world, error + unit) state" where
  "RevokePlatformAdmin E email =
     attempt (ent_only E users (\<lambda>u. u_email u = email)) (\<lambda>_. ErrText ''no user with that email'') (\<lambda>u.
     attempt (ent_update_one E users users_update u_id no_clash (u_id u) (\<lambda>u. u\<lparr>u_is_platform_admin := False\<rparr>))
       (ErrWrap ''revoke platform admin'') (\<lambda>_. ok ()))"

end
