(* ===== verification/Slugs.thy ===== *)
theory Slugs
  imports Tenants Example
begin

text \<open>
  \<open>src/internal/tenant/slug.go\<close> and \<open>ValidateSlug\<close> of \<open>src/internal/tenant/saga.go\<close>: a tenant slug from a
  free-text name, and the search for a free one. The search is a loop without a bound; the
  model runs it with the fuel \<open>length (tenants w) + 2\<close>, and \<open>resolveSlug_terminates\<close> shows
  that this is always enough: the candidates are pairwise distinct well-formed slugs, so one of
  them is free before the fuel ends. The bound on the number of tenants keeps the numeric suffix
  shorter than the slug.
\<close>

section \<open>Operations\<close>

definition is_slug_char :: "char \<Rightarrow> bool" where
  "is_slug_char c \<longleftrightarrow> is_lower c \<or> is_digit c \<or> c = CHR ''_''"

text \<open>\<open>^[a-z][a-z0-9_]{2,31}$\<close>\<close>

definition slugPattern :: regex where
  "slugPattern = Cat (Class is_lower 1 (Some 1)) (Class is_slug_char 2 (Some 31))"

definition ValidateSlug :: "string \<Rightarrow> error option" where
  "ValidateSlug slug = (if \<not> MatchString slugPattern slug then Some ErrInvalidSlug else None)"

text \<open>\<open>nonSlugChars.ReplaceAllString(s, "_")\<close>: every run of other bytes becomes one underscore.\<close>

function nonSlugChars :: "string \<Rightarrow> string" where
  "nonSlugChars [] = []"
| "nonSlugChars (c # cs) =
     (if is_slug_char c then c # nonSlugChars cs
      else CHR ''_'' # nonSlugChars (dropWhile (\<lambda>c. \<not> is_slug_char c) cs))"
  by pat_completeness auto
termination by (relation "measure length") (auto simp: less_Suc_eq_le length_dropWhile_le)

definition trim_underscores :: "string \<Rightarrow> string" where
  "trim_underscores = trim (\<lambda>c. c = CHR ''_'')"

definition GenerateSlugBase :: "(string \<Rightarrow> string) \<Rightarrow> (string \<Rightarrow> string) \<Rightarrow> string \<Rightarrow> string" where
  "GenerateSlugBase utrim ulower nm =
     (let s = trim_underscores (nonSlugChars (ToLower ulower (TrimSpace utrim nm)));
          s = dropWhile (\<lambda>c. \<not> is_lower c) s
      in if s = [] then []
         else let s = (if 32 < length s then trim_underscores (take 32 s) else s)
              in s @ replicate (3 - length s) CHR ''0'')"

definition SlugAvailable :: "env \<Rightarrow> string \<Rightarrow> (world, error + bool) state" where
  "SlugAvailable E slug =
     (if ValidateSlug slug \<noteq> None then ok False
      else attempt (ent_exist E tenants (\<lambda>t. t_slug t = slug)) id (\<lambda>taken. ok (\<not> taken)))"

text \<open>The next candidate: the base with the suffix \<open>_i\<close>, cut to 32 characters.\<close>

definition next_candidate :: "string \<Rightarrow> nat \<Rightarrow> string" where
  "next_candidate base i =
     (let suffix = CHR ''_'' # itoa i; trimTo = 32 - length suffix
      in (if trimTo < length base then trim_underscores (take trimTo base) else base) @ suffix)"

primrec slug_search :: "nat \<Rightarrow> env \<Rightarrow> string \<Rightarrow> nat \<Rightarrow> string \<Rightarrow> (world, error + string) state" where
  "slug_search 0 E base i candidate = fail Diverges"
| "slug_search (Suc fuel) E base i candidate =
     attempt (SlugAvailable E candidate) id
       (\<lambda>free. if free then ok candidate else slug_search fuel E base (i + 1) (next_candidate base i))"

definition resolveSlug ::
  "(string \<Rightarrow> string) \<Rightarrow> (string \<Rightarrow> string) \<Rightarrow> env \<Rightarrow> string \<Rightarrow> string \<Rightarrow> (world, error + string) state" where
  "resolveSlug utrim ulower E requested nm =
     (if requested \<noteq> [] then ok requested
      else let base = GenerateSlugBase utrim ulower nm in
        if base = [] then fail ErrInvalidSlug
        else State (\<lambda>w. run_state (slug_search (length (tenants w) + 2) E base 2 base) w))"

definition SuggestSlug ::
  "(string \<Rightarrow> string) \<Rightarrow> (string \<Rightarrow> string) \<Rightarrow> env \<Rightarrow> string \<Rightarrow> (world, error + string) state" where
  "SuggestSlug utrim ulower E nm = resolveSlug utrim ulower E [] nm"

section \<open>Well-formed slugs\<close>

lemma slugPattern_iff:
  "MatchString slugPattern s \<longleftrightarrow>
     (\<exists>c cs. s = c # cs \<and> is_lower c \<and> list_all is_slug_char cs \<and> 2 \<le> length cs \<and> length cs \<le> 31)"
proof -
  have one: "u \<in> lang (Class is_lower 1 (Some 1)) \<longleftrightarrow> (\<exists>c. u = [c] \<and> is_lower c)" for u
    by (cases u) (auto simp: le_Suc_eq)
  have rest: "v \<in> lang (Class is_slug_char 2 (Some 31)) \<longleftrightarrow>
      list_all is_slug_char v \<and> 2 \<le> length v \<and> length v \<le> 31" for v by auto
  show ?thesis unfolding MatchString_lang slugPattern_def lang.simps(3) mem_Collect_eq one rest
    by (metis append_Cons append_Nil)
qed

lemma ValidateSlug_None: "ValidateSlug s = None \<longleftrightarrow> MatchString slugPattern s"
  by (simp add: ValidateSlug_def)

lemma nonSlugChars_chars: "list_all is_slug_char (nonSlugChars s)"
  by (induction s rule: nonSlugChars.induct) (auto simp: is_slug_char_def)

lemma trim_slug_chars: "list_all is_slug_char s \<Longrightarrow> list_all is_slug_char (trim_underscores s)"
  using set_trim unfolding trim_underscores_def list_all_iff by blast

lemma length_trim_underscores: "length (trim_underscores s) \<le> length s"
  by (simp add: trim_underscores_def length_trim)

text \<open>A string that starts with a letter keeps its first character when underscores are trimmed.\<close>

lemma trim_underscores_Cons:
  assumes "is_lower c"
  shows "\<exists>t. trim_underscores (c # cs) = c # t"
proof -
  have "c \<noteq> CHR ''_''" using assms by (auto simp: is_lower_def)
  then have "trim_underscores (c # cs) \<noteq> [] \<and> hd (trim_underscores (c # cs)) = c"
    unfolding trim_underscores_def using trim_nonempty [of "c # cs"] by simp
  then show ?thesis by (metis list.collapse)
qed

lemma GenerateSlugBase_valid:
  assumes "GenerateSlugBase utrim ulower nm \<noteq> []"
  shows "ValidateSlug (GenerateSlugBase utrim ulower nm) = None"
proof -
  let ?s = "trim_underscores (nonSlugChars (ToLower ulower (TrimSpace utrim nm)))"
  let ?d = "dropWhile (\<lambda>c. \<not> is_lower c) ?s"
  from assms have "?d \<noteq> []" unfolding GenerateSlugBase_def Let_def by metis
  then obtain c cs where d: "?d = c # cs" by (cases ?d) auto
  then have c: "is_lower c" by (metis dropWhile_eq_Cons_conv)
  have "list_all is_slug_char ?d"
    using trim_slug_chars [OF nonSlugChars_chars] by (auto simp: list_all_iff dest: set_dropWhileD)
  then have chars: "list_all is_slug_char (c # cs)" by (simp add: d)
  let ?t = "if 32 < length (c # cs) then trim_underscores (take 32 (c # cs)) else c # cs"
  obtain u where "trim_underscores (take 32 (c # cs)) = c # u"
    using trim_underscores_Cons [OF c, of "take 31 cs"] by auto
  then obtain t where t: "?t = c # t" by (metis (full_types))
  have "length ?t \<le> 32" using length_trim_underscores [of "take 32 (c # cs)"] by auto
  then have len: "length t \<le> 31" unfolding t by simp
  have "list_all is_slug_char ?t"
    using chars trim_slug_chars [of "take 32 (c # cs)"] by (auto simp: list_all_iff dest: in_set_takeD)
  then have tc: "list_all is_slug_char t" unfolding t by simp
  have "GenerateSlugBase utrim ulower nm = ?t @ replicate (3 - length ?t) CHR ''0''"
    unfolding GenerateSlugBase_def Let_def d by simp
  also have "\<dots> = c # t @ replicate (2 - length t) CHR ''0''" unfolding t by (simp add: numeral_3_eq_3 numeral_2_eq_2)
  finally show ?thesis
    using c tc len by (auto simp: ValidateSlug_None slugPattern_iff list_all_iff is_slug_char_def is_digit_def)
qed

section \<open>The candidates of the search\<close>

lemma next_candidate_valid:
  assumes base: "ValidateSlug base = None" and i: "i < 10 ^ 30"
  shows "ValidateSlug (next_candidate base i) = None"
proof -
  from base obtain c cs where b: "base = c # cs" "is_lower c" "list_all is_slug_char cs" "length cs \<le> 31"
    by (auto simp: ValidateSlug_None slugPattern_iff)
  have len: "length (itoa i) \<le> 30" using i by (intro length_itoa) simp_all
  let ?k = "31 - length (itoa i)"
  let ?p = "if ?k < length base then trim_underscores (take ?k base) else base"
  have k: "0 < ?k" using len by simp
  then have take_base: "take ?k base = c # take (?k - 1) cs" by (cases ?k) (simp_all add: b)
  obtain u where u: "trim_underscores (take ?k base) = c # u"
    unfolding take_base using trim_underscores_Cons [OF b(2)] by blast
  then obtain t where t: "?p = c # t" using b(1) by (metis (full_types))
  have "length ?p \<le> ?k" using length_trim_underscores [of "take ?k base"] by auto
  then have l: "Suc (length t) \<le> ?k" unfolding t by simp
  have all: "list_all is_slug_char base" using b by (simp add: is_slug_char_def)
  then have "list_all is_slug_char (take ?k base)" by (meson in_set_takeD list_all_iff)
  from trim_slug_chars [OF this] have "list_all is_slug_char ?p" using all by simp
  then have tc: "list_all is_slug_char t" unfolding t by simp
  have digits: "list_all is_slug_char (itoa i)" using itoa_digits [of i] by (auto simp: list_all_iff is_slug_char_def)
  have "next_candidate base i = ?p @ CHR ''_'' # itoa i"
    unfolding next_candidate_def Let_def by simp
  then have cand: "next_candidate base i = c # t @ CHR ''_'' # itoa i" unfolding t by simp
  have "Suc 0 \<le> length (itoa i)" by (simp add: Suc_le_eq itoa_nonempty)
  then show ?thesis unfolding ValidateSlug_None slugPattern_iff cand
    using b(2) tc digits l len by (intro exI [of _ c] exI [of _ "t @ CHR ''_'' # itoa i"]) (auto simp: is_slug_char_def)
qed

text \<open>The suffix after the last underscore identifies the candidate.\<close>

lemma next_candidate_inj:
  assumes "next_candidate base i = next_candidate base j"
  shows "i = j"
proof -
  have digits: "CHR ''_'' \<notin> set (itoa k)" for k
    using itoa_digits [of k] by (auto simp: list_all_iff is_digit_def)
  have last: "takeWhile (\<lambda>c. c \<noteq> CHR ''_'') (rev (next_candidate base k)) = rev (itoa k)" for k
  proof -
    obtain p where "next_candidate base k = p @ CHR ''_'' # itoa k"
      unfolding next_candidate_def Let_def by simp
    then have "rev (next_candidate base k) = rev (itoa k) @ CHR ''_'' # rev p" by simp
    then show ?thesis using digits [of k] by (simp add: takeWhile_append)
  qed
  have "rev (itoa i) = rev (itoa j)" using last [of i] last [of j] assms by simp
  then show ?thesis using itoa_inj by simp
qed

section \<open>The search\<close>

definition slug_free :: "world \<Rightarrow> string \<Rightarrow> bool" where
  "slug_free w s \<longleftrightarrow> ValidateSlug s = None \<and> s \<notin> set (map t_slug (tenants w))"

lemma slug_free_tick [simp]: "slug_free (w\<lparr>tick := n\<rparr>) s = slug_free w s"
  by (simp add: slug_free_def)

lemma wp_SlugAvailable:
  assumes "\<And>n. db_fault E (tick w) \<Longrightarrow> Q (Inl (ErrDB Fault)) (w\<lparr>tick := n\<rparr>)"
    and "\<And>n. Q (Inr (slug_free w s)) (w\<lparr>tick := n\<rparr>)"
  shows "wp (SlugAvailable E s) Q w"
proof (cases "ValidateSlug s")
  case None
  have "filter (\<lambda>t. t_slug t = s) (tenants w) = [] \<longleftrightarrow> slug_free w s"
    using None by (auto simp: slug_free_def filter_empty_conv)
  then show ?thesis using None assms by (simp add: SlugAvailable_def wp_def run_ent_exist)
next
  case (Some e)
  then have "\<not> slug_free w s" by (simp add: slug_free_def)
  then show ?thesis using Some assms(2) [of "tick w"] by (simp add: SlugAvailable_def)
qed

text \<open>The \<open>k\<close>-th candidate the loop tries.\<close>

fun candidate :: "string \<Rightarrow> nat \<Rightarrow> string" where
  "candidate base 0 = base"
| "candidate base (Suc k) = next_candidate base (k + 2)"

lemma wp_slug_search:
  assumes "\<exists>j < fuel. slug_free w (candidate base (k + j))"
  shows "wp (slug_search fuel E base (k + 2) (candidate base k))
    (\<lambda>r w'. same_tables w w' \<and> (case r of Inl e \<Rightarrow> e = ErrDB Fault \<and> (\<exists>n. db_fault E n) | Inr s \<Rightarrow> slug_free w s))
    (w\<lparr>tick := n\<rparr>)"
  using assms
proof (induction fuel arbitrary: k n)
  case 0
  then show ?case by simp
next
  case (Suc fuel)
  show ?case unfolding slug_search.simps wp_attempt
  proof (rule wp_SlugAvailable, goal_cases)
    case (1 m)
    then show ?case by auto
  next
    case (2 m)
    show ?case
    proof (cases "slug_free w (candidate base k)")
      case True
      then show ?thesis by simp
    next
      case False
      obtain j where j: "j < Suc fuel" "slug_free w (candidate base (k + j))" using Suc.prems by blast
      with False have "j \<noteq> 0" by (metis add_0_right)
      then obtain i where "j = Suc i" by (cases j) auto
      with j have "\<exists>j < fuel. slug_free w (candidate base (Suc k + j))" by auto
      from Suc.IH [OF this, of m] show ?thesis using False by simp
    qed
  qed
qed

text \<open>One of the first \<open>n + 2\<close> candidates is free when there are \<open>n\<close> tenants.\<close>

lemma candidate_free:
  assumes base: "ValidateSlug base = None" and bound: "length (tenants w) + 2 < 10 ^ 30"
  shows "\<exists>j < length (tenants w) + 2. slug_free w (candidate base j)"
proof (rule ccontr)
  let ?n = "length (tenants w)" and ?slugs = "set (map t_slug (tenants w))"
  assume none: "\<not> (\<exists>j < ?n + 2. slug_free w (candidate base j))"
  have taken: "candidate base (Suc k) \<in> ?slugs" if "k < Suc ?n" for k
  proof -
    have "k + 2 < 10 ^ 30" using that bound by simp
    then have "ValidateSlug (candidate base (Suc k)) = None" using next_candidate_valid [OF base] by simp
    moreover have "\<not> slug_free w (candidate base (Suc k))" using none that by auto
    ultimately show ?thesis unfolding slug_free_def by blast
  qed
  have "inj_on (\<lambda>k. candidate base (Suc k)) {..<Suc ?n}"
    by (rule inj_onI) (use next_candidate_inj in fastforce)
  then have "Suc ?n = card ((\<lambda>k. candidate base (Suc k)) ` {..<Suc ?n})" by (simp add: card_image)
  also have "\<dots> \<le> card ?slugs" using taken by (intro card_mono) auto
  also have "\<dots> \<le> ?n" using card_length [of "map t_slug (tenants w)"] by simp
  finally show False by simp
qed

lemma wp_resolveSlug:
  assumes "length (tenants w) + 2 < 10 ^ 30"
  shows "wp (resolveSlug utrim ulower E [] nm)
    (\<lambda>r w'. same_tables w w' \<and> (case r of
       Inl e \<Rightarrow> (e = ErrDB Fault \<and> (\<exists>n. db_fault E n)) \<or> (e = ErrInvalidSlug \<and> GenerateSlugBase utrim ulower nm = [])
     | Inr s \<Rightarrow> slug_free w s)) w"
proof (cases "GenerateSlugBase utrim ulower nm = []")
  case True
  then show ?thesis by (simp add: resolveSlug_def same_tables_def)
next
  case False
  let ?base = "GenerateSlugBase utrim ulower nm"
  let ?P = "\<lambda>r w'. same_tables w w' \<and>
    (case r of Inl e \<Rightarrow> e = ErrDB Fault \<and> (\<exists>n. db_fault E n) | Inr s \<Rightarrow> slug_free w s)"
  have "wp (slug_search (length (tenants w) + 2) E ?base (0 + 2) (candidate ?base 0)) ?P (w\<lparr>tick := tick w\<rparr>)"
    by (rule wp_slug_search) (use candidate_free [OF GenerateSlugBase_valid [OF False] assms] in simp)
  moreover have "w\<lparr>tick := tick w\<rparr> = w" by simp
  ultimately have search: "wp (slug_search (length (tenants w) + 2) E ?base 2 ?base) ?P w"
    unfolding add_0 candidate.simps(1) by (simp only:)
  have "run_state (resolveSlug utrim ulower E [] nm) w =
      run_state (slug_search (length (tenants w) + 2) E ?base 2 ?base) w"
    using False by (simp add: resolveSlug_def Let_def del: slug_search.simps)
  with search have "wp (resolveSlug utrim ulower E [] nm) ?P w" by (simp add: wp_def)
  then show ?thesis by (rule wp_mono) (auto split: sum.splits)
qed

section \<open>Properties\<close>

text \<open>C33. The search for a slug terminates: with fewer than \<open>10^30 - 2\<close> tenants the loop of \<open>resolveSlug\<close>
  never runs out of the model's fuel, the number of tenants plus two probes. It ends with an error
  only when a database call failed or the name gives an empty slug base, and what it returns is a
  well-formed slug no tenant has. No table changes.\<close>

theorem resolveSlug_terminates:
  assumes "length (tenants w) + 2 < 10 ^ 30"
    and "run_state (resolveSlug utrim ulower E [] nm) w = (r, w')"
  shows "same_tables w w' \<and> r \<noteq> Inl Diverges \<and>
    ((\<forall>n. \<not> db_fault E n) \<and> GenerateSlugBase utrim ulower nm \<noteq> [] \<longrightarrow> (\<exists>s. r = Inr s)) \<and>
    (\<forall>s. r = Inr s \<longrightarrow> ValidateSlug s = None \<and> s \<notin> set (map t_slug (tenants w)))"
  using wpD [OF wp_resolveSlug [OF assms(1)] assms(2)] by (auto simp: slug_free_def split: sum.splits)

theorem resolveSlug_terminates_witness:
  "fst (run_state (resolveSlug id id env0 [] ''Acme'') shop) = Inr ''acme_2'' \<and>
   ''acme_2'' \<notin> set (map t_slug (tenants shop))"
proof -
  have "fst (run_state (resolveSlug id id env0 [] ''Acme'') shop) = Inr ''acme_2''" by code_simp
  then have r: "run_state (resolveSlug id id env0 [] ''Acme'') shop =
      (Inr ''acme_2'', snd (run_state (resolveSlug id id env0 [] ''Acme'') shop))"
    by (metis prod.collapse)
  have "length (tenants shop) + 2 < 10 ^ 30" by (simp add: shop_def)
  from resolveSlug_terminates [OF this r] show ?thesis using r by (metis fst_conv)
qed

text \<open>C34. A slug derived from a name is always well formed: \<open>GenerateSlugBase\<close> returns the empty string
  or a slug that \<open>ValidateSlug\<close> accepts, of 3 to 32 characters, whatever the name and the Unicode
  tables; and so is every later candidate of the search.\<close>

theorem GenerateSlugBase_wellformed:
  assumes "GenerateSlugBase utrim ulower nm = base" and "base \<noteq> []" and "i < 10 ^ 30"
  shows "ValidateSlug base = None \<and> ValidateSlug (next_candidate base i) = None \<and>
    length base \<in> {3..32} \<and> length (next_candidate base i) \<in> {3..32}"
proof -
  have v: "ValidateSlug base = None" using GenerateSlugBase_valid [of utrim ulower nm] assms by simp
  have len: "length s \<in> {3..32}" if "ValidateSlug s = None" for s
    using that by (auto simp: ValidateSlug_None slugPattern_iff)
  from v next_candidate_valid [OF v assms(3)] len show ?thesis by blast
qed

theorem GenerateSlugBase_wellformed_witness:
  "GenerateSlugBase id id ''7 Caf!!e'' = ''caf_e'' \<and> ValidateSlug (next_candidate ''caf_e'' 10) = None"
proof -
  have b: "GenerateSlugBase id id ''7 Caf!!e'' = ''caf_e''" by code_simp
  from GenerateSlugBase_wellformed [OF b, of 10] show ?thesis using b by simp
qed

end
