(* ===== verification/Migrator.thy ===== *)
theory Migrator
  imports Tenants
begin

text \<open>
  \<open>src/internal/migrator/migrator.go\<close>: plugin migrations in a tenant's schema and the record of the
  versions applied. The effect of a plugin's SQL is the sequence of committed statements
  \<open>s_sql\<close> of the schema; a statement fails when the schema is missing or the database says so.
  \<open>SaveX\<close> panics on an error: \<open>Panic\<close> unwinds through every caller (\<open>rethrow\<close>).
\<close>

section \<open>Panics\<close>

fun is_panic :: "error \<Rightarrow> bool" where
  "is_panic (Panic e) = True"
| "is_panic e = False"

text \<open>\<open>x, err := m(); if err != nil { return h(err) }\<close> where \<open>m\<close> may panic.\<close>

definition rethrow :: "(error \<Rightarrow> error) \<Rightarrow> error \<Rightarrow> error" where
  "rethrow h e = (if is_panic e then e else h e)"

section \<open>Operations\<close>

record Migration =
  m_version :: string
  m_name :: string
  m_up_sql :: string
  m_down_sql :: string

text \<open>\<open>sort.Slice\<close> is not stable: equal versions end up in an unspecified order.\<close>

definition sort_versions :: "env \<Rightarrow> Migration list \<Rightarrow> (world, Migration list) state" where
  "sort_versions E ms = sys_call (\<lambda>n. sort_key m_version (shuffle (row_order E n (length ms)) ms))"

definition sort_versions_desc :: "env \<Rightarrow> Migration list \<Rightarrow> (world, Migration list) state" where
  "sort_versions_desc E ms = do { ms \<leftarrow> sort_versions E ms; State_Monad.return (rev ms) }"

definition appliedVersions :: "env \<Rightarrow> string \<Rightarrow> string \<Rightarrow> (world, string set) state" where
  "appliedVersions E tenantID pluginName =
     handle (ent_all E histories
               (\<lambda>h. mh_tenant_id h = tenantID \<and> mh_plugin_name h = pluginName \<and> mh_status h = ''applied''))
       (\<lambda>_. State_Monad.return {}) (\<lambda>rows. State_Monad.return (set (map mh_version rows)))"

text \<open>\<open>runSQL\<close>: begin, \<open>SET LOCAL search_path\<close>, the statement, commit; nothing is kept unless the
  commit succeeds.\<close>

definition db_call :: "env \<Rightarrow> (world, error + unit) state" where
  "db_call E = db_step E (\<lambda>w. Inr ((), w))"

definition runSQL :: "env \<Rightarrow> string \<Rightarrow> string \<Rightarrow> (world, error + unit) state" where
  "runSQL E schemaName query =
     attempt (db_call E) id (\<lambda>_.
     attempt (db_call E) (ErrWrap ''set search_path'') (\<lambda>_.
     attempt (db_step E (\<lambda>w. if schemas w schemaName = None then Inl UndefinedTable else Inr ((), w)))
       (ErrWrap ''run sql'') (\<lambda>_.
     db_step E (\<lambda>w. Inr ((), case schemas w schemaName of None \<Rightarrow> w
       | Some s \<Rightarrow> w\<lparr>schemas := (schemas w)(schemaName \<mapsto> s\<lparr>s_sql := s_sql s @ [query]\<rparr>)\<rparr>)))))"

primrec apply_pending ::
  "env \<Rightarrow> string \<Rightarrow> string \<Rightarrow> string \<Rightarrow> string set \<Rightarrow> Migration list \<Rightarrow> (world, error + unit) state" where
  "apply_pending E tenantID schemaName pluginName applied [] = ok ()"
| "apply_pending E tenantID schemaName pluginName applied (mig # rest) =
     (if m_version mig \<in> applied then apply_pending E tenantID schemaName pluginName applied rest
      else attempt (runSQL E schemaName (m_up_sql mig))
        (ErrWrap (''run migration '' @ m_version mig @ '' for tenant '' @ tenantID)) (\<lambda>_. do {
          i \<leftarrow> uuid_string E;
          attempt (create_history E i tenantID pluginName (m_version mig) (m_name mig) ''applied'') Panic
            (\<lambda>_. apply_pending E tenantID schemaName pluginName applied rest) }))"

definition RunForTenant ::
  "env \<Rightarrow> string \<Rightarrow> string \<Rightarrow> string \<Rightarrow> Migration list \<Rightarrow> (world, error + unit) state" where
  "RunForTenant E tenantID schemaName pluginName migrations = do {
     migrations \<leftarrow> sort_versions E migrations;
     applied \<leftarrow> appliedVersions E tenantID pluginName;
     apply_pending E tenantID schemaName pluginName applied migrations }"

primrec roll_back ::
  "env \<Rightarrow> string \<Rightarrow> string \<Rightarrow> string \<Rightarrow> string set \<Rightarrow> Migration list \<Rightarrow> (world, error + unit) state" where
  "roll_back E tenantID schemaName pluginName applied [] = ok ()"
| "roll_back E tenantID schemaName pluginName applied (mig # rest) =
     (if m_version mig \<notin> applied then roll_back E tenantID schemaName pluginName applied rest
      else handle (runSQL E schemaName (m_down_sql mig))
        (\<lambda>_. roll_back E tenantID schemaName pluginName applied rest)
        (\<lambda>_. attempt (ent_update E histories histories_update
             (\<lambda>h. mh_tenant_id h = tenantID \<and> mh_plugin_name h = pluginName \<and> mh_version h = m_version mig)
             (\<lambda>h. h\<lparr>mh_status := ''rolled_back''\<rparr>)) Panic
           (\<lambda>_. roll_back E tenantID schemaName pluginName applied rest)))"

definition RollbackForTenant ::
  "env \<Rightarrow> string \<Rightarrow> string \<Rightarrow> string \<Rightarrow> Migration list \<Rightarrow> (world, error + unit) state" where
  "RollbackForTenant E tenantID schemaName pluginName migrations = do {
     applied \<leftarrow> appliedVersions E tenantID pluginName;
     migrations \<leftarrow> sort_versions_desc E migrations;
     roll_back E tenantID schemaName pluginName applied migrations }"

end
