(* ===== verification/Installer.thy ===== *)
theory Installer
  imports Migrator
begin

text \<open>
  \<open>src/internal/pluginmgr\<close>: installing and uninstalling a plugin for a tenant, rolling a plugin out
  to many tenants, and the client that asks Core for a plugin's migrations. What Core answers
  is the argument \<open>core\<close>: per outside call and plugin name a failed request or a status with
  the decoded body (\<open>None\<close> when it is not a manifest).
\<close>

section \<open>Core's registry\<close>

datatype core_answer = Unreachable | Answer nat "Migration list option"

type_synonym core = "nat \<Rightarrow> string \<Rightarrow> core_answer"

definition GetManifest :: "core \<Rightarrow> string \<Rightarrow> (world, Migration list option) state" where
  "GetManifest core pluginName = do {
     resp \<leftarrow> sys_call (\<lambda>n. core n pluginName);
     State_Monad.return (case resp of Unreachable \<Rightarrow> None
       | Answer status body \<Rightarrow> if status \<noteq> 200 then None else body) }"

definition fetchMigrations :: "core \<Rightarrow> string \<Rightarrow> (world, error + Migration list) state" where
  "fetchMigrations core pluginName = do {
     m \<leftarrow> GetManifest core pluginName;
     (case m of None \<Rightarrow> fail (ErrText (''plugin '' @ pluginName @ '' not registered in Core'')) | Some ms \<Rightarrow> ok ms) }"

section \<open>Install\<close>

definition Install :: "env \<Rightarrow> core \<Rightarrow> string \<Rightarrow> string \<Rightarrow> (world, error + unit) state" where
  "Install E core tenantID pluginName =
     attempt (ent_exist E plugin_installs (\<lambda>p. pi_tenant_id p = tenantID \<and> pi_plugin_name p = pluginName)) id (\<lambda>exists.
     if exists then fail (ErrText (''plugin '' @ pluginName @ '' already installed for tenant '' @ tenantID))
     else
     attempt (ent_only E tenants (\<lambda>t. t_id t = tenantID)) (ErrWrap ''tenant not found'') (\<lambda>t.
     attempt (fetchMigrations core pluginName) (ErrWrap (''fetch migrations for '' @ pluginName)) (\<lambda>migrations.
     attempt (if 0 < length migrations
              then attempt (RunForTenant E (t_id t) (t_schema_name t) pluginName migrations)
                     (rethrow (ErrWrap ''run migrations'')) ok
              else ok ()) id (\<lambda>_. do {
       i \<leftarrow> uuid_string E;
       attempt (create_plugin_install E i tenantID pluginName) (ErrWrap ''record install'') (\<lambda>_. ok ()) }))))"

primrec install_each :: "env \<Rightarrow> core \<Rightarrow> string \<Rightarrow> string \<Rightarrow> string list \<Rightarrow> (world, error + unit) state" where
  "install_each E core tenantID schemaName [] = ok ()"
| "install_each E core tenantID schemaName (pluginName # rest) =
     handle (fetchMigrations core pluginName) (\<lambda>_. install_each E core tenantID schemaName rest) (\<lambda>migrations.
       if length migrations = 0 then install_each E core tenantID schemaName rest
       else attempt (RunForTenant E tenantID schemaName pluginName migrations)
              (rethrow (ErrWrap (''migrate '' @ pluginName @ '' for new tenant''))) (\<lambda>_. do {
         i \<leftarrow> uuid_string E;
         _ \<leftarrow> create_plugin_install E i tenantID pluginName;
         install_each E core tenantID schemaName rest }))"

text \<open>The plugins installed for any tenant: the keys of the Go map \<open>seen\<close>.\<close>

definition seen_plugins :: "plugin_install list \<Rightarrow> string list" where
  "seen_plugins installs =
     foldl (\<lambda>seen p. if pi_plugin_name p \<noteq> ''identity'' \<and> pi_plugin_name p \<notin> set seen
                     then seen @ [pi_plugin_name p] else seen) [] installs"

definition InstallForNewTenant :: "env \<Rightarrow> core \<Rightarrow> string \<Rightarrow> string \<Rightarrow> (world, error + unit) state" where
  "InstallForNewTenant E core tenantID schemaName =
     attempt (ent_all E plugin_installs (\<lambda>_. True)) id (\<lambda>installs. do {
       names \<leftarrow> range_keys E (seen_plugins installs);
       install_each E core tenantID schemaName names })"

section \<open>All tenants\<close>

record ReconcileResult =
  rr_tenant_id :: string
  rr_slug :: string
  rr_error :: "error option"

primrec install_tenants ::
  "env \<Rightarrow> core \<Rightarrow> string \<Rightarrow> tenant list \<Rightarrow> ReconcileResult list \<Rightarrow> (world, error + ReconcileResult list) state" where
  "install_tenants E core pluginName [] results = ok results"
| "install_tenants E core pluginName (t # rest) results =
     (let res = (\<lambda>e. \<lparr>rr_tenant_id = t_id t, rr_slug = t_slug t, rr_error = e\<rparr>) in
      handle (ent_exist E plugin_installs (\<lambda>p. pi_tenant_id p = t_id t \<and> pi_plugin_name p = pluginName))
        (\<lambda>e. install_tenants E core pluginName rest (results @ [res (Some e)]))
        (\<lambda>exists. if exists then install_tenants E core pluginName rest (results @ [res None])
          else handle (Install E core (t_id t) pluginName)
            (\<lambda>e. if is_panic e then fail e else install_tenants E core pluginName rest (results @ [res (Some e)]))
            (\<lambda>_. install_tenants E core pluginName rest (results @ [res None]))))"

definition InstallAll :: "env \<Rightarrow> core \<Rightarrow> string \<Rightarrow> (world, error + ReconcileResult list) state" where
  "InstallAll E core pluginName =
     attempt (ent_all E tenants (\<lambda>t. t_status t = ''active'')) (ErrWrap ''list tenants'')
       (\<lambda>ts. install_tenants E core pluginName ts [])"

primrec reconcile_each ::
  "env \<Rightarrow> string \<Rightarrow> Migration list \<Rightarrow> plugin_install list \<Rightarrow> ReconcileResult list \<Rightarrow>
   (world, error + ReconcileResult list) state" where
  "reconcile_each E pluginName migrations [] results = ok results"
| "reconcile_each E pluginName migrations (p # rest) results =
     handle (ent_get E tenants t_id (pi_tenant_id p))
       (\<lambda>e. reconcile_each E pluginName migrations rest
              (results @ [\<lparr>rr_tenant_id = pi_tenant_id p, rr_slug = [], rr_error = Some (ErrWrap ''tenant not found'' e)\<rparr>]))
       (\<lambda>t. let res = (\<lambda>e. \<lparr>rr_tenant_id = t_id t, rr_slug = t_slug t, rr_error = e\<rparr>) in
         handle (RunForTenant E (t_id t) (t_schema_name t) pluginName migrations)
           (\<lambda>e. if is_panic e then fail e
                else reconcile_each E pluginName migrations rest (results @ [res (Some e)]))
           (\<lambda>_. reconcile_each E pluginName migrations rest (results @ [res None])))"

definition ReconcileAll :: "env \<Rightarrow> core \<Rightarrow> string \<Rightarrow> (world, error + ReconcileResult list) state" where
  "ReconcileAll E core pluginName =
     attempt (fetchMigrations core pluginName) (ErrWrap (''fetch migrations for '' @ pluginName)) (\<lambda>migrations.
     if length migrations = 0 then ok []
     else attempt (ent_all E plugin_installs (\<lambda>p. pi_plugin_name p = pluginName)) (ErrWrap ''list installs'')
       (\<lambda>installs. reconcile_each E pluginName migrations installs []))"

section \<open>Uninstall\<close>

definition Uninstall :: "env \<Rightarrow> core \<Rightarrow> string \<Rightarrow> string \<Rightarrow> bool \<Rightarrow> (world, error + unit) state" where
  "Uninstall E core tenantID pluginName dropData =
     attempt (ent_only E plugin_installs (\<lambda>p. pi_tenant_id p = tenantID \<and> pi_plugin_name p = pluginName))
       (\<lambda>_. ErrText (''plugin '' @ pluginName @ '' not installed for tenant '' @ tenantID)) (\<lambda>p.
     attempt (ent_only E tenants (\<lambda>t. t_id t = tenantID)) (ErrWrap ''tenant not found'') (\<lambda>t.
     attempt (if dropData then
                attempt (fetchMigrations core pluginName) (ErrWrap (''fetch migrations for '' @ pluginName)) (\<lambda>migrations.
                attempt (RollbackForTenant E (t_id t) (t_schema_name t) pluginName migrations)
                  (rethrow (ErrWrap ''rollback migrations'')) ok)
              else ok ()) id (\<lambda>_.
     attempt (ent_delete_one E plugin_installs plugin_installs_update no_clash pi_id (pi_id p))
       (ErrWrap ''remove install record'') (\<lambda>_. ok ()))))"

end
