(* ===== verification/Saga.thy ===== *)
theory Saga
  imports Slugs Installer
begin

text \<open>
  \<open>src/internal/tenant/saga.go\<close> and \<open>src/internal/tenant/client.go\<close>: the registration of a tenant as a
  saga. Each completed step pushes its compensation; a failing step runs them in reverse order,
  ignoring their errors, and returns the step's error. The plugin installer is the interface
  \<open>PluginInstaller\<close>: an argument of \<open>Register\<close>, with the laws of the locale \<open>plugin_installer\<close>,
  interpreted on \<open>Installer.InstallForNewTenant\<close>.
\<close>

section \<open>The tenant schema\<close>

definition create_schema :: "env \<Rightarrow> string \<Rightarrow> (world, error + unit) state" where
  "create_schema E s = db_step E (\<lambda>w. Inr ((), if schemas w s = None
     then w\<lparr>schemas := (schemas w)(s \<mapsto> \<lparr>s_profiles = None, s_sql = []\<rparr>)\<rparr> else w))"

definition drop_schema :: "env \<Rightarrow> string \<Rightarrow> (world, error + unit) state" where
  "drop_schema E s = db_step E (\<lambda>w. Inr ((), w\<lparr>schemas := (schemas w)(s := None)\<rparr>))"

text \<open>\<open>searchPathConnector.Connect\<close>: open a connection and set its search path.\<close>

definition Connect :: "env \<Rightarrow> string \<Rightarrow> (world, error + unit) state" where
  "Connect E s = attempt (db_call E) id (\<lambda>_. attempt (db_call E) (ErrWrap ''set search_path'') ok)"

text \<open>\<open>m.Create(ctx, UserProfilesTable)\<close> creates the table unless it is there.\<close>

definition MigrateTenantSchema :: "env \<Rightarrow> string \<Rightarrow> (world, error + unit) state" where
  "MigrateTenantSchema E s = attempt (Connect E s) id (\<lambda>_.
     db_step E (\<lambda>w. case schemas w s of None \<Rightarrow> Inl UndefinedTable
       | Some sc \<Rightarrow> Inr ((), if s_profiles sc = None
           then w\<lparr>schemas := (schemas w)(s \<mapsto> sc\<lparr>s_profiles := Some []\<rparr>)\<rparr> else w)))"

section \<open>Registration\<close>

record RegisterInput =
  ri_slug :: string
  ri_name :: string
  ri_plan :: string
  ri_email :: string
  ri_password :: string
  ri_full_name :: string
  ri_phone :: string
  ri_job_title :: string

type_synonym compensation = "(world, error + unit) state"

primrec run_all :: "compensation list \<Rightarrow> (world, unit) state" where
  "run_all [] = State_Monad.return ()"
| "run_all (s # ss) = do { _ \<leftarrow> s; run_all ss }"

definition compensate :: "compensation list \<Rightarrow> (world, unit) state" where
  "compensate steps = run_all (rev steps)"

text \<open>A step of the saga: on an error the steps so far are compensated and the error is wrapped;
  a panic leaves \<open>Register\<close> at once.\<close>

definition saga_step ::
  "compensation list \<Rightarrow> string \<Rightarrow> (world, error + 'a) state \<Rightarrow> ('a \<Rightarrow> (world, error + 'b) state) \<Rightarrow>
   (world, error + 'b) state" where
  "saga_step steps msg m k =
     handle m (\<lambda>e. if is_panic e then fail e else do { _ \<leftarrow> compensate steps; fail (ErrWrap msg e) }) k"

definition resolveUser :: "env \<Rightarrow> string \<Rightarrow> string \<Rightarrow> (world, error + string \<times> bool) state" where
  "resolveUser E email password =
     handle (ent_only E users (\<lambda>u. u_email u = email))
       (\<lambda>e. if e \<noteq> ErrDB NotFound then fail e
            else attempt (GenerateFromPassword E password) (ErrWrap ''hash password'') (\<lambda>hash. do {
              i \<leftarrow> short_id E ''u_'';
              attempt (create_user E i email hash) id (\<lambda>_. ok (i, True)) }))
       (\<lambda>u. ok (u_id u, False))"

definition undo_tenant :: "env \<Rightarrow> string \<Rightarrow> compensation" where
  "undo_tenant E i = ent_delete_one E tenants tenants_update tenant_referenced t_id i"

definition undo_branch :: "env \<Rightarrow> string \<Rightarrow> compensation" where
  "undo_branch E i = ent_delete_one E branches branches_update no_clash b_id i"

definition undo_user :: "env \<Rightarrow> string \<Rightarrow> compensation" where
  "undo_user E i = ent_delete_one E users users_update user_referenced u_id i"

definition undo_membership :: "env \<Rightarrow> string \<Rightarrow> compensation" where
  "undo_membership E i = ent_delete_one E tenant_users tenant_users_update no_clash tu_id i"

text \<open>Steps 3 to 7: the schema, its tables, the owner's profile, the plugins, the activation.\<close>

definition provision ::
  "env \<Rightarrow> (string \<Rightarrow> string \<Rightarrow> (world, error + unit) state) \<Rightarrow> RegisterInput \<Rightarrow> string \<Rightarrow> string \<Rightarrow> string \<Rightarrow>
   string \<Rightarrow> compensation list \<Rightarrow> (world, error + string) state" where
  "provision E install inp slug schemaName tenantID userID steps =
     saga_step steps ''step3 create schema'' (create_schema E schemaName) (\<lambda>_.
     let steps = steps @ [drop_schema E schemaName] in
     saga_step steps ''step4 migrate tenant schema'' (MigrateTenantSchema E schemaName) (\<lambda>_.
     saga_step steps ''step5 create owner profile''
       (create_profile E schemaName userID (ri_full_name inp) (ri_phone inp) (ri_job_title inp) ''owner'') (\<lambda>_.
     saga_step steps ''step6 install plugins for new tenant'' (install tenantID schemaName) (\<lambda>_.
     saga_step steps ''step7 activate tenant''
       (ent_update_one E tenants tenants_update t_id no_clash tenantID (\<lambda>t. t\<lparr>t_status := ''active''\<rparr>)) (\<lambda>_.
     ok slug)))))"

text \<open>Steps 2 and 2b: the owner's account and membership.\<close>

definition register_owner ::
  "env \<Rightarrow> RegisterInput \<Rightarrow> string \<Rightarrow> string \<Rightarrow> compensation list \<Rightarrow>
   (string \<Rightarrow> compensation list \<Rightarrow> (world, error + string) state) \<Rightarrow> (world, error + string) state" where
  "register_owner E inp tenantID branchID steps k =
     saga_step steps ''step2 resolve user'' (resolveUser E (ri_email inp) (ri_password inp)) (\<lambda>(userID, createdUser).
     let steps = (if createdUser then steps @ [undo_user E userID] else steps) in
     saga_step steps ''step2b resolve owner role'' (SystemRoleID E ''owner'') (\<lambda>ownerRoleID. do {
       tuID \<leftarrow> short_id E ''tu_'';
       saga_step steps ''step2b create membership'' (create_tenant_user E tuID userID tenantID branchID ownerRoleID) (\<lambda>_.
       k userID (steps @ [undo_membership E tuID])) }))"

definition Register ::
  "(string \<Rightarrow> string) \<Rightarrow> (string \<Rightarrow> string) \<Rightarrow> env \<Rightarrow> (string \<Rightarrow> string \<Rightarrow> (world, error + unit) state) \<Rightarrow>
   RegisterInput \<Rightarrow> (world, error + string) state" where
  "Register utrim ulower E install inp =
     attempt (resolveSlug utrim ulower E (ri_slug inp) (ri_name inp)) id (\<lambda>slug.
     case ValidateSlug slug of Some e \<Rightarrow> fail e | None \<Rightarrow> do {
       let schemaName = ''tenant_'' @ slug;
       tenantID \<leftarrow> short_id E ''t_'';
       attempt (create_tenant E tenantID slug (ri_name inp) (ri_plan inp) ''provisioning'' schemaName)
         (ErrWrap ''step1 create tenant'') (\<lambda>t. do {
         let steps = [undo_tenant E tenantID];
         branchID \<leftarrow> short_id E ''br_'';
         saga_step steps ''step1b create default branch''
           (create_branch E branchID tenantID ''main'' ''Main'' ''active'') (\<lambda>_.
         register_owner E inp tenantID branchID (steps @ [undo_branch E branchID]) (\<lambda>userID steps.
         provision E install inp slug schemaName tenantID userID steps)) }) })"

end
