(* ===== verification/Runtime.thy ===== *)
theory Runtime
  imports Permissions Store
begin

text \<open>
  \<open>src/internal/plugin/plugin.go\<close> and \<open>src/internal/plugin/branchscope.go\<close>: the trusted context headers,
  the route table and the manifest built from it, registration with Core under backoff, and the
  heartbeat. A request is a record of what a handler can read from \<open>gin.Context\<close>, a response a
  status and a payload.
\<close>

section \<open>Requests and the tenant context\<close>

definition HeaderTenantID :: string where "HeaderTenantID = ''X-ApiCoreX-Tenant-ID''"
definition HeaderTenantSlug :: string where "HeaderTenantSlug = ''X-ApiCoreX-Tenant-Slug''"
definition HeaderSchema :: string where "HeaderSchema = ''X-ApiCoreX-Schema''"
definition HeaderBranchID :: string where "HeaderBranchID = ''X-ApiCoreX-Branch-ID''"
definition HeaderBranchSlug :: string where "HeaderBranchSlug = ''X-ApiCoreX-Branch-Slug''"
definition HeaderUserID :: string where "HeaderUserID = ''X-ApiCoreX-User-ID''"
definition HeaderUserType :: string where "HeaderUserType = ''X-ApiCoreX-User-Type''"
definition HeaderRoles :: string where "HeaderRoles = ''X-ApiCoreX-Roles''"
definition HeaderPermissions :: string where "HeaderPermissions = ''X-ApiCoreX-Permissions''"
definition HeaderTokenHash :: string where "HeaderTokenHash = ''X-ApiCoreX-Token-Hash''"

text \<open>\<open>rq_body\<close> is the decoded JSON body, \<open>None\<close> when \<open>ShouldBindJSON\<close> fails; a missing header,
  path or query parameter reads as the empty string.\<close>

record 'b request =
  rq_headers :: "string \<Rightarrow> string"
  rq_params :: "string \<Rightarrow> string"
  rq_query :: "string \<Rightarrow> string"
  rq_body :: "'b option"

definition TenantID :: "'b request \<Rightarrow> string" where "TenantID c = rq_headers c HeaderTenantID"
definition TenantSlug :: "'b request \<Rightarrow> string" where "TenantSlug c = rq_headers c HeaderTenantSlug"
definition SchemaName :: "'b request \<Rightarrow> string" where "SchemaName c = rq_headers c HeaderSchema"
definition BranchID :: "'b request \<Rightarrow> string" where "BranchID c = rq_headers c HeaderBranchID"
definition BranchSlug :: "'b request \<Rightarrow> string" where "BranchSlug c = rq_headers c HeaderBranchSlug"
definition UserID :: "'b request \<Rightarrow> string" where "UserID c = rq_headers c HeaderUserID"
definition UserType :: "'b request \<Rightarrow> string" where "UserType c = rq_headers c HeaderUserType"
definition TokenHash :: "'b request \<Rightarrow> string" where "TokenHash c = rq_headers c HeaderTokenHash"

definition Roles :: "'b request \<Rightarrow> string list" where
  "Roles c = HeaderList (rq_headers c HeaderRoles)"

definition CallerPermissions :: "'b request \<Rightarrow> string list" where
  "CallerPermissions c = HeaderList (rq_headers c HeaderPermissions)"

definition HasPerm :: "'b request \<Rightarrow> string \<Rightarrow> bool" where
  "HasPerm c perm = HasPermission (rq_headers c HeaderPermissions) perm"

section \<open>Branch scope\<close>

definition BranchScope :: "'b request \<Rightarrow> error + string" where
  "BranchScope c = (let bid = BranchID c in if bid = [] then Inl ErrNoBranchContext else Inr bid)"

text \<open>The status written when there is no branch context, or the branch.\<close>

definition RequireBranch :: "'b request \<Rightarrow> nat + string" where
  "RequireBranch c = (let bid = BranchID c in if bid = [] then Inl 400 else Inr bid)"

section \<open>Routes and manifest\<close>

record route =
  rt_method :: string
  rt_path :: string
  rt_public :: bool
  rt_permission :: string

record PluginMigration =
  pm_version :: string
  pm_name :: string
  pm_up_sql :: string
  pm_down_sql :: string

record Plugin =
  pl_name :: string
  pl_version :: string
  pl_engine :: "(string \<times> string) list"  \<comment> \<open>method and path registered with Gin\<close>
  pl_routes :: "route list"
  pl_public :: "string list"
  pl_perms :: "string \<rightharpoonup> string"
  pl_migrations :: "PluginMigration list"

definition new_plugin :: "string \<Rightarrow> string \<Rightarrow> Plugin" where
  "new_plugin nm version = \<lparr>pl_name = nm, pl_version = version, pl_engine = [], pl_routes = [], pl_public = [],
     pl_perms = Map.empty, pl_migrations = []\<rparr>"

definition Public :: "string \<Rightarrow> Plugin \<Rightarrow> Plugin" where
  "Public path p = p\<lparr>pl_public := (if path \<in> set (pl_public p) then pl_public p else pl_public p @ [path])\<rparr>"

text \<open>\<open>strings.ToUpper\<close> on a method name (ASCII).\<close>

definition upper_char :: "char \<Rightarrow> char" where
  "upper_char c = (if is_lower c then char_of ((of_char c :: nat) - 32) else c)"

definition RequirePermission :: "string \<Rightarrow> string \<Rightarrow> string \<Rightarrow> Plugin \<Rightarrow> Plugin" where
  "RequirePermission meth path perm p =
     p\<lparr>pl_perms := (pl_perms p)(map upper_char meth @ '' '' @ path \<mapsto> perm)\<rparr>"

definition DeclareMigration :: "string \<Rightarrow> string \<Rightarrow> string \<Rightarrow> string \<Rightarrow> Plugin \<Rightarrow> Plugin" where
  "DeclareMigration version nm up down p = p\<lparr>pl_migrations := pl_migrations p @
     [\<lparr>pm_version = version, pm_name = nm, pm_up_sql = up, pm_down_sql = down\<rparr>]\<rparr>"

definition Internal :: "string \<Rightarrow> string \<Rightarrow> Plugin \<Rightarrow> Plugin" where
  "Internal meth path p = p\<lparr>pl_engine := pl_engine p @ [(meth, path)]\<rparr>"

definition plain_route :: "string \<Rightarrow> string \<Rightarrow> route" where
  "plain_route meth path = \<lparr>rt_method = meth, rt_path = path, rt_public = False, rt_permission = []\<rparr>"

definition Static :: "string \<Rightarrow> Plugin \<Rightarrow> Plugin" where
  "Static prefix p =
     (let p = p\<lparr>pl_engine := pl_engine p @ [(''GET'', prefix @ ''/*filepath'')]\<rparr>;
          corePattern = prefix @ ''/*'';
          p = p\<lparr>pl_routes := pl_routes p @ [plain_route ''GET'' corePattern]\<rparr>
      in Public corePattern p)"

definition Handle :: "string \<Rightarrow> string \<Rightarrow> Plugin \<Rightarrow> Plugin" where
  "Handle meth path p = p\<lparr>pl_engine := pl_engine p @ [(meth, path)],
     pl_routes := pl_routes p @ [plain_route meth path]\<rparr>"

definition GET :: "string \<Rightarrow> Plugin \<Rightarrow> Plugin" where "GET path = Handle ''GET'' path"
definition POST :: "string \<Rightarrow> Plugin \<Rightarrow> Plugin" where "POST path = Handle ''POST'' path"

record manifest =
  mf_name :: string
  mf_version :: string
  mf_plugin_type :: string
  mf_routes :: "route list"
  mf_public_paths :: "string list"
  mf_migrations :: "PluginMigration list"

definition decorate :: "Plugin \<Rightarrow> route \<Rightarrow> route" where
  "decorate p r =
     (let r = (if rt_path r \<in> set (pl_public p) then r\<lparr>rt_public := True\<rparr> else r)
      in case pl_perms p (rt_method r @ '' '' @ rt_path r) of None \<Rightarrow> r | Some perm \<Rightarrow> r\<lparr>rt_permission := perm\<rparr>)"

definition buildManifest :: "Plugin \<Rightarrow> manifest" where
  "buildManifest p = \<lparr>mf_name = pl_name p, mf_version = pl_version p, mf_plugin_type = ''internal'',
     mf_routes = map (decorate p) (pl_routes p), mf_public_paths = pl_public p,
     mf_migrations = pl_migrations p\<rparr>"

section \<open>Registration\<close>

text \<open>What one \<open>POST /_core/register\<close> gives: no connection, a status other than 200, an
  undecodable 200, or the identity Core assigned; and whether the context is cancelled before
  the following wait ends.\<close>

datatype register_reply = NoReply | Rejected nat | Garbled | Registered string string

definition maxBackoff :: nat where
  "maxBackoff = 30"

definition next_backoff :: "nat \<Rightarrow> nat" where
  "next_backoff backoff =
     (if backoff < maxBackoff then (if maxBackoff < backoff * 2 then maxBackoff else backoff * 2) else backoff)"

datatype register_result = Ok string string | Cancelled | DecodeError | Waiting

text \<open>The loop over the attempts: the waits in seconds, and the result (\<open>Waiting\<close> when the list of
  attempts ends first).\<close>

fun register_loop :: "nat \<Rightarrow> (register_reply \<times> bool) list \<Rightarrow> nat list \<times> register_result" where
  "register_loop backoff [] = ([], Waiting)"
| "register_loop backoff ((Registered i tok, c) # rest) = ([], Ok i tok)"
| "register_loop backoff ((Garbled, c) # rest) = ([], DecodeError)"
| "register_loop backoff ((r, cancelled) # rest) =
     (if cancelled then ([], Cancelled)
      else let (waits, res) = register_loop (next_backoff backoff) rest in (backoff # waits, res))"

definition register_core :: "(register_reply \<times> bool) list \<Rightarrow> nat list \<times> register_result" where
  "register_core attempts = register_loop 1 attempts"

section \<open>Heartbeat\<close>

text \<open>One tick of the 15 second ticker: \<open>sendHeartbeat\<close> gives \<open>None\<close> on a network error, or the
  status. The result is the new number of missed beats and whether \<open>reregister\<close> ran.\<close>

definition heartbeat_tick :: "nat \<Rightarrow> nat option \<Rightarrow> nat \<times> bool" where
  "heartbeat_tick missed beat =
     (if beat = Some 200 then (0, False)
      else if beat = Some 404 \<or> beat = Some 401 then (0, True)
      else let missed = missed + 1 in if 3 \<le> missed then (0, True) else (missed, False))"

primrec heartbeat :: "nat \<Rightarrow> nat option list \<Rightarrow> bool list" where
  "heartbeat missed [] = []"
| "heartbeat missed (b # bs) = (let (missed', again) = heartbeat_tick missed b in again # heartbeat missed' bs)"

section \<open>Properties\<close>

subsection \<open>Backoff\<close>

text \<open>Attempt number \<open>k\<close> is followed by a wait of \<open>min 30 2^k\<close> seconds.\<close>

definition nth_backoff :: "nat \<Rightarrow> nat" where
  "nth_backoff k = min maxBackoff (2 ^ k)"

lemma next_backoff_nth: "next_backoff (nth_backoff k) = nth_backoff (Suc k)"
  by (auto simp: next_backoff_def nth_backoff_def maxBackoff_def min_def)

definition retried :: "register_reply \<times> bool \<Rightarrow> bool" where
  "retried a \<longleftrightarrow> \<not> snd a \<and> (fst a = NoReply \<or> (\<exists>s. fst a = Rejected s))"

lemma register_loop_retry:
  "retried a \<Longrightarrow> register_loop b (a # rest) = (case register_loop (next_backoff b) rest of (waits, res) \<Rightarrow> (b # waits, res))"
  by (cases a; cases "fst a") (auto simp: retried_def)

lemma map_upt_first: "map f [k..<k + Suc n] = f k # map f [Suc k..<Suc k + n]"
  by (subst upt_conv_Cons) simp_all

lemma register_loop_failures:
  "list_all retried fs \<Longrightarrow> register_loop (nth_backoff k) (fs @ rest) =
     (map nth_backoff [k..<k + length fs] @ fst (register_loop (nth_backoff (k + length fs)) rest),
      snd (register_loop (nth_backoff (k + length fs)) rest))"
proof (induction fs arbitrary: k)
  case Nil
  then show ?case by simp
next
  case (Cons a fs)
  have "k + length (a # fs) = Suc k + length fs" and "[k..<k + length (a # fs)] = k # [Suc k..<Suc k + length fs]"
    by (simp_all add: upt_conv_Cons del: upt_Suc)
  then show ?case using Cons.IH [of "Suc k"] Cons.prems
    by (simp add: register_loop_retry next_backoff_nth split: prod.splits del: register_loop.simps upt_Suc)
qed

lemma register_loop_waits:
  "\<exists>n \<le> length as. fst (register_loop (nth_backoff k) as) = map nth_backoff [k..<k + n]"
proof (induction as arbitrary: k)
  case Nil
  then show ?case by simp
next
  case (Cons a as)
  show ?case
  proof (cases "retried a")
    case True
    from Cons [of "Suc k"] obtain n where "n \<le> length as" "fst (register_loop (nth_backoff (Suc k)) as) = map nth_backoff [Suc k..<Suc k + n]"
      by blast
    then have "fst (register_loop (nth_backoff k) (a # as)) = map nth_backoff [k..<k + Suc n]"
      unfolding map_upt_first register_loop_retry [OF True] next_backoff_nth by (auto split: prod.splits)
    then show ?thesis using \<open>n \<le> length as\<close> by (metis Suc_le_mono length_Cons)
  next
    case False
    then have "fst (register_loop (nth_backoff k) (a # as)) = []"
      by (cases a; cases "fst a") (auto simp: retried_def)
    then show ?thesis by (metis le0 list.map(1) upt_conv_Nil add_0_right le_refl)
  qed
qed

text \<open>Registration with Core is retried under exponential backoff: whatever Core answers and whenever the
  process is told to stop, the waits between attempts are 1, 2, 4, 8, 16 and then always 30 seconds.
  In particular no wait exceeds half a minute and none is zero.\<close>

theorem backoff_schedule:
  "\<exists>n \<le> length attempts. fst (register_core attempts) = map nth_backoff [0..<n] \<and>
     set (fst (register_core attempts)) \<subseteq> {1..30} \<and> map nth_backoff [0..<7] = [1, 2, 4, 8, 16, 30, 30]"
proof -
  have b: "nth_backoff k \<in> {1..30}" for k by (simp add: nth_backoff_def maxBackoff_def)
  have "map nth_backoff [0..<7] = [1, 2, 4, 8, 16, 30, 30]" by code_simp
  moreover obtain n where n: "n \<le> length attempts" "fst (register_core attempts) = map nth_backoff [0..<n]"
    using register_loop_waits [of attempts 0] unfolding register_core_def by (auto simp: nth_backoff_def maxBackoff_def)
  moreover have "set (map nth_backoff [0..<n]) \<subseteq> {1..30}" using b by auto
  ultimately show ?thesis by metis
qed

text \<open>C35. Registration gets there: if Core is unreachable or refuses any number of times and then accepts, and
  the process is not told to stop, the loop ends with the identity Core assigned.\<close>

theorem registration_gets_there:
  assumes "list_all retried failures"
  shows "snd (register_core (failures @ (Registered i tok, c) # later)) = Ok i tok \<and>
    length (fst (register_core (failures @ (Registered i tok, c) # later))) = length failures"
  using register_loop_failures [OF assms, of 0 "(Registered i tok, c) # later"]
  by (simp add: register_core_def nth_backoff_def maxBackoff_def)

theorem registration_gets_there_witness:
  "register_core [(NoReply, False), (Rejected 503, False), (Registered ''p1'' ''tok'', False)] = ([1, 2], Ok ''p1'' ''tok'')"
proof -
  have "list_all retried [(NoReply, False), (Rejected 503, False)]" by (simp add: retried_def)
  from registration_gets_there [OF this, of "''p1''" "''tok''" False "[]"]
  have "snd (register_core [(NoReply, False), (Rejected 503, False), (Registered ''p1'' ''tok'', False)]) = Ok ''p1'' ''tok''" by simp
  moreover have "fst (register_core [(NoReply, False), (Rejected 503, False), (Registered ''p1'' ''tok'', False)]) = [1, 2]" by code_simp
  ultimately show ?thesis by (metis prod.collapse)
qed

subsection \<open>Heartbeat\<close>

lemma heartbeat_missed: "missed < 3 \<Longrightarrow> fst (heartbeat_tick missed b) < 3"
  by (auto simp: heartbeat_tick_def Let_def)

lemma heartbeat_append:
  "\<exists>m. (missed < 3 \<longrightarrow> m < 3) \<and> heartbeat missed (xs @ ys) = heartbeat missed xs @ heartbeat m ys"
proof (induction xs arbitrary: missed)
  case Nil
  then show ?case by (intro exI [of _ missed]) simp
next
  case (Cons b bs)
  obtain m' again where t: "heartbeat_tick missed b = (m', again)" by (cases "heartbeat_tick missed b")
  from Cons [of m'] obtain m where m: "(m' < 3 \<longrightarrow> m < 3)" "heartbeat m' (bs @ ys) = heartbeat m' bs @ heartbeat m ys" by blast
  moreover have "missed < 3 \<longrightarrow> m' < 3" using heartbeat_missed [of missed b] t by simp
  ultimately show ?case using t by (intro exI [of _ m]) auto
qed

lemma length_heartbeat: "length (heartbeat missed bs) = length bs"
  by (induction bs arbitrary: missed) (auto split: prod.splits)

lemma tick_miss:
  "b \<noteq> Some 200 \<Longrightarrow> heartbeat_tick m b = (0, True) \<or> (heartbeat_tick m b = (Suc m, False) \<and> Suc m < 3)"
  by (auto simp: heartbeat_tick_def Let_def)

text \<open>The plugin does not stay lost: however the heartbeats went before, among any three beats in a row
  that are not answered with 200 there is one after which it registers again, so Core has it back
  within 45 seconds of having lost it.\<close>

theorem heartbeat_recovers:
  assumes "b1 \<noteq> Some 200" and "b2 \<noteq> Some 200" and "b3 \<noteq> Some 200"
  shows "\<exists>xs r1 r2 r3 ys. heartbeat 0 (before @ [b1, b2, b3] @ later) = xs @ [r1, r2, r3] @ ys \<and>
    length xs = length before \<and> (r1 \<or> r2 \<or> r3)"
proof -
  obtain m where h: "heartbeat 0 (before @ [b1, b2, b3] @ later) = heartbeat 0 before @ heartbeat m ([b1, b2, b3] @ later)"
    using heartbeat_append [of 0 before "[b1, b2, b3] @ later"] by blast
  have step: "heartbeat m (b # bs) = snd (heartbeat_tick m b) # heartbeat (fst (heartbeat_tick m b)) bs" for m b bs
    by (simp add: case_prod_unfold Let_def)
  let ?m1 = "fst (heartbeat_tick m b1)"
  let ?m2 = "fst (heartbeat_tick ?m1 b2)"
  have "snd (heartbeat_tick m b1) \<or> snd (heartbeat_tick ?m1 b2) \<or> snd (heartbeat_tick ?m2 b3)"
    using tick_miss [OF assms(1), of m] tick_miss [OF assms(2), of ?m1] tick_miss [OF assms(3), of ?m2] by auto
  moreover have "heartbeat 0 (before @ [b1, b2, b3] @ later) =
      heartbeat 0 before @ [snd (heartbeat_tick m b1), snd (heartbeat_tick ?m1 b2), snd (heartbeat_tick ?m2 b3)] @
      heartbeat (fst (heartbeat_tick ?m2 b3)) later"
    unfolding h by (simp only: append.simps step)
  ultimately show ?thesis using length_heartbeat by blast
qed

theorem heartbeat_recovers_witness:
  "heartbeat 0 [Some 200, None, Some 500, None] = [False, False, False, True] \<and>
   (\<exists>xs r1 r2 r3 ys. heartbeat 0 ([Some 200] @ [None, Some 500, None] @ []) = xs @ [r1, r2, r3] @ ys \<and>
      length xs = length [Some (200::nat)] \<and> (r1 \<or> r2 \<or> r3))"
proof
  show "heartbeat 0 [Some 200, None, Some 500, None] = [False, False, False, True]" by code_simp
qed (rule heartbeat_recovers; simp)

end
