(* ===== verification/Backup.thy ===== *)
theory Backup
  imports GoStrings Store
begin

text \<open>
  \<open>src/internal/dbbackup/dbbackup.go\<close>: the command lines given to \<open>pg_dump\<close> and \<open>psql\<close>, the check of
  the schema name and the bounded capture of stderr. Running the tool is the argument \<open>exec\<close>:
  per tool and arguments what it wrote to stderr, in chunks, and the exit error if any.
\<close>

section \<open>Capturing stderr\<close>

definition capMax :: nat where
  "capMax = 4096"

definition capWrite :: "string \<Rightarrow> string \<Rightarrow> string \<times> nat" where
  "capWrite buf p =
     (if length buf < capMax then
        let room = capMax - length buf;
            room = (if length p < room then length p else room)
        in (buf @ take room p, length p)
      else (buf, length p))"

section \<open>Operations\<close>

text \<open>\<open>^tenant_[a-z0-9]+$\<close>\<close>

definition schemaNamePattern :: regex where
  "schemaNamePattern = Cat (Lit ''tenant_'') (Class (\<lambda>c. is_lower c \<or> is_digit c) 1 None)"

type_synonym exec = "string \<Rightarrow> string list \<Rightarrow> string list \<times> error option"

definition run_tool :: "exec \<Rightarrow> string \<Rightarrow> string list \<Rightarrow> error option" where
  "run_tool exec tool args =
     (let (chunks, result) = exec tool args;
          stderr = foldl (\<lambda>buf p. fst (capWrite buf p)) [] chunks
      in case result of None \<Rightarrow> None
         | Some e \<Rightarrow> if stderr \<noteq> [] then Some (ErrText (tool @ '': '' @ stderr)) else Some (ErrWrap tool e))"

definition DumpSchema :: "exec \<Rightarrow> string \<Rightarrow> string \<Rightarrow> error option" where
  "DumpSchema exec dsn schema =
     (if \<not> MatchString schemaNamePattern schema then Some (ErrText (''invalid schema name '' @ schema))
      else run_tool exec ''pg_dump'' [''--dbname='' @ dsn, ''--schema='' @ schema, ''--clean'', ''--if-exists'',
             ''--no-owner'', ''--no-privileges'', ''--format=plain''])"

definition DumpAll :: "exec \<Rightarrow> string \<Rightarrow> error option" where
  "DumpAll exec dsn = run_tool exec ''pg_dump'' [''--dbname='' @ dsn, ''--clean'', ''--if-exists'', ''--no-owner'',
     ''--no-privileges'', ''--format=plain'']"

definition Restore :: "exec \<Rightarrow> string \<Rightarrow> error option" where
  "Restore exec dsn = run_tool exec ''psql'' [''--dbname='' @ dsn, ''--single-transaction'', ''--set=ON_ERROR_STOP=1'',
     ''--quiet'']"

section \<open>Properties\<close>

lemma capture: "foldl (\<lambda>buf p. fst (capWrite buf p)) (take capMax b) chunks = take capMax (b @ concat chunks)"
proof (induction chunks arbitrary: b)
  case Nil
  then show ?case by simp
next
  case (Cons p ps)
  have "fst (capWrite (take capMax b) p) = take capMax (b @ p)"
    by (auto simp: capWrite_def Let_def min_def)
  then show ?case using Cons [of "b @ p"] by simp
qed

lemma capMax_pos: "capMax \<noteq> 0"
  by (simp add: capMax_def)

lemma capWrite_length: "snd (capWrite buf p) = length p"
  by (simp add: capWrite_def Let_def)

text \<open>The error of a failed dump or restore carries the first 4096 bytes of what the tool wrote to stderr,
  however the output was split over writes; the writer never refuses a chunk, so the tool is not
  blocked or killed by a full buffer.\<close>

theorem tool_error_is_bounded:
  "run_tool (\<lambda>_ _. (chunks, Some e)) tool args =
     Some (if concat chunks = [] then ErrWrap tool e else ErrText (tool @ '': '' @ take 4096 (concat chunks))) \<and>
   snd (capWrite buf p) = length p"
proof -
  have c: "foldl (\<lambda>buf p. fst (capWrite buf p)) [] chunks = take capMax (concat chunks)"
    using capture [of "[]" chunks] by simp
  have "run_tool (\<lambda>_ _. (chunks, Some e)) tool args =
      Some (if concat chunks = [] then ErrWrap tool e else ErrText (tool @ '': '' @ take capMax (concat chunks)))"
    unfolding run_tool_def prod.case Let_def c option.case by (simp only: take_eq_Nil) (simp add: capMax_pos)
  then show ?thesis unfolding capMax_def using capWrite_length by (rule conjI)
qed

end
