(* ===== verification/Requests.thy ===== *)
theory Requests
  imports Saga Introspect Runtime Backup
begin

text \<open>
  The request and response types of \<open>src/cmd/identity/plugin.go\<close>, and the guards its handlers
  share. A handler is a state transformer from the request to a response. \<open>ErrorOf e\<close> is an
  \<open>ErrorResponse\<close> with the text \<open>err.Error()\<close>; the texts of database errors are not modelled.
\<close>

section \<open>Request bodies\<close>

record RegisterRequest =
  rg_slug :: string
  rg_name :: string
  rg_plan :: string
  rg_email :: string
  rg_password :: string
  rg_full_name :: string
  rg_phone :: string
  rg_job_title :: string

record UpdateTenantRequest =
  ut_name :: string
  ut_plan :: string

record LoginRequest =
  lg_slug :: string
  lg_email :: string
  lg_password :: string

record GoogleLoginRequest =
  gl_id_token :: string
  gl_slug :: string

record IntrospectRequest =
  in_token_hash :: string
  in_acting_user_id :: string

record InstallPluginRequest =
  ip_tenant_id :: string
  ip_plugin_name :: string

record UninstallPluginRequest =
  un_tenant_id :: string
  un_plugin_name :: string
  un_drop_data :: bool

record CreateBranchRequest =
  cb_slug :: string
  cb_name :: string

record UpdateBranchRequest =
  ub_name :: string
  ub_status :: string

record AddMemberRequest =
  ar_email :: string
  ar_role :: string
  ar_password :: string
  ar_full_name :: string
  ar_phone :: string
  ar_job_title :: string

record CreateRoleRequest =
  cr_slug :: string
  cr_name :: string
  cr_permissions :: "string list"

text \<open>\<open>permissions\<close> is a Go slice: absent (\<open>None\<close>) differs from empty.\<close>

record UpdateRoleRequest =
  ur_name :: string
  ur_permissions :: "string list option"

record PinAvailableRequest =
  pq_pin :: string
  pq_except_user_id :: string

record UpdateProfileRequest =
  up_full_name :: string
  up_phone :: string
  up_job_title :: string

record ChangePasswordRequest =
  cp_current_password :: string
  cp_new_password :: string

text \<open>Requests with a single field.\<close>

record SetTenantStatusRequest = st_status :: string
record ReconcilePluginRequest = rp_plugin_name :: string
record InstallAllRequest = ia_plugin_name :: string
record GrantPlatformAdminRequest = ga_email :: string
record SetMemberStatusRequest = sm_status :: string
record SwitchBranchRequest = sb_branch_id :: string
record UpdateMemberRoleRequest = um_role :: string
record SetPinRequest = sp_pin :: string
record SetPasswordRequest = sw_new_password :: string

section \<open>Responses\<close>

record MeResponse =
  me_user_id :: string
  me_tenant_id :: string
  me_tenant_slug :: string
  me_branch_id :: string
  me_branch_slug :: string
  me_user_type :: string
  me_roles :: "string list"
  me_permissions :: "string list"
  me_full_name :: string
  me_phone :: string
  me_job_title :: string
  me_has_pin :: bool
  me_pin_hash :: string
  me_installed_plugins :: "string list"

datatype payload =
    NoBody
  | ErrorResponse string string  \<comment> \<open>error, code\<close>
  | ErrorOf error
  | MessageResponse string
  | RegisterResponse string string
  | SlugAvailableResponse string bool bool string
  | SlugSuggestResponse string string
  | TenantResponse TenantInfo
  | ListTenantPluginsResponse "string list"
  | ListTenantsResponse "TenantSummary list"
  | TenantSummaryResponse TenantSummary
  | AuthConfigResponse string bool
  | LoginResponse string
  | TenantChooserResponse string "TenantOption list"
  | LogoutResponse string
  | IntrospectResponse IntrospectResult
  | MeBody MeResponse
  | InstallPluginResponse string
  | UninstallPluginResponse string
  | ReconcilePluginResponse string "ReconcileResult list"
  | InstallAllResponse string "ReconcileResult list"
  | ListPlatformAdminsResponse "PlatformAdminInfo list"
  | PlatformAdminResponse PlatformAdminInfo
  | BranchResponse BranchInfo
  | ListBranchesResponse "BranchInfo list"
  | AddMemberResponse string
  | RoleResponse RoleInfo
  | ListRolesResponse "RoleInfo list"
  | ListPermissionsResponse "string list"
  | ListMembersResponse "MemberInfo list"
  | VerifyPinResponse bool
  | ResolvePinResponse string string string
  | PinAvailableResponse bool
  | SqlDump string "error option"  \<comment> \<open>a download with its name label, and \<open>X-Backup-Error\<close>\<close>

record response =
  rs_status :: nat
  rs_body :: payload

text \<open>What the handlers hold: Core's registry, the plugin key, the Google client id, the DSN and the
  tools, the Unicode parts of the string functions, what \<open>Verify\<close> returns for an ID token
  (\<open>None\<close> when Google login is off), and what a restore makes of the database.\<close>

record handlers =
  h_core :: core
  h_pluginKey :: string
  h_googleClientID :: string
  h_dsn :: string
  h_exec :: exec
  h_utrim :: "string \<Rightarrow> string"
  h_ulower :: "string \<Rightarrow> string"
  h_verify :: "string \<Rightarrow> (error + GoogleClaims) option"
  h_restored :: "world \<Rightarrow> world"

section \<open>Guards\<close>

type_synonym respond = "(world, response) state"

definition JSON :: "nat \<Rightarrow> payload \<Rightarrow> respond" where
  "JSON status body = State_Monad.return \<lparr>rs_status = status, rs_body = body\<rparr>"

text \<open>\<open>c.JSON(status, ErrorResponse{Error: err.Error()})\<close>; a panic never gets there, \<open>gin.Recovery\<close>
  answers 500.\<close>

definition ERR :: "nat \<Rightarrow> error \<Rightarrow> respond" where
  "ERR status e = (if is_panic e then JSON 500 NoBody else JSON status (ErrorOf e))"

definition with_body :: "'b request \<Rightarrow> ('b \<Rightarrow> respond) \<Rightarrow> respond" where
  "with_body c k = (case rq_body c of None \<Rightarrow> JSON 400 (ErrorResponse ''invalid request body'' []) | Some inp \<Rightarrow> k inp)"

definition with_tenant :: "'b request \<Rightarrow> (string \<Rightarrow> respond) \<Rightarrow> respond" where
  "with_tenant c k = (let tenantID = TenantID c in
     if tenantID = [] then JSON 401 (ErrorResponse ''unauthorized'' []) else k tenantID)"

definition with_caller :: "'b request \<Rightarrow> (string \<Rightarrow> string \<Rightarrow> respond) \<Rightarrow> respond" where
  "with_caller c k = (let tenantID = TenantID c; userID = UserID c in
     if tenantID = [] \<or> userID = [] then JSON 401 (ErrorResponse ''unauthorized'' []) else k tenantID userID)"

definition requirePerm :: "'b request \<Rightarrow> string \<Rightarrow> respond \<Rightarrow> respond" where
  "requirePerm c perm k =
     (if HasPerm c perm then k else JSON 403 (ErrorResponse (''missing permission: '' @ perm) []))"

definition isPlatformAdmin :: "'b request \<Rightarrow> bool" where
  "isPlatformAdmin c \<longleftrightarrow> UserType c = ''platform_admin''"

definition requirePlatformAdmin :: "'b request \<Rightarrow> respond \<Rightarrow> respond" where
  "requirePlatformAdmin c k =
     (if isPlatformAdmin c then k else JSON 403 (ErrorResponse ''platform admin required'' []))"

end
