(* ===== verification/Handlers.thy ===== *)
theory Handlers
  imports Requests
begin

text \<open>
  The handlers of \<open>src/cmd/identity/plugin.go\<close> that act for the caller and the caller's own tenant:
  registration, login, introspection, \<open>/me\<close>, plugins, branches, members, PINs, passwords, roles and
  the tenant's settings. The tenant and the user come only from the headers Core injected.
\<close>

section \<open>Registration, slugs, login\<close>

definition register :: "env \<Rightarrow> handlers \<Rightarrow> RegisterRequest request \<Rightarrow> respond" where
  "register E h c = with_body c (\<lambda>inp.
     let refused = (if rg_slug inp \<noteq> [] then map_option ErrorOf (ValidateSlug (rg_slug inp))
           else if rg_name inp = [] then Some (ErrorResponse ''name is required to generate a slug'' []) else None)
     in case refused of Some body \<Rightarrow> JSON 400 body
      | None \<Rightarrow>
          handle (Register (h_utrim h) (h_ulower h) E (InstallForNewTenant E (h_core h))
              \<lparr>ri_slug = rg_slug inp, ri_name = rg_name inp, ri_plan = rg_plan inp, ri_email = rg_email inp,
               ri_password = rg_password inp, ri_full_name = rg_full_name inp, ri_phone = rg_phone inp,
               ri_job_title = rg_job_title inp\<rparr>)
            (ERR 500) (\<lambda>slug. JSON 201 (RegisterResponse ''tenant registered'' slug)))"

definition slugSuggest :: "env \<Rightarrow> handlers \<Rightarrow> unit request \<Rightarrow> respond" where
  "slugSuggest E h c = (let nm = rq_query c ''name'' in
     if nm = [] then JSON 400 (ErrorResponse ''name query parameter required'' [])
     else handle (SuggestSlug (h_utrim h) (h_ulower h) E nm) (ERR 422)
            (\<lambda>slug. JSON 200 (SlugSuggestResponse nm slug)))"

definition slugAvailable :: "env \<Rightarrow> unit request \<Rightarrow> respond" where
  "slugAvailable E c = (let slug = rq_query c ''slug'' in
     if slug = [] then JSON 400 (ErrorResponse ''slug query parameter required'' [])
     else case ValidateSlug slug of
       Some e \<Rightarrow> JSON 200 (SlugAvailableResponse slug False False ''invalid tenant slug'')
     | None \<Rightarrow> handle (SlugAvailable E slug) (ERR 500)
         (\<lambda>free. JSON 200 (SlugAvailableResponse slug free True (if \<not> free then ''slug already taken'' else []))))"

text \<open>\<open>errors.As(err, &mt)\<close>: the error or one it wraps is a \<open>MultiTenantError\<close>.\<close>

fun as_multi_tenant :: "error \<Rightarrow> TenantOption list option" where
  "as_multi_tenant (MultiTenantError opts) = Some opts"
| "as_multi_tenant (ErrWrap s e) = as_multi_tenant e"
| "as_multi_tenant _ = None"

definition login_refused :: "error \<Rightarrow> respond" where
  "login_refused e = (case as_multi_tenant e of
     Some opts \<Rightarrow> JSON 409 (TenantChooserResponse ''select a tenant'' opts) | None \<Rightarrow> ERR 401 e)"

definition login :: "env \<Rightarrow> LoginRequest request \<Rightarrow> respond" where
  "login E c = with_body c (\<lambda>inp.
     handle (Login E (lg_slug inp) (lg_email inp) (lg_password inp)) login_refused
       (\<lambda>token. JSON 200 (LoginResponse token)))"

definition authConfig :: "handlers \<Rightarrow> unit request \<Rightarrow> respond" where
  "authConfig h c = JSON 200 (AuthConfigResponse (h_googleClientID h) (h_googleClientID h \<noteq> []))"

definition googleLogin :: "env \<Rightarrow> handlers \<Rightarrow> GoogleLoginRequest request \<Rightarrow> respond" where
  "googleLogin E h c = with_body c (\<lambda>inp.
     if gl_id_token inp = [] then JSON 400 (ErrorResponse ''invalid request body'' [])
     else handle (LoginWithGoogle E (h_verify h (gl_id_token inp)) (gl_slug inp)) login_refused
            (\<lambda>token. JSON 200 (LoginResponse token)))"

definition introspect :: "env \<Rightarrow> handlers \<Rightarrow> IntrospectRequest request \<Rightarrow> respond" where
  "introspect E h c =
     (if h_pluginKey h = [] \<or> rq_headers c ''X-Plugin-Key'' \<noteq> h_pluginKey h
      then JSON 401 (ErrorResponse ''invalid plugin key'' [])
      else with_body c (\<lambda>inp.
        if in_token_hash inp = [] then JSON 400 (ErrorResponse ''invalid request body'' [])
        else handle (Introspect E (in_token_hash inp) (in_acting_user_id inp))
          (\<lambda>e. if errors_is e ErrInvalidToken then JSON 401 (ErrorResponse ''invalid token'' [])
               else if errors_is e ErrMembershipRevoked then JSON 401 (ErrorResponse ''membership revoked'' [])
               else ERR 500 e)
          (\<lambda>res. JSON 200 (IntrospectResponse res))))"

definition logout :: "env \<Rightarrow> unit request \<Rightarrow> respond" where
  "logout E c = handle (Logout E (TokenHash c)) (ERR 500) (\<lambda>_. JSON 200 (LogoutResponse ''logged out''))"

definition me :: "env \<Rightarrow> unit request \<Rightarrow> respond" where
  "me E c = (let userID = UserID c; tenantID = TenantID c in
     if userID = [] then JSON 401 (ErrorResponse ''unauthorized'' [])
     else do {
       revoked \<leftarrow> (if tenantID \<noteq> []
                  then handle (IsMember E tenantID userID) (\<lambda>_. State_Monad.return False)
                         (\<lambda>member. State_Monad.return (\<not> member))
                  else State_Monad.return False);
       (if revoked then JSON 401 (ErrorResponse ''membership revoked'' [])
        else do {
          plugins \<leftarrow> InstalledPlugins E tenantID;
          p \<leftarrow> (if SchemaName c \<noteq> []
               then handle (LoadProfile E (SchemaName c) userID) (\<lambda>_. State_Monad.return None)
                      (\<lambda>p. State_Monad.return (Some p))
               else State_Monad.return None);
          JSON 200 (MeBody \<lparr>me_user_id = userID, me_tenant_id = tenantID, me_tenant_slug = TenantSlug c,
            me_branch_id = BranchID c, me_branch_slug = BranchSlug c, me_user_type = UserType c,
            me_roles = Roles c, me_permissions = CallerPermissions c,
            me_full_name = (case p of None \<Rightarrow> [] | Some p \<Rightarrow> pf_full_name p),
            me_phone = (case p of None \<Rightarrow> [] | Some p \<Rightarrow> pf_phone p),
            me_job_title = (case p of None \<Rightarrow> [] | Some p \<Rightarrow> pf_job_title p),
            me_has_pin = (case p of None \<Rightarrow> False | Some p \<Rightarrow> pf_pin_hash p \<noteq> []),
            me_pin_hash = (case p of None \<Rightarrow> [] | Some p \<Rightarrow> pf_pin_hash p),
            me_installed_plugins = plugins\<rparr>) }) })"

section \<open>Plugins\<close>

definition foreign_tenant :: "'b request \<Rightarrow> string \<Rightarrow> bool" where
  "foreign_tenant c tenantID \<longleftrightarrow> (let caller = TenantID c in \<not> isPlatformAdmin c \<and> (caller = [] \<or> caller \<noteq> tenantID))"

definition install :: "env \<Rightarrow> handlers \<Rightarrow> InstallPluginRequest request \<Rightarrow> respond" where
  "install E h c = with_body c (\<lambda>inp.
     if ip_tenant_id inp = [] \<or> ip_plugin_name inp = []
     then JSON 400 (ErrorResponse ''tenant_id and plugin_name required'' [])
     else if foreign_tenant c (ip_tenant_id inp)
     then JSON 403 (ErrorResponse ''cannot install plugins for another tenant'' [])
     else handle (Install E (h_core h) (ip_tenant_id inp) (ip_plugin_name inp)) (ERR 500)
            (\<lambda>_. JSON 200 (InstallPluginResponse ''plugin installed'')))"

definition uninstall :: "env \<Rightarrow> handlers \<Rightarrow> UninstallPluginRequest request \<Rightarrow> respond" where
  "uninstall E h c = with_body c (\<lambda>inp.
     if un_tenant_id inp = [] \<or> un_plugin_name inp = []
     then JSON 400 (ErrorResponse ''tenant_id and plugin_name required'' [])
     else if foreign_tenant c (un_tenant_id inp)
     then JSON 403 (ErrorResponse ''cannot uninstall plugins for another tenant'' [])
     else handle (Uninstall E (h_core h) (un_tenant_id inp) (un_plugin_name inp) (un_drop_data inp)) (ERR 500)
            (\<lambda>_. JSON 200 (UninstallPluginResponse
               (if un_drop_data inp then ''plugin uninstalled (data dropped)'' else ''plugin uninstalled (data kept)''))))"

section \<open>Branches and members of the caller's tenant\<close>

definition listBranches :: "env \<Rightarrow> unit request \<Rightarrow> respond" where
  "listBranches E c = with_tenant c (\<lambda>tenantID.
     handle (ListBranches E tenantID) (ERR 500) (\<lambda>bs. JSON 200 (ListBranchesResponse bs)))"

definition createBranch :: "env \<Rightarrow> CreateBranchRequest request \<Rightarrow> respond" where
  "createBranch E c = with_tenant c (\<lambda>tenantID. requirePerm c PermBranchWrite (with_body c (\<lambda>inp.
     handle (CreateBranch E tenantID (cb_slug inp) (cb_name inp)) (ERR 400) (\<lambda>b. JSON 201 (BranchResponse b)))))"

definition updateBranch :: "env \<Rightarrow> UpdateBranchRequest request \<Rightarrow> respond" where
  "updateBranch E c = with_tenant c (\<lambda>tenantID. requirePerm c PermBranchManage (with_body c (\<lambda>inp.
     handle (UpdateBranch E tenantID (rq_params c ''id'') (ub_name inp) (ub_status inp)) (ERR 400)
       (\<lambda>b. JSON 200 (BranchResponse b)))))"

definition add_input :: "AddMemberRequest \<Rightarrow> AddMemberInput" where
  "add_input inp = \<lparr>am_email = ar_email inp, am_role = ar_role inp, am_password = ar_password inp,
     am_full_name = ar_full_name inp, am_phone = ar_phone inp, am_job_title = ar_job_title inp\<rparr>"

definition addMember :: "env \<Rightarrow> AddMemberRequest request \<Rightarrow> respond" where
  "addMember E c = with_tenant c (\<lambda>tenantID. requirePerm c PermUserInvite (with_body c (\<lambda>inp.
     if ar_email inp = [] then JSON 400 (ErrorResponse ''email required'' [])
     else handle (AddMember E tenantID (rq_params c ''id'') (add_input inp)) (ERR 400)
            (\<lambda>_. JSON 200 (AddMemberResponse ''member added'')))))"

definition switchBranch :: "env \<Rightarrow> SwitchBranchRequest request \<Rightarrow> respond" where
  "switchBranch E c = with_caller c (\<lambda>tenantID userID. with_body c (\<lambda>inp.
     handle (SwitchBranch E userID tenantID (sb_branch_id inp) (TokenHash c)) (ERR 403)
       (\<lambda>b. JSON 200 (BranchResponse b))))"

definition listMembers :: "env \<Rightarrow> unit request \<Rightarrow> respond" where
  "listMembers E c = with_tenant c (\<lambda>tenantID. requirePerm c PermUserRead
     (handle (ListMembers E tenantID) (ERR 500) (\<lambda>ms. JSON 200 (ListMembersResponse ms))))"

text \<open>The \<open>switch\<close> on the error of a member operation, shared by the handlers below.\<close>

definition member_refused :: "string \<Rightarrow> nat \<Rightarrow> error \<Rightarrow> respond" where
  "member_refused last_manager other e =
     (if errors_is e ErrMemberNotFound then JSON 404 (ErrorResponse ''member not found'' [])
      else if errors_is e ErrLastManager then JSON 400 (ErrorResponse last_manager ''last_manager'')
      else ERR other e)"

definition updateMemberRole :: "env \<Rightarrow> UpdateMemberRoleRequest request \<Rightarrow> respond" where
  "updateMemberRole E c = with_tenant c (\<lambda>tenantID. requirePerm c PermUserInvite (with_body c (\<lambda>inp.
     handle (UpdateMemberRole E tenantID (rq_params c ''userId'') (um_role inp))
       (member_refused ''cannot demote the tenant's last manager'' 400)
       (\<lambda>_. JSON 200 (MessageResponse ''role updated'')))))"

definition removeMember :: "env \<Rightarrow> unit request \<Rightarrow> respond" where
  "removeMember E c = with_tenant c (\<lambda>tenantID. requirePerm c PermUserInvite
     (if rq_params c ''userId'' = UserID c then JSON 400 (ErrorResponse ''you cannot remove yourself'' ''self_remove'')
      else handle (RemoveMember E tenantID (rq_params c ''userId''))
        (member_refused ''cannot remove the tenant's last manager'' 500)
        (\<lambda>_. JSON 200 (MessageResponse ''member removed''))))"

definition setMemberStatus :: "env \<Rightarrow> SetMemberStatusRequest request \<Rightarrow> respond" where
  "setMemberStatus E c = with_tenant c (\<lambda>tenantID. requirePerm c PermUserInvite
     (if rq_params c ''userId'' = UserID c then JSON 400 (ErrorResponse ''you cannot suspend yourself'' ''self_suspend'')
      else with_body c (\<lambda>inp.
        handle (SetMemberStatus E tenantID (rq_params c ''userId'') (sm_status inp))
          (member_refused ''cannot suspend the tenant's last manager'' 400)
          (\<lambda>_. JSON 200 (MessageResponse ''member status updated'')))))"

section \<open>PINs, profile and passwords\<close>

text \<open>\<open>setOwnPin\<close> has no case for \<open>ErrMemberNotFound\<close>, \<open>setMemberPin\<close> has (\<open>missing\<close>).\<close>

definition pin_refused :: "bool \<Rightarrow> error \<Rightarrow> respond" where
  "pin_refused missing e =
     (if missing \<and> errors_is e ErrMemberNotFound then JSON 404 (ErrorResponse ''member not found'' [])
      else if errors_is e ErrInvalidPin then JSON 400 (ErrorResponse ''pin must be 4 digits'' ''invalid_pin'')
      else if errors_is e ErrPinTaken then JSON 409 (ErrorResponse ''pin already used by another member'' ''pin_taken'')
      else ERR 500 e)"

definition setOwnPin :: "env \<Rightarrow> SetPinRequest request \<Rightarrow> respond" where
  "setOwnPin E c = with_caller c (\<lambda>tenantID userID. with_body c (\<lambda>inp.
     handle (SetOwnPin E tenantID userID (sp_pin inp)) (pin_refused False)
       (\<lambda>_. JSON 200 (MessageResponse ''pin set''))))"

definition updateOwnProfile :: "env \<Rightarrow> UpdateProfileRequest request \<Rightarrow> respond" where
  "updateOwnProfile E c = with_caller c (\<lambda>tenantID userID. with_body c (\<lambda>inp.
     handle (UpdateOwnProfile E tenantID userID (up_full_name inp) (up_phone inp) (up_job_title inp)) (ERR 500)
       (\<lambda>_. JSON 200 (MessageResponse ''profile updated''))))"

definition pinAvailable :: "env \<Rightarrow> PinAvailableRequest request \<Rightarrow> respond" where
  "pinAvailable E c = with_tenant c (\<lambda>tenantID. with_body c (\<lambda>inp.
     handle (PinAvailable E tenantID (pq_pin inp) (pq_except_user_id inp)) (ERR 500)
       (\<lambda>free. JSON 200 (PinAvailableResponse free))))"

definition verifyOwnPin :: "env \<Rightarrow> SetPinRequest request \<Rightarrow> respond" where
  "verifyOwnPin E c = with_caller c (\<lambda>tenantID userID. with_body c (\<lambda>inp.
     handle (VerifyOwnPin E tenantID userID (sp_pin inp)) (ERR 500) (\<lambda>good. JSON 200 (VerifyPinResponse good))))"

definition resolvePin :: "env \<Rightarrow> SetPinRequest request \<Rightarrow> respond" where
  "resolvePin E c = with_tenant c (\<lambda>tenantID. with_body c (\<lambda>inp.
     handle (ResolvePin E tenantID (sp_pin inp))
       (\<lambda>e. if errors_is e ErrInvalidPin then JSON 401 (ErrorResponse ''invalid pin'' ''invalid_pin'') else ERR 500 e)
       (\<lambda>m. JSON 200 (ResolvePinResponse (rm_user_id m) (rm_full_name m) (rm_email m)))))"

definition setMemberPin :: "env \<Rightarrow> SetPinRequest request \<Rightarrow> respond" where
  "setMemberPin E c = with_tenant c (\<lambda>tenantID. requirePerm c PermUserInvite (with_body c (\<lambda>inp.
     handle (SetMemberPin E tenantID (rq_params c ''userId'') (sp_pin inp)) (pin_refused True)
       (\<lambda>_. JSON 200 (MessageResponse ''pin set'')))))"

definition changeOwnPassword :: "env \<Rightarrow> ChangePasswordRequest request \<Rightarrow> respond" where
  "changeOwnPassword E c = (let userID = UserID c in
     if userID = [] then JSON 401 (ErrorResponse ''unauthorized'' [])
     else with_body c (\<lambda>inp.
       handle (ChangeOwnPassword E userID (cp_current_password inp) (cp_new_password inp))
         (\<lambda>e. if errors_is e ErrWrongPassword then JSON 400 (ErrorResponse ''current password is wrong'' ''wrong_password'')
              else if errors_is e ErrWeakPassword then JSON 400 (ErrorResponse ''password too short'' ''weak_password'')
              else ERR 500 e)
         (\<lambda>_. JSON 200 (MessageResponse ''password changed''))))"

definition setMemberPassword :: "env \<Rightarrow> SetPasswordRequest request \<Rightarrow> respond" where
  "setMemberPassword E c = with_tenant c (\<lambda>tenantID. requirePerm c PermUserInvite (with_body c (\<lambda>inp.
     handle (SetMemberPassword E tenantID (rq_params c ''userId'') (sw_new_password inp))
       (\<lambda>e. if errors_is e ErrMemberNotFound then JSON 404 (ErrorResponse ''member not found'' [])
            else if errors_is e ErrWeakPassword then JSON 400 (ErrorResponse ''password too short'' ''weak_password'')
            else ERR 500 e)
       (\<lambda>_. JSON 200 (MessageResponse ''password reset'')))))"

section \<open>Roles and settings of the caller's tenant\<close>

definition listRoles :: "env \<Rightarrow> unit request \<Rightarrow> respond" where
  "listRoles E c = with_tenant c (\<lambda>tenantID. requirePerm c PermTenantManage
     (handle (ListRoles E tenantID) (ERR 500) (\<lambda>rs. JSON 200 (ListRolesResponse rs))))"

definition createRole :: "env \<Rightarrow> CreateRoleRequest request \<Rightarrow> respond" where
  "createRole E c = with_tenant c (\<lambda>tenantID. requirePerm c PermTenantManage (with_body c (\<lambda>inp.
     handle (CreateRole E tenantID (cr_slug inp) (cr_name inp) (cr_permissions inp)) (ERR 400)
       (\<lambda>r. JSON 201 (RoleResponse r)))))"

definition updateRole :: "env \<Rightarrow> UpdateRoleRequest request \<Rightarrow> respond" where
  "updateRole E c = with_tenant c (\<lambda>tenantID. requirePerm c PermTenantManage (with_body c (\<lambda>inp.
     handle (UpdateRole E tenantID (rq_params c ''id'') (ur_name inp) (ur_permissions inp)) (ERR 400)
       (\<lambda>r. JSON 200 (RoleResponse r)))))"

definition deleteRole :: "env \<Rightarrow> unit request \<Rightarrow> respond" where
  "deleteRole E c = with_tenant c (\<lambda>tenantID. requirePerm c PermTenantManage
     (handle (DeleteRole E tenantID (rq_params c ''id'')) (ERR 400) (\<lambda>_. JSON 200 (MessageResponse ''role deleted''))))"

definition updateTenant :: "env \<Rightarrow> UpdateTenantRequest request \<Rightarrow> respond" where
  "updateTenant E c = with_tenant c (\<lambda>tenantID. requirePerm c PermTenantManage (with_body c (\<lambda>inp.
     handle (UpdateTenant E tenantID (ut_name inp) (ut_plan inp)) (ERR 400) (\<lambda>t. JSON 200 (TenantResponse t)))))"

section \<open>Properties\<close>

text \<open>The caller of the examples: Core's headers for a user of tenant \<open>t1\<close> with some permissions.\<close>

definition call :: "string \<Rightarrow> string \<Rightarrow> (string \<Rightarrow> string) \<Rightarrow> 'b \<Rightarrow> 'b request" where
  "call user perms params body = \<lparr>rq_headers = (\<lambda>k. if k = HeaderTenantID then ''t1'' else if k = HeaderUserID then user
       else if k = HeaderPermissions then perms else []),
     rq_params = params, rq_query = (\<lambda>_. []), rq_body = Some body\<rparr>"

text \<open>A member who may invite can make himself owner: \<open>PATCH /members/:userId\<close> checks \<open>user:invite\<close>,
  which the built-in manager role has, but neither compares the role given with the caller's nor
  refuses the caller's own membership.\<close>

theorem inviter_becomes_owner:
  "let perms = join_with CHR '','' (sr_permissions (hd (filter (\<lambda>r. sr_slug r = ''manager'') SystemRoles)));
       out = run_state (updateMemberRole env0
         (call ''u2'' perms (\<lambda>k. if k = ''userId'' then ''u2'' else []) \<lparr>um_role = ''owner''\<rparr>)) shop
   in rs_status (fst out) = 200 \<and> map tu_role_id (tenant_users shop) = [''r1'', ''r2''] \<and>
      map tu_role_id (tenant_users (snd out)) = [''r1'', ''r1'']"
  by code_simp

text \<open>A second tenant with its own owner, who is unknown to the first.\<close>

definition mall :: world where
  "mall = shop\<lparr>
     users := users shop @ [\<lparr>u_id = ''u3'', u_email = ''c@x.io'', u_password_hash = ''#private'', u_google_sub = None,
       u_is_platform_admin = False, u_created_at = 0\<rparr>],
     tenants := tenants shop @ [\<lparr>t_id = ''t2'', t_slug = ''other'', t_name = ''Other'', t_plan = ''starter'',
       t_status = ''active'', t_schema_name = ''tenant_other''\<rparr>],
     tenant_users := tenant_users shop @ [\<lparr>tu_id = ''m3'', tu_user_id = ''u3'', tu_tenant_id = ''t2'', tu_branch_id = [],
       tu_role_id = ''r1'', tu_status = ''active'', tu_created_at = 2\<rparr>]\<rparr>"

text \<open>Passwords are global and tenants are not kept apart by the membership check: whoever may
  invite can add the account of another tenant's owner by its email, reset its password, and
  log in as that owner in the other tenant.\<close>

theorem inviter_takes_over_foreign_account:
  "let (added, w1) = run_state (addMember env0 (call ''u1'' ''user:invite'' (\<lambda>k. if k = ''id'' then ''b1'' else [])
         \<lparr>ar_email = ''c@x.io'', ar_role = ''cashier'', ar_password = [], ar_full_name = [], ar_phone = [], ar_job_title = []\<rparr>)) mall;
       (reset, w2) = run_state (setMemberPassword env0 (call ''u1'' ''user:invite'' (\<lambda>k. if k = ''userId'' then ''u3'' else [])
         \<lparr>sw_new_password = ''pwned''\<rparr>)) w1;
       (token, w3) = run_state (login env0 (call [] [] (\<lambda>_. []) \<lparr>lg_slug = ''other'', lg_email = ''c@x.io'', lg_password = ''pwned''\<rparr>)) w2
   in map rs_status [added, reset, token] = [200, 200, 200] \<and>
      map (\<lambda>d. (dt_user_id d, dt_tenant_id d)) (device_tokens w3) = [(''u1'', ''t1''), (''u3'', ''t2'')]"
  by code_simp

end
