(* ===== verification/AdminHandlers.thy ===== *)
theory AdminHandlers
  imports Handlers
begin

text \<open>
  The handlers of \<open>src/cmd/identity/plugin.go\<close> behind \<open>requirePlatformAdmin\<close>: the tenant comes from the
  path, every tenant can be reached. Backup and restore stream through \<open>pg_dump\<close> and \<open>psql\<close>.
\<close>

section \<open>Plugins and tenants\<close>

definition listTenantPlugins :: "env \<Rightarrow> unit request \<Rightarrow> respond" where
  "listTenantPlugins E c = requirePlatformAdmin c (do {
     ps \<leftarrow> InstalledPlugins E (rq_params c ''id''); JSON 200 (ListTenantPluginsResponse ps) })"

definition installAll :: "env \<Rightarrow> handlers \<Rightarrow> InstallAllRequest request \<Rightarrow> respond" where
  "installAll E h c = requirePlatformAdmin c (with_body c (\<lambda>inp.
     if ia_plugin_name inp = [] then JSON 400 (ErrorResponse ''plugin_name required'' [])
     else handle (InstallAll E (h_core h) (ia_plugin_name inp)) (ERR 500)
            (\<lambda>results. JSON 200 (InstallAllResponse (ia_plugin_name inp) results))))"

definition reconcilePlugin :: "env \<Rightarrow> handlers \<Rightarrow> ReconcilePluginRequest request \<Rightarrow> respond" where
  "reconcilePlugin E h c = requirePlatformAdmin c (with_body c (\<lambda>inp.
     if rp_plugin_name inp = [] then JSON 400 (ErrorResponse ''plugin_name required'' [])
     else handle (ReconcileAll E (h_core h) (rp_plugin_name inp)) (ERR 500)
            (\<lambda>results. JSON 200 (ReconcilePluginResponse (rp_plugin_name inp) results))))"

definition listTenants :: "env \<Rightarrow> unit request \<Rightarrow> respond" where
  "listTenants E c = requirePlatformAdmin c
     (handle (ListTenants E) (ERR 500) (\<lambda>ts. JSON 200 (ListTenantsResponse ts)))"

definition setTenantStatus :: "env \<Rightarrow> SetTenantStatusRequest request \<Rightarrow> respond" where
  "setTenantStatus E c = requirePlatformAdmin c (with_body c (\<lambda>inp.
     handle (SetTenantStatus E (rq_params c ''id'') (st_status inp)) (ERR 400)
       (\<lambda>t. JSON 200 (TenantSummaryResponse t))))"

definition setTenantByAdmin :: "env \<Rightarrow> UpdateTenantRequest request \<Rightarrow> respond" where
  "setTenantByAdmin E c = requirePlatformAdmin c (with_body c (\<lambda>inp.
     handle (UpdateTenant E (rq_params c ''id'') (ut_name inp) (ut_plan inp)) (ERR 400) (\<lambda>_.
     handle (GetTenant E (rq_params c ''id'')) (ERR 500) (\<lambda>t. JSON 200 (TenantSummaryResponse t)))))"

section \<open>Members, roles and branches of any tenant\<close>

definition adminListMembers :: "env \<Rightarrow> unit request \<Rightarrow> respond" where
  "adminListMembers E c = requirePlatformAdmin c
     (handle (ListMembers E (rq_params c ''id'')) (ERR 500) (\<lambda>ms. JSON 200 (ListMembersResponse ms)))"

definition adminUpdateMemberRole :: "env \<Rightarrow> UpdateMemberRoleRequest request \<Rightarrow> respond" where
  "adminUpdateMemberRole E c = requirePlatformAdmin c (with_body c (\<lambda>inp.
     handle (UpdateMemberRole E (rq_params c ''id'') (rq_params c ''userId'') (um_role inp))
       (member_refused ''cannot demote the tenant's last manager'' 400)
       (\<lambda>_. JSON 200 (MessageResponse ''role updated''))))"

definition adminSetMemberStatus :: "env \<Rightarrow> SetMemberStatusRequest request \<Rightarrow> respond" where
  "adminSetMemberStatus E c = requirePlatformAdmin c (with_body c (\<lambda>inp.
     handle (SetMemberStatus E (rq_params c ''id'') (rq_params c ''userId'') (sm_status inp))
       (member_refused ''cannot suspend the tenant's last manager'' 400)
       (\<lambda>_. JSON 200 (MessageResponse ''member status updated''))))"

definition adminRemoveMember :: "env \<Rightarrow> unit request \<Rightarrow> respond" where
  "adminRemoveMember E c = requirePlatformAdmin c
     (handle (RemoveMember E (rq_params c ''id'') (rq_params c ''userId''))
       (member_refused ''cannot remove the tenant's last manager'' 500)
       (\<lambda>_. JSON 200 (MessageResponse ''member removed'')))"

definition adminSetMemberPassword :: "env \<Rightarrow> SetPasswordRequest request \<Rightarrow> respond" where
  "adminSetMemberPassword E c = requirePlatformAdmin c (with_body c (\<lambda>inp.
     handle (SetMemberPassword E (rq_params c ''id'') (rq_params c ''userId'') (sw_new_password inp))
       (\<lambda>e. if errors_is e ErrMemberNotFound then JSON 404 (ErrorResponse ''member not found'' []) else ERR 400 e)
       (\<lambda>_. JSON 200 (MessageResponse ''password reset''))))"

definition adminAddMember :: "env \<Rightarrow> AddMemberRequest request \<Rightarrow> respond" where
  "adminAddMember E c = requirePlatformAdmin c (with_body c (\<lambda>inp.
     handle (ListBranches E (rq_params c ''id'')) (ERR 500) (\<lambda>bs.
       case bs of [] \<Rightarrow> JSON 400 (ErrorResponse ''tenant has no branch to add the member to'' [])
       | b # _ \<Rightarrow> handle (AddMember E (rq_params c ''id'') (bi_id b) (add_input inp)) (ERR 400)
           (\<lambda>_. JSON 200 (AddMemberResponse ''member added'')))))"

definition adminListRoles :: "env \<Rightarrow> unit request \<Rightarrow> respond" where
  "adminListRoles E c = requirePlatformAdmin c
     (handle (ListRoles E (rq_params c ''id'')) (ERR 500) (\<lambda>rs. JSON 200 (ListRolesResponse rs)))"

definition adminListBranches :: "env \<Rightarrow> unit request \<Rightarrow> respond" where
  "adminListBranches E c = requirePlatformAdmin c
     (handle (ListBranches E (rq_params c ''id'')) (ERR 500) (\<lambda>bs. JSON 200 (ListBranchesResponse bs)))"

definition adminCreateBranch :: "env \<Rightarrow> CreateBranchRequest request \<Rightarrow> respond" where
  "adminCreateBranch E c = requirePlatformAdmin c (with_body c (\<lambda>inp.
     handle (CreateBranch E (rq_params c ''id'') (cb_slug inp) (cb_name inp)) (ERR 400)
       (\<lambda>b. JSON 201 (BranchResponse b))))"

definition adminUpdateBranch :: "env \<Rightarrow> UpdateBranchRequest request \<Rightarrow> respond" where
  "adminUpdateBranch E c = requirePlatformAdmin c (with_body c (\<lambda>inp.
     handle (UpdateBranch E (rq_params c ''id'') (rq_params c ''branchId'') (ub_name inp) (ub_status inp)) (ERR 400)
       (\<lambda>b. JSON 200 (BranchResponse b))))"

definition adminCreateRole :: "env \<Rightarrow> CreateRoleRequest request \<Rightarrow> respond" where
  "adminCreateRole E c = requirePlatformAdmin c (with_body c (\<lambda>inp.
     handle (CreateRole E (rq_params c ''id'') (cr_slug inp) (cr_name inp) (cr_permissions inp)) (ERR 400)
       (\<lambda>r. JSON 201 (RoleResponse r))))"

definition adminUpdateRole :: "env \<Rightarrow> UpdateRoleRequest request \<Rightarrow> respond" where
  "adminUpdateRole E c = requirePlatformAdmin c (with_body c (\<lambda>inp.
     handle (UpdateRole E (rq_params c ''id'') (rq_params c ''roleId'') (ur_name inp) (ur_permissions inp)) (ERR 400)
       (\<lambda>r. JSON 200 (RoleResponse r))))"

definition adminDeleteRole :: "env \<Rightarrow> unit request \<Rightarrow> respond" where
  "adminDeleteRole E c = requirePlatformAdmin c
     (handle (DeleteRole E (rq_params c ''id'') (rq_params c ''roleId'')) (ERR 400)
       (\<lambda>_. JSON 200 (MessageResponse ''role deleted'')))"

definition adminListPermissions :: "unit request \<Rightarrow> respond" where
  "adminListPermissions c = requirePlatformAdmin c (JSON 200 (ListPermissionsResponse Catalog))"

section \<open>Platform admins\<close>

definition listPlatformAdmins :: "env \<Rightarrow> unit request \<Rightarrow> respond" where
  "listPlatformAdmins E c = requirePlatformAdmin c
     (handle (ListPlatformAdmins E) (ERR 500) (\<lambda>as. JSON 200 (ListPlatformAdminsResponse as)))"

definition grantPlatformAdmin :: "env \<Rightarrow> GrantPlatformAdminRequest request \<Rightarrow> respond" where
  "grantPlatformAdmin E c = requirePlatformAdmin c (with_body c (\<lambda>inp.
     if ga_email inp = [] then JSON 400 (ErrorResponse ''email required'' [])
     else handle (GrantPlatformAdmin E (ga_email inp)) (ERR 400) (\<lambda>a. JSON 200 (PlatformAdminResponse a))))"

definition revokePlatformAdmin :: "env \<Rightarrow> unit request \<Rightarrow> respond" where
  "revokePlatformAdmin E c = requirePlatformAdmin c
     (handle (RevokePlatformAdmin E (rq_params c ''email'')) (ERR 400)
       (\<lambda>_. JSON 200 (MessageResponse ''platform admin revoked'')))"

section \<open>Backup and restore\<close>

text \<open>A dump is streamed with status 200; when \<open>DumpSchema\<close> fails the error goes to a header. The
  file name is the label with the current time.\<close>

definition backupTenant :: "env \<Rightarrow> handlers \<Rightarrow> unit request \<Rightarrow> respond" where
  "backupTenant E h c = requirePlatformAdmin c
     (handle (GetTenant E (rq_params c ''id'')) (\<lambda>_. JSON 404 (ErrorResponse ''tenant not found'' [])) (\<lambda>t. do {
       _ \<leftarrow> time_now E;
       JSON 200 (SqlDump (ts_slug t) (DumpSchema (h_exec h) (h_dsn h) (''tenant_'' @ ts_slug t))) }))"

definition backupAll :: "env \<Rightarrow> handlers \<Rightarrow> unit request \<Rightarrow> respond" where
  "backupAll E h c = requirePlatformAdmin c (do {
     _ \<leftarrow> time_now E;
     JSON 200 (SqlDump ''full'' (DumpAll (h_exec h) (h_dsn h))) })"

text \<open>\<open>upload\<close>: an error when the form has no file or it cannot be opened.\<close>

definition restoreFromUpload :: "handlers \<Rightarrow> error option \<Rightarrow> (world, error + unit) state" where
  "restoreFromUpload h upload =
     (case upload of Some e \<Rightarrow> fail e
      | None \<Rightarrow> State (\<lambda>w. case Restore (h_exec h) (h_dsn h) of
          Some e \<Rightarrow> (Inl e, w) | None \<Rightarrow> (Inr (), h_restored h w)))"

definition restoreTenant :: "handlers \<Rightarrow> error option \<Rightarrow> unit request \<Rightarrow> respond" where
  "restoreTenant h upload c = requirePlatformAdmin c
     (handle (restoreFromUpload h upload) (ERR 400) (\<lambda>_. JSON 200 (MessageResponse ''restore complete'')))"

definition restoreAll :: "handlers \<Rightarrow> error option \<Rightarrow> unit request \<Rightarrow> respond" where
  "restoreAll h upload c = requirePlatformAdmin c
     (handle (restoreFromUpload h upload) (ERR 400) (\<lambda>_. JSON 200 (MessageResponse ''restore complete'')))"

end
