(* ===== verification/Routes.thy ===== *)
theory Routes
  imports AdminHandlers
begin

text \<open>
  \<open>registerRoutes\<close> of \<open>src/cmd/identity/plugin.go\<close>: the table of routes, the public paths and the
  permissions Core enforces at its gateway; and what the handlers behind these routes do with a
  caller who lacks the permission.
\<close>

section \<open>The route table\<close>

definition public_paths :: "string list" where
  "public_paths = [''/auth/register'', ''/auth/login'', ''/auth/google'', ''/auth/config'',
     ''/auth/slug-available'', ''/auth/slug-suggest'']"

text \<open>The routes in the order of their registration; the handler of each is named in the source's line.\<close>

definition entry_routes :: "(string \<times> string) list" where
  "entry_routes = [
    (''POST'', ''/auth/register''), (''GET'', ''/auth/slug-available''),
    (''GET'', ''/auth/slug-suggest''), (''POST'', ''/auth/login''), (''GET'', ''/auth/config''),
    (''POST'', ''/auth/google''), (''POST'', ''/auth/logout''), (''GET'', ''/me''),
    (''POST'', ''/plugins/install''), (''POST'', ''/plugins/uninstall''),
    (''GET'', ''/tenants/:id/plugins''), (''POST'', ''/plugins/install-all''),
    (''POST'', ''/plugins/reconcile''), (''GET'', ''/tenants''), (''GET'', ''/platform-admins''),
    (''POST'', ''/platform-admins''), (''DELETE'', ''/platform-admins/:email'')]"

definition member_routes :: "(string \<times> string) list" where
  "member_routes = [
    (''GET'', ''/branches''), (''POST'', ''/branches''), (''PATCH'', ''/branches/:id''),
    (''POST'', ''/branches/:id/members''), (''POST'', ''/branches/switch''), (''GET'', ''/members''),
    (''PATCH'', ''/members/:userId''), (''PATCH'', ''/members/:userId/status''),
    (''DELETE'', ''/members/:userId''), (''PATCH'', ''/me/pin''),
    (''PATCH'', ''/members/:userId/pin''), (''POST'', ''/members/pin/available''),
    (''POST'', ''/me/pin/verify''), (''POST'', ''/me/pin/resolve''), (''PATCH'', ''/me/profile''),
    (''PATCH'', ''/me/password''), (''PATCH'', ''/members/:userId/password'')]"

definition role_routes :: "(string \<times> string) list" where
  "role_routes = [
    (''GET'', ''/roles''), (''POST'', ''/roles''), (''PATCH'', ''/roles/:id''),
    (''DELETE'', ''/roles/:id''), (''PATCH'', ''/tenant'')]"

definition admin_routes :: "(string \<times> string) list" where
  "admin_routes = [
    (''PATCH'', ''/tenants/:id/status''), (''PATCH'', ''/tenants/:id''),
    (''GET'', ''/tenants/:id/members''), (''POST'', ''/tenants/:id/members''),
    (''PATCH'', ''/tenants/:id/members/:userId/role''),
    (''PATCH'', ''/tenants/:id/members/:userId/status''),
    (''PATCH'', ''/tenants/:id/members/:userId/password''),
    (''DELETE'', ''/tenants/:id/members/:userId''), (''GET'', ''/tenants/:id/roles''),
    (''GET'', ''/tenants/:id/branches''), (''POST'', ''/tenants/:id/branches''),
    (''PATCH'', ''/tenants/:id/branches/:branchId''), (''POST'', ''/tenants/:id/roles''),
    (''PATCH'', ''/tenants/:id/roles/:roleId''), (''DELETE'', ''/tenants/:id/roles/:roleId''),
    (''GET'', ''/permissions'')]"

definition backup_routes :: "(string \<times> string) list" where
  "backup_routes = [
    (''GET'', ''/tenants/:id/backup''), (''POST'', ''/tenants/:id/restore''),
    (''GET'', ''/platform/db/backup''), (''POST'', ''/platform/db/restore'')]"

definition json_routes :: "(string \<times> string) list" where
  "json_routes = entry_routes @ member_routes @ role_routes @ admin_routes @ backup_routes"

definition gated_routes :: "(string \<times> string \<times> string) list" where
  "gated_routes = [
    (''GET'', ''/branches'', PermBranchRead), (''POST'', ''/branches'', PermBranchWrite),
    (''PATCH'', ''/branches/:id'', PermBranchManage),
    (''POST'', ''/branches/:id/members'', PermUserInvite), (''GET'', ''/members'', PermUserRead),
    (''PATCH'', ''/members/:userId'', PermUserInvite), (''DELETE'', ''/members/:userId'', PermUserInvite),
    (''PATCH'', ''/members/:userId/status'', PermUserInvite),
    (''PATCH'', ''/members/:userId/pin'', PermUserInvite),
    (''POST'', ''/members/pin/available'', PermUserInvite),
    (''PATCH'', ''/members/:userId/password'', PermUserInvite),
    (''POST'', ''/plugins/install'', PermPluginInstall),
    (''POST'', ''/plugins/uninstall'', PermPluginUninstall), (''GET'', ''/roles'', PermTenantManage),
    (''POST'', ''/roles'', PermTenantManage), (''PATCH'', ''/roles/:id'', PermTenantManage),
    (''DELETE'', ''/roles/:id'', PermTenantManage), (''PATCH'', ''/tenant'', PermTenantManage)]"

definition registerRoutes :: "Plugin \<Rightarrow> Plugin" where
  "registerRoutes p =
     (let p = fold Public public_paths p;
          p = Internal ''POST'' ''/internal/introspect'' p;
          p = Static ''/console'' p;
          p = fold (\<lambda>(meth, path). Handle meth path) json_routes p
      in fold (\<lambda>(meth, path, perm). RequirePermission meth path perm) gated_routes p)"

section \<open>Properties\<close>

text \<open>What Core learns of the program: the introspection endpoint is served but not advertised; no
  method and path is registered twice; a caller without a token reaches exactly the six
  \<open>/auth\<close> routes and the console; every permission declared belongs to an advertised route,
  so none is lost to a misspelt path, and no route is both public and gated.\<close>

theorem manifest_of_identity:
  "let p = registerRoutes (new_plugin ''identity'' ''1.0.0'');
       rs = mf_routes (buildManifest p);
       gated = filter (\<lambda>r. rt_permission r \<noteq> []) rs
   in (''POST'', ''/internal/introspect'') \<in> set (pl_engine p) \<and>
      ''/internal/introspect'' \<notin> set (map rt_path rs) \<and>
      distinct (map (\<lambda>r. (rt_method r, rt_path r)) rs) \<and>
      map rt_path (filter rt_public rs) =
        [''/console/*'', ''/auth/register'', ''/auth/slug-available'', ''/auth/slug-suggest'', ''/auth/login'',
         ''/auth/config'', ''/auth/google''] \<and>
      set (map (\<lambda>r. (rt_method r, rt_path r, rt_permission r)) gated) = set gated_routes \<and>
      filter rt_public gated = []"
  by code_simp

text \<open>A request with the headers and parameters of another and a JSON body of its own.\<close>

definition with_json :: "'b option \<Rightarrow> 'a request \<Rightarrow> 'b request" where
  "with_json b c = \<lparr>rq_headers = rq_headers c, rq_params = rq_params c, rq_query = rq_query c, rq_body = b\<rparr>"

text \<open>The handler answers 401 or 403 and leaves the world as it is: not even a database call is made.\<close>

definition refuses :: "respond \<Rightarrow> bool" where
  "refuses m \<longleftrightarrow> (\<forall>w. rs_status (fst (run_state m w)) \<in> {401, 403} \<and> snd (run_state m w) = w)"

lemma HasPerm_with_json [simp]: "HasPerm (with_json b c) perm = HasPerm c perm"
  by (simp add: HasPerm_def with_json_def)

lemma isPlatformAdmin_with_json [simp]: "isPlatformAdmin (with_json b c) = isPlatformAdmin c"
  by (simp add: isPlatformAdmin_def UserType_def with_json_def)

lemma refuses_gated:
  "HasPerm c perm \<or> refuses (with_tenant c (\<lambda>T. requirePerm c perm (k T)))"
  "HasPerm c perm \<or> refuses (with_tenant (with_json b c) (\<lambda>T. requirePerm (with_json b c) perm (k T)))"
  by (simp_all add: refuses_def with_tenant_def requirePerm_def JSON_def Let_def)

lemma refuses_admin: "\<not> isPlatformAdmin c \<Longrightarrow> refuses (requirePlatformAdmin c k)"
  by (simp add: refuses_def requirePlatformAdmin_def JSON_def)

lemmas admin_handler_defs =
  listTenantPlugins_def installAll_def reconcilePlugin_def listTenants_def setTenantStatus_def setTenantByAdmin_def
  adminListMembers_def adminUpdateMemberRole_def adminSetMemberStatus_def adminRemoveMember_def
  adminSetMemberPassword_def adminAddMember_def adminListRoles_def adminListBranches_def adminCreateBranch_def
  adminUpdateBranch_def adminCreateRole_def adminUpdateRole_def adminDeleteRole_def adminListPermissions_def
  listPlatformAdmins_def grantPlatformAdmin_def revokePlatformAdmin_def backupTenant_def backupAll_def
  restoreTenant_def restoreAll_def

lemmas gated_handler_defs =
  createBranch_def updateBranch_def addMember_def listMembers_def updateMemberRole_def removeMember_def
  setMemberStatus_def setMemberPin_def setMemberPassword_def listRoles_def createRole_def updateRole_def
  deleteRole_def updateTenant_def

definition route_permission :: "string \<Rightarrow> string \<Rightarrow> string option" where
  "route_permission meth path = map_of (map (\<lambda>(m, p, perm). ((m, p), perm)) gated_routes) (meth, path)"

lemma route_permissions:
  "route_permission ''POST'' ''/branches'' = Some PermBranchWrite"
  "route_permission ''PATCH'' ''/branches/:id'' = Some PermBranchManage"
  "route_permission ''POST'' ''/branches/:id/members'' = Some PermUserInvite"
  "route_permission ''GET'' ''/members'' = Some PermUserRead"
  "route_permission ''PATCH'' ''/members/:userId'' = Some PermUserInvite"
  "route_permission ''DELETE'' ''/members/:userId'' = Some PermUserInvite"
  "route_permission ''PATCH'' ''/members/:userId/status'' = Some PermUserInvite"
  "route_permission ''PATCH'' ''/members/:userId/pin'' = Some PermUserInvite"
  "route_permission ''PATCH'' ''/members/:userId/password'' = Some PermUserInvite"
  "route_permission ''GET'' ''/roles'' = Some PermTenantManage"
  "route_permission ''POST'' ''/roles'' = Some PermTenantManage"
  "route_permission ''PATCH'' ''/roles/:id'' = Some PermTenantManage"
  "route_permission ''DELETE'' ''/roles/:id'' = Some PermTenantManage"
  "route_permission ''PATCH'' ''/tenant'' = Some PermTenantManage"
  by code_simp+

lemma handler_gates:
  "HasPerm c PermBranchWrite \<or> refuses (createBranch E (with_json b0 c))"
  "HasPerm c PermBranchManage \<or> refuses (updateBranch E (with_json b1 c))"
  "HasPerm c PermUserInvite \<or> refuses (addMember E (with_json b2 c))"
  "HasPerm c PermUserRead \<or> refuses (listMembers E c)"
  "HasPerm c PermUserInvite \<or> refuses (updateMemberRole E (with_json b4 c))"
  "HasPerm c PermUserInvite \<or> refuses (removeMember E c)"
  "HasPerm c PermUserInvite \<or> refuses (setMemberStatus E (with_json b6 c))"
  "HasPerm c PermUserInvite \<or> refuses (setMemberPin E (with_json b7 c))"
  "HasPerm c PermUserInvite \<or> refuses (setMemberPassword E (with_json b8 c))"
  "HasPerm c PermTenantManage \<or> refuses (listRoles E c)"
  "HasPerm c PermTenantManage \<or> refuses (createRole E (with_json b10 c))"
  "HasPerm c PermTenantManage \<or> refuses (updateRole E (with_json b11 c))"
  "HasPerm c PermTenantManage \<or> refuses (deleteRole E c)"
  "HasPerm c PermTenantManage \<or> refuses (updateTenant E (with_json b13 c))"
  unfolding gated_handler_defs by (rule refuses_gated)+

text \<open>C20. Defence in depth on fourteen of the eighteen gated routes: a caller without the permission of the route
  is refused by its handler as well, whatever the tenant, the parameters and the body, before
  anything is read or written. The fourteen are listed below; the handlers of the other four,
  \<open>listBranches\<close>, \<open>pinAvailable\<close>, \<open>install\<close> and \<open>uninstall\<close>, leave the check to Core.\<close>

theorem handlers_check_permissions:
  fixes c :: "unit request"
  shows "list_all (\<lambda>(meth, path, m). \<exists>perm. route_permission meth path = Some perm \<and> (HasPerm c perm \<or> refuses m))
    [
       (''POST'', ''/branches'', createBranch E (with_json b1 c)),
       (''PATCH'', ''/branches/:id'', updateBranch E (with_json b2 c)),
       (''POST'', ''/branches/:id/members'', addMember E (with_json b3 c)),
       (''GET'', ''/members'', listMembers E c),
       (''PATCH'', ''/members/:userId'', updateMemberRole E (with_json b4 c)),
       (''DELETE'', ''/members/:userId'', removeMember E c),
       (''PATCH'', ''/members/:userId/status'', setMemberStatus E (with_json b5 c)),
       (''PATCH'', ''/members/:userId/pin'', setMemberPin E (with_json b6 c)),
       (''PATCH'', ''/members/:userId/password'', setMemberPassword E (with_json b7 c)),
       (''GET'', ''/roles'', listRoles E c), (''POST'', ''/roles'', createRole E (with_json b8 c)),
       (''PATCH'', ''/roles/:id'', updateRole E (with_json b9 c)),
       (''DELETE'', ''/roles/:id'', deleteRole E c),
       (''PATCH'', ''/tenant'', updateTenant E (with_json b10 c))]"
  unfolding list.pred_inject prod.case route_permissions option.inject
  by (intro conjI TrueI exI) (rule refl handler_gates list.pred_inject(1))+

text \<open>C21. The operations on any tenant and on the platform are reserved to platform admins: every one of
  their handlers refuses every other caller before anything is read or written, the permissions
  the caller's role may have notwithstanding.\<close>

theorem admin_handlers_are_reserved:
  fixes c :: "unit request"
  shows "isPlatformAdmin c \<or> list_all refuses
    [
       listTenantPlugins E c, installAll E h (with_json b1 c), reconcilePlugin E h (with_json b2 c),
       listTenants E c, setTenantStatus E (with_json b3 c), setTenantByAdmin E (with_json b4 c),
       adminListMembers E c, adminUpdateMemberRole E (with_json b5 c),
       adminSetMemberStatus E (with_json b6 c), adminRemoveMember E c,
       adminSetMemberPassword E (with_json b7 c), adminAddMember E (with_json b8 c), adminListRoles E c,
       adminListBranches E c, adminCreateBranch E (with_json b9 c), adminUpdateBranch E (with_json b10 c),
       adminCreateRole E (with_json b11 c), adminUpdateRole E (with_json b12 c), adminDeleteRole E c,
       adminListPermissions c, listPlatformAdmins E c, grantPlatformAdmin E (with_json b13 c),
       revokePlatformAdmin E c, backupTenant E h c, backupAll E h c, restoreTenant h upload c,
       restoreAll h upload c]"
  by (cases "isPlatformAdmin c") (simp_all add: admin_handler_defs refuses_admin)

end
