(* ===== verification/Isolation.thy ===== *)
theory Isolation
  imports Routes
begin

text \<open>
  Isolation of tenants. All tenants share the public tables, told apart by a \<open>tenant_id\<close> column, and
  have a Postgres schema each. \<open>inv T w0 w\<close> says that between \<open>w0\<close> and \<open>w\<close> only rows of the tenant
  \<open>T\<close> and its own schemas changed and that the primary keys stayed unique. Every operation that a
  request for tenant \<open>T\<close> can reach preserves it; the locale \<open>owned_table\<close> has the proof once for
  every table. The accounts in \<open>users\<close> are shared by design and not part of it.
\<close>

section \<open>What one tenant must leave alone\<close>

definition kept :: "('r \<Rightarrow> string) \<Rightarrow> (world \<Rightarrow> 'r list) \<Rightarrow> ('r \<Rightarrow> bool) \<Rightarrow> world \<Rightarrow> world \<Rightarrow> bool" where
  "kept key rows foreign w0 w \<longleftrightarrow> keyed key rows w \<and> filter foreign (rows w) = filter foreign (rows w0)"

definition own_schemas :: "string \<Rightarrow> world \<Rightarrow> string set" where
  "own_schemas T w = t_schema_name ` {t \<in> set (tenants w). t_id t = T}"

text \<open>A permission row belongs to another tenant (or to the system) when its role does.\<close>

definition foreign_permission :: "string \<Rightarrow> world \<Rightarrow> role_permission \<Rightarrow> bool" where
  "foreign_permission T w0 rp \<longleftrightarrow> (\<exists>r \<in> set (roles w0). r_tenant_id r \<noteq> T \<and> r_id r = rp_role_id rp)"

definition inv :: "string \<Rightarrow> world \<Rightarrow> world \<Rightarrow> bool" where
  "inv T w0 w \<longleftrightarrow>
     map (\<lambda>t. (t_id t, t_slug t, t_schema_name t)) (tenants w) = map (\<lambda>t. (t_id t, t_slug t, t_schema_name t)) (tenants w0) \<and>
     kept t_id tenants (\<lambda>t. t_id t \<noteq> T) w0 w \<and>
     kept b_id branches (\<lambda>b. b_tenant_id b \<noteq> T) w0 w \<and>
     kept tu_id tenant_users (\<lambda>m. tu_tenant_id m \<noteq> T) w0 w \<and>
     kept r_id roles (\<lambda>r. r_tenant_id r \<noteq> T) w0 w \<and>
     kept rp_id role_permissions (foreign_permission T w0) w0 w \<and>
     kept dt_id device_tokens (\<lambda>d. dt_tenant_id d \<noteq> T) w0 w \<and>
     kept pi_id plugin_installs (\<lambda>p. pi_tenant_id p \<noteq> T) w0 w \<and>
     kept mh_id histories (\<lambda>h. mh_tenant_id h \<noteq> T) w0 w \<and>
     (\<forall>s. s \<notin> own_schemas T w0 \<longrightarrow> schemas w s = schemas w0 s)"

abbreviation preserves :: "(world \<Rightarrow> bool) \<Rightarrow> world \<Rightarrow> world \<Rightarrow> bool" where
  "preserves I w w' \<equiv> I w \<longrightarrow> I w'"

interpretation kept: step_preorder "preserves I" for I
  by unfold_locales blast+

lemma guarantees_preserves: "guarantees (preserves I) m \<longleftrightarrow> (\<forall>w. I w \<longrightarrow> wp m (\<lambda>_. I) w)"
  unfolding guarantees_def wp_def case_prod_unfold by blast

section \<open>A table with owners\<close>

locale owned_table = ent_table rows put key "\<lambda>_. True"
  for rows :: "world \<Rightarrow> 'r list" and put and key +
  fixes foreign :: "'r \<Rightarrow> bool" and w0 :: world and I :: "world \<Rightarrow> bool"
  assumes I_kept: "I w \<Longrightarrow> kept key rows foreign w0 w"
    and I_put: "I w \<Longrightarrow> kept key rows foreign w0 (put f w) \<Longrightarrow> I (put f w)"
    and I_tick: "I w \<Longrightarrow> I (w\<lparr>tick := n\<rparr>)"
begin

abbreviation taken :: "string set" where
  "taken \<equiv> key ` set (filter foreign (rows w0))"

lemma own_key: "I w \<Longrightarrow> x \<in> set (rows w) \<Longrightarrow> \<not> foreign x \<Longrightarrow> key x \<notin> taken"
  using I_kept [of w] unfolding kept_def keyed_def
  by (metis (mono_tags, lifting) distinct_map imageE inj_on_contraD mem_Collect_eq set_filter)

lemma was_there: "I w \<Longrightarrow> x \<in> set (rows w) \<Longrightarrow> foreign x \<Longrightarrow> x \<in> set (rows w0)"
  using I_kept [of w] unfolding kept_def by (metis (mono_tags, lifting) mem_Collect_eq set_filter)

lemma taken_foreign: "I w \<Longrightarrow> x \<in> set (rows w) \<Longrightarrow> key x \<notin> taken \<Longrightarrow> \<not> foreign x"
  using was_there [of w x] by force

lemma written:
  assumes "I w" and "distinct (map key (f (rows w)))" and "filter foreign (f (rows w)) = filter foreign (rows w)"
  shows "I (put f (w\<lparr>tick := n\<rparr>))"
proof (rule I_put [OF I_tick [OF assms(1)]])
  show "kept key rows foreign w0 (put f (w\<lparr>tick := n\<rparr>))"
    using I_kept [OF assms(1)] assms(2,3) by (simp add: kept_def keyed_def rows_put rows_tick)
qed

lemma stable: "stable rows"
  by (simp add: stable_def rows_tick)

lemma only:
  assumes "\<And>e. guarantees (preserves I) (h e)"
    and "\<And>x. P x \<Longrightarrow> (\<not> foreign x \<Longrightarrow> key x \<notin> taken) \<Longrightarrow> guarantees (preserves I) (k x)"
  shows "guarantees (preserves I) (handle (ent_only E rows P) h k)"
  unfolding guarantees_preserves wp_handle
proof (intro allI impI, rule wp_ent_only [OF stable], goal_cases)
  case (4 w n x)
  then have "x \<in> set (filter P (rows w))" by simp
  then show ?case
    using assms(2) own_key [OF 4(1)] I_tick [OF 4(1)] unfolding sum.case guarantees_preserves by simp
qed (use assms(1) I_tick in \<open>simp_all add: guarantees_preserves\<close>)

lemma only':
  assumes "\<And>x. P x \<Longrightarrow> (\<not> foreign x \<Longrightarrow> key x \<notin> taken) \<Longrightarrow> guarantees (preserves I) (k x)"
  shows "guarantees (preserves I) (attempt (ent_only E rows P) h k)"
  unfolding attempt_def by (rule only, rule kept.fail, rule assms)

lemma own_get:
  assumes "\<And>e. guarantees (preserves I) (h e)"
    and "\<And>x. key x = i \<Longrightarrow> (\<not> foreign x \<Longrightarrow> i \<notin> taken) \<Longrightarrow> guarantees (preserves I) (k x)"
  shows "guarantees (preserves I) (handle (ent_get E rows key i) h k)"
  unfolding ent_get_def by (rule only) (use assms in auto)

lemma create:
  assumes "\<not> foreign r" and "\<And>e. guarantees (preserves I) (h e)"
    and "key r \<notin> taken \<Longrightarrow> guarantees (preserves I) (k r)"
  shows "guarantees (preserves I) (handle (ent_create E rows put key clash r) h k)"
  unfolding guarantees_preserves wp_handle
proof (intro allI impI, rule wp_ent_create, goal_cases)
  case (2 w n)
  have new: "I (put (\<lambda>rs. rs @ [r]) (w\<lparr>tick := n\<rparr>))"
    using 2 assms(1) I_kept [of w] by (intro written) (auto simp: rows_tick kept_def keyed_def)
  moreover from own_key [OF new, of r] assms(1) have "key r \<notin> taken"
    by (simp add: rows_put rows_tick)
  ultimately show ?case using assms(3) by (simp add: guarantees_preserves)
qed (use assms(2) I_tick in \<open>simp add: guarantees_preserves\<close>)

lemma create_row: "\<not> foreign r \<Longrightarrow> guarantees (preserves I) (ent_create E rows put key clash r)"
  unfolding guarantees_preserves
proof (intro allI impI, rule wp_ent_create, goal_cases)
  case (2 w n)
  then show ?case using I_kept [of w] by (intro written) (auto simp: rows_tick kept_def keyed_def)
qed (use I_tick in simp)

lemma map_key: "(\<And>x. key (f x) = key x) \<Longrightarrow> I w \<Longrightarrow> distinct (map key (map (\<lambda>r. if P r then f r else r) (rows w)))"
  using I_kept [of w] map_key_update [of key f] by (simp only: kept_def keyed_def)

lemma map_foreign:
  assumes "\<And>x. foreign (f x) = foreign x" and "\<And>x. x \<in> set xs \<Longrightarrow> foreign x \<Longrightarrow> \<not> P x"
  shows "filter foreign (map (\<lambda>r. if P r then f r else r) xs) = filter foreign xs"
  using assms(2) by (induction xs) (auto simp: assms(1))

lemma update_one [guarantees_intro]:
  assumes "i \<notin> taken" and "\<And>x. key (f x) = key x" and "\<And>x. foreign (f x) = foreign x"
  shows "guarantees (preserves I) (ent_update_one E rows put key clash i f)"
  unfolding guarantees_preserves
proof (intro allI impI, rule wp_ent_update_one, goal_cases)
  case (2 w n r rs)
  show ?case using taken_foreign [OF 2(1)] assms
    by (intro written [OF 2(1)] map_key map_foreign 2(1)) auto
qed (use I_tick in simp)

lemma updated:
  assumes "i \<notin> taken" and "\<And>x. key (f x) = key x" and "\<And>x. foreign (f x) = foreign x"
    and "\<And>e. guarantees (preserves I) (h e)" and "\<And>x. key x = i \<Longrightarrow> guarantees (preserves I) (k x)"
  shows "guarantees (preserves I) (handle (ent_update_one E rows put key clash i f) h k)"
  unfolding guarantees_preserves wp_handle
proof (intro allI impI, rule wp_ent_update_one, goal_cases)
  case (2 w n r rs)
  then have "r \<in> set (filter (\<lambda>r. key r = i) (rows (w\<lparr>tick := n\<rparr>)))" by simp
  moreover have "I (put (map (\<lambda>r. if key r = i then f r else r)) (w\<lparr>tick := n\<rparr>))"
    using taken_foreign [OF 2(1)] assms by (intro written [OF 2(1)] map_key map_foreign 2(1)) auto
  ultimately show ?case using assms(2,5) by (simp add: guarantees_preserves)
qed (use assms(4) I_tick in \<open>simp add: guarantees_preserves\<close>)

lemma update [guarantees_intro]:
  assumes "\<And>x. x \<in> set (rows w0) \<Longrightarrow> foreign x \<Longrightarrow> \<not> P x" and "\<And>x. key (f x) = key x"
    and "\<And>x. foreign (f x) = foreign x"
  shows "guarantees (preserves I) (ent_update E rows put P f)"
  unfolding guarantees_preserves
proof (intro allI impI, rule wp_ent_update, goal_cases)
  case (2 w n)
  show ?case using was_there [OF 2] assms by (intro written [OF 2] map_key map_foreign 2) auto
qed (use I_tick in simp)

lemma delete [guarantees_intro]:
  assumes "\<And>x. x \<in> set (rows w0) \<Longrightarrow> foreign x \<Longrightarrow> \<not> P x"
  shows "guarantees (preserves I) (ent_delete E rows put referenced P)"
  unfolding guarantees_preserves
proof (intro allI impI, rule wp_ent_delete, goal_cases)
  case (2 w n)
  have "filter foreign (filter (\<lambda>r. \<not> P r) (rows w)) = filter foreign (rows w)"
    using was_there [OF 2] assms unfolding filter_filter by (intro filter_cong) auto
  then show ?case using I_kept [OF 2]
    by (intro written [OF 2]) (simp_all add: kept_def keyed_def distinct_map_filter)
qed (use I_tick in simp)

lemma delete_one [guarantees_intro]:
  assumes "i \<notin> taken"
  shows "guarantees (preserves I) (ent_delete_one E rows put referenced key i)"
  unfolding ent_delete_one_def using assms by (intro kept.attempt delete guarantees_if kept.ok kept.fail) auto

end

section \<open>The tables of the program\<close>

lemma inv_refl: "keyed t_id tenants w \<Longrightarrow> keyed b_id branches w \<Longrightarrow> keyed tu_id tenant_users w \<Longrightarrow> keyed r_id roles w \<Longrightarrow>
    keyed rp_id role_permissions w \<Longrightarrow> keyed dt_id device_tokens w \<Longrightarrow> keyed pi_id plugin_installs w \<Longrightarrow>
    keyed mh_id histories w \<Longrightarrow> inv T w w"
  by (simp add: inv_def kept_def)

lemma inv_tick [simp]: "inv T w0 (w\<lparr>tick := n\<rparr>) = inv T w0 w"
  by (simp add: inv_def kept_def keyed_def)

lemma inv_users [simp]: "inv T w0 (users_update f w) = inv T w0 w"
  by (simp add: inv_def kept_def keyed_def)

interpretation own_branches:
  owned_table branches branches_update b_id "\<lambda>b. b_tenant_id b \<noteq> T" w0 "inv T w0" for T w0
  by unfold_locales (simp_all add: inv_def kept_def keyed_def)

interpretation own_memberships:
  owned_table tenant_users tenant_users_update tu_id "\<lambda>m. tu_tenant_id m \<noteq> T" w0 "inv T w0" for T w0
  by unfold_locales (simp_all add: inv_def kept_def keyed_def)

interpretation own_roles:
  owned_table roles roles_update r_id "\<lambda>r. r_tenant_id r \<noteq> T" w0 "inv T w0" for T w0
  by unfold_locales (simp_all add: inv_def kept_def keyed_def)

interpretation own_permissions:
  owned_table role_permissions role_permissions_update rp_id "foreign_permission T w0" w0 "inv T w0" for T w0
  by unfold_locales (simp_all add: inv_def kept_def keyed_def)

interpretation own_tokens:
  owned_table device_tokens device_tokens_update dt_id "\<lambda>d. dt_tenant_id d \<noteq> T" w0 "inv T w0" for T w0
  by unfold_locales (simp_all add: inv_def kept_def keyed_def)

interpretation own_installs:
  owned_table plugin_installs plugin_installs_update pi_id "\<lambda>p. pi_tenant_id p \<noteq> T" w0 "inv T w0" for T w0
  by unfold_locales (simp_all add: inv_def kept_def keyed_def)

interpretation own_histories:
  owned_table histories histories_update mh_id "\<lambda>h. mh_tenant_id h \<noteq> T" w0 "inv T w0" for T w0
  by unfold_locales (simp_all add: inv_def kept_def keyed_def)

section \<open>The tenant's row and its schema\<close>

lemma tenant_row:
  assumes "inv T w0 w" and "t \<in> set (tenants w)" and "t_id t = T"
  shows "t_schema_name t \<in> own_schemas T w0"
proof -
  have "(T, t_slug t, t_schema_name t) \<in> set (map (\<lambda>t. (t_id t, t_slug t, t_schema_name t)) (tenants w))"
    using assms(2,3) by force
  also have "\<dots> = set (map (\<lambda>t. (t_id t, t_slug t, t_schema_name t)) (tenants w0))"
    using assms(1) unfolding inv_def by metis
  finally show ?thesis unfolding own_schemas_def by auto
qed

lemma tenant_only:
  assumes "\<And>t. P t \<Longrightarrow> t_id t = T" and "\<And>e. guarantees (preserves (inv T w0)) (h e)"
    and "\<And>t. t_id t = T \<Longrightarrow> t_schema_name t \<in> own_schemas T w0 \<Longrightarrow> guarantees (preserves (inv T w0)) (k t)"
  shows "guarantees (preserves (inv T w0)) (handle (ent_only E tenants P) h k)"
  unfolding guarantees_preserves wp_handle
proof (intro allI impI, rule wp_ent_only, goal_cases)
  case (5 w n t)
  then have "t \<in> set (filter P (tenants w))" by simp
  then show ?case using assms(1,3) tenant_row [OF 5(1)] 5(1) unfolding sum.case guarantees_preserves by simp
qed (use assms(2) in \<open>simp_all add: guarantees_preserves\<close>)

lemma tenant_get:
  assumes "\<And>e. guarantees (preserves (inv T w0)) (h e)"
    and "\<And>t. t_id t = T \<Longrightarrow> t_schema_name t \<in> own_schemas T w0 \<Longrightarrow> guarantees (preserves (inv T w0)) (k t)"
  shows "guarantees (preserves (inv T w0)) (handle (ent_get E tenants t_id T) h k)"
  unfolding ent_get_def by (rule tenant_only) (use assms in auto)

lemma tenant_update_one:
  assumes "\<And>t. t_id (f t) = t_id t \<and> t_slug (f t) = t_slug t \<and> t_schema_name (f t) = t_schema_name t"
  shows "guarantees (preserves (inv T w0)) (ent_update_one E tenants tenants_update t_id clash T f)"
  unfolding guarantees_preserves
proof (intro allI impI, rule wp_ent_update_one, goal_cases)
  case (2 w n r rs)
  let ?f = "\<lambda>t. if t_id t = T then f t else t"
  have ids: "map (\<lambda>t. (t_id t, t_slug t, t_schema_name t)) (map ?f xs) =
      map (\<lambda>t. (t_id t, t_slug t, t_schema_name t)) xs" for xs
    by (rule map_key_update) (simp add: assms)
  have key: "map t_id (map ?f xs) = map t_id xs" for xs by (rule map_key_update) (simp add: assms)
  have foreign: "filter (\<lambda>t. t_id t \<noteq> T) (map ?f xs) = filter (\<lambda>t. t_id t \<noteq> T) xs" for xs
    by (induction xs) (auto simp: assms)
  from 2(1) show ?case unfolding inv_def kept_def keyed_def table_put
    by (simp add: ids key foreign del: map_map)
qed simp

text \<open>Whatever changes only the schema \<open>s\<close> of the tenant.\<close>

lemma inv_schema:
  fixes w w' :: world
  assumes "s \<in> own_schemas T w0" and "w' = w\<lparr>schemas := schemas w', tick := tick w'\<rparr>"
    and "\<And>x. x \<noteq> s \<Longrightarrow> schemas w' x = schemas w x" and "inv T w0 w"
  shows "inv T w0 w'"
proof -
  have "tenants w' = tenants w" "branches w' = branches w" "tenant_users w' = tenant_users w" "roles w' = roles w"
    "role_permissions w' = role_permissions w" "device_tokens w' = device_tokens w"
    "plugin_installs w' = plugin_installs w" "histories w' = histories w"
    by (subst assms(2); simp)+
  moreover have "schemas w' x = schemas w0 x" if "x \<notin> own_schemas T w0" for x
    using that assms(1) assms(3) [of x] assms(4) unfolding inv_def by metis
  ultimately show ?thesis using assms(4) unfolding inv_def kept_def keyed_def by simp
qed

lemma inv_profiles: "s \<in> own_schemas T w0 \<Longrightarrow> inv T w0 w \<Longrightarrow> inv T w0 (profiles_update s f w)"
  by (rule inv_schema [where s = s and w = w]) (auto simp: profiles_update_def split: option.splits)

lemma own_profiles:
  assumes "s \<in> own_schemas T w0"
  shows
    "guarantees (preserves (inv T w0)) (in_schema E s (ent_create E (profiles s) (profiles_update s) p_id clash r))"
    "guarantees (preserves (inv T w0)) (in_schema E s (ent_update_one E (profiles s) (profiles_update s) p_id clash u f))"
    "guarantees (preserves (inv T w0)) (in_schema E s (ent_delete E (profiles s) (profiles_update s) referenced P))"
  by (intro guarantees_intro; simp add: inv_profiles assms)+

lemma member_frame_inv:
  assumes "\<And>w. wp m (\<lambda>_. member_frame T u w) w"
  shows "guarantees (preserves (inv T w0)) m"
  unfolding guarantees_preserves
proof (intro allI impI, rule wp_mono [OF assms])
  fix w w' assume w: "inv T w0 w" and "member_frame T u w w'"
  then consider "same_tables w w'"
    | t where "t \<in> set (tenants w)" "t_id t = T" "schema_frame (t_schema_name t) u w w'"
    unfolding member_frame_def by blast
  then show "inv T w0 w'"
  proof cases
    case 1
    then show ?thesis using w unfolding same_tables_def by (metis inv_tick)
  next
    case 2
    then show ?thesis using inv_schema [OF tenant_row [OF w 2(1,2)] _ _ w] unfolding schema_frame_def by blast
  qed
qed

lemma reads_inv: "guarantees same_tables m \<Longrightarrow> guarantees (preserves (inv T w0)) m"
  unfolding guarantees_def same_tables_def by (metis inv_tick)

end
