(* ===== verification/Tenancy.thy ===== *)
theory Tenancy
  imports Isolation
begin

text \<open>
  Every request of a tenant, and what it does to the others. The first part runs the rules of
  theory \<open>Isolation\<close> over the services of \<open>src/internal/auth\<close>, \<open>src/internal/pluginmgr\<close> and
  \<open>src/internal/migrator\<close>; the second lifts the result to the handlers and to sequences of requests.
\<close>

section \<open>Rules\<close>

lemma handle_bind: "handle (State_Monad.bind m f) h k = State_Monad.bind m (\<lambda>x. handle (f x) h k)"
  by (simp add: handle_def)

lemma handle_handle:
  "handle (handle m h1 k1) h k = handle m (\<lambda>e. handle (h1 e) h k) (\<lambda>x. handle (k1 x) h k)"
  by (simp add: handle_def, intro arg_cong [of _ _ "State_Monad.bind m"] ext) (simp split: sum.splits)

lemma inv_step: "preserves (inv T w0) w (w\<lparr>tick := n\<rparr>)"
  by simp

lemma users_write:
  "guarantees (preserves (inv T w0)) (ent_create E users users_update u_id clash u)"
  "guarantees (preserves (inv T w0)) (ent_update E users users_update P f)"
  by (rule guarantees_intro, simp, simp)+

lemma create_role_created:
  assumes "\<And>e. guarantees (preserves (inv T w0)) (h e)"
    and "\<And>r. r_id r = i \<Longrightarrow> i \<notin> r_id ` set (filter (\<lambda>r. r_tenant_id r \<noteq> T) (roles w0)) \<Longrightarrow>
      guarantees (preserves (inv T w0)) (k r)"
  shows "guarantees (preserves (inv T w0)) (handle (create_role E i T slug nm sys) h k)"
  unfolding create_role_def handle_bind
  by (intro kept.bind guarantees_reads inv_step own_roles.create) (use assms in auto)

lemma permission_of_own_role:
  assumes "i \<notin> r_id ` set (filter (\<lambda>r. r_tenant_id r \<noteq> T) (roles w0))"
  shows "guarantees (preserves (inv T w0)) (create_role_permission E j i p)"
    "guarantees (preserves (inv T w0)) (ent_delete E role_permissions role_permissions_update referenced (\<lambda>p. rp_role_id p = i))"
proof -
  have "\<not> foreign_permission T w0 rp" if "rp_role_id rp = i" for rp
    using that assms unfolding foreign_permission_def by force
  then show "guarantees (preserves (inv T w0)) (create_role_permission E j i p)"
    "guarantees (preserves (inv T w0)) (ent_delete E role_permissions role_permissions_update referenced (\<lambda>p. rp_role_id p = i))"
    unfolding create_role_permission_def by (auto intro!: own_permissions.create_row own_permissions.delete)
qed

lemmas kept_rules = guarantees_if guarantees_case_option guarantees_case_prod guarantees_case_list guarantees_let
  kept.handle kept.bind kept.return kept.ok kept.fail guarantees_reads inv_step

lemmas keeps_reads = reads_inv [OF reads_Permissions] reads_inv [OF reads_ResolveRoleID] reads_inv [OF reads_IsMember]

section \<open>Members\<close>

lemma keeps_managers_guard:
  "guarantees (preserves (inv T w0)) (roleHasPerm E r perm)" "guarantees (preserves (inv T w0)) (countManagers E S)"
  unfolding roleHasPerm_def countManagers_def attempt_def
  by (intro keeps_reads kept_rules kept.for_each)+

lemma keeps_revoke: "guarantees (preserves (inv T w0)) (revoke_owned_tokens E T u)"
  unfolding revoke_owned_tokens_def by (intro kept_rules own_tokens.update) auto

lemma keeps_UpdateMemberRole: "guarantees (preserves (inv T w0)) (UpdateMemberRole E T u slug)"
  unfolding UpdateMemberRole_def attempt_def
  by (intro own_memberships.only own_memberships.update_one keeps_reads keeps_managers_guard kept_rules) auto

lemma keeps_SetMemberStatus: "guarantees (preserves (inv T w0)) (SetMemberStatus E T u status)"
  unfolding SetMemberStatus_def attempt_def
  by (intro own_memberships.only own_memberships.update_one keeps_revoke keeps_managers_guard kept_rules) auto

lemma keeps_RemoveMember: "guarantees (preserves (inv T w0)) (RemoveMember E T u)"
  unfolding RemoveMember_def attempt_def
  by (intro own_memberships.only own_memberships.delete_one tenant_get own_profiles keeps_revoke keeps_managers_guard
      kept_rules) auto

section \<open>Profiles, PINs, passwords\<close>

lemmas keeps_pins =
  member_frame_inv [OF wp_SetOwnPin] member_frame_inv [OF wp_SetMemberPin] member_frame_inv [OF wp_UpdateOwnProfile]

lemma keeps_passwords:
  "guarantees (preserves (inv T w0)) (ChangeOwnPassword E u old_pw new_pw)"
  "guarantees (preserves (inv T w0)) (SetMemberPassword E S u new_pw)"
  unfolding ChangeOwnPassword_def SetMemberPassword_def writePasswordHash_def attempt_def
  by (intro users_write kept_rules)+

lemma keeps_profile_get: "guarantees (preserves (inv T w0)) (profile_get E s u)"
  by (rule reads_inv [OF reads_profile_get])

lemma keeps_with_user: "guarantees (preserves (inv T w0)) (with_user E ms)"
  unfolding with_user_def attempt_def by (intro kept_rules)

lemma keeps_pin_holder: "guarantees (preserves (inv T w0)) (pin_holder E s pin ms)"
  by (induction ms) (auto intro!: keeps_profile_get kept_rules)

lemma keeps_member_infos: "guarantees (preserves (inv T w0)) (member_infos E ps ms cache out)"
  by (induction ms arbitrary: cache out) (auto intro!: kept_rules simp: cached_role_def)

lemma keeps_profile_reads:
  "guarantees (preserves (inv T w0)) (PinAvailable E S pin except)"
  "guarantees (preserves (inv T w0)) (ResolvePin E S pin)"
  "guarantees (preserves (inv T w0)) (VerifyOwnPin E S u pin)"
  "guarantees (preserves (inv T w0)) (ListMembers E S)"
  unfolding PinAvailable_def ResolvePin_def VerifyOwnPin_def LoadProfileForTenant_def LoadProfile_def ListMembers_def
    attempt_def
  by (intro reads_inv [OF reads_pin_free] keeps_pin_holder keeps_profile_get keeps_with_user keeps_member_infos
      guarantees_in_schema kept_rules)+

section \<open>Branches\<close>

lemma keeps_CreateBranch: "guarantees (preserves (inv T w0)) (CreateBranch E T slug nm)"
  unfolding CreateBranch_def create_branch_def short_id_def attempt_def handle_bind
  by (intro own_branches.create kept_rules) auto

lemma keeps_UpdateBranch: "guarantees (preserves (inv T w0)) (UpdateBranch E T i nm status)"
  unfolding UpdateBranch_def attempt_def
  by (intro own_branches.only own_branches.update_one kept_rules) auto

lemma keeps_AddMember: "guarantees (preserves (inv T w0)) (AddMember E T b inp)"
  unfolding AddMember_def member_user_def member_profile_def create_user_def create_tenant_user_def
    create_profile_def attempt_def
  by (intro users_write own_memberships.create_row tenant_get own_profiles keeps_reads kept_rules) auto

lemma keeps_SwitchBranch:
  assumes "\<And>d. d \<in> set (device_tokens w0) \<Longrightarrow> dt_token_hash d = hash \<Longrightarrow> dt_tenant_id d = T"
  shows "guarantees (preserves (inv T w0)) (SwitchBranch E u T b hash)"
  unfolding SwitchBranch_def attempt_def
  by (intro own_memberships.only own_memberships.update_one own_tokens.update kept_rules) (use assms in auto)

lemma keeps_Logout:
  assumes "\<And>d. d \<in> set (device_tokens w0) \<Longrightarrow> dt_token_hash d = hash \<Longrightarrow> dt_tenant_id d = T"
  shows "guarantees (preserves (inv T w0)) (Logout E hash)"
  unfolding Logout_def attempt_def
  by (intro own_tokens.update kept_rules) (use assms in auto)

section \<open>Roles and settings\<close>

lemma keeps_replacePermissions:
  assumes "i \<notin> r_id ` set (filter (\<lambda>r. r_tenant_id r \<noteq> T) (roles w0))"
  shows "guarantees (preserves (inv T w0)) (replacePermissions E i ps)"
  unfolding replacePermissions_def attempt_def
  by (intro permission_of_own_role assms kept.for_each kept_rules)

lemma keeps_CreateRole: "guarantees (preserves (inv T w0)) (CreateRole E T slug nm ps)"
  unfolding CreateRole_def short_id_def attempt_def
  by (intro create_role_created keeps_replacePermissions kept_rules) auto

lemma keeps_UpdateRole: "guarantees (preserves (inv T w0)) (UpdateRole E T i nm ps)"
proof (cases "nm = []")
  case True
  show ?thesis unfolding UpdateRole_def attempt_def True if_not_P [OF not_not [THEN iffD2, OF refl]] handle_ok
    by (intro own_roles.own_get keeps_replacePermissions keeps_reads kept_rules) auto
next
  case False
  show ?thesis unfolding UpdateRole_def attempt_def if_P [OF False] handle_handle handle_ok handle_fail
    by (intro own_roles.own_get own_roles.updated keeps_replacePermissions keeps_reads kept_rules) auto
qed

lemma keeps_DeleteRole: "guarantees (preserves (inv T w0)) (DeleteRole E T i)"
  unfolding DeleteRole_def attempt_def
  by (intro own_roles.own_get own_roles.delete_one permission_of_own_role kept_rules) auto

lemma keeps_UpdateTenant: "guarantees (preserves (inv T w0)) (UpdateTenant E T nm plan)"
  unfolding UpdateTenant_def attempt_def
  by (intro tenant_get tenant_update_one kept_rules) (auto intro!: tenant_update_one)

section \<open>Plugins\<close>

lemma keeps_runSQL:
  assumes "s \<in> own_schemas T w0"
  shows "guarantees (preserves (inv T w0)) (runSQL E s q)"
proof -
  have "inv T w0 w \<Longrightarrow> schemas w s = Some sc \<Longrightarrow> inv T w0 (w\<lparr>tick := n, schemas := (schemas w)(s \<mapsto> sc')\<rparr>)"
    for w sc sc' n
    by (rule inv_schema [where s = s and w = w]) (simp_all add: assms)
  then show ?thesis
    unfolding guarantees_def runSQL_def db_call_def by (auto simp: run_db_step split: option.splits)
qed

lemma keeps_apply_pending:
  assumes "s \<in> own_schemas T w0"
  shows "guarantees (preserves (inv T w0)) (apply_pending E T s p applied ms)"
  by (induction ms) (auto intro!: keeps_runSQL assms own_histories.create_row kept_rules
      simp: attempt_def create_history_def)

lemma keeps_roll_back:
  assumes "s \<in> own_schemas T w0"
  shows "guarantees (preserves (inv T w0)) (roll_back E T s p applied ms)"
  by (induction ms) (auto intro!: keeps_runSQL assms own_histories.update kept_rules simp: attempt_def)

lemma keeps_migrations:
  assumes "s \<in> own_schemas T w0"
  shows "guarantees (preserves (inv T w0)) (RunForTenant E T s p ms)"
    "guarantees (preserves (inv T w0)) (RollbackForTenant E T s p ms)"
  unfolding RunForTenant_def RollbackForTenant_def sort_versions_def sort_versions_desc_def appliedVersions_def
  by (intro keeps_apply_pending keeps_roll_back assms kept_rules)+

lemma keeps_Install: "guarantees (preserves (inv T w0)) (Install E core T p)"
  unfolding Install_def fetchMigrations_def GetManifest_def create_plugin_install_def attempt_def
  by (intro tenant_only own_installs.create_row keeps_migrations kept_rules; auto intro!: keeps_migrations)

lemma keeps_Uninstall: "guarantees (preserves (inv T w0)) (Uninstall E core T p dropData)"
  unfolding Uninstall_def fetchMigrations_def GetManifest_def attempt_def
  by (intro tenant_only own_installs.only own_installs.delete_one keeps_migrations kept_rules)
    (auto intro!: keeps_migrations)

section \<open>Reads\<close>

lemma keeps_reading:
  "guarantees (preserves (inv T w0)) (ListBranches E S)" "guarantees (preserves (inv T w0)) (ListRoles E S)"
  "guarantees (preserves (inv T w0)) (LoadProfile E s u)" "guarantees (preserves (inv T w0)) (InstalledPlugins E S)"
  unfolding ListBranches_def ListRoles_def LoadProfile_def InstalledPlugins_def attempt_def
  by (intro keeps_profile_get keeps_reads kept.for_each kept_rules)+

section \<open>Requests of a tenant\<close>

text \<open>\<open>serves E h w T m\<close>: \<open>m\<close> is a handler answering a request that Core authenticated for the tenant \<open>T\<close>.
  Installing for another tenant takes a platform admin. Core sets the token hash to that of the
  request's own token, whose tenant is \<open>T\<close>.\<close>

definition own_token :: "world \<Rightarrow> string \<Rightarrow> 'b request \<Rightarrow> bool" where
  "own_token w T c \<longleftrightarrow> (\<forall>d \<in> set (device_tokens w). dt_token_hash d = TokenHash c \<longrightarrow> dt_tenant_id d = T)"

inductive serves :: "env \<Rightarrow> handlers \<Rightarrow> world \<Rightarrow> string \<Rightarrow> respond \<Rightarrow> bool" for E h w where
  "TenantID c = T \<Longrightarrow> own_token w T c \<Longrightarrow> serves E h w T (logout E c)"
| "TenantID c = T \<Longrightarrow> serves E h w T (me E c)"
| "TenantID c = T \<Longrightarrow> \<not> isPlatformAdmin c \<Longrightarrow> serves E h w T (install E h c)"
| "TenantID c = T \<Longrightarrow> \<not> isPlatformAdmin c \<Longrightarrow> serves E h w T (uninstall E h c)"
| "TenantID c = T \<Longrightarrow> serves E h w T (listBranches E c)"
| "TenantID c = T \<Longrightarrow> serves E h w T (createBranch E c)"
| "TenantID c = T \<Longrightarrow> serves E h w T (updateBranch E c)"
| "TenantID c = T \<Longrightarrow> serves E h w T (addMember E c)"
| "TenantID c = T \<Longrightarrow> own_token w T c \<Longrightarrow> serves E h w T (switchBranch E c)"
| "TenantID c = T \<Longrightarrow> serves E h w T (listMembers E c)"
| "TenantID c = T \<Longrightarrow> serves E h w T (updateMemberRole E c)"
| "TenantID c = T \<Longrightarrow> serves E h w T (removeMember E c)"
| "TenantID c = T \<Longrightarrow> serves E h w T (setMemberStatus E c)"
| "TenantID c = T \<Longrightarrow> serves E h w T (setOwnPin E c)"
| "TenantID c = T \<Longrightarrow> serves E h w T (updateOwnProfile E c)"
| "TenantID c = T \<Longrightarrow> serves E h w T (pinAvailable E c)"
| "TenantID c = T \<Longrightarrow> serves E h w T (verifyOwnPin E c)"
| "TenantID c = T \<Longrightarrow> serves E h w T (resolvePin E c)"
| "TenantID c = T \<Longrightarrow> serves E h w T (setMemberPin E c)"
| "TenantID c = T \<Longrightarrow> serves E h w T (changeOwnPassword E c)"
| "TenantID c = T \<Longrightarrow> serves E h w T (setMemberPassword E c)"
| "TenantID c = T \<Longrightarrow> serves E h w T (listRoles E c)"
| "TenantID c = T \<Longrightarrow> serves E h w T (createRole E c)"
| "TenantID c = T \<Longrightarrow> serves E h w T (updateRole E c)"
| "TenantID c = T \<Longrightarrow> serves E h w T (deleteRole E c)"
| "TenantID c = T \<Longrightarrow> serves E h w T (updateTenant E c)"

lemma keeps_JSON:
  "guarantees (preserves I) (JSON status body)" "guarantees (preserves I) (ERR status e)"
  unfolding ERR_def JSON_def by (intro guarantees_if kept.return)+

lemma keeps_guards:
  "(\<And>inp. guarantees (preserves I) (kb inp)) \<Longrightarrow> guarantees (preserves I) (with_body c kb)"
  "guarantees (preserves I) (kt (TenantID c)) \<Longrightarrow> guarantees (preserves I) (with_tenant c kt)"
  "guarantees (preserves I) (kc (TenantID c) (UserID c)) \<Longrightarrow> guarantees (preserves I) (with_caller c kc)"
  "guarantees (preserves I) m \<Longrightarrow> guarantees (preserves I) (requirePerm c perm m)"
  "guarantees (preserves I) (member_refused s n e)"
  "guarantees (preserves I) (pin_refused missing e)"
  unfolding with_body_def with_tenant_def with_caller_def requirePerm_def member_refused_def pin_refused_def Let_def
  by (auto intro!: guarantees_if guarantees_case_option keeps_JSON)

lemmas keeps_services =
  keeps_UpdateMemberRole keeps_SetMemberStatus keeps_RemoveMember keeps_pins keeps_passwords keeps_profile_reads
  keeps_CreateBranch keeps_UpdateBranch keeps_AddMember keeps_CreateRole keeps_UpdateRole keeps_DeleteRole
  keeps_UpdateTenant keeps_Install keeps_Uninstall keeps_reading

lemmas tenant_handler_defs = gated_handler_defs logout_def me_def install_def uninstall_def listBranches_def
  switchBranch_def setOwnPin_def updateOwnProfile_def pinAvailable_def verifyOwnPin_def resolvePin_def
  changeOwnPassword_def

lemma serves_keeps:
  assumes "serves E h w T m"
  shows "guarantees (preserves (inv T w)) m"
  using assms
proof cases
  case (1 c)
  have "guarantees (preserves (inv T w)) (Logout E (TokenHash c))"
    by (rule keeps_Logout) (use 1 in \<open>auto simp: own_token_def\<close>)
  then show ?thesis unfolding 1(1) logout_def by (intro kept.handle keeps_JSON)
next
  case (2 c)
  show ?thesis unfolding 2(1) me_def by (intro keeps_reads keeps_reading kept_rules keeps_JSON)
next
  case (3 c)
  then show ?thesis unfolding 3(1) install_def foreign_tenant_def Let_def
    by (intro keeps_guards kept_rules keeps_JSON) (auto intro!: keeps_Install)
next
  case (4 c)
  then show ?thesis unfolding 4(1) uninstall_def foreign_tenant_def Let_def
    by (intro keeps_guards kept_rules keeps_JSON) (auto intro!: keeps_Uninstall)
next
  case (9 c)
  have "guarantees (preserves (inv T w)) (SwitchBranch E u T b (TokenHash c))" for u b
    by (rule keeps_SwitchBranch) (use 9 in \<open>auto simp: own_token_def\<close>)
  then show ?thesis unfolding 9(1) switchBranch_def 9(2) [symmetric]
    by (intro keeps_guards kept.handle keeps_JSON)
qed (hypsubst, unfold tenant_handler_defs, intro keeps_guards keeps_services kept_rules keeps_JSON; fail)+

section \<open>Isolation\<close>

text \<open>What the database holds for the tenant \<open>V\<close>, the shared built-in roles included.\<close>

definition tenant_view :: "string \<Rightarrow> world \<Rightarrow>
    tenant list \<times> branch list \<times> tenant_user list \<times> role list \<times> role_permission list \<times> device_token list \<times>
    plugin_install list \<times> migration_history list \<times> tenant_schema option list" where
  "tenant_view V w =
     (filter (\<lambda>t. t_id t = V) (tenants w),
      filter (\<lambda>b. b_tenant_id b = V) (branches w),
      filter (\<lambda>m. tu_tenant_id m = V) (tenant_users w),
      filter (\<lambda>r. r_tenant_id r = V \<or> r_tenant_id r = []) (roles w),
      filter (\<lambda>rp. rp_role_id rp \<in> r_id ` set (filter (\<lambda>r. r_tenant_id r = V \<or> r_tenant_id r = []) (roles w)))
        (role_permissions w),
      filter (\<lambda>d. dt_tenant_id d = V) (device_tokens w),
      filter (\<lambda>p. pi_tenant_id p = V) (plugin_installs w),
      filter (\<lambda>h. mh_tenant_id h = V) (histories w),
      map (\<lambda>t. schemas w (t_schema_name t)) (filter (\<lambda>t. t_id t = V) (tenants w)))"

definition well_keyed :: "world \<Rightarrow> bool" where
  "well_keyed w \<longleftrightarrow> keyed t_id tenants w \<and> keyed b_id branches w \<and> keyed tu_id tenant_users w \<and> keyed r_id roles w \<and>
     keyed rp_id role_permissions w \<and> keyed dt_id device_tokens w \<and> keyed pi_id plugin_installs w \<and>
     keyed mh_id histories w \<and> keyed t_schema_name tenants w"

definition others_step :: "env \<Rightarrow> handlers \<Rightarrow> string \<Rightarrow> world \<Rightarrow> world \<Rightarrow> bool" where
  "others_step E h V w w' \<longleftrightarrow>
     (\<exists>T m resp. T \<noteq> V \<and> T \<noteq> [] \<and> serves E h w T m \<and> run_state m w = (resp, w'))"

lemma filter_within:
  "filter Q xs = filter Q ys \<Longrightarrow> (\<And>x. P x \<Longrightarrow> Q x) \<Longrightarrow> filter P xs = filter P ys"
proof -
  assume a: "filter Q xs = filter Q ys" and b: "\<And>x. P x \<Longrightarrow> Q x"
  have "filter P zs = filter P (filter Q zs)" for zs using b by (induction zs) auto
  then show ?thesis using a by metis
qed

lemma kept_view:
  assumes "kept key rows (\<lambda>x. owner x \<noteq> T) w w'" and "T \<noteq> V"
  shows "filter (\<lambda>x. owner x = V) (rows w') = filter (\<lambda>x. owner x = V) (rows w)"
  by (rule filter_within [where Q = "\<lambda>x. owner x \<noteq> T"]) (use assms in \<open>auto simp: kept_def\<close>)

lemma inv_well_keyed:
  assumes "inv T w w'" and "well_keyed w"
  shows "well_keyed w'"
proof -
  have "map (snd \<circ> snd) (map (\<lambda>t. (t_id t, t_slug t, t_schema_name t)) (tenants w')) =
      map (snd \<circ> snd) (map (\<lambda>t. (t_id t, t_slug t, t_schema_name t)) (tenants w))"
    using assms(1) unfolding inv_def by metis
  then have "map t_schema_name (tenants w') = map t_schema_name (tenants w)" by (simp add: comp_def)
  then show ?thesis using assms unfolding inv_def kept_def well_keyed_def keyed_def by metis
qed

lemma inv_view:
  assumes i: "inv T w w'" and k: "well_keyed w" and V: "T \<noteq> V" "T \<noteq> []"
  shows "tenant_view V w' = tenant_view V w"
proof -
  from i have tenants: "filter (\<lambda>t. t_id t = V) (tenants w') = filter (\<lambda>t. t_id t = V) (tenants w)"
    unfolding inv_def by (blast intro: kept_view [OF _ V(1)])
  have roles: "filter (\<lambda>r. r_tenant_id r = V \<or> r_tenant_id r = []) (roles w') =
      filter (\<lambda>r. r_tenant_id r = V \<or> r_tenant_id r = []) (roles w)"
    by (rule filter_within [where Q = "\<lambda>r. r_tenant_id r \<noteq> T"]) (use i V in \<open>auto simp: inv_def kept_def\<close>)
  have perms: "filter (\<lambda>rp. rp_role_id rp \<in> R) (role_permissions w') = filter (\<lambda>rp. rp_role_id rp \<in> R) (role_permissions w)"
    if "R = r_id ` set (filter (\<lambda>r. r_tenant_id r = V \<or> r_tenant_id r = []) (roles w))" for R
  proof (rule filter_within)
    show "filter (foreign_permission T w) (role_permissions w') = filter (foreign_permission T w) (role_permissions w)"
      using i unfolding inv_def kept_def by metis
    show "foreign_permission T w rp" if "rp_role_id rp \<in> R" for rp
      using that V unfolding \<open>R = _\<close> foreign_permission_def by auto
  qed
  have schemas: "schemas w' (t_schema_name t) = schemas w (t_schema_name t)" if t: "t \<in> set (tenants w)" "t_id t = V" for t
  proof -
    have "t_schema_name t \<notin> own_schemas T w"
      using t k V(1) unfolding own_schemas_def well_keyed_def keyed_def distinct_map
      by (auto dest: inj_onD)
    then show ?thesis using i unfolding inv_def by metis
  qed
  have rest:
    "filter (\<lambda>b. b_tenant_id b = V) (branches w') = filter (\<lambda>b. b_tenant_id b = V) (branches w)"
    "filter (\<lambda>m. tu_tenant_id m = V) (tenant_users w') = filter (\<lambda>m. tu_tenant_id m = V) (tenant_users w)"
    "filter (\<lambda>d. dt_tenant_id d = V) (device_tokens w') = filter (\<lambda>d. dt_tenant_id d = V) (device_tokens w)"
    "filter (\<lambda>p. pi_tenant_id p = V) (plugin_installs w') = filter (\<lambda>p. pi_tenant_id p = V) (plugin_installs w)"
    "filter (\<lambda>h. mh_tenant_id h = V) (histories w') = filter (\<lambda>h. mh_tenant_id h = V) (histories w)"
    using i unfolding inv_def by (blast intro: kept_view [OF _ V(1)])+
  show ?thesis unfolding tenant_view_def tenants roles perms [OF refl] rest by (simp add: schemas)
qed

lemma others_step_inv:
  assumes "others_step E h V w w'" and "well_keyed w"
  shows "tenant_view V w' = tenant_view V w \<and> well_keyed w'"
proof -
  from assms(1) obtain T m resp where T: "T \<noteq> V" "T \<noteq> []" and m: "serves E h w T m" "run_state m w = (resp, w')"
    unfolding others_step_def by blast
  have "inv T w w" by (rule inv_refl) (use assms(2) in \<open>simp_all add: well_keyed_def\<close>)
  with guaranteesD [OF serves_keeps [OF m(1)] m(2)] have "inv T w w'" by blast
  then show ?thesis using inv_view [OF _ assms(2) T] inv_well_keyed assms(2) by blast
qed

text \<open>C1. Tenants are isolated. Whatever sequence of requests the other tenants make, with whatever bodies,
  parameters and faults, everything the database holds for a tenant \<open>V\<close> is as it was: its row, its
  branches, memberships, roles with their permissions, device tokens, plugin installs,
  migrations and its whole schema; and the built-in roles. Primary keys and schema names
  stay unique, so that this goes on. Only the accounts in \<open>users\<close> are shared (see
  \<open>inviter_takes_over_foreign_account\<close>).\<close>

theorem tenants_are_isolated:
  assumes "(others_step E h V)\<^sup>*\<^sup>* w w'" and "well_keyed w"
  shows "tenant_view V w' = tenant_view V w \<and> well_keyed w'"
  using assms by (induction rule: rtranclp_induct) (auto dest: others_step_inv)

text \<open>The manager of one tenant opens a branch; the other tenant of \<open>mall\<close> sees nothing of it.\<close>

definition opened :: "response \<times> world" where
  "opened = run_state (createBranch env0 (call ''u1'' ''branch:write'' (\<lambda>_. []) \<lparr>cb_slug = ''north'', cb_name = ''North''\<rparr>)) mall"

lemma mall_well_keyed: "well_keyed mall"
  by (simp add: well_keyed_def keyed_def mall_def shop_def world0_def)

theorem tenants_are_isolated_witness:
  "rs_status (fst opened) = 201 \<and> map b_slug (branches (snd opened)) = [''main'', ''north''] \<and>
   tenant_view ''t2'' (snd opened) = tenant_view ''t2'' mall"
proof (intro conjI)
  show "rs_status (fst opened) = 201" "map b_slug (branches (snd opened)) = [''main'', ''north'']" by code_simp+
  have "serves env0 undefined mall ''t1''
      (createBranch env0 (call ''u1'' ''branch:write'' (\<lambda>_. []) \<lparr>cb_slug = ''north'', cb_name = ''North''\<rparr>))"
    by (rule serves.intros) (simp add: call_def TenantID_def)
  then have "others_step env0 undefined ''t2'' mall (snd opened)"
    unfolding others_step_def opened_def
    by (intro exI [of _ "''t1''"] exI [of _ "fst opened"] exI conjI) (assumption | simp add: opened_def)+
  then show "tenant_view ''t2'' (snd opened) = tenant_view ''t2'' mall"
    using tenants_are_isolated [OF r_into_rtranclp mall_well_keyed] by blast
qed

end
