(* ===== verification/Registration.thy ===== *)
theory Registration
  imports Saga Example
begin

text \<open>
  What the registration saga of \<open>src/internal/tenant/saga.go\<close> achieves. The installer of step 6 is an
  interface of the saga (\<open>PluginInstaller\<close>): the locale \<open>plugin_installer\<close> states what \<open>Register\<close> relies
  on, and it is interpreted on \<open>Installer.InstallForNewTenant\<close>. The lemmas show that a successful
  registration leaves a complete tenant behind, that a refused one leaves nothing behind while the
  database works, and which failures the compensation does not repair.
\<close>

section \<open>Rules\<close>

lemma wp_trivial: "wp m (\<lambda>_ _. True) w"
  by (simp add: wp_def split: prod.splits)

lemma wp_db_step:
  assumes "\<And>n. Q (Inl (ErrDB Fault)) (w\<lparr>tick := n\<rparr>)"
    and "\<And>n. case f (w\<lparr>tick := n\<rparr>) of Inl e \<Rightarrow> Q (Inl (ErrDB e)) (w\<lparr>tick := n\<rparr>) | Inr (a, w') \<Rightarrow> Q (Inr a) w'"
  shows "wp (db_step E f) Q w"
  using assms(1) assms(2) [of "Suc (tick w)"] by (auto simp: wp_def run_db_step split: sum.splits prod.splits)

lemma wp_update_found:
  assumes "stable rows" and "filter (\<lambda>r. key r = i) (rows w) = r # rs"
    and "\<And>n. \<not> no_faults E \<Longrightarrow> Q (Inl (ErrDB Fault)) (w\<lparr>tick := n\<rparr>)"
    and "\<And>n. Q (Inr (f r)) (put (map (\<lambda>r. if key r = i then f r else r)) (w\<lparr>tick := n\<rparr>))"
  shows "wp (ent_update_one E rows put key no_clash i f) Q w"
  using assms by (auto simp: wp_def run_ent_update_one no_faults_def no_clash_def stable_tick)

lemma reads_ids: "guarantees same_tables (short_id E p)" "guarantees same_tables (time_now E)"
  "guarantees same_tables (uuid_string E)"
  by (intro guarantees_intro same_tables_tick)+

lemma wp_create_branch:
  assumes "\<And>n e. Q (Inl (ErrDB e)) (w\<lparr>tick := n\<rparr>)"
    and "\<And>n b. b_id b = i \<Longrightarrow> b_tenant_id b = T \<Longrightarrow> b_slug b = slug \<Longrightarrow> b_status b = status \<Longrightarrow>
      \<forall>x \<in> set (branches w). b_id x \<noteq> i \<Longrightarrow> Q (Inr b) (w\<lparr>branches := branches w @ [b], tick := n\<rparr>)"
  shows "wp (create_branch E i T slug nm status) Q w"
  unfolding create_branch_def wp_bind
proof (rule wp_reads [OF reads_ids(2)], rule wp_ent_create, goal_cases)
  case (1 r m n e)
  then show ?case using assms(1) [of e n] by simp
next
  case (2 now m n)
  then show ?case using assms(2) by (auto simp: table_put)
qed

lemma wp_create_user:
  assumes "\<And>n e. Q (Inl (ErrDB e)) (w\<lparr>tick := n\<rparr>)"
    and "\<And>n u. u_id u = i \<Longrightarrow> u_email u = email \<Longrightarrow> u_password_hash u = hash \<Longrightarrow>
      \<forall>x \<in> set (users w). u_id x \<noteq> i \<Longrightarrow> \<forall>x \<in> set (users w). u_email x \<noteq> email \<Longrightarrow>
      Q (Inr u) (w\<lparr>users := users w @ [u], tick := n\<rparr>)"
  shows "wp (create_user E i email hash) Q w"
  unfolding create_user_def wp_bind
proof (rule wp_reads [OF reads_ids(2)], rule wp_ent_create, goal_cases)
  case (1 r m n e)
  then show ?case using assms(1) [of e n] by simp
next
  case (2 now m n)
  then show ?case using assms(2) by (auto simp: table_put user_clash_def)
qed

lemma wp_create_tenant_user:
  assumes "\<And>n e. Q (Inl (ErrDB e)) (w\<lparr>tick := n\<rparr>)"
    and "\<And>n m. tu_id m = i \<Longrightarrow> tu_user_id m = u \<Longrightarrow> tu_tenant_id m = T \<Longrightarrow> tu_branch_id m = b \<Longrightarrow>
      tu_role_id m = r \<Longrightarrow> tu_status m = ''active'' \<Longrightarrow> \<forall>x \<in> set (tenant_users w). tu_id x \<noteq> i \<Longrightarrow>
      Q (Inr m) (w\<lparr>tenant_users := tenant_users w @ [m], tick := n\<rparr>)"
  shows "wp (create_tenant_user E i u T b r) Q w"
  unfolding create_tenant_user_def wp_bind
proof (rule wp_reads [OF reads_ids(2)], rule wp_ent_create, goal_cases)
  case (1 r m n e)
  then show ?case using assms(1) [of e n] by simp
next
  case (2 now m n)
  then show ?case using assms(2) by (auto simp: table_put)
qed

section \<open>The installer\<close>

text \<open>An installer keeps to the plugin tables and to plugin SQL, and while the database works it does
  not return an error for a schema that exists (it may panic).\<close>

definition installs_frame :: "world \<Rightarrow> world \<Rightarrow> bool" where
  "installs_frame w w' \<longleftrightarrow>
     w' = w\<lparr>plugin_installs := plugin_installs w', histories := histories w', schemas := schemas w', tick := tick w'\<rparr> \<and>
     (\<forall>x. profiles x w' = profiles x w) \<and> (\<forall>x. schemas w' x = None \<longleftrightarrow> schemas w x = None)"

interpretation plugin_writes: step_preorder installs_frame
proof
  show "installs_frame w w" for w by (simp add: installs_frame_def)
  fix x y z assume a: "installs_frame x y" and b: "installs_frame y z"
  have "z = (x\<lparr>plugin_installs := plugin_installs y, histories := histories y, schemas := schemas y, tick := tick y\<rparr>)
      \<lparr>plugin_installs := plugin_installs z, histories := histories z, schemas := schemas z, tick := tick z\<rparr>"
    using a b unfolding installs_frame_def by metis
  then show "installs_frame x z" using a b by (simp add: installs_frame_def)
qed

locale plugin_installer =
  fixes E :: env and install :: "string \<Rightarrow> string \<Rightarrow> (world, error + unit) state"
  assumes frame: "run_state (install T s) w = (r, w') \<Longrightarrow> installs_frame w w'"
    and complete: "no_faults E \<Longrightarrow> schemas w s \<noteq> None \<Longrightarrow> run_state (install T s) w = (Inl e, w') \<Longrightarrow> is_panic e"

lemma installs_frame_tick [simp]: "installs_frame w (w\<lparr>tick := n\<rparr>)"
  by (simp add: installs_frame_def)

lemma installs_frame_tables [simp]:
  "installs_frame w (w\<lparr>plugin_installs := ps, tick := n\<rparr>)" "installs_frame w (w\<lparr>histories := hs, tick := n\<rparr>)"
  by (simp_all add: installs_frame_def profiles_def)

lemma installs_frame_sql:
  "schemas w s = Some sc \<Longrightarrow> installs_frame w (w\<lparr>tick := n, schemas := (schemas w)(s \<mapsto> sc\<lparr>s_sql := q\<rparr>)\<rparr>)"
  by (auto simp: installs_frame_def profiles_def)

lemma frame_runSQL: "guarantees installs_frame (runSQL E s q)"
  unfolding guarantees_def runSQL_def db_call_def
  by (auto simp: run_db_step installs_frame_sql split: option.splits)

lemma frame_apply_pending: "guarantees installs_frame (apply_pending E T s p applied ms)"
  by (induction ms) (auto intro!: frame_runSQL guarantees_intro plugin_writes.attempt plugin_writes.bind plugin_writes.ok
      simp: create_history_def table_put)

lemma frame_RunForTenant: "guarantees installs_frame (RunForTenant E T s p ms)"
  unfolding RunForTenant_def sort_versions_def appliedVersions_def
  by (intro guarantees_intro plugin_writes.bind plugin_writes.handle plugin_writes.return frame_apply_pending installs_frame_tick)

lemma frame_install_each: "guarantees installs_frame (install_each E core T s ps)"
  by (induction ps) (auto intro!: guarantees_intro plugin_writes.attempt plugin_writes.bind plugin_writes.ok
      plugin_writes.handle plugin_writes.fail plugin_writes.return frame_RunForTenant
      simp: fetchMigrations_def GetManifest_def create_plugin_install_def table_put)

lemma frame_InstallForNewTenant: "guarantees installs_frame (InstallForNewTenant E core T s)"
  unfolding InstallForNewTenant_def
  by (intro guarantees_intro plugin_writes.attempt plugin_writes.bind frame_install_each installs_frame_tick)

definition only_panics :: "string \<Rightarrow> error + 'a \<Rightarrow> world \<Rightarrow> bool" where
  "only_panics s r w \<longleftrightarrow> schemas w s \<noteq> None \<and> (\<forall>e. r = Inl e \<longrightarrow> is_panic e)"

lemma wp_runSQL_works:
  assumes "no_faults E" and "schemas w s \<noteq> None" and "\<And>w'. schemas w' s \<noteq> None \<Longrightarrow> Q (Inr ()) w'"
  shows "wp (runSQL E s q) Q w"
  using assms by (auto simp: wp_def runSQL_def db_call_def run_db_step no_faults_def)

lemma wp_keeps_schema:
  assumes "guarantees same_tables m \<or> guarantees installs_frame m" and "schemas w s \<noteq> None"
    and "\<And>r w'. schemas w' s \<noteq> None \<Longrightarrow> Q r w'"
  shows "wp m Q w"
proof (rule wpI)
  fix r w' assume "run_state m w = (r, w')"
  then have "same_tables w w' \<or> installs_frame w w'" using assms(1) guaranteesD by fast
  then have "schemas w' s \<noteq> None" using assms(2) unfolding same_tables_def installs_frame_def
    by (metis world.select_convs(10) world.surjective world.update_convs(11))
  then show "Q r w'" by (rule assms(3))
qed

lemma frame_create_history: "guarantees installs_frame (create_history E i T p v nm status)"
  unfolding create_history_def
  by (intro plugin_writes.bind guarantees_intro) (simp_all add: table_put)

lemma frame_create_install: "guarantees installs_frame (create_plugin_install E i T p)"
  unfolding create_plugin_install_def
  by (intro plugin_writes.bind guarantees_intro) (simp_all add: table_put)

lemma apply_pending_complete:
  assumes "no_faults E" and "schemas w s \<noteq> None"
  shows "wp (apply_pending E T s p applied ms) (only_panics s) w"
  using assms(2)
proof (induction ms arbitrary: w)
  case Nil
  then show ?case by (simp add: only_panics_def)
next
  case (Cons mig rest)
  show ?case
  proof (cases "m_version mig \<in> applied")
    case True
    then show ?thesis using Cons by simp
  next
    case False
    show ?thesis unfolding apply_pending.simps if_not_P [OF False] wp_attempt wp_bind
    proof (rule wp_runSQL_works [OF assms(1) Cons.prems], goal_cases)
      case (1 w1)
      show ?case unfolding sum.case
      proof (rule wp_keeps_schema [OF disjI1 [OF reads_ids(3)] 1], goal_cases)
        case (1 i w2)
        show ?case by (rule wp_keeps_schema [OF disjI2 [OF frame_create_history] 1])
          (auto simp: only_panics_def Cons.IH split: sum.splits)
      qed
    qed
  qed
qed

lemma RunForTenant_complete:
  assumes "no_faults E" and "schemas w s \<noteq> None"
  shows "wp (RunForTenant E T s p ms) (only_panics s) w"
  unfolding RunForTenant_def sort_versions_def appliedVersions_def wp_bind
proof (rule wp_keeps_schema [OF disjI1 assms(2)])
  show "guarantees same_tables (sys_call (\<lambda>n. sort_key m_version (shuffle (row_order E n (length ms)) ms)))"
    by (intro guarantees_intro same_tables_tick)
  fix ms' and w :: world assume w: "schemas w s \<noteq> None"
  show "wp (handle (ent_all E histories (\<lambda>h. mh_tenant_id h = T \<and> mh_plugin_name h = p \<and> mh_status h = ''applied''))
        (\<lambda>_. State_Monad.return {}) (\<lambda>rows. State_Monad.return (set (map mh_version rows))))
      (\<lambda>applied. wp (apply_pending E T s p applied ms') (only_panics s)) w"
    by (rule wp_keeps_schema [OF disjI1 w])
      (auto intro!: guarantees_intro reads.handle reads.return apply_pending_complete assms(1))
qed

lemma install_each_complete:
  assumes "no_faults E" and "schemas w s \<noteq> None"
  shows "wp (install_each E core T s ps) (only_panics s) w"
  using assms(2)
proof (induction ps arbitrary: w)
  case Nil
  then show ?case by (simp add: only_panics_def)
next
  case (Cons p ps)
  have fetch: "guarantees same_tables (fetchMigrations core p)"
    unfolding fetchMigrations_def GetManifest_def
    by (auto intro!: guarantees_intro reads.bind reads.return reads.ok reads.fail)
  have install: "wp (create_plugin_install E i T p) (\<lambda>_. wp (install_each E core T s ps) (only_panics s)) w"
    if "schemas w s \<noteq> None" for i w
    by (rule wp_keeps_schema [OF disjI2 [OF frame_create_install] that]) (rule Cons.IH)
  show ?case unfolding install_each.simps wp_handle
  proof (rule wp_keeps_schema [OF disjI1 [OF fetch] Cons.prems], goal_cases)
    case (1 r w)
    note w = 1
    show ?case
    proof (cases r)
      case (Inl e)
      then show ?thesis using Cons.IH w by simp
    next
      case (Inr ms)
      show ?thesis
      proof (cases "length ms = 0")
        case True
        then show ?thesis using Cons.IH w Inr by simp
      next
        case False
        have "wp (uuid_string E) (\<lambda>i. wp (create_plugin_install E i T p) (\<lambda>_. wp (install_each E core T s ps) (only_panics s))) w"
          if "schemas w s \<noteq> None" for w
          by (rule wp_keeps_schema [OF disjI1 [OF reads_ids(3)] that]) (rule install)
        then show ?thesis unfolding Inr sum.case if_not_P [OF False] wp_attempt wp_bind
          by (intro wp_mono [OF RunForTenant_complete [OF assms(1) w]])
            (auto simp: only_panics_def rethrow_def split: sum.splits)
      qed
    qed
  qed
qed

lemma wp_all_works: "no_faults E \<Longrightarrow> (\<And>xs. Q (Inr xs) (ticked w)) \<Longrightarrow> wp (ent_all E rows P) Q w"
  by (simp add: wp_def run_ent_all no_faults_def)

lemma InstallForNewTenant_complete:
  assumes "no_faults E" and "schemas w s \<noteq> None"
  shows "wp (InstallForNewTenant E core T s) (only_panics s) w"
  unfolding InstallForNewTenant_def wp_attempt
proof (rule wp_all_works [OF assms(1)], unfold sum.case wp_bind, rule wp_keeps_schema [OF disjI1])
  show "guarantees same_tables (range_keys E (seen_plugins xs))" for xs
    by (intro guarantees_intro same_tables_tick)
qed (use assms install_each_complete in \<open>auto\<close>)

interpretation registration_installer: plugin_installer E "InstallForNewTenant E core" for E core
  using guaranteesD [OF frame_InstallForNewTenant] wpD [OF InstallForNewTenant_complete]
  by unfold_locales (auto simp: only_panics_def)

section \<open>Compensation\<close>

text \<open>The foreign keys of the schema, as Postgres enforces them.\<close>

definition fk_wf :: "world \<Rightarrow> bool" where
  "fk_wf w \<longleftrightarrow>
     (\<forall>b \<in> set (branches w). \<exists>t \<in> set (tenants w). t_id t = b_tenant_id b) \<and>
     (\<forall>m \<in> set (tenant_users w). \<exists>t \<in> set (tenants w). t_id t = tu_tenant_id m) \<and>
     (\<forall>m \<in> set (tenant_users w). \<exists>u \<in> set (users w). u_id u = tu_user_id m) \<and>
     (\<forall>p \<in> set (plugin_installs w). \<exists>t \<in> set (tenants w). t_id t = pi_tenant_id p)"

text \<open>The world \<open>w\<close> with what the first steps of a registration have added to it.\<close>

definition built :: "world \<Rightarrow> tenant \<Rightarrow> branch list \<Rightarrow> user list \<Rightarrow> tenant_user list \<Rightarrow> (string \<rightharpoonup> tenant_schema) \<Rightarrow> nat \<Rightarrow> world" where
  "built w t bs us ms sch n = w\<lparr>tenants := tenants w @ [t], branches := branches w @ bs, users := users w @ us,
     tenant_users := tenant_users w @ ms, schemas := sch, tick := n\<rparr>"

text \<open>Running the compensations from \<open>v\<close> gives back \<open>w\<close>.\<close>

definition undoes :: "world \<Rightarrow> compensation list \<Rightarrow> world \<Rightarrow> bool" where
  "undoes w steps v \<longleftrightarrow> same_tables w (snd (run_state (compensate steps) v))"

lemma undoes_snoc: "undoes w (steps @ [s]) v \<longleftrightarrow> undoes w steps (snd (run_state s v))"
  by (simp add: undoes_def compensate_def split: prod.splits)

lemma undoes_Nil: "undoes w [] (w\<lparr>tick := n\<rparr>)"
  by (simp add: undoes_def compensate_def)

lemma delete_one_works:
  assumes "no_faults E" and "stable rows" and "\<And>r. r \<in> set (rows w) \<Longrightarrow> key r = i \<Longrightarrow> \<not> referenced (ticked w) r"
  shows "snd (run_state (ent_delete_one E rows put referenced key i) w) = put (filter (\<lambda>r. key r \<noteq> i)) (ticked w)"
  using assms by (auto simp: ent_delete_one_def run_ent_delete no_faults_def stable_tick)

lemma remove_last: "\<forall>x \<in> set xs. f x \<noteq> i \<Longrightarrow> f y = i \<Longrightarrow> filter (\<lambda>x. f x \<noteq> i) (xs @ [y]) = xs"
  by (simp add: filter_id_conv)

lemma undoes_tenant:
  assumes E: "no_faults E" and fk: "fk_wf w" and t: "\<forall>x \<in> set (tenants w). t_id x \<noteq> t_id t"
  shows "undoes w [undo_tenant E (t_id t)] (built w t [] [] [] (schemas w) n)"
proof -
  have "\<not> tenant_referenced (ticked (built w t [] [] [] (schemas w) n)) r" if "t_id r = t_id t" for r
  proof -
    have "\<forall>b \<in> set (branches w). b_tenant_id b \<noteq> t_id t" "\<forall>m \<in> set (tenant_users w). tu_tenant_id m \<noteq> t_id t"
      "\<forall>p \<in> set (plugin_installs w). pi_tenant_id p \<noteq> t_id t"
      using fk t unfolding fk_wf_def by metis+
    then show ?thesis using that by (simp add: tenant_referenced_def built_def)
  qed
  then have "snd (run_state (undo_tenant E (t_id t)) (built w t [] [] [] (schemas w) n)) = w\<lparr>tick := Suc n\<rparr>"
    unfolding undo_tenant_def
    by (simp add: delete_one_works [OF E] remove_last t built_def)
  then show ?thesis using undoes_snoc [of w "[]"] undoes_Nil by simp
qed

lemma undo_branch_built:
  assumes E: "no_faults E" and b: "\<forall>x \<in> set (branches w). b_id x \<noteq> b_id b"
  shows "snd (run_state (undo_branch E (b_id b)) (built w t [b] [] [] (schemas w) n)) = built w t [] [] [] (schemas w) (Suc n)"
  unfolding undo_branch_def by (simp add: delete_one_works [OF E] no_clash_def built_def remove_last b)

lemma undo_user_built:
  assumes E: "no_faults E" and fk: "fk_wf w" and u: "\<forall>x \<in> set (users w). u_id x \<noteq> u_id u"
  shows "snd (run_state (undo_user E (u_id u)) (built w t bs [u] [] (schemas w) n)) = built w t bs [] [] (schemas w) (Suc n)"
proof -
  have "\<not> user_referenced (ticked (built w t bs [u] [] (schemas w) n)) r" if "u_id r = u_id u" for r
  proof -
    have "\<forall>m \<in> set (tenant_users w). tu_user_id m \<noteq> u_id u" using fk u unfolding fk_wf_def by metis
    then show ?thesis using that by (simp add: user_referenced_def built_def)
  qed
  then show ?thesis
    unfolding undo_user_def by (simp add: delete_one_works [OF E] built_def remove_last u)
qed

lemma undo_membership_built:
  assumes E: "no_faults E" and m: "\<forall>x \<in> set (tenant_users w). tu_id x \<noteq> tu_id m"
  shows "snd (run_state (undo_membership E (tu_id m)) (built w t bs us [m] (schemas w) n)) = built w t bs us [] (schemas w) (Suc n)"
  unfolding undo_membership_def by (simp add: delete_one_works [OF E] no_clash_def built_def remove_last m)

lemma drop_schema_built:
  assumes E: "no_faults E" and new: "schemas w s = None"
  shows "snd (run_state (drop_schema E s) (built w t bs us ms ((schemas w)(s := x)) n)) = built w t bs us ms (schemas w) (Suc n)"
proof -
  have "(schemas w)(s := None) = schemas w" using new by auto
  then show ?thesis using E by (simp add: drop_schema_def run_db_step no_faults_def built_def)
qed

section \<open>Provisioning\<close>

text \<open>A database in which a compensation can succeed: it works, its foreign keys hold, and there is no
  schema left over for a slug that no tenant has.\<close>

definition clean :: "env \<Rightarrow> world \<Rightarrow> bool" where
  "clean E w \<longleftrightarrow> no_faults E \<and> fk_wf w \<and>
     (\<forall>slug. slug \<notin> t_slug ` set (tenants w) \<longrightarrow> schemas w (''tenant_'' @ slug) = None)"

definition outcome :: "env \<Rightarrow> world \<Rightarrow> (string \<Rightarrow> world \<Rightarrow> bool) \<Rightarrow> error + string \<Rightarrow> world \<Rightarrow> bool" where
  "outcome E w P r v = (case r of Inl e \<Rightarrow> clean E w \<longrightarrow> is_panic e \<or> same_tables w v | Inr slug \<Rightarrow> P slug v)"

lemma wp_saga_step:
  assumes "wp m (\<lambda>r v. case r of Inl e \<Rightarrow> clean E w \<longrightarrow> is_panic e \<or> undoes w steps v
                       | Inr x \<Rightarrow> wp (k x) (outcome E w P) v) v0"
  shows "wp (saga_step steps msg m k) (outcome E w P) v0"
  unfolding saga_step_def wp_handle
  by (rule wp_mono [OF assms]) (auto simp: outcome_def undoes_def wp_def split: sum.splits prod.splits)

text \<open>What the last steps leave: the tenant active, the owner's profile in its schema, and otherwise only
  plugin rows and plugin SQL on top of the first steps.\<close>

definition provisioned ::
  "world \<Rightarrow> tenant \<Rightarrow> branch list \<Rightarrow> user list \<Rightarrow> tenant_user list \<Rightarrow> RegisterInput \<Rightarrow> string \<Rightarrow> world \<Rightarrow> bool" where
  "provisioned w t bs us ms inp userID v \<longleftrightarrow>
     v = (built w (t\<lparr>t_status := ''active''\<rparr>) bs us ms (schemas v) (tick v))
           \<lparr>plugin_installs := plugin_installs v, histories := histories v\<rparr> \<and>
     (\<exists>p \<in> set (profiles (t_schema_name t) v). p_id p = userID \<and> p_system_role p = ''owner'' \<and>
        p_full_name p = ri_full_name inp \<and> p_phone p = ri_phone inp \<and> p_job_title p = ri_job_title inp)"

lemma wp_create_schema:
  assumes "\<And>n. Q (Inl (ErrDB Fault)) (w\<lparr>tick := n\<rparr>)"
    and "\<And>n sc. Q (Inr ()) (w\<lparr>tick := n, schemas := (schemas w)(s := Some sc)\<rparr>)"
  shows "wp (create_schema E s) Q w"
  unfolding create_schema_def
proof (rule wp_db_step, goal_cases)
  case (2 n)
  show ?case
  proof (cases "schemas w s")
    case None
    then show ?thesis using assms(2) by simp
  next
    case (Some sc)
    then have "w\<lparr>tick := n, schemas := (schemas w)(s := Some sc)\<rparr> = w\<lparr>tick := n\<rparr>"
      by (simp add: fun_upd_idem)
    then show ?thesis using assms(2) [of sc n] Some by simp
  qed
qed (rule assms(1))

lemma wp_MigrateTenantSchema:
  assumes "\<And>n e. Q (Inl e) (w\<lparr>tick := n\<rparr>)"
    and "\<And>n sc. s_profiles sc \<noteq> None \<Longrightarrow> Q (Inr ()) (w\<lparr>tick := n, schemas := (schemas w)(s := Some sc)\<rparr>)"
  shows "wp (MigrateTenantSchema E s) Q w"
  unfolding MigrateTenantSchema_def wp_attempt
proof (rule wp_reads, goal_cases)
  case 1
  show ?case unfolding Connect_def db_call_def
    by (intro reads.attempt reads.ok; simp add: guarantees_def run_db_step)
next
  case (2 r n)
  show ?case
  proof (cases r)
    case (Inl e)
    then show ?thesis by (simp add: assms(1))
  next
    case (Inr x)
    show ?thesis unfolding Inr sum.case
    proof (rule wp_db_step, goal_cases)
      case (2 k)
      have "Q (Inr ()) (w\<lparr>tick := k\<rparr>)" if "schemas w s = Some sc" "s_profiles sc \<noteq> None" for sc
      proof -
        have "w\<lparr>tick := k, schemas := (schemas w)(s := Some sc)\<rparr> = w\<lparr>tick := k\<rparr>" using that by (simp add: fun_upd_idem)
        then show ?thesis using assms(2) [OF that(2), of k] by simp
      qed
      then show ?case using assms by (auto split: option.splits)
    qed (simp add: assms(1))
  qed
qed

lemma wp_create_profile:
  assumes "\<And>n e. Q (Inl (ErrDB e)) (w\<lparr>tick := n\<rparr>)" and "schemas w s = Some sc"
    and "\<And>n sc' p. p_id p = i \<Longrightarrow> p_full_name p = fullName \<Longrightarrow> p_phone p = phone \<Longrightarrow> p_job_title p = jobTitle \<Longrightarrow>
      p_system_role p = sr \<Longrightarrow> p \<in> set (the (s_profiles sc')) \<Longrightarrow> s_profiles sc' \<noteq> None \<Longrightarrow>
      Q (Inr p) (w\<lparr>tick := n, schemas := (schemas w)(s := Some sc')\<rparr>)"
  shows "wp (create_profile E s i fullName phone jobTitle sr) Q w"
  unfolding create_profile_def wp_bind
proof (rule wp_reads [OF reads_ids(2)], rule wp_in_schema, goal_cases)
  case (1 now n m e)
  then show ?case using assms(1) [of e m] by simp
next
  case (2 now n)
  then obtain ps where ps: "s_profiles sc = Some ps" using assms(2) by (auto simp: has_profiles_def)
  show ?case
  proof (rule wp_ent_create, goal_cases)
    case (1 n e)
    then show ?case using assms(1) [of e n] by simp
  next
    case (2 k)
    show ?case using assms(2) ps unfolding profiles_update_def by (simp add: assms(3))
  qed
qed

lemma built_simps [simp]:
  "(built w t bs us ms sch n)\<lparr>tick := m\<rparr> = built w t bs us ms sch m"
  "(built w t bs us ms sch n)\<lparr>schemas := sch'\<rparr> = built w t bs us ms sch' n"
  "built (w\<lparr>tick := k\<rparr>) t bs us ms sch n = built w t bs us ms sch n"
  "schemas (built w t bs us ms sch n) = sch" "tenants (built w t bs us ms sch n) = tenants w @ [t]"
  by (simp_all add: built_def)

lemma activate:
  assumes "\<forall>x \<in> set ts. t_id x \<noteq> t_id t"
  shows "map (\<lambda>r. if t_id r = t_id t then f r else r) (ts @ [t]) = ts @ [f t]"
    "filter (\<lambda>r. t_id r = t_id t) (ts @ [t]) = [t]"
  using assms by (auto intro!: map_idI simp: filter_empty_conv)

context plugin_installer
begin

lemma wp_activate:
  assumes t: "\<forall>x \<in> set (tenants w). t_id x \<noteq> t_id t"
    and v: "installs_frame (built w t bs us ms sch n) v"
    and p: "p \<in> set (profiles (t_schema_name t) (built w t bs us ms sch n))" "p_id p = userID"
      "p_system_role p = ''owner''" "p_full_name p = ri_full_name inp" "p_phone p = ri_phone inp"
      "p_job_title p = ri_job_title inp"
  shows "wp (saga_step steps msg (ent_update_one E tenants tenants_update t_id no_clash (t_id t) (\<lambda>t. t\<lparr>t_status := ''active''\<rparr>))
      (\<lambda>_. ok slug)) (outcome E w (\<lambda>slug' v. slug' = slug \<and> provisioned w t bs us ms inp userID v)) v"
proof (rule wp_saga_step)
  obtain ps hs sch' m where v': "v = (built w t bs us ms sch' m)\<lparr>plugin_installs := ps, histories := hs\<rparr>"
    and prof: "profiles x v = profiles x (built w t bs us ms sch n)" for x
  proof
    have "v = (built w t bs us ms sch n)\<lparr>plugin_installs := plugin_installs v, histories := histories v,
        schemas := schemas v, tick := tick v\<rparr>" using v unfolding installs_frame_def by blast
    also have "\<dots> = (built w t bs us ms (schemas v) (tick v))\<lparr>plugin_installs := plugin_installs v, histories := histories v\<rparr>"
      by (simp add: built_def)
    finally show "v = \<dots>" .
    show "profiles x v = profiles x (built w t bs us ms sch n)" for x
      using v unfolding installs_frame_def by blast
  qed
  have tenants: "tenants v = tenants w @ [t]" by (simp add: v')
  show "wp (ent_update_one E tenants tenants_update t_id no_clash (t_id t) (\<lambda>t. t\<lparr>t_status := ''active''\<rparr>))
      (\<lambda>r v. case r of Inl e \<Rightarrow> clean E w \<longrightarrow> is_panic e \<or> undoes w steps v
         | Inr x \<Rightarrow> wp (ok slug) (outcome E w (\<lambda>slug' v. slug' = slug \<and> provisioned w t bs us ms inp userID v)) v) v"
  proof (rule wp_update_found [OF stable_tables(2), where rs = "[]" and r = t], goal_cases)
    case 1
    then show ?case using activate(2) [OF t] by (simp add: tenants)
  next
    case (2 n)
    then show ?case by (simp add: clean_def)
  next
    case (3 k)
    let ?v = "tenants_update (map (\<lambda>r. if t_id r = t_id t then r\<lparr>t_status := ''active''\<rparr> else r)) (v\<lparr>tick := k\<rparr>)"
    have "?v = (built w (t\<lparr>t_status := ''active''\<rparr>) bs us ms sch' k)\<lparr>plugin_installs := ps, histories := hs\<rparr>"
      using activate(1) [OF t, of "\<lambda>t. t\<lparr>t_status := ''active''\<rparr>"] by (simp add: v' built_def)
    moreover have "profiles x ?v = profiles x v" for x by (simp add: profiles_def)
    ultimately show ?case using p prof by (auto simp: outcome_def provisioned_def built_def)
  qed
qed

lemma wp_provision:
  assumes t: "\<forall>x \<in> set (tenants w). t_id x \<noteq> t_id t" and s: "t_schema_name t = ''tenant_'' @ slug"
    and slug: "slug \<notin> t_slug ` set (tenants w)"
    and undo: "\<And>n. clean E w \<Longrightarrow> undoes w steps (built w t bs us ms (schemas w) n)"
  shows "wp (provision E install inp slug (''tenant_'' @ slug) (t_id t) userID steps)
    (outcome E w (\<lambda>slug' v. slug' = slug \<and> provisioned w t bs us ms inp userID v)) (built w t bs us ms (schemas w) n)"
proof -
  let ?s = "''tenant_'' @ slug"
  have undo': "clean E w \<Longrightarrow> undoes w (steps @ [drop_schema E ?s]) (built w t bs us ms ((schemas w)(?s := x)) n)" for x n
    using undo drop_schema_built [of E w ?s] slug by (simp add: undoes_snoc clean_def)
  show ?thesis unfolding provision_def Let_def
  proof (rule wp_saga_step, rule wp_create_schema, goal_cases)
    case (2 n sc)
    show ?case unfolding sum.case built_simps
    proof (rule wp_saga_step, rule wp_MigrateTenantSchema, goal_cases)
      case (2 n sc)
      show ?case unfolding sum.case built_simps fun_upd_upd
      proof (rule wp_saga_step, rule wp_create_profile [where s = ?s and sc = sc], goal_cases)
        case (3 n sc p)
        show ?case unfolding sum.case built_simps fun_upd_upd
        proof (rule wp_saga_step, rule wpI, goal_cases)
          case (1 r v)
          let ?v = "built w t bs us ms ((schemas w)(?s := Some sc)) n"
          have "p \<in> set (profiles (t_schema_name t) ?v)" using 3 by (auto simp: profiles_def s)
          then show ?case using wp_activate [OF t frame [OF 1]] 1 complete [of ?v ?s "t_id t"] 3
            by (cases r) (auto simp: clean_def)
        qed
      qed (use undo' in auto)
    qed (use undo' in auto)
  qed (auto simp: undo)
qed

end

section \<open>The owner\<close>

definition owned ::
  "env \<Rightarrow> world \<Rightarrow> RegisterInput \<Rightarrow> tenant \<Rightarrow> branch \<Rightarrow> user list \<Rightarrow> user \<Rightarrow> tenant_user \<Rightarrow> bool" where
  "owned E w inp t b us u m \<longleftrightarrow>
     u \<in> set (users w @ us) \<and> u_email u = ri_email inp \<and>
     (us = [] \<or> (us = [u] \<and> (\<forall>x \<in> set (users w). u_email x \<noteq> ri_email inp) \<and>
        (\<exists>k. bcrypt_hash E k (ri_password inp) = Some (u_password_hash u)))) \<and>
     tu_user_id m = u_id u \<and> tu_tenant_id m = t_id t \<and> tu_branch_id m = b_id b \<and> tu_status m = ''active'' \<and>
     (\<exists>r \<in> set (roles w). r_id r = tu_role_id m \<and> r_tenant_id r = [] \<and> r_slug r = ''owner'')"

lemma wp_resolveUser:
  assumes "\<And>n e. Q (Inl e) (w\<lparr>tick := n\<rparr>)"
    and "\<And>n u. u \<in> set (users w) \<Longrightarrow> u_email u = email \<Longrightarrow> Q (Inr (u_id u, False)) (w\<lparr>tick := n\<rparr>)"
    and "\<And>n u k. \<forall>x \<in> set (users w). u_id x \<noteq> u_id u \<Longrightarrow> \<forall>x \<in> set (users w). u_email x \<noteq> email \<Longrightarrow>
      u_email u = email \<Longrightarrow> bcrypt_hash E k password = Some (u_password_hash u) \<Longrightarrow>
      Q (Inr (u_id u, True)) (w\<lparr>users := users w @ [u], tick := n\<rparr>)"
  shows "wp (resolveUser E email password) Q w"
  unfolding resolveUser_def wp_handle
proof (rule wp_ent_only [OF stable_tables(1)], goal_cases)
  case (2 n)
  have "ErrDB NotFound \<noteq> ErrDB NotFound \<longleftrightarrow> False" by simp
  show ?case unfolding sum.case if_not_P [OF not_not [THEN iffD2, OF refl]] wp_attempt wp_bind
  proof (rule wp_GenerateFromPassword, goal_cases)
    case (1 n e)
    then show ?case by (simp add: assms(1))
  next
    case (2 n k h)
    note h = 2
    show ?case unfolding sum.case
    proof (rule wp_reads [OF reads_ids(1)], rule wp_create_user, goal_cases)
      case (1 i n m e)
      then show ?case by (simp add: assms(1))
    next
      case (2 i n m u)
      then show ?case using assms(3) [of u k m] h by simp
    qed
  qed
next
  case (4 n u)
  then show ?case using assms(2) one_row [of _ _ u] by fastforce
qed (use assms(1) in auto)

lemma wp_SystemRoleID:
  assumes "\<And>n e. Q (Inl e) (w\<lparr>tick := n\<rparr>)"
    and "\<And>n r. r \<in> set (roles w) \<Longrightarrow> r_tenant_id r = [] \<Longrightarrow> r_slug r = slug \<Longrightarrow> Q (Inr (r_id r)) (w\<lparr>tick := n\<rparr>)"
  shows "wp (SystemRoleID E slug) Q w"
  unfolding SystemRoleID_def wp_attempt
proof (rule wp_ent_only [OF stable_tables(5)], goal_cases)
  case (4 n r)
  from one_row [OF 4] show ?case by (simp add: assms(2))
qed (use assms(1) in auto)

lemma built_tables [simp]:
  "users (built w t bs us ms sch n) = users w @ us" "branches (built w t bs us ms sch n) = branches w @ bs"
  "tenant_users (built w t bs us ms sch n) = tenant_users w @ ms" "roles (built w t bs us ms sch n) = roles w"
  by (simp_all add: built_def)

lemma built_add:
  "(built w t bs us ms sch n)\<lparr>users := users w @ us', tick := m\<rparr> = built w t bs us' ms sch m"
  "(built w t bs us ms sch n)\<lparr>tenant_users := tenant_users w @ ms', tick := m\<rparr> = built w t bs us ms' sch m"
  "(built w t bs us ms sch n)\<lparr>branches := branches w @ bs', tick := m\<rparr> = built w t bs' us ms sch m"
  by (simp_all add: built_def)

lemma wp_outcome_mono:
  "wp m (outcome E w P) v \<Longrightarrow> (\<And>s v. P s v \<Longrightarrow> P' s v) \<Longrightarrow> wp m (outcome E w P') v"
  by (erule wp_mono) (auto simp: outcome_def split: sum.splits)

lemma wp_register_owner:
  assumes undo: "\<And>n. clean E w \<Longrightarrow> undoes w steps (built w t [b] [] [] (schemas w) n)"
    and k: "\<And>us u m steps n. owned E w inp t b us u m \<Longrightarrow>
      (\<And>n. clean E w \<Longrightarrow> undoes w steps (built w t [b] us [m] (schemas w) n)) \<Longrightarrow>
      wp (k (u_id u) steps) (outcome E w P) (built w t [b] us [m] (schemas w) n)"
  shows "wp (register_owner E inp (t_id t) (b_id b) steps k) (outcome E w P) (built w t [b] [] [] (schemas w) n)"
proof -
  have membership: "wp (saga_step steps' ''step2b resolve owner role'' (SystemRoleID E ''owner'') (\<lambda>ownerRoleID. do {
       tuID \<leftarrow> short_id E ''tu_'';
       saga_step steps' ''step2b create membership'' (create_tenant_user E tuID (u_id u) (t_id t) (b_id b) ownerRoleID) (\<lambda>_.
       k (u_id u) (steps' @ [undo_membership E tuID])) })) (outcome E w P) (built w t [b] us [] (schemas w) n)"
    if u: "u \<in> set (users w @ us)" "u_email u = ri_email inp"
      "us = [] \<or> (us = [u] \<and> (\<forall>x \<in> set (users w). u_email x \<noteq> ri_email inp) \<and>
        (\<exists>k. bcrypt_hash E k (ri_password inp) = Some (u_password_hash u)))"
      and undo': "\<And>n. clean E w \<Longrightarrow> undoes w steps' (built w t [b] us [] (schemas w) n)" for us u steps' n
  proof (rule wp_saga_step, rule wp_SystemRoleID, goal_cases)
    case (2 n r)
    show ?case unfolding sum.case wp_bind
    proof (rule wp_reads [OF reads_ids(1)], rule wp_saga_step, rule wp_create_tenant_user, goal_cases)
      case (2 i n' n m)
      have m: "\<forall>x \<in> set (tenant_users w). tu_id x \<noteq> tu_id m" using 2 by simp
      have "undoes w (steps' @ [undo_membership E i]) (built w t [b] us [m] (schemas w) n)" if "clean E w" for n
        unfolding undoes_snoc using undo' undo_membership_built [OF _ m] that 2(1) by (simp add: clean_def)
      moreover have "owned E w inp t b us u m"
        using u 2 \<open>r \<in> _\<close> \<open>r_tenant_id r = []\<close> \<open>r_slug r = _\<close> unfolding owned_def by auto
      ultimately show ?case unfolding sum.case by (simp add: built_add k)
    qed (use undo' in auto)
  qed (use undo' in auto)
  show ?thesis unfolding register_owner_def Let_def
  proof (rule wp_saga_step, rule wp_resolveUser, goal_cases)
    case (2 n u)
    then show ?case unfolding sum.case prod.case using membership [of u "[]" steps n] undo by simp
  next
    case (3 n u k)
    have new: "\<forall>x \<in> set (users w). u_id x \<noteq> u_id u" using 3 by simp
    have "undoes w (steps @ [undo_user E (u_id u)]) (built w t [b] [u] [] (schemas w) n)" if "clean E w" for n
      unfolding undoes_snoc using undo undo_user_built [OF _ _ new] that by (simp add: clean_def)
    then show ?case unfolding sum.case prod.case if_P [OF TrueI]
      using membership [of u "[u]" "steps @ [undo_user E (u_id u)]" n] 3 by (auto simp: built_add)
  qed (use undo in auto)
qed

section \<open>Registration\<close>

text \<open>The world after a successful registration of \<open>inp\<close> under \<open>slug\<close>.\<close>

definition registered :: "env \<Rightarrow> RegisterInput \<Rightarrow> world \<Rightarrow> string \<Rightarrow> world \<Rightarrow> bool" where
  "registered E inp w slug v \<longleftrightarrow> ValidateSlug slug = None \<and> slug \<notin> t_slug ` set (tenants w) \<and>
     (\<exists>t b us u m. t_slug t = slug \<and> t_name t = ri_name inp \<and> t_plan t = ri_plan inp \<and> t_schema_name t = ''tenant_'' @ slug \<and>
        (\<forall>x \<in> set (tenants w). t_id x \<noteq> t_id t) \<and>
        b_tenant_id b = t_id t \<and> b_slug b = ''main'' \<and> b_status b = ''active'' \<and>
        owned E w inp t b us u m \<and> provisioned w t [b] us [m] inp (u_id u) v)"

lemma reads_slug_search: "guarantees same_tables (slug_search fuel E base i cand)"
  by (induction fuel arbitrary: i cand)
    (auto intro!: guarantees_intro reads.attempt reads.ok reads.fail simp: SlugAvailable_def)

lemma reads_resolveSlug: "guarantees same_tables (resolveSlug utrim ulower E requested nm)"
proof (cases "requested \<noteq> [] \<or> GenerateSlugBase utrim ulower nm = []")
  case True
  then show ?thesis by (auto simp: resolveSlug_def Let_def intro!: reads.ok reads.fail)
next
  case False
  then show ?thesis using reads_slug_search unfolding resolveSlug_def Let_def guarantees_def
    by (simp del: slug_search.simps)
qed

lemma wp_create_tenant:
  assumes "\<And>n e. Q (Inl (ErrDB e)) (w\<lparr>tick := n\<rparr>)"
    and "\<And>n t. t_id t = i \<Longrightarrow> t_slug t = slug \<Longrightarrow> t_name t = nm \<Longrightarrow> t_plan t = plan \<Longrightarrow> t_schema_name t = schema \<Longrightarrow>
      \<forall>x \<in> set (tenants w). t_id x \<noteq> i \<Longrightarrow> \<forall>x \<in> set (tenants w). t_slug x \<noteq> slug \<Longrightarrow>
      Q (Inr t) (built w t [] [] [] (schemas w) n)"
  shows "wp (create_tenant E i slug nm plan status schema) Q w"
  unfolding create_tenant_def
proof (rule wp_ent_create, goal_cases)
  case (2 n)
  then show ?case using assms(2) by (auto simp: table_put tenant_clash_def built_def)
qed (simp add: assms(1))

context plugin_installer
begin

lemma wp_Register: "wp (Register utrim ulower E install inp) (outcome E w (registered E inp w)) w"
  unfolding Register_def wp_attempt [of "resolveSlug _ _ _ _ _"]
proof (rule wp_reads [OF reads_resolveSlug], goal_cases)
  case (1 r n)
  show ?case
  proof (cases r)
    case (Inl e)
    then show ?thesis by (simp add: outcome_def same_tables_def)
  next
    case (Inr slug)
    show ?thesis
    proof (cases "ValidateSlug slug")
      case (Some e)
      then show ?thesis using Inr by (simp add: outcome_def same_tables_def)
    next
      case None
      show ?thesis unfolding Inr sum.case None option.case Let_def wp_bind wp_attempt
      proof (rule wp_reads [OF reads_ids(1)], rule wp_create_tenant, goal_cases)
        case (1 i n m e)
        then show ?case by (simp add: outcome_def same_tables_def)
      next
        case (2 i n m t)
        have t: "\<forall>x \<in> set (tenants w). t_id x \<noteq> t_id t" "slug \<notin> t_slug ` set (tenants w)"
          "t_schema_name t = ''tenant_'' @ slug" using 2 by auto
        have undo: "clean E w \<Longrightarrow> undoes w [undo_tenant E (t_id t)] (built w t [] [] [] (schemas w) n)" for n
          using undoes_tenant [OF _ _ t(1)] by (simp add: clean_def)
        show ?case unfolding sum.case wp_bind 2(1) [symmetric]
        proof (rule wp_reads [OF reads_ids(1)], unfold built_simps, rule wp_saga_step, rule wp_create_branch, goal_cases)
          case (1 j n m e)
          then show ?case using undo by simp
        next
          case (2 j n m b)
          have b: "\<forall>x \<in> set (branches w). b_id x \<noteq> b_id b" using 2 by simp
          have undo_b: "clean E w \<Longrightarrow> undoes w ([undo_tenant E (t_id t)] @ [undo_branch E (b_id b)])
              (built w t [b] [] [] (schemas w) n)" for n
            unfolding undoes_snoc using undo undo_branch_built [OF _ b] by (simp add: clean_def)
          have "wp (register_owner E inp (t_id t) (b_id b) ([undo_tenant E (t_id t)] @ [undo_branch E (b_id b)])
              (\<lambda>userID steps. provision E install inp slug (''tenant_'' @ slug) (t_id t) userID steps))
              (outcome E w (registered E inp w)) (built w t [b] [] [] (schemas w) m)"
          proof (rule wp_register_owner [OF undo_b], assumption, rule wp_outcome_mono [OF wp_provision])
            fix us u m' s v
            assume "owned E w inp t b us u m'" and "s = slug \<and> provisioned w t [b] us [m'] inp (u_id u) v"
            then show "registered E inp w s v"
              unfolding registered_def using t None 2 \<open>t_name t = _\<close> \<open>t_plan t = _\<close> \<open>t_slug t = slug\<close> by blast
          qed (use t in auto)
          then show ?case using 2 by (simp add: built_def)
        qed
      qed
    qed
  qed
qed

end

section \<open>Properties\<close>

text \<open>C12. A registration that reports success has left a complete tenant, whatever faults occurred on the way:
  a free, well-formed slug; an active tenant with its schema name; one active branch
  \<open>main\<close>; the owner, who is the account with that email or a new one with a hash of the given
  password; an active membership with the built-in owner role; the owner's profile in the tenant's
  schema. Nothing else changed but plugin rows and plugin SQL.\<close>

theorem Register_correct:
  assumes "run_state (Register utrim ulower E (InstallForNewTenant E core) inp) w = (Inr slug, w')"
  shows "registered E inp w slug w'"
  using wpD [OF registration_installer.wp_Register assms] by (simp add: outcome_def)


definition acme_input :: RegisterInput where
  "acme_input = \<lparr>ri_slug = [], ri_name = ''Acme'', ri_plan = ''starter'', ri_email = ''new@x.io'', ri_password = ''pw'',
     ri_full_name = ''Nia'', ri_phone = [], ri_job_title = []\<rparr>"

definition no_core :: core where
  "no_core = (\<lambda>_ _. Unreachable)"

definition pos_core :: core where
  "pos_core = (\<lambda>_ _. Answer 200 (Some [\<lparr>m_version = ''001'', m_name = ''init'', m_up_sql = ''create table sale'', m_down_sql = ''drop table sale''\<rparr>]))"

definition pos_shop :: world where
  "pos_shop = shop\<lparr>plugin_installs := [\<lparr>pi_id = ''i1'', pi_tenant_id = ''t1'', pi_plugin_name = ''pos'', pi_installed_at = 0,
     pi_permissions = []\<rparr>]\<rparr>"

definition register_acme :: "env \<Rightarrow> core \<Rightarrow> world \<Rightarrow> (error + string) \<times> world" where
  "register_acme E core w = run_state (Register id id E (InstallForNewTenant E core) acme_input) w"

theorem Register_correct_witness:
  "fst (register_acme env0 no_core shop) = Inr ''acme_2'' \<and>
   registered env0 acme_input shop ''acme_2'' (snd (register_acme env0 no_core shop))"
proof
  show r: "fst (register_acme env0 no_core shop) = Inr ''acme_2''" by code_simp
  then have "run_state (Register id id env0 (InstallForNewTenant env0 no_core) acme_input) shop =
      (Inr ''acme_2'', snd (register_acme env0 no_core shop))"
    unfolding register_acme_def by (metis prod.collapse)
  from Register_correct [OF this]
  show "registered env0 acme_input shop ''acme_2'' (snd (register_acme env0 no_core shop))" .
qed


text \<open>A single database fault is enough to strand a registration: when the activation fails after a
  plugin has been installed for the new tenant, no compensation removes the plugin's row, the
  foreign key keeps the tenant's row, and the slug is lost. An admin cannot repair it either:
  \<open>SetTenantStatus\<close> refuses a tenant that is still provisioning.\<close>

theorem activation_fault_strands_the_tenant:
  "let out = register_acme (env_faulty {137}) pos_core pos_shop
   in fst out = Inl (ErrWrap ''step7 activate tenant'' (ErrDB Fault)) \<and>
      map (\<lambda>t. (t_slug t, t_status t)) (tenants (snd out)) = [(''acme'', ''active''), (''acme_2'', ''provisioning'')] \<and>
      map pi_tenant_id (plugin_installs (snd out)) = [''t1'', ''t_102''] \<and>
      map tu_tenant_id (tenant_users (snd out)) = [''t1'', ''t1''] \<and>
      fst (run_state (SetTenantStatus env0 ''t_102'' ''active'') (snd out)) = Inl (ErrText ''tenant is still provisioning'')"
  by code_simp

text \<open>The compensations use the context of the request: once the client has gone away every database
  call fails, the compensations included, and all that the first steps wrote stays.\<close>

theorem cancelled_request_strands_the_tenant:
  "let out = register_acme (env0\<lparr>db_fault := (\<lambda>n. 115 \<le> n)\<rparr>) no_core shop
   in fst out = Inl (ErrWrap ''step2b create membership'' (ErrDB Fault)) \<and>
      map (\<lambda>t. (t_slug t, t_status t)) (tenants (snd out)) = [(''acme'', ''active''), (''acme_2'', ''provisioning'')] \<and>
      map u_email (users (snd out)) = [''a@x.io'', ''b@x.io'', ''new@x.io'']"
  by code_simp

end
