(* ===== verification/Plugins.thy ===== *)
theory Plugins
  imports Registration Handlers
begin

text \<open>
  What plugin migrations and plugin installation (\<open>src/internal/migrator\<close>, \<open>src/internal/pluginmgr\<close>)
  achieve: which SQL runs, in which order, what is recorded, and that a second run does nothing.
\<close>

section \<open>Migrations\<close>

definition sql :: "string \<Rightarrow> world \<Rightarrow> string list" where
  "sql s w = (case schemas w s of None \<Rightarrow> [] | Some sc \<Rightarrow> s_sql sc)"

definition applied_to :: "string \<Rightarrow> string \<Rightarrow> world \<Rightarrow> string set" where
  "applied_to T p w = mh_version ` {h \<in> set (histories w). mh_tenant_id h = T \<and> mh_plugin_name h = p \<and> mh_status h = ''applied''}"

definition record_of :: "migration_history \<Rightarrow> string \<times> string \<times> string \<times> string \<times> string" where
  "record_of h = (mh_tenant_id h, mh_plugin_name h, mh_version h, mh_name h, mh_status h)"

text \<open>Exactly the migrations \<open>ms\<close> ran, in this order, and were recorded.\<close>

definition migrated :: "string \<Rightarrow> string \<Rightarrow> string \<Rightarrow> Migration list \<Rightarrow> world \<Rightarrow> world \<Rightarrow> bool" where
  "migrated T s p ms w v \<longleftrightarrow>
     v = w\<lparr>histories := histories v, schemas := schemas v, tick := tick v\<rparr> \<and>
     (\<forall>x. profiles x v = profiles x w) \<and> (\<forall>x. x \<noteq> s \<longrightarrow> sql x v = sql x w) \<and>
     sql s v = sql s w @ map m_up_sql ms \<and>
     (\<exists>hs. histories v = histories w @ hs \<and>
        map record_of hs = map (\<lambda>m. (T, p, m_version m, m_name m, ''applied'')) ms)"

lemma migrated_tick [simp]: "migrated T s p ms w (v\<lparr>tick := n\<rparr>) = migrated T s p ms w v"
  by (cases w, cases v) (auto simp: migrated_def profiles_def sql_def)

lemma migrated_Nil: "migrated T s p [] w w"
  by (simp add: migrated_def)

lemma wp_runSQL:
  assumes "\<And>n e. Q (Inl e) (w\<lparr>tick := n\<rparr>)"
    and "\<And>n sc. schemas w s = Some sc \<Longrightarrow> Q (Inr ()) (w\<lparr>tick := n, schemas := (schemas w)(s \<mapsto> sc\<lparr>s_sql := s_sql sc @ [q]\<rparr>)\<rparr>)"
  shows "wp (runSQL E s q) Q w"
  using assms by (auto simp: wp_def runSQL_def db_call_def run_db_step split: option.splits)

lemma wp_create_history:
  assumes "\<And>n e. Q (Inl (ErrDB e)) (w\<lparr>tick := n\<rparr>)"
    and "\<And>n h. record_of h = (T, p, v, nm, status) \<Longrightarrow> Q (Inr h) (w\<lparr>histories := histories w @ [h], tick := n\<rparr>)"
  shows "wp (create_history E i T p v nm status) Q w"
  unfolding create_history_def wp_bind
proof (rule wp_reads [OF reads_ids(2)], rule wp_ent_create, goal_cases)
  case (1 r m n e)
  then show ?case using assms(1) [of e n] by simp
next
  case (2 now m n)
  then show ?case using assms(2) by (auto simp: table_put record_of_def)
qed

lemma migrated_step:
  assumes "migrated T s p ms w v" and "schemas v s = Some sc" and "record_of h = (T, p, m_version m, m_name m, ''applied'')"
  shows "migrated T s p (ms @ [m]) w (v\<lparr>schemas := (schemas v)(s \<mapsto> sc\<lparr>s_sql := s_sql sc @ [m_up_sql m]\<rparr>),
    histories := histories v @ [h], tick := n\<rparr>)"
proof -
  let ?v = "v\<lparr>schemas := (schemas v)(s \<mapsto> sc\<lparr>s_sql := s_sql sc @ [m_up_sql m]\<rparr>), histories := histories v @ [h], tick := n\<rparr>"
  from assms(1) obtain hs where v: "v = w\<lparr>histories := histories v, schemas := schemas v, tick := tick v\<rparr>"
    and hs: "histories v = histories w @ hs" "map record_of hs = map (\<lambda>m. (T, p, m_version m, m_name m, ''applied'')) ms"
    and profs: "\<forall>x. profiles x v = profiles x w" and other: "\<forall>x. x \<noteq> s \<longrightarrow> sql x v = sql x w"
    and own: "sql s v = sql s w @ map m_up_sql ms"
    unfolding migrated_def by blast
  have profs': "profiles x ?v = profiles x v" for x using assms(2) by (simp add: profiles_def)
  have sql': "sql x ?v = (if x = s then sql x v @ [m_up_sql m] else sql x v)" for x
    using assms(2) by (simp add: sql_def)
  show ?thesis unfolding migrated_def
  proof (intro conjI allI impI exI [of _ "hs @ [h]"])
    show "?v = w\<lparr>histories := histories ?v, schemas := schemas ?v, tick := tick ?v\<rparr>" by (subst v) simp
    show "map record_of (hs @ [h]) = map (\<lambda>m. (T, p, m_version m, m_name m, ''applied'')) (ms @ [m])"
      using hs assms(3) by simp
    show "profiles x ?v = profiles x w" for x using profs' profs by metis
    show "sql x ?v = sql x w" if "x \<noteq> s" for x using sql' [of x] other that by simp
    show "sql s ?v = sql s w @ map m_up_sql (ms @ [m])" using sql' [of s] own by simp
    show "histories ?v = histories w @ (hs @ [h])" using hs by simp
  qed
qed

lemma wp_apply_pending:
  assumes "migrated T s p prev w v"
  shows "wp (apply_pending E T s p applied ms)
    (\<lambda>r v'. r = Inr () \<longrightarrow> migrated T s p (prev @ filter (\<lambda>m. m_version m \<notin> applied) ms) w v') v"
  using assms
proof (induction ms arbitrary: v prev)
  case Nil
  then show ?case by simp
next
  case (Cons mig rest)
  show ?case
  proof (cases "m_version mig \<in> applied")
    case True
    then show ?thesis using Cons by simp
  next
    case False
    show ?thesis unfolding apply_pending.simps if_not_P [OF False] wp_attempt wp_bind
    proof (rule wp_runSQL, goal_cases)
      case (2 n sc)
      show ?case unfolding sum.case
      proof (rule wp_reads [OF reads_ids(3)], rule wp_create_history, goal_cases)
        case (2 i k m h)
        then show ?case
          using Cons.IH [OF migrated_step [OF Cons.prems \<open>schemas v s = Some sc\<close>, of h mig m]] False by simp
      qed simp
    qed simp
  qed
qed

text \<open>The migrations of \<open>ms\<close> in version order.\<close>

definition version_sorted :: "Migration list \<Rightarrow> Migration list \<Rightarrow> bool" where
  "version_sorted ms ms' \<longleftrightarrow> mset ms' = mset ms \<and> sorted (map m_version ms')"

lemma wp_sys_call_eq: "wp (sys_call f) Q w = Q (f (tick w)) (ticked w)"
  by (simp add: wp_def)

lemma wp_ent_all_eq: "wp (ent_all E rows P) Q w =
    (if db_fault E (tick w) then Q (Inl (ErrDB Fault)) (ticked w)
     else Q (Inr (arrange E (ticked w) (filter P (rows (ticked w))))) (ticked w))"
  by (simp add: wp_def run_ent_all)

lemma wp_RunForTenant:
  "wp (RunForTenant E T s p ms) (\<lambda>r v. r = Inr () \<longrightarrow> (\<exists>ms' applied. version_sorted ms ms' \<and>
     (applied = applied_to T p w \<or> applied = {} \<and> \<not> no_faults E) \<and>
     migrated T s p (filter (\<lambda>m. m_version m \<notin> applied) ms') w v)) w"
proof -
  have run: "wp (apply_pending E T s p applied ms') (\<lambda>r v. r = Inr () \<longrightarrow> (\<exists>ms' applied. version_sorted ms ms' \<and>
     (applied = applied_to T p w \<or> applied = {} \<and> \<not> no_faults E) \<and>
     migrated T s p (filter (\<lambda>m. m_version m \<notin> applied) ms') w v)) (w\<lparr>tick := n\<rparr>)"
    if "version_sorted ms ms'" and "applied = applied_to T p w \<or> applied = {} \<and> \<not> no_faults E" for ms' applied n
    using that by (intro wp_mono [OF wp_apply_pending [where prev = "[]" and w = w]])
      (simp add: migrated_Nil, auto)
  have sorted: "version_sorted ms (sort_key m_version (shuffle order ms))" for order
    by (simp add: version_sorted_def)
  show ?thesis
  proof (cases "db_fault E (Suc (tick w))")
    case True
    then have "\<not> no_faults E" by (auto simp: no_faults_def)
    then show ?thesis using True run [OF sorted, of "{}"]
      by (simp add: RunForTenant_def sort_versions_def appliedVersions_def wp_sys_call_eq wp_ent_all_eq)
  next
    case False
    let ?rows = "filter (\<lambda>h. mh_tenant_id h = T \<and> mh_plugin_name h = p \<and> mh_status h = ''applied'') (histories w)"
    have "set (map mh_version (arrange E v ?rows)) = applied_to T p w" for v
      by (simp add: applied_to_def)
    then show ?thesis using False run [OF sorted, of "applied_to T p w"]
      by (simp add: RunForTenant_def sort_versions_def appliedVersions_def wp_sys_call_eq wp_ent_all_eq)
  qed
qed

lemma migrated_applied:
  assumes "migrated T s p ms w v"
  shows "applied_to T p v = applied_to T p w \<union> set (map m_version ms)"
proof -
  from assms obtain hs where hs: "histories v = histories w @ hs"
    and r: "map record_of hs = map (\<lambda>m. (T, p, m_version m, m_name m, ''applied'')) ms"
    unfolding migrated_def by blast
  have "mh_tenant_id h = T \<and> mh_plugin_name h = p \<and> mh_status h = ''applied''" if "h \<in> set hs" for h
  proof -
    have "record_of h \<in> set (map (\<lambda>m. (T, p, m_version m, m_name m, ''applied'')) ms)"
      unfolding r [symmetric] using that by simp
    then show ?thesis by (auto simp: record_of_def)
  qed
  then have "{h \<in> set (histories w @ hs). mh_tenant_id h = T \<and> mh_plugin_name h = p \<and> mh_status h = ''applied''} =
      {h \<in> set (histories w). mh_tenant_id h = T \<and> mh_plugin_name h = p \<and> mh_status h = ''applied''} \<union> set hs" by auto
  moreover have "map mh_version hs = map m_version ms"
  proof -
    have "map (fst \<circ> snd \<circ> snd) (map record_of hs) = map (fst \<circ> snd \<circ> snd) (map (\<lambda>m. (T, p, m_version m, m_name m, ''applied'')) ms)"
      by (simp only: r)
    then show ?thesis by (simp add: record_of_def comp_def)
  qed
  then have "mh_version ` set hs = set (map m_version ms)" by (metis list.set_map)
  ultimately show ?thesis unfolding applied_to_def hs by (simp only: image_Un)
qed

lemma apply_pending_skip: "m_version ` set ms \<subseteq> applied \<Longrightarrow> apply_pending E T s p applied ms = ok ()"
  by (induction ms) auto

text \<open>C18. A migration run during which no call to the database fails, and which reports success, applies exactly the
  pending migrations of a plugin, in version order: their SQL is committed in the tenant's schema and
  nowhere else, each is recorded as applied, and profiles and all other tables are as before;
  afterwards every version is recorded. Without the assumption it does not hold, see
  \<open>failed_read_reruns_migrations\<close>.\<close>

theorem RunForTenant_correct:
  assumes "run_state (RunForTenant E T s p ms) w = (Inr (), w')" and "no_faults E"
  shows "\<exists>ms'. version_sorted ms ms' \<and> migrated T s p (filter (\<lambda>m. m_version m \<notin> applied_to T p w) ms') w w' \<and>
    m_version ` set ms \<subseteq> applied_to T p w'"
proof -
  obtain ms' where ms': "version_sorted ms ms'" "migrated T s p (filter (\<lambda>m. m_version m \<notin> applied_to T p w) ms') w w'"
    using wpD [OF wp_RunForTenant assms(1)] assms(2) by blast
  have "set ms' = set ms" using ms'(1) unfolding version_sorted_def by (metis set_mset_mset)
  then have "m_version ` set ms \<subseteq> applied_to T p w'" unfolding migrated_applied [OF ms'(2)] by auto
  with ms' show ?thesis by blast
qed

theorem RunForTenant_correct_witness:
  "fst (run_state (RunForTenant env0 ''t1'' ''tenant_acme'' ''pos''
     [\<lparr>m_version = ''2'', m_name = [], m_up_sql = ''b'', m_down_sql = []\<rparr>, \<lparr>m_version = ''1'', m_name = [], m_up_sql = ''a'', m_down_sql = []\<rparr>]) shop) = Inr () \<and>
   {''1'', ''2''} \<subseteq> applied_to ''t1'' ''pos'' (snd (run_state (RunForTenant env0 ''t1'' ''tenant_acme'' ''pos''
     [\<lparr>m_version = ''2'', m_name = [], m_up_sql = ''b'', m_down_sql = []\<rparr>, \<lparr>m_version = ''1'', m_name = [], m_up_sql = ''a'', m_down_sql = []\<rparr>]) shop))"
  (is "fst ?run = _ \<and> _")
proof
  show r: "fst ?run = Inr ()" by code_simp
  then have "?run = (Inr (), snd ?run)" by (metis prod.collapse)
  from RunForTenant_correct [OF this] show "{''1'', ''2''} \<subseteq> applied_to ''t1'' ''pos'' (snd ?run)"
    by (auto simp: no_faults_def env0_def)
qed

text \<open>C19. Migrating again does nothing while the database works: once a plugin's migrations have run for a tenant,
  running the same or fewer of them succeeds without touching a table. No call to the database fails
  in either run; a failed read of the history in the second would run them again.\<close>

theorem RunForTenant_idempotent:
  assumes "run_state (RunForTenant E T s p ms) w = (Inr (), w1)" and "no_faults E"
    and "set ms2 \<subseteq> set ms" and "run_state (RunForTenant E T s2 p ms2) w1 = (r, w2)"
  shows "r = Inr () \<and> same_tables w1 w2"
proof -
  obtain ms' where ms': "version_sorted ms ms'" "migrated T s p (filter (\<lambda>m. m_version m \<notin> applied_to T p w) ms') w w1"
    using wpD [OF wp_RunForTenant assms(1)] assms(2) by blast
  have "set ms' = set ms" using ms'(1) unfolding version_sorted_def by (metis set_mset_mset)
  then have applied: "m_version ` set ms2 \<subseteq> applied_to T p w1"
    using assms(3) unfolding migrated_applied [OF ms'(2)] by auto
  let ?rows = "filter (\<lambda>h. mh_tenant_id h = T \<and> mh_plugin_name h = p \<and> mh_status h = ''applied'') (histories w1)"
  have rows: "set (map mh_version (arrange E v ?rows)) = applied_to T p w1" for v
    by (simp add: applied_to_def)
  have skip: "apply_pending E T s2 p (applied_to T p w1) (sort_key m_version (shuffle order ms2)) = ok ()" for order
    by (rule apply_pending_skip) (simp add: applied)
  have "wp (RunForTenant E T s2 p ms2) (\<lambda>r w2. r = Inr () \<and> same_tables w1 w2) w1"
    using assms(2) rows skip
    by (simp add: RunForTenant_def sort_versions_def appliedVersions_def wp_sys_call_eq wp_ent_all_eq no_faults_def same_tables_def)
  from wpD [OF this assms(4)] show ?thesis .
qed

theorem RunForTenant_idempotent_witness:
  "fst (run_state (RunForTenant env0 ''t1'' ''tenant_acme'' ''pos'' [\<lparr>m_version = ''1'', m_name = [], m_up_sql = ''a'', m_down_sql = []\<rparr>])
     (snd (run_state (RunForTenant env0 ''t1'' ''tenant_acme'' ''pos'' [\<lparr>m_version = ''1'', m_name = [], m_up_sql = ''a'', m_down_sql = []\<rparr>]) shop))) = Inr ()"
  (is "fst (run_state ?m (snd (run_state ?m shop))) = _")
proof -
  have "fst (run_state ?m shop) = Inr ()" by code_simp
  then have run: "run_state ?m shop = (Inr (), snd (run_state ?m shop))" by (metis prod.collapse)
  have "no_faults env0" by (simp add: no_faults_def env0_def)
  from RunForTenant_idempotent [OF run this subset_refl surjective_pairing] show ?thesis by blast
qed

text \<open>The guard against running a migration twice fails open: \<open>appliedVersions\<close> returns an empty map
  when its query fails, so a fault there makes the next run commit the SQL of an applied migration again
  and record it a second time, with no error.\<close>

theorem failed_read_reruns_migrations:
  "let ms = [\<lparr>m_version = ''1'', m_name = [], m_up_sql = ''insert'', m_down_sql = []\<rparr>];
       w1 = snd (run_state (RunForTenant env0 ''t1'' ''tenant_acme'' ''pos'' ms) shop);
       out = run_state (RunForTenant (env_faulty {Suc (tick w1)}) ''t1'' ''tenant_acme'' ''pos'' ms) w1
   in fst out = Inr () \<and> sql ''tenant_acme'' (snd out) = [''insert'', ''insert''] \<and>
      map mh_version (histories (snd out)) = [''1'', ''1'']"
  by code_simp

text \<open>Uninstalling with data reports success although nothing was dropped: a down migration that
  fails is skipped without an error, the record of the install is removed, the plugin's tables and its
  applied versions stay, and the handler answers that the data was dropped.\<close>

theorem uninstall_reports_dropped_data:
  "let c = (\<lambda>b. call ''u1'' ''plugin:uninstall'' (\<lambda>_. []) b);
       h = \<lparr>h_core = pos_core, h_pluginKey = [], h_googleClientID = [], h_dsn = [], h_exec = (\<lambda>_ _. ([], None)),
            h_utrim = id, h_ulower = id, h_verify = (\<lambda>_. None), h_restored = id\<rparr>;
       w1 = snd (run_state (Install env0 pos_core ''t1'' ''pos'') shop);
       out = run_state (uninstall (env_faulty {tick w1 + 7}) h
         (c \<lparr>un_tenant_id = ''t1'', un_plugin_name = ''pos'', un_drop_data = True\<rparr>)) w1
   in fst out = \<lparr>rs_status = 200, rs_body = UninstallPluginResponse ''plugin uninstalled (data dropped)''\<rparr> \<and>
      plugin_installs (snd out) = [] \<and> sql ''tenant_acme'' (snd out) = [''create table sale''] \<and>
      map mh_status (histories (snd out)) = [''applied'']"
  by code_simp

end
