(* ===== verification/Google.thy ===== *)
theory Google
  imports Login
begin

text \<open>
  \<open>src/internal/auth/google.go\<close>: verification of Google ID tokens and the cache of Google's signing
  keys. The JWT parser (\<open>golang-jwt\<close>) is the argument \<open>parse\<close> of \<open>Verify\<close>: it gets the raw token
  and the key function and returns the claims or an error; \<open>parser_sound\<close> states what the code
  relies on. The network is the record \<open>net\<close>: the clock and what the certificate endpoint
  answers at each outside call.
\<close>

section \<open>Base64url, decoding\<close>

text \<open>\<open>base64.RawURLEncoding.DecodeString\<close>: no padding, CR and LF are skipped, unused trailing bits
  are not checked.\<close>

definition b64_value :: "char \<Rightarrow> nat option" where
  "b64_value c = (case filter (\<lambda>i. b64_char i = c) [0..<64] of [] \<Rightarrow> None | i # _ \<Rightarrow> Some i)"

fun b64_groups :: "nat list \<Rightarrow> string option" where
  "b64_groups [] = Some []"
| "b64_groups [a] = None"
| "b64_groups [a, b] = Some [char_of (a * 4 + b div 16)]"
| "b64_groups [a, b, c] = Some [char_of (a * 4 + b div 16), char_of (b mod 16 * 16 + c div 4)]"
| "b64_groups (a # b # c # d # rest) = map_option
     (\<lambda>s. char_of (a * 4 + b div 16) # char_of (b mod 16 * 16 + c div 4) # char_of (c mod 4 * 64 + d) # s)
     (b64_groups rest)"

definition b64url_decode :: "string \<Rightarrow> string option" where
  "b64url_decode s =
     (let vs = map b64_value (filter (\<lambda>c. c \<noteq> CHR 0x0A \<and> c \<noteq> CHR 0x0D) s)
      in if list_all (\<lambda>v. v \<noteq> None) vs then b64_groups (map the vs) else None)"

section \<open>Configuration\<close>

definition ParseGoogleClientIDs :: "(string \<Rightarrow> string) \<Rightarrow> string \<Rightarrow> string list" where
  "ParseGoogleClientIDs utrim csv =
     foldl (\<lambda>ids part. let i = TrimSpace utrim part in if i \<noteq> [] then ids @ [i] else ids) [] (split_on CHR '','' csv)"

definition googleIssuers :: "string list" where
  "googleIssuers = [''accounts.google.com'', ''https://accounts.google.com'']"

section \<open>The verifier\<close>

record RsaKey =
  rsa_n :: nat
  rsa_e :: int

record jwk =
  jwk_kid :: string
  jwk_n :: string
  jwk_e :: string
  jwk_kty :: string

datatype certs_answer = CertsUnreachable | Certs nat "jwk list option"

record net =
  net_now :: "nat \<Rightarrow> nat"
  net_certs :: "nat \<Rightarrow> certs_answer"

record GoogleVerifier =
  v_clientIDs :: "string list"
  v_keys :: "string \<rightharpoonup> RsaKey"
  v_fetchedA :: "nat option" \<comment> \<open>\<open>None\<close> is the zero time\<close>
  v_ttl :: nat
  v_calls :: nat

definition NewGoogleVerifier :: "string list \<Rightarrow> GoogleVerifier option" where
  "NewGoogleVerifier clientIDs =
     (if length clientIDs = 0 then None
      else Some \<lparr>v_clientIDs = clientIDs, v_keys = Map.empty, v_fetchedA = None,
                 v_ttl = 3600 * 1000000000, v_calls = 0\<rparr>)"

definition outside :: "(nat \<Rightarrow> 'a) \<Rightarrow> (GoogleVerifier, 'a) state" where
  "outside f = State (\<lambda>v. (f (v_calls v), v\<lparr>v_calls := Suc (v_calls v)\<rparr>))"

text \<open>\<open>big.Int.SetBytes\<close> reads a big-endian number; \<open>Int64\<close> keeps its low 64 bits, signed.\<close>

definition big_of_bytes :: "string \<Rightarrow> nat" where
  "big_of_bytes s = foldl (\<lambda>n c. n * 256 + of_char c) 0 s"

definition int64 :: "nat \<Rightarrow> int" where
  "int64 n = (int n + 2 ^ 63) mod 2 ^ 64 - 2 ^ 63"

definition rsaKeyFromJWK :: "jwk \<Rightarrow> RsaKey option" where
  "rsaKeyFromJWK k =
     (case b64url_decode (jwk_n k) of None \<Rightarrow> None | Some nBytes \<Rightarrow>
      (case b64url_decode (jwk_e k) of None \<Rightarrow> None | Some eBytes \<Rightarrow>
         Some \<lparr>rsa_n = big_of_bytes nBytes, rsa_e = int64 (big_of_bytes eBytes)\<rparr>))"

definition usable_keys :: "jwk list \<Rightarrow> string \<rightharpoonup> RsaKey" where
  "usable_keys ks = foldl (\<lambda>m k. if jwk_kty k \<noteq> ''RSA'' \<or> jwk_kid k = [] then m
     else (case rsaKeyFromJWK k of None \<Rightarrow> m | Some pub \<Rightarrow> m(jwk_kid k \<mapsto> pub))) Map.empty ks"

definition token_error :: "string \<Rightarrow> error" where
  "token_error msg = ErrWrap msg ErrGoogleToken"

text \<open>\<open>len(keys) == 0\<close>: no key of the response is usable.\<close>

definition no_keys :: "jwk list \<Rightarrow> bool" where
  "no_keys ks \<longleftrightarrow> list_all (\<lambda>k. usable_keys ks (jwk_kid k) = None) ks"

definition refresh :: "net \<Rightarrow> (GoogleVerifier, error + unit) state" where
  "refresh N = do {
     resp \<leftarrow> outside (net_certs N);
     (case resp of
        CertsUnreachable \<Rightarrow> fail (token_error ''fetch certs'')
      | Certs status body \<Rightarrow>
          if status \<noteq> 200 then fail (token_error ''certs status'')
          else (case body of None \<Rightarrow> fail (token_error ''decode certs'') | Some ks \<Rightarrow>
            if no_keys ks then fail (token_error ''no usable signing keys'')
            else do {
              now \<leftarrow> outside (net_now N);
              _ \<leftarrow> State_Monad.update (\<lambda>v. v\<lparr>v_keys := usable_keys ks, v_fetchedA := Some now\<rparr>);
              ok () })) }"

definition cached_key :: "string \<Rightarrow> (GoogleVerifier, error + RsaKey) state" where
  "cached_key kid = do {
     v \<leftarrow> State_Monad.get;
     (case v_keys v kid of None \<Rightarrow> fail (token_error ''unknown signing key'') | Some key \<Rightarrow> ok key) }"

definition keyForKid :: "net \<Rightarrow> string \<Rightarrow> (GoogleVerifier, error + RsaKey) state" where
  "keyForKid N kid = do {
     v \<leftarrow> State_Monad.get;
     now \<leftarrow> outside (net_now N);
     let fresh = (case v_fetchedA v of None \<Rightarrow> False | Some t \<Rightarrow> now - t < v_ttl v);
     (case v_keys v kid of
        Some key \<Rightarrow> if fresh then ok key else handle (refresh N) (\<lambda>_. ok key) (\<lambda>_. cached_key kid)
      | None \<Rightarrow> attempt (refresh N) id (\<lambda>_. cached_key kid)) }"

datatype json = JNull | JBool bool | JNum int | JString string | JArray "json list"

text \<open>\<open>claims[k].(string)\<close>, the empty string when it is missing or of another type.\<close>

definition string_claim :: "(string \<rightharpoonup> json) \<Rightarrow> string \<Rightarrow> string" where
  "string_claim claims k = (case claims k of Some (JString s) \<Rightarrow> s | _ \<Rightarrow> [])"

text \<open>The JSON decoder never yields a Go \<open>[]string\<close>: an array is a \<open>[]interface{}\<close>.\<close>

fun audienceAllowed :: "string list \<Rightarrow> json option \<Rightarrow> bool" where
  "audienceAllowed clientIDs (Some (JString a)) = (a \<in> set clientIDs)"
| "audienceAllowed clientIDs (Some (JArray xs)) =
     list_ex (\<lambda>x. case x of JString s \<Rightarrow> s \<in> set clientIDs | _ \<Rightarrow> False) xs"
| "audienceAllowed clientIDs _ = False"

record JwtHeader =
  jh_alg :: string
  jh_kid :: "json option"

text \<open>\<open>keyFunc\<close>: only RS256, and only a key Google published under the token's \<open>kid\<close>.\<close>

definition keyFunc :: "net \<Rightarrow> JwtHeader \<Rightarrow> (GoogleVerifier, error + RsaKey) state" where
  "keyFunc N hdr =
     (if jh_alg hdr \<noteq> ''RS256'' then fail (token_error ''unexpected alg'')
      else let kid = (case jh_kid hdr of Some (JString s) \<Rightarrow> s | _ \<Rightarrow> []) in
        if kid = [] then fail (token_error ''missing kid'') else keyForKid N kid)"

type_synonym jwt_parser =
  "string list \<Rightarrow> string \<Rightarrow> (JwtHeader \<Rightarrow> (GoogleVerifier, error + RsaKey) state) \<Rightarrow>
   (GoogleVerifier, error + (string \<rightharpoonup> json)) state"

text \<open>The checks on the claims of a token whose signature and expiry the parser accepted.\<close>

definition check_claims :: "string list \<Rightarrow> (string \<rightharpoonup> json) \<Rightarrow> error + GoogleClaims" where
  "check_claims clientIDs claims =
     (if string_claim claims ''iss'' \<notin> set googleIssuers then Inl (token_error ''bad issuer'')
      else if \<not> audienceAllowed clientIDs (claims ''aud'') then Inl (token_error ''audience mismatch'')
      else let email = string_claim claims ''email''; sub = string_claim claims ''sub'' in
        if email = [] \<or> sub = [] then Inl (token_error ''missing email/sub'')
        else let verified = (case claims ''email_verified'' of Some (JBool ev) \<Rightarrow> ev
               | Some (JString ev) \<Rightarrow> ev = ''true'' | _ \<Rightarrow> False) in
          if \<not> verified then Inl (token_error ''email not verified'')
          else Inr \<lparr>g_email = email, g_sub = sub, g_email_verified = True\<rparr>)"

definition Verify :: "net \<Rightarrow> jwt_parser \<Rightarrow> string \<Rightarrow> (GoogleVerifier, error + GoogleClaims) state" where
  "Verify N parse rawIDToken =
     attempt (parse [''RS256''] rawIDToken (keyFunc N)) (\<lambda>_. token_error ''token not accepted'') (\<lambda>claims. do {
       v \<leftarrow> State_Monad.get;
       State_Monad.return (check_claims (v_clientIDs v) claims) })"

section \<open>What a verified token proves\<close>

text \<open>\<open>published N kid key\<close>: Google's endpoint served \<open>key\<close> under \<open>kid\<close> in some answer.\<close>

definition published :: "net \<Rightarrow> string \<Rightarrow> RsaKey \<Rightarrow> bool" where
  "published N kid key \<longleftrightarrow> (\<exists>n ks. net_certs N n = Certs 200 (Some ks) \<and> usable_keys ks kid = Some key)"

definition genuine :: "net \<Rightarrow> GoogleVerifier \<Rightarrow> bool" where
  "genuine N v \<longleftrightarrow> (\<forall>kid key. v_keys v kid = Some key \<longrightarrow> published N kid key)"

text \<open>The expiry check of \<open>golang-jwt\<close> at a moment in nanoseconds: a numeric \<open>exp\<close> claim, in seconds,
  lies in the future. As documented there, a claim that is missing or zero does not expire.\<close>

definition unexpired :: "nat \<Rightarrow> (string \<rightharpoonup> json) \<Rightarrow> bool" where
  "unexpired now claims \<longleftrightarrow>
     (\<forall>e. claims ''exp'' = Some (JNum e) \<longrightarrow> e = 0 \<or> int now < e * 1000000000)"

text \<open>What the code relies on in \<open>golang-jwt\<close>: claims come back only if the key function, called with the
  token's header, gave a key under which the token's signature verifies with an allowed algorithm
  (\<open>signed\<close>), and if they are unexpired at the time the parser reads from the clock afterwards; the
  parser touches the verifier only through the key function.\<close>

definition parser_sound ::
  "net \<Rightarrow> (RsaKey \<Rightarrow> string \<Rightarrow> (string \<rightharpoonup> json) \<Rightarrow> bool) \<Rightarrow> jwt_parser \<Rightarrow> bool" where
  "parser_sound N signed parse \<longleftrightarrow> (\<forall>methods raw kf v r v'. run_state (parse methods raw kf) v = (r, v') \<longrightarrow>
     (v' = v \<and> isl r) \<or>
     (\<exists>hdr got v1. run_state (kf hdr) v = (got, v1) \<and>
        (v' = v1 \<and> isl r \<or>
         v' = v1\<lparr>v_calls := Suc (v_calls v1)\<rparr> \<and>
         (\<forall>claims. r = Inr claims \<longrightarrow> jh_alg hdr \<in> set methods \<and>
            (\<exists>key. got = Inr key \<and> signed key raw claims) \<and> unexpired (net_now N (v_calls v1)) claims))))"

text \<open>The checks \<open>Verify\<close> promises on the claims.\<close>

definition accepted_claims :: "string list \<Rightarrow> (string \<rightharpoonup> json) \<Rightarrow> GoogleClaims \<Rightarrow> bool" where
  "accepted_claims clientIDs claims c \<longleftrightarrow>
     string_claim claims ''iss'' \<in> set googleIssuers \<and>
     (\<exists>i \<in> set clientIDs. claims ''aud'' = Some (JString i) \<or> (\<exists>xs. claims ''aud'' = Some (JArray xs) \<and> JString i \<in> set xs)) \<and>
     claims ''email'' = Some (JString (g_email c)) \<and> g_email c \<noteq> [] \<and>
     claims ''sub'' = Some (JString (g_sub c)) \<and> g_sub c \<noteq> [] \<and>
     (claims ''email_verified'' = Some (JBool True) \<or> claims ''email_verified'' = Some (JString ''true''))"

lemma string_claim_nonempty: "string_claim claims k = s \<Longrightarrow> s \<noteq> [] \<Longrightarrow> claims k = Some (JString s)"
  by (auto simp: string_claim_def split: option.splits json.splits)

lemma audienceAllowed_iff:
  "audienceAllowed clientIDs aud \<longleftrightarrow>
     (\<exists>i \<in> set clientIDs. aud = Some (JString i) \<or> (\<exists>xs. aud = Some (JArray xs) \<and> JString i \<in> set xs))"
  by (cases "(clientIDs, aud)" rule: audienceAllowed.cases) (force simp: list_ex_iff split: json.splits)+

lemma check_claims_Inr: "check_claims clientIDs claims = Inr c \<Longrightarrow> accepted_claims clientIDs claims c"
  by (auto simp: check_claims_def accepted_claims_def Let_def audienceAllowed_iff string_claim_nonempty
      split: if_splits option.splits json.splits)

lemma check_claims_Inl: "check_claims clientIDs claims = Inl e \<Longrightarrow> errors_is e ErrGoogleToken"
  by (auto simp: check_claims_def Let_def token_error_def split: if_splits)

lemma wp_outside: "wp (outside f) Q v = Q (f (v_calls v)) (v\<lparr>v_calls := Suc (v_calls v)\<rparr>)"
  by (simp add: outside_def wp_def)

lemma wp_get: "wp State_Monad.get Q v = Q v v"
  by (simp add: State_Monad.get_def wp_def)

lemma wp_update: "wp (State_Monad.update f) Q v = Q () (f v)"
  by (simp add: State_Monad.update_def State_Monad.get_def State_Monad.set_def wp_def)

definition same_config :: "GoogleVerifier \<Rightarrow> GoogleVerifier \<Rightarrow> bool" where
  "same_config v v' \<longleftrightarrow> v_clientIDs v' = v_clientIDs v \<and> v_ttl v' = v_ttl v"

lemma wp_refresh:
  assumes "genuine N v"
  shows "wp (refresh N) (\<lambda>r v'. genuine N v' \<and> same_config v v' \<and> (\<forall>e. r = Inl e \<longrightarrow> errors_is e ErrGoogleToken \<and> v_keys v' = v_keys v)) v"
proof (cases "net_certs N (v_calls v)")
  case CertsUnreachable
  then show ?thesis using assms by (simp add: refresh_def wp_outside token_error_def genuine_def same_config_def)
next
  case (Certs status body)
  show ?thesis
  proof (cases body)
    case None
    then show ?thesis using assms Certs
      by (simp add: refresh_def wp_outside token_error_def genuine_def same_config_def)
  next
    case (Some ks)
    have "status = 200 \<Longrightarrow> usable_keys ks kid = Some key \<Longrightarrow> published N kid key" for kid key
      using Certs Some unfolding published_def by blast
    then show ?thesis using assms Certs Some
      by (auto simp: refresh_def wp_outside wp_update token_error_def genuine_def same_config_def)
  qed
qed

lemma wp_cached_key:
  assumes "genuine N v"
  shows "wp (cached_key kid) (\<lambda>r v'. v' = v \<and> (\<forall>key. r = Inr key \<longrightarrow> published N kid key)) v"
  using assms by (auto simp: cached_key_def wp_get genuine_def split: option.splits)

lemma wp_keyForKid:
  assumes "genuine N v"
  shows "wp (keyForKid N kid) (\<lambda>r v'. genuine N v' \<and> same_config v v' \<and> (\<forall>key. r = Inr key \<longrightarrow> published N kid key)) v"
proof -
  let ?Q = "\<lambda>r v'. genuine N v' \<and> same_config v v' \<and> (\<forall>key. r = Inr key \<longrightarrow> published N kid key)"
  let ?v = "v\<lparr>v_calls := Suc (v_calls v)\<rparr>"
  have v: "genuine N ?v" "same_config v ?v" using assms by (simp_all add: genuine_def same_config_def)
  have cached: "wp (cached_key kid) ?Q v'" if "genuine N v'" "same_config v v'" for v'
    by (rule wp_mono [OF wp_cached_key [OF that(1)]]) (use that in auto)
  have refreshed: "same_config ?v v' \<longleftrightarrow> same_config v v'" for v' by (simp add: same_config_def)
  show ?thesis
  proof (cases "v_keys v kid")
    case None
    show ?thesis unfolding keyForKid_def wp_bind wp_get wp_outside Let_def None option.case wp_attempt
      by (rule wp_mono [OF wp_refresh [OF v(1)]]) (auto simp: refreshed intro: cached split: sum.splits)
  next
    case (Some key)
    then have key: "published N kid key" using assms by (simp add: genuine_def)
    have "wp (handle (refresh N) (\<lambda>_. ok key) (\<lambda>_. cached_key kid)) ?Q ?v"
      unfolding wp_handle
      by (rule wp_mono [OF wp_refresh [OF v(1)]]) (auto simp: refreshed key intro: cached split: sum.splits)
    then show ?thesis unfolding keyForKid_def wp_bind wp_get wp_outside Let_def Some option.case
      using v key by simp
  qed
qed

lemma wp_keyFunc:
  assumes "genuine N v"
  shows "wp (keyFunc N hdr) (\<lambda>r v'. genuine N v' \<and> same_config v v' \<and>
    (\<forall>key. r = Inr key \<longrightarrow> jh_alg hdr = ''RS256'' \<and> (\<exists>kid. kid \<noteq> [] \<and> jh_kid hdr = Some (JString kid) \<and> published N kid key))) v"
proof (cases "jh_alg hdr = ''RS256'' \<and> (\<exists>kid. kid \<noteq> [] \<and> jh_kid hdr = Some (JString kid))")
  case True
  then obtain kid where k: "jh_alg hdr = ''RS256''" "kid \<noteq> []" "jh_kid hdr = Some (JString kid)" by blast
  have "wp (keyFunc N hdr) = wp (keyForKid N kid)" using k by (intro ext) (simp add: keyFunc_def)
  then show ?thesis using wp_mono [OF wp_keyForKid [OF assms, of kid]] k by auto
next
  case False
  then show ?thesis using assms
    by (auto simp: keyFunc_def genuine_def same_config_def split: option.splits json.splits)
qed

text \<open>The outside calls of the key function only count up.\<close>

lemma calls_refresh: "wp (refresh N) (\<lambda>_ v'. v_calls v < v_calls v') v"
  by (simp add: refresh_def wp_outside wp_update split: certs_answer.split option.split)

lemma calls_cached_key: "wp (cached_key kid) (\<lambda>_ v'. v' = v) v"
  by (simp add: cached_key_def wp_get split: option.split)

lemma calls_keyFunc: "wp (keyFunc N hdr) (\<lambda>_ v'. v_calls v \<le> v_calls v') v"
proof -
  have refreshed: "wp (refresh N) (\<lambda>_ v'. v_calls v \<le> v_calls v') (v\<lparr>v_calls := Suc (v_calls v)\<rparr>)" for v
    by (rule wp_mono [OF calls_refresh]) simp
  have cached: "wp (cached_key kid) (\<lambda>_ v'. n \<le> v_calls v') v" if "n \<le> v_calls v" for kid v n
    by (rule wp_mono [OF calls_cached_key]) (simp add: that)
  have "wp (keyForKid N kid) (\<lambda>_ v'. v_calls v \<le> v_calls v') v" for kid
  proof (cases "v_keys v kid")
    case None
    show ?thesis unfolding keyForKid_def wp_bind wp_get wp_outside Let_def None option.case wp_attempt
      by (rule wp_mono [OF refreshed]) (auto intro: cached split: sum.splits)
  next
    case (Some key)
    have "wp (handle (refresh N) (\<lambda>_. ok key) (\<lambda>_. cached_key kid)) (\<lambda>_ v'. v_calls v \<le> v_calls v')
        (v\<lparr>v_calls := Suc (v_calls v)\<rparr>)" unfolding wp_handle
      by (rule wp_mono [OF refreshed]) (auto intro: cached split: sum.splits)
    then show ?thesis unfolding keyForKid_def wp_bind wp_get wp_outside Let_def Some option.case by simp
  qed
  then show ?thesis by (simp add: keyFunc_def Let_def)
qed

text \<open>C15. A Google ID token is accepted only if Google signed it for this application and it has not
  expired: under a parser that does what the code relies on, accepted claims come from a token whose
  signature verifies under a key Google published under the token's \<open>kid\<close>, with RS256; unexpired at
  a moment during the call (a nonzero \<open>exp\<close> claim lies after that reading of the clock; a token
  without one does not expire); issued by Google for one of the configured client ids; with a
  verified, non-empty email and subject. Every refusal is a \<open>ErrGoogleToken\<close>, and the key cache only
  ever holds published keys.\<close>

theorem Verify_sound:
  assumes "parser_sound N signed parse" and "genuine N v" and "run_state (Verify N parse raw) v = (r, v')"
  shows "genuine N v' \<and> (\<forall>e. r = Inl e \<longrightarrow> errors_is e ErrGoogleToken) \<and>
    (\<forall>c. r = Inr c \<longrightarrow> g_email_verified c \<and>
      (\<exists>(hdr :: JwtHeader) kid key claims n. jh_alg hdr = ''RS256'' \<and> jh_kid hdr = Some (JString kid) \<and> published N kid key \<and>
         signed key raw claims \<and> v_calls v \<le> n \<and> n < v_calls v' \<and> unexpired (net_now N n) claims \<and>
         accepted_claims (v_clientIDs v) claims c))"
proof -
  obtain r1 v1 where parsed: "run_state (parse [''RS256''] raw (keyFunc N)) v = (r1, v1)" by fastforce
  have r: "v' = v1" "case r1 of Inl e \<Rightarrow> r = Inl (token_error ''token not accepted'') | Inr claims \<Rightarrow> r = check_claims (v_clientIDs v1) claims"
    using assms(3) parsed by (auto simp: Verify_def State_Monad.get_def split: sum.splits)
  have verified: "g_email_verified c" if "check_claims ids claims = Inr c" for ids claims c
    using that by (auto simp: check_claims_def Let_def split: if_splits)
  from assms(1) [unfolded parser_sound_def, rule_format, OF parsed]
  consider "v1 = v" "isl r1"
    | hdr got u where "run_state (keyFunc N hdr) v = (got, u)" "v1 = u" "isl r1"
    | hdr got u where "run_state (keyFunc N hdr) v = (got, u)" "v1 = u\<lparr>v_calls := Suc (v_calls u)\<rparr>"
        "\<forall>claims. r1 = Inr claims \<longrightarrow> (\<exists>key. got = Inr key \<and> signed key raw claims) \<and> unexpired (net_now N (v_calls u)) claims"
    by blast
  then show ?thesis
  proof cases
    case 1
    then show ?thesis using r assms(2) by (auto simp: isl_def token_error_def)
  next
    case (2 hdr got u)
    have "genuine N u" using wpD [OF wp_keyFunc [OF assms(2)] 2(1)] by blast
    then show ?thesis using r 2 by (auto simp: isl_def token_error_def)
  next
    case (3 hdr got u)
    have kf: "genuine N v1" "v_clientIDs v1 = v_clientIDs v" "\<And>key. got = Inr key \<Longrightarrow> jh_alg hdr = ''RS256'' \<and>
        (\<exists>kid. jh_kid hdr = Some (JString kid) \<and> published N kid key)"
      using wpD [OF wp_keyFunc [OF assms(2)] 3(1)] by (auto simp: 3(2) genuine_def same_config_def)
    have moment: "v_calls v \<le> v_calls u" "v_calls u < v_calls v1"
      using wpD [OF calls_keyFunc 3(1)] by (simp_all add: 3(2))
    show ?thesis
    proof (cases r1)
      case (Inl e)
      then show ?thesis using r kf(1) by (simp add: token_error_def)
    next
      case (Inr claims)
      with r kf(2) have rc: "r = check_claims (v_clientIDs v) claims" by simp
      obtain key where key: "got = Inr key" "signed key raw claims" "unexpired (net_now N (v_calls u)) claims" using 3(3) Inr by blast
      with kf(3) obtain kid where "jh_alg hdr = ''RS256''" "jh_kid hdr = Some (JString kid)" "published N kid key" by blast
      then have "\<exists>(hdr :: JwtHeader) kid key claims n. jh_alg hdr = ''RS256'' \<and> jh_kid hdr = Some (JString kid) \<and> published N kid key \<and>
          signed key raw claims \<and> v_calls v \<le> n \<and> n < v_calls v' \<and> unexpired (net_now N n) claims \<and>
          accepted_claims (v_clientIDs v) claims c" if "r = Inr c" for c
        using key(2,3) moment that unfolding rc r(1)
        by (intro exI [of _ hdr] exI [of _ kid] exI [of _ key] exI [of _ claims] exI [of _ "v_calls u"] conjI check_claims_Inr)
      moreover have "g_email_verified c" if "r = Inr c" for c using that verified unfolding rc by blast
      moreover have "errors_is e ErrGoogleToken" if "r = Inl e" for e using that check_claims_Inl unfolding rc by blast
      ultimately show ?thesis using r(1) kf(1) by blast
    qed
  qed
qed

text \<open>A parser for a single token, signed with the one key a network publishes, and its clock.\<close>

definition toy_key :: RsaKey where
  "toy_key = \<lparr>rsa_n = 3, rsa_e = 3\<rparr>"

definition toy_net :: net where
  "toy_net = \<lparr>net_now = (\<lambda>n. n),
     net_certs = (\<lambda>_. Certs 200 (Some [\<lparr>jwk_kid = ''k1'', jwk_n = ''Aw'', jwk_e = ''Aw'', jwk_kty = ''RSA''\<rparr>]))\<rparr>"

definition toy_claims :: "string \<rightharpoonup> json" where
  "toy_claims = [''iss'' \<mapsto> JString ''accounts.google.com'', ''aud'' \<mapsto> JArray [JString ''app''],
     ''email'' \<mapsto> JString ''a@x.io'', ''sub'' \<mapsto> JString ''g1'', ''email_verified'' \<mapsto> JBool True,
     ''exp'' \<mapsto> JNum 2000000000]"

definition toy_parse :: jwt_parser where
  "toy_parse methods raw kf =
     (if raw = ''good'' \<and> ''RS256'' \<in> set methods
      then attempt (kf \<lparr>jh_alg = ''RS256'', jh_kid = Some (JString ''k1'')\<rparr>) id
             (\<lambda>key. if key \<noteq> toy_key then fail ErrGoogleToken
                    else do {
                      now \<leftarrow> outside (net_now toy_net);
                      (if now < 2000000000 * 1000000000 then ok toy_claims else fail ErrGoogleToken) })
      else fail ErrGoogleToken)"

definition toy_signed :: "RsaKey \<Rightarrow> string \<Rightarrow> (string \<rightharpoonup> json) \<Rightarrow> bool" where
  "toy_signed key raw claims \<longleftrightarrow> key = toy_key \<and> raw = ''good'' \<and> claims = toy_claims"

lemma toy_unexpired: "now < 2000000000 * 1000000000 \<Longrightarrow> unexpired now toy_claims"
  by (simp add: unexpired_def toy_claims_def)

lemma toy_parser_sound: "parser_sound toy_net toy_signed toy_parse"
  unfolding parser_sound_def
proof (intro allI impI)
  fix methods raw and kf :: "JwtHeader \<Rightarrow> (GoogleVerifier, error + RsaKey) state" and v r v'
  let ?hdr = "\<lparr>jh_alg = ''RS256'', jh_kid = Some (JString ''k1'')\<rparr>"
  obtain got v1 where kf: "run_state (kf ?hdr) v = (got, v1)" by fastforce
  assume run: "run_state (toy_parse methods raw kf) v = (r, v')"
  show "v' = v \<and> isl r \<or> (\<exists>hdr got v1. run_state (kf hdr) v = (got, v1) \<and>
        (v' = v1 \<and> isl r \<or> v' = v1\<lparr>v_calls := Suc (v_calls v1)\<rparr> \<and>
         (\<forall>claims. r = Inr claims \<longrightarrow> jh_alg hdr \<in> set methods \<and>
            (\<exists>key. got = Inr key \<and> toy_signed key raw claims) \<and> unexpired (net_now toy_net (v_calls v1)) claims)))"
  proof (cases "raw = ''good'' \<and> ''RS256'' \<in> set methods")
    case True
    show ?thesis
      by (rule disjI2, rule exI [of _ ?hdr], rule exI [of _ got], rule exI [of _ v1])
        (use True run in \<open>auto simp: kf toy_parse_def toy_signed_def outside_def toy_unexpired split: if_splits sum.splits\<close>)
  next
    case False
    then show ?thesis using run by (auto simp: toy_parse_def)
  qed
qed

lemma toy_jwk: "rsaKeyFromJWK \<lparr>jwk_kid = ''k1'', jwk_n = ''Aw'', jwk_e = ''Aw'', jwk_kty = ''RSA''\<rparr> = Some toy_key"
  by code_simp

lemma toy_keys: "usable_keys [\<lparr>jwk_kid = ''k1'', jwk_n = ''Aw'', jwk_e = ''Aw'', jwk_kty = ''RSA''\<rparr>] = [''k1'' \<mapsto> toy_key]"
  by (simp add: usable_keys_def toy_jwk)

lemma toy_verified: "check_claims [''app''] toy_claims = Inr \<lparr>g_email = ''a@x.io'', g_sub = ''g1'', g_email_verified = True\<rparr>"
  by code_simp

theorem Verify_sound_witness:
  "fst (run_state (Verify toy_net toy_parse ''good'') (the (NewGoogleVerifier [''app'']))) =
     Inr \<lparr>g_email = ''a@x.io'', g_sub = ''g1'', g_email_verified = True\<rparr> \<and>
   genuine toy_net (snd (run_state (Verify toy_net toy_parse ''good'') (the (NewGoogleVerifier [''app'']))))"
proof
  show "fst (run_state (Verify toy_net toy_parse ''good'') (the (NewGoogleVerifier [''app'']))) =
     Inr \<lparr>g_email = ''a@x.io'', g_sub = ''g1'', g_email_verified = True\<rparr>"
    by (simp add: Verify_def toy_parse_def NewGoogleVerifier_def keyFunc_def keyForKid_def refresh_def cached_key_def
        outside_def toy_net_def no_keys_def Let_def toy_keys toy_verified State_Monad.get_def State_Monad.set_def State_Monad.update_def)
  have "genuine toy_net (the (NewGoogleVerifier [''app'']))" by (simp add: genuine_def NewGoogleVerifier_def)
  from Verify_sound [OF toy_parser_sound this surjective_pairing]
  show "genuine toy_net (snd (run_state (Verify toy_net toy_parse ''good'') (the (NewGoogleVerifier [''app'']))))" by blast
qed

end
