(* ===== verification/Platform.thy ===== *)
theory Platform
  imports Tenancy Plugins Google
begin

text \<open>
  Properties that span components: what suspending a tenant stops, which tenants can be backed up, and
  what the bootstrap of the platform admins reaches.
\<close>

section \<open>Suspended tenants\<close>

lemma status_set:
  fixes ts :: "tenant list"
  shows "\<forall>t \<in> set (map (\<lambda>r. if t_id r = T then r\<lparr>t_status := s\<rparr> else r) ts). t_id t = T \<longrightarrow> t_status t = s"
  unfolding set_map by (intro ballI impI, erule imageE) (clarsimp split: if_splits)

lemma wp_SetTenantStatus:
  "wp (SetTenantStatus E T status) (\<lambda>r w'. \<forall>x. r = Inr x \<longrightarrow>
     (\<forall>t \<in> set (tenants w'). t_id t = T \<longrightarrow> t_status t = status)) w"
proof (cases "status \<in> set tenantStatuses")
  case True
  show ?thesis unfolding SetTenantStatus_def if_not_P [OF not_not [THEN iffD2, OF True]] wp_attempt
  proof (rule wp_ent_get [OF stable_tables(2)], goal_cases)
    case (4 n t)
    then have t: "t_id t = T" using one_row by fastforce
    show ?case
    proof (cases "t_status t = ''provisioning''")
      case True
      then show ?thesis by simp
    next
      case False
      show ?thesis unfolding sum.case if_not_P [OF False] wp_attempt
      proof (rule wp_ent_update_one, goal_cases)
        case (2 n r rs)
        have put: "tenants (w\<lparr>tenants := ts, tick := k, tick := n\<rparr>) = ts" for ts k by simp
        show ?case unfolding sum.case wp_ok table_put t put by (intro allI impI status_set)
      qed simp
    qed
  qed simp_all
qed (simp add: SetTenantStatus_def)

text \<open>C17. Suspending a tenant locks it out at once: after \<open>SetTenantStatus\<close> succeeded with \<open>suspended\<close>, no
  introspection is answered for that tenant, whatever token was enrolled before, and no login
  issues a token for it, whatever fails.\<close>

theorem suspended_tenant_is_locked_out:
  assumes "run_state (SetTenantStatus E T ''suspended'') w = (Inr x, w')"
  shows "(run_state (Introspect E' h acting) w' = (Inr res, w'') \<longrightarrow> ir_tenant_id res \<noteq> T) \<and>
    (run_state (Login E' slug email password) w' = (Inr raw, w'') \<longrightarrow>
       filter (\<lambda>d. dt_tenant_id d = T) (device_tokens w'') = filter (\<lambda>d. dt_tenant_id d = T) (device_tokens w'))"
proof -
  have s: "\<forall>t \<in> set (tenants w'). t_id t = T \<longrightarrow> t_status t = ''suspended''"
    using wpD [OF wp_SetTenantStatus assms] by blast
  have "ir_tenant_id res \<noteq> T" if "run_state (Introspect E' h acting) w' = (Inr res, w'')"
  proof -
    have "authorized w' h acting res" using wpD [OF wp_Introspect that] by blast
    then obtain t where "t \<in> set (tenants w')" "t_status t = ''active''" "ir_tenant_id res = t_id t"
      unfolding authorized_def by blast
    then show ?thesis using s by auto
  qed
  moreover have "filter (\<lambda>d. dt_tenant_id d = T) (device_tokens w'') = filter (\<lambda>d. dt_tenant_id d = T) (device_tokens w')"
    if login: "run_state (Login E' slug email password) w' = (Inr raw, w'')"
  proof -
    obtain uid where "issued E' uid slug w' raw w''" using wpD [OF wp_Login login] by auto
    then show ?thesis using s unfolding issued_def may_sign_in_def fresh_token_def by auto
  qed
  ultimately show ?thesis by blast
qed

theorem suspended_tenant_is_locked_out_witness:
  "fst (run_state (Introspect env0 ''1kot'' []) (snd (run_state (SetTenantStatus env0 ''t1'' ''suspended'') shop))) = Inl ErrInvalidToken \<and>
   isl (fst (run_state (Login env0 ''other'' ''c@x.io'' ''private'') (snd (run_state (SetTenantStatus env0 ''t1'' ''suspended'') mall)))) = False \<and>
   length (filter (\<lambda>d. dt_tenant_id d = ''t1'') (device_tokens (snd (run_state (Login env0 ''other'' ''c@x.io'' ''private'')
     (snd (run_state (SetTenantStatus env0 ''t1'' ''suspended'') mall)))))) = 1"
  (is "?refused \<and> isl (fst ?login) = False \<and> _")
proof (intro conjI)
  show ?refused by code_simp
  show l: "isl (fst ?login) = False" by code_simp
  have "isl (fst (run_state (SetTenantStatus env0 ''t1'' ''suspended'') mall)) = False" by code_simp
  then obtain x where x: "run_state (SetTenantStatus env0 ''t1'' ''suspended'') mall =
      (Inr x, snd (run_state (SetTenantStatus env0 ''t1'' ''suspended'') mall))"
    by (metis prod.collapse sum.collapse(2))
  from l have "?login = (Inr (projr (fst ?login)), snd ?login)" by (metis prod.collapse sum.collapse(2))
  with suspended_tenant_is_locked_out [OF x]
  have "filter (\<lambda>d. dt_tenant_id d = ''t1'') (device_tokens (snd ?login)) =
      filter (\<lambda>d. dt_tenant_id d = ''t1'') (device_tokens (snd (run_state (SetTenantStatus env0 ''t1'' ''suspended'') mall)))"
    by blast
  moreover have "length (filter (\<lambda>d. dt_tenant_id d = ''t1'') (device_tokens
      (snd (run_state (SetTenantStatus env0 ''t1'' ''suspended'') mall)))) = 1" by code_simp
  ultimately show "length (filter (\<lambda>d. dt_tenant_id d = ''t1'') (device_tokens (snd ?login))) = 1" by simp
qed

section \<open>Backups\<close>

text \<open>A backup works for exactly the tenants whose slug has no underscore. Every slug with one is a legal
  slug, and the names \<open>acme_2\<close> that the program generates have one; yet \<open>DumpSchema\<close> refuses the
  schema before \<open>pg_dump\<close> runs.\<close>

theorem backup_needs_a_slug_without_underscore:
  assumes "ValidateSlug slug = None"
  shows "DumpSchema exec dsn (''tenant_'' @ slug) =
    (if CHR ''_'' \<in> set slug then Some (ErrText (''invalid schema name '' @ ''tenant_'' @ slug))
     else run_tool exec ''pg_dump'' [''--dbname='' @ dsn, ''--schema='' @ ''tenant_'' @ slug, ''--clean'', ''--if-exists'',
            ''--no-owner'', ''--no-privileges'', ''--format=plain''])"
proof -
  obtain c cs where slug: "slug = c # cs" "is_lower c" "list_all is_slug_char cs"
    using assms unfolding ValidateSlug_None slugPattern_iff by blast
  have "MatchString schemaNamePattern (''tenant_'' @ slug) \<longleftrightarrow> slug \<in> lang (Class (\<lambda>c. is_lower c \<or> is_digit c) 1 None)"
    unfolding MatchString_lang schemaNamePattern_def lang.simps(1,3) by blast
  also have "\<dots> \<longleftrightarrow> CHR ''_'' \<notin> set slug"
    using slug by (auto simp: list_all_iff is_slug_char_def is_lower_def is_digit_def)
  finally show ?thesis unfolding DumpSchema_def by simp
qed

theorem backup_needs_a_slug_without_underscore_witness:
  "DumpSchema (\<lambda>_ _. ([], None)) [] ''tenant_acme_2'' = Some (ErrText ''invalid schema name tenant_acme_2'') \<and>
   DumpSchema (\<lambda>_ _. ([], None)) [] ''tenant_acme'' = None"
proof -
  have "ValidateSlug ''acme_2'' = None" "ValidateSlug ''acme'' = None" by code_simp+
  from this [THEN backup_needs_a_slug_without_underscore, of "\<lambda>_ _. ([], None)" "[]"] show ?thesis
    by (simp add: run_tool_def)
qed

section \<open>Bootstrap of the platform admins\<close>

text \<open>The emails of \<open>PLATFORM_ADMIN_EMAILS\<close> are lowercased but compared with the accounts' emails as they were
  typed at registration: an account with a capital letter in its email is never granted, even when
  the variable spells it the same way.\<close>

theorem bootstrap_misses_mixed_case_emails:
  "let w = shop\<lparr>users := [\<lparr>u_id = ''u1'', u_email = ''Ann@x.io'', u_password_hash = ''#s'', u_google_sub = None,
       u_is_platform_admin = False, u_created_at = 0\<rparr>]\<rparr>;
       out = run_state (SyncPlatformAdminsFromEnv env0 (ParsePlatformAdminEmails id id ''Ann@x.io'')) w
   in fst out = (0, None) \<and> map u_is_platform_admin (users (snd out)) = [False]"
  by code_simp

end
