(* ===== verification/Threads.thy ===== *)
theory Threads
  imports Prelude
begin

text \<open>
  Requests that run at the same time. The server answers every request in a goroutine of its own
  and uses no lock and no transaction across calls, so the unit that cannot be interrupted is one
  call to the database, the clock or another service.

  \<^item> \<open>thread\<close>: what is left of a request, as a tree of calls: \<open>Done\<close> with the result, or \<open>Call\<close> with
    the next call, whose answer decides how to go on. \<open>handle_t\<close>, \<open>attempt_t\<close>, \<open>for_each_t\<close> are
    the constructs of \<open>Prelude\<close> on threads, and \<open>alone\<close> runs a thread without interruption: the
    simplification rules \<open>alone_\<dots>\<close> turn the thread of an operation into the operation.
  \<^item> \<open>pool_step\<close>: some thread of a pool makes its next call. \<open>schedule\<close> runs a given schedule.
  \<^item> \<open>rg R G Q t s\<close>: the thread \<open>t\<close>, started in \<open>s\<close>, makes only calls that satisfy the guarantee \<open>G\<close>
    and ends with \<open>Q\<close>, when what happens between its calls satisfies the rely \<open>R\<close>. \<open>pool_rg\<close> is the
    rule for a pool: every thread's guarantee lies within every other thread's rely.
\<close>

section \<open>Threads\<close>

datatype ('s, 'a) thread = Done 'a | Call "('s, ('s, 'a) thread) state"

lemma run_map_state [simp]: "run_state (map_state f m) s = map_prod f id (run_state m s)"
  by (cases m) (simp add: map_prod_def)

definition call :: "('s, 'a) state \<Rightarrow> ('s, 'a) thread" where
  "call m = Call (map_state Done m)"

primrec then_t :: "('s, 'a) thread \<Rightarrow> ('a \<Rightarrow> ('s, 'b) thread) \<Rightarrow> ('s, 'b) thread" where
  "then_t (Done a) k = k a"
| "then_t (Call m) k = Call (map_state (\<lambda>t. then_t t k) m)"

definition ok_t :: "'a \<Rightarrow> ('s, 'e + 'a) thread" where
  "ok_t x = Done (Inr x)"

definition fail_t :: "'e \<Rightarrow> ('s, 'e + 'a) thread" where
  "fail_t e = Done (Inl e)"

definition handle_t ::
  "('s, 'e + 'a) thread \<Rightarrow> ('e \<Rightarrow> ('s, 'r) thread) \<Rightarrow> ('a \<Rightarrow> ('s, 'r) thread) \<Rightarrow> ('s, 'r) thread" where
  "handle_t t h k = then_t t (\<lambda>r. case r of Inl e \<Rightarrow> h e | Inr x \<Rightarrow> k x)"

definition attempt_t ::
  "('s, 'e + 'a) thread \<Rightarrow> ('e \<Rightarrow> 'f) \<Rightarrow> ('a \<Rightarrow> ('s, 'f + 'r) thread) \<Rightarrow> ('s, 'f + 'r) thread" where
  "attempt_t t h k = handle_t t (\<lambda>e. fail_t (h e)) k"

fun for_each_t :: "'x list \<Rightarrow> ('x \<Rightarrow> 'a \<Rightarrow> ('s, 'e + 'a) thread) \<Rightarrow> 'a \<Rightarrow> ('s, 'e + 'a) thread" where
  "for_each_t [] f acc = ok_t acc"
| "for_each_t (x # xs) f acc = handle_t (f x acc) fail_t (\<lambda>acc'. for_each_t xs f acc')"

fun result_of :: "('s, 'a) thread \<Rightarrow> 'a option" where
  "result_of (Done a) = Some a"
| "result_of (Call m) = None"

lemma result_of_Some: "result_of t = Some a \<longleftrightarrow> t = Done a"
  by (cases t) auto

subsection \<open>A thread on its own\<close>

primrec alone :: "('s, 'a) thread \<Rightarrow> ('s, 'a) state" where
  "alone (Done a) = State_Monad.return a"
| "alone (Call m) = State (\<lambda>s. case run_state (map_state alone m) s of (n, s') \<Rightarrow> run_state n s')"

named_theorems alone_simps "a thread that is not interrupted"

lemma run_alone_Call:
  "run_state (alone (Call m)) s = (case run_state m s of (t, s') \<Rightarrow> run_state (alone t) s')"
  by (simp split: prod.splits)

lemma alone_call [alone_simps]: "alone (call m) = m"
proof (rule state.expand, rule ext)
  fix s
  show "run_state (alone (call m)) s = run_state m s"
    by (cases "run_state m s") (simp add: call_def)
qed

lemma run_alone_then: "run_state (alone (then_t t k)) s =
    (case run_state (alone t) s of (a, s') \<Rightarrow> run_state (alone (k a)) s')"
proof (induction t arbitrary: s)
  case (Done a)
  then show ?case by simp
next
  case (Call m)
  obtain t s' where m: "run_state m s = (t, s')" by fastforce
  then have "t \<in> set_state m"
    by (cases m) (auto intro!: exI [of _ s])
  from Call [OF this, of s'] show ?case by (simp add: m)
qed

lemma alone_then [alone_simps]: "alone (then_t t k) = State_Monad.bind (alone t) (\<lambda>a. alone (k a))"
  by (rule state.expand) (auto simp: run_alone_then)

lemma alone_results [alone_simps]: "alone (ok_t x) = ok x" "alone (fail_t e) = fail e"
  by (simp_all add: ok_t_def fail_t_def ok_def fail_def)

lemma alone_if [alone_simps]: "alone (if b then t else u) = (if b then alone t else alone u)"
  by simp

lemma alone_case [alone_simps]:
  "alone (case r of Inl e \<Rightarrow> f e | Inr x \<Rightarrow> g x) = (case r of Inl e \<Rightarrow> alone (f e) | Inr x \<Rightarrow> alone (g x))"
  "alone (case v of None \<Rightarrow> t | Some y \<Rightarrow> u y) = (case v of None \<Rightarrow> alone t | Some y \<Rightarrow> alone (u y))"
  "alone (case p of (y, z) \<Rightarrow> q y z) = (case p of (y, z) \<Rightarrow> alone (q y z))"
  by (simp_all split: sum.split option.split prod.split)

lemma alone_handle [alone_simps]:
  "alone (handle_t t h k) = handle (alone t) (\<lambda>e. alone (h e)) (\<lambda>x. alone (k x))"
  by (simp add: handle_t_def handle_def alone_simps)

lemma alone_attempt [alone_simps]:
  "alone (attempt_t t h k) = attempt (alone t) h (\<lambda>x. alone (k x))"
  by (simp add: attempt_t_def attempt_def alone_simps)

lemma alone_for_each [alone_simps]:
  "alone (for_each_t xs f acc) = for_each xs (\<lambda>x a. alone (f x a)) acc"
  by (induction xs arbitrary: acc) (simp_all add: alone_simps)

section \<open>Pools of threads\<close>

type_synonym ('s, 'a) pool = "('s, 'a) thread list \<times> 's"

inductive pool_step :: "('s, 'a) pool \<Rightarrow> ('s, 'a) pool \<Rightarrow> bool" where
  step: "i < length ts \<Longrightarrow> ts ! i = Call m \<Longrightarrow> run_state m s = (t, s') \<Longrightarrow> pool_step (ts, s) (ts[i := t], s')"

inductive_cases pool_stepE: "pool_step (ts, s) c"

definition turn :: "('s, 'a) pool \<Rightarrow> nat \<Rightarrow> ('s, 'a) pool" where
  "turn c i = (case c of (ts, s) \<Rightarrow>
     if i < length ts then
       (case ts ! i of Done _ \<Rightarrow> (ts, s) | Call m \<Rightarrow> (case run_state m s of (t, s') \<Rightarrow> (ts[i := t], s')))
     else (ts, s))"

definition schedule :: "nat list \<Rightarrow> ('s, 'a) pool \<Rightarrow> ('s, 'a) pool" where
  "schedule is c = foldl turn c is"

lemma turn_step: "pool_step\<^sup>*\<^sup>* c (turn c i)"
  by (cases c) (auto simp: turn_def intro!: r_into_rtranclp pool_step.step split: thread.split prod.split)

lemma schedule_steps: "pool_step\<^sup>*\<^sup>* c (schedule is c)"
proof (induction "is" arbitrary: c)
  case (Cons i "is")
  have "pool_step\<^sup>*\<^sup>* (turn c i) (schedule (i # is) c)"
    using Cons [of "turn c i"] by (simp add: schedule_def)
  with turn_step show ?case by (rule rtranclp_trans)
qed (simp add: schedule_def)

text \<open>No schedule goes on for ever, and a pool that cannot make a step has answered every request:
  no request waits for another.\<close>

definition next_thread :: "(('s, 'a) thread \<times> ('s, 'a) thread) set" where
  "next_thread = {(t, Call m) | t m. t \<in> set_state m}"

lemma wf_next_thread: "wf next_thread"
proof (rule wfUNIVI)
  fix P t
  assume step: "\<forall>t. (\<forall>u. (u, t) \<in> next_thread \<longrightarrow> P u) \<longrightarrow> P t"
  show "P t"
    by (induction t) (use step in \<open>auto simp: next_thread_def\<close>)
qed

lemma set_state_run: "run_state m s = (t, s') \<Longrightarrow> t \<in> set_state m"
  by (cases m) (auto intro!: exI [of _ s])

lemma pool_step_smaller:
  assumes "pool_step (ts, s) (us, s')"
  shows "(mset us, mset ts) \<in> mult next_thread"
  using assms
proof (rule pool_stepE)
  fix i m t v assume i: "i < length ts" "ts ! i = Call m" "run_state m s = (t, v)" and c: "(us, s') = (ts[i := t], v)"
  have "mset us = mset ts - {#Call m#} + {#t#}" and "Call m \<in># mset ts"
    using i c nth_mem [OF i(1)] by (auto simp: mset_update)
  moreover have "(t, Call m) \<in> next_thread" using set_state_run [OF i(3)] by (auto simp: next_thread_def)
  ultimately show ?thesis
    using one_step_implies_mult [of "{#Call m#}" "{#t#}" next_thread "mset ts - {#Call m#}"] by simp
qed

lemma schedules_end: "wfP (\<lambda>c' c. pool_step c c')"
proof -
  have "wf (inv_image (mult next_thread) (mset \<circ> fst))"
    by (intro wf_inv_image wf_mult wf_next_thread)
  then show ?thesis
    unfolding wfp_def by (rule wf_subset) (auto simp: inv_image_def dest: pool_step_smaller)
qed

lemma no_waiting: "(\<nexists>c. pool_step (ts, s) c) \<longleftrightarrow> (\<forall>t \<in> set ts. result_of t \<noteq> None)"
proof
  assume stuck: "\<nexists>c. pool_step (ts, s) c"
  show "\<forall>t \<in> set ts. result_of t \<noteq> None"
  proof
    fix t assume "t \<in> set ts"
    then obtain i where i: "i < length ts" "ts ! i = t" by (auto simp: in_set_conv_nth)
    show "result_of t \<noteq> None"
    proof (cases t)
      case (Call m)
      obtain u s' where "run_state m s = (u, s')" by fastforce
      then have "pool_step (ts, s) (ts[i := u], s')" using i Call by (auto intro: pool_step.step)
      then show ?thesis using stuck by blast
    qed simp
  qed
next
  assume "\<forall>t \<in> set ts. result_of t \<noteq> None"
  then show "\<nexists>c. pool_step (ts, s) c" by (auto elim!: pool_stepE dest!: nth_mem)
qed

text \<open>A thread of a pool may run to its end while the others wait.\<close>

lemma pool_run:
  assumes "i < length ts" and "ts ! i = t" and "run_state (alone t) s = (a, s')"
  shows "pool_step\<^sup>*\<^sup>* (ts, s) (ts[i := Done a], s')"
  using assms
proof (induction t arbitrary: ts s)
  case (Done b)
  then show ?case by (metis alone.simps(1) list_update_id prod.inject run_state_return rtranclp.rtrancl_refl)
next
  case (Call m)
  obtain t v where m: "run_state m s = (t, v)" by fastforce
  have "pool_step (ts, s) (ts[i := t], v)" by (rule pool_step.step [OF Call.prems(1,2) m])
  moreover have "run_state (alone t) v = (a, s')" using Call.prems(3) m by (simp add: run_alone_Call del: alone.simps)
  then have "pool_step\<^sup>*\<^sup>* (ts[i := t], v) ((ts[i := t])[i := Done a], s')"
    using Call.prems(1) by (intro Call.IH [OF set_state_run [OF m]]) simp_all
  ultimately show ?case by simp
qed

text \<open>A pool of one thread has one result, that of the thread on its own.\<close>

lemma pool_single:
  "pool_step\<^sup>*\<^sup>* ([t], s) ([Done a], s') \<longleftrightarrow> run_state (alone t) s = (a, s')"
proof
  have inv: "run_state (alone u) v = run_state (alone t) s" if "pool_step\<^sup>*\<^sup>* ([t], s) (us, v)" "us = [u]" for us u v
    using that
  proof (induction arbitrary: u rule: rtranclp_induct2)
    case (step us v us' v')
    from step(2) obtain i m x where i: "i < length us" "us ! i = Call m" "run_state m v = (x, v')" "us' = us[i := x]"
      by (auto elim!: pool_stepE)
    have "length us = 1" using arg_cong [OF step(4), of length] i(4) by simp
    then obtain y where us: "us = [y]" by (auto simp: length_Suc_conv)
    have y: "y = Call m" using i(1,2) us by simp
    have u: "u = x" using i(1,4) step(4) us by simp
    have "run_state (alone u) v' = run_state (alone y) v" unfolding y u run_alone_Call i(3) prod.case ..
    also have "\<dots> = run_state (alone t) s" by (rule step(3) [OF us])
    finally show ?case .
  qed simp
  then show "run_state (alone t) s = (a, s')" if "pool_step\<^sup>*\<^sup>* ([t], s) ([Done a], s')"
    using inv [OF that refl, symmetric] by simp
next
  show "pool_step\<^sup>*\<^sup>* ([t], s) ([Done a], s')" if "run_state (alone t) s = (a, s')"
    using pool_run [of 0 "[t]" t s a s'] that by simp
qed

section \<open>What the calls of a thread do\<close>

text \<open>\<open>obeys R t\<close>: every call of \<open>t\<close>, whatever state it is made in, relates the state before to the
  state after by \<open>R\<close>.\<close>

named_theorems obeys_intro "composition rules of obeys"

primrec obeys :: "('s \<Rightarrow> 's \<Rightarrow> bool) \<Rightarrow> ('s, 'a) thread \<Rightarrow> bool" where
  "obeys R (Done a) = True"
| "obeys R (Call m) = (\<forall>s. case run_state (map_state (obeys R) m) s of (p, s') \<Rightarrow> R s s' \<and> p)"

lemma obeys_Call:
  "obeys R (Call m) \<longleftrightarrow> (\<forall>s t s'. run_state m s = (t, s') \<longrightarrow> R s s' \<and> obeys R t)"
  by (simp add: case_prod_unfold) (metis prod.collapse prod.inject)

lemma run_map_state_eq: "run_state (map_state f m) s = (u, s') \<longleftrightarrow> (\<exists>t. run_state m s = (t, s') \<and> u = f t)"
  by (cases "run_state m s") auto

declare obeys.simps(2) [simp del]

lemma obeys_call [obeys_intro]: "guarantees R m \<Longrightarrow> obeys R (call m)"
  by (auto simp: call_def obeys_Call run_map_state_eq dest: guaranteesD simp del: run_map_state)

lemma obeys_then [obeys_intro]:
  assumes "obeys R t" and "\<And>a. obeys R (k a)"
  shows "obeys R (then_t t k)"
  using assms(1)
proof (induction t)
  case (Call m)
  then show ?case
    unfolding then_t.simps obeys_Call run_map_state_eq by (blast dest: set_state_run)
qed (simp add: assms(2))

lemma obeys_results [obeys_intro]: "obeys R (Done x)" "obeys R (ok_t x)" "obeys R (fail_t e)"
  by (simp_all add: ok_t_def fail_t_def)

lemma obeys_if [obeys_intro]:
  "(b \<Longrightarrow> obeys R t) \<Longrightarrow> (\<not> b \<Longrightarrow> obeys R u) \<Longrightarrow> obeys R (if b then t else u)"
  by simp

lemma obeys_case_option [obeys_intro]:
  "(r = None \<Longrightarrow> obeys R t) \<Longrightarrow> (\<And>x. r = Some x \<Longrightarrow> obeys R (u x)) \<Longrightarrow>
   obeys R (case r of None \<Rightarrow> t | Some x \<Rightarrow> u x)"
  by (cases r) auto

lemma obeys_case_prod [obeys_intro]:
  "(\<And>x y. r = (x, y) \<Longrightarrow> obeys R (t x y)) \<Longrightarrow> obeys R (case r of (x, y) \<Rightarrow> t x y)"
  by (cases r) auto

lemma obeys_handle [obeys_intro]:
  "obeys R t \<Longrightarrow> (\<And>e. obeys R (h e)) \<Longrightarrow> (\<And>x. obeys R (k x)) \<Longrightarrow> obeys R (handle_t t h k)"
  unfolding handle_t_def by (rule obeys_then) (auto split: sum.split)

lemma obeys_attempt [obeys_intro]:
  "obeys R t \<Longrightarrow> (\<And>x. obeys R (k x)) \<Longrightarrow> obeys R (attempt_t t h k)"
  unfolding attempt_t_def by (intro obeys_handle obeys_results)

lemma obeys_for_each [obeys_intro]:
  "(\<And>x a. x \<in> set xs \<Longrightarrow> obeys R (f x a)) \<Longrightarrow> obeys R (for_each_t xs f acc)"
  by (induction xs arbitrary: acc) (auto intro!: obeys_handle obeys_results)

lemma obeys_mono: "obeys R t \<Longrightarrow> (\<And>s s'. R s s' \<Longrightarrow> R' s s') \<Longrightarrow> obeys R' t"
proof (induction t)
  case (Call m)
  then show ?case unfolding obeys_Call by (blast dest: set_state_run)
qed simp

section \<open>Rely and guarantee\<close>

primrec rg ::
  "('s \<Rightarrow> 's \<Rightarrow> bool) \<Rightarrow> ('s \<Rightarrow> 's \<Rightarrow> bool) \<Rightarrow> ('a \<Rightarrow> 's \<Rightarrow> bool) \<Rightarrow> ('s, 'a) thread \<Rightarrow> 's \<Rightarrow> bool" where
  "rg R G Q (Done a) = (\<lambda>s. \<forall>s'. R s s' \<longrightarrow> Q a s')"
| "rg R G Q (Call m) = (\<lambda>s. \<forall>s'. R s s' \<longrightarrow>
     (case run_state (map_state (rg R G Q) m) s' of (p, v) \<Rightarrow> G s' v \<and> p v))"

lemma rg_Call: "rg R G Q (Call m) s \<longleftrightarrow>
    (\<forall>s' t v. R s s' \<longrightarrow> run_state m s' = (t, v) \<longrightarrow> G s' v \<and> rg R G Q t v)"
  by (simp add: case_prod_unfold) (metis prod.collapse prod.inject)

declare rg.simps(2) [simp del]

lemma rg_mono:
  assumes "rg R G Q t s" and "\<And>a s'. Q a s' \<Longrightarrow> Q' a s'"
  shows "rg R G Q' t s"
  using assms(1)
proof (induction t arbitrary: s)
  case (Call m)
  then show ?case unfolding rg_Call by (blast dest: set_state_run)
qed (simp add: assms(2))

context step_preorder begin

lemma rg_environment: "rg R G Q t s \<Longrightarrow> R s s' \<Longrightarrow> rg R G Q t s'"
  by (cases t) (auto simp: rg_Call intro: trans dest: trans)

lemma rg_then:
  assumes "rg R G (\<lambda>a. rg R G Q (k a)) t s"
  shows "rg R G Q (then_t t k) s"
  using assms
proof (induction t arbitrary: s)
  case (Done a)
  then show ?case using refl by simp
next
  case (Call m)
  show ?case unfolding then_t.simps rg_Call run_map_state_eq
    using Call.IH [OF set_state_run] Call.prems [unfolded rg_Call] by blast
qed

lemma rg_call:
  assumes "\<And>s'. R s s' \<Longrightarrow> wp m (\<lambda>a v. G s' v \<and> (\<forall>v'. R v v' \<longrightarrow> Q a v')) s'"
  shows "rg R G Q (call m) s"
  unfolding call_def rg_Call run_map_state_eq using wpD [OF assms] by auto

lemma rg_handle:
  assumes "rg R G (\<lambda>r s'. case r of Inl e \<Rightarrow> rg R G Q (h e) s' | Inr x \<Rightarrow> rg R G Q (k x) s') t s"
  shows "rg R G Q (handle_t t h k) s"
  unfolding handle_t_def
  by (rule rg_then, rule rg_mono [OF assms]) (auto split: sum.splits)

lemma rg_attempt:
  assumes "rg R G (\<lambda>r s'. case r of Inl e \<Rightarrow> (\<forall>v. R s' v \<longrightarrow> Q (Inl (h e)) v) | Inr x \<Rightarrow> rg R G Q (k x) s') t s"
  shows "rg R G Q (attempt_t t h k) s"
  unfolding attempt_t_def
  by (rule rg_handle, rule rg_mono [OF assms]) (simp add: fail_t_def split: sum.splits)

lemma rg_obeys: "obeys R t \<Longrightarrow> rg R R (\<lambda>_. R s) t s"
proof (induction t arbitrary: s)
  case (Call m)
  show ?case unfolding rg_Call
  proof (intro allI impI)
    fix s' t v assume "R s s'" and m: "run_state m s' = (t, v)"
    then have "R s v" using Call.prems m trans by (auto simp: obeys_Call)
    moreover have "R s' v" "obeys R t" using Call.prems m by (auto simp: obeys_Call)
    ultimately show "R s' v \<and> rg R R (\<lambda>_. R s) t v"
      by (auto intro: rg_mono [OF Call.IH [OF set_state_run [OF m]]] elim: trans)
  qed
qed simp

text \<open>A thread whose calls keep \<open>P\<close>, when nothing that happens in between can break it.\<close>

lemma rg_invariant:
  assumes "obeys (\<lambda>s s'. P s \<longrightarrow> G s s' \<and> P s') t" and "\<And>s s'. P s \<Longrightarrow> R s s' \<Longrightarrow> P s'" and "P s"
  shows "rg R G (\<lambda>_. P) t s"
  using assms(1,3)
proof (induction t arbitrary: s)
  case (Call m)
  then show ?case unfolding rg_Call obeys_Call using assms(2) by (blast dest: set_state_run)
qed (use assms(2) in simp)

text \<open>Threads that read: \<open>P\<close> holds of the result whatever happened in between, and the state is one
  the rely leads to.\<close>

lemma rg_read:
  assumes "guarantees reading m" and "\<And>v v'. reading v v' \<Longrightarrow> R v v' \<and> G v v'"
    and "\<And>s'. R s s' \<Longrightarrow> wp m (\<lambda>a _. P a) s'"
  shows "rg R G (\<lambda>a s'. R s s' \<and> P a) (call m) s"
proof (rule rg_call, rule wpI)
  fix s' a v assume R: "R s s'" and m: "run_state m s' = (a, v)"
  have "reading s' v" and "P a" using guaranteesD [OF assms(1) m] wpD [OF assms(3) [OF R] m] .
  then show "G s' v \<and> (\<forall>v'. R v v' \<longrightarrow> R s v' \<and> P a)" using assms(2) R by (blast intro: trans)
qed

lemma rg_attempt_read:
  assumes "rg R G (\<lambda>r s'. R s s' \<and> P r) t s"
    and "\<And>e s'. P (Inl e) \<Longrightarrow> R s s' \<Longrightarrow> Q (Inl (h e)) s'"
    and "\<And>x s'. P (Inr x) \<Longrightarrow> R s s' \<Longrightarrow> rg R G Q (k x) s'"
  shows "rg R G Q (attempt_t t h k) s"
  by (rule rg_attempt, rule rg_mono [OF assms(1)]) (auto intro: assms(2,3) trans split: sum.splits)

lemma rg_handle_read:
  assumes "rg R G (\<lambda>r s'. R s s' \<and> P r) t s"
    and "\<And>e s'. P (Inl e) \<Longrightarrow> R s s' \<Longrightarrow> rg R G Q (h e) s'"
    and "\<And>x s'. P (Inr x) \<Longrightarrow> R s s' \<Longrightarrow> rg R G Q (k x) s'"
  shows "rg R G Q (handle_t t h k) s"
  by (rule rg_handle, rule rg_mono [OF assms(1)]) (auto intro: assms(2,3) split: sum.splits)

lemma rg_result: "(\<And>s'. R s s' \<Longrightarrow> Q (Inr x) s') \<Longrightarrow> rg R G Q (ok_t x) s"
  "(\<And>s'. R s s' \<Longrightarrow> Q (Inl e) s') \<Longrightarrow> rg R G Q (fail_t e) s"
  by (simp_all add: ok_t_def fail_t_def)

lemma rg_for_each:
  assumes init: "I [] acc"
    and step: "\<And>ys x zs a s'. xs = ys @ x # zs \<Longrightarrow> I ys a \<Longrightarrow> R s s' \<Longrightarrow>
      rg R G (\<lambda>r v. R s' v \<and> (case r of Inl e \<Rightarrow> P (Inl e) | Inr a' \<Rightarrow> I (ys @ [x]) a')) (f x a) s'"
    and final: "\<And>a. I xs a \<Longrightarrow> P (Inr a)"
  shows "rg R G (\<lambda>r v. R s v \<and> P r) (for_each_t xs f acc) s"
proof -
  have "rg R G (\<lambda>r v. R s v \<and> P r) (for_each_t zs f a) s'" if "xs = ys @ zs" "I ys a" "R s s'" for ys zs a s'
    using that
  proof (induction zs arbitrary: ys a s')
    case Nil
    then show ?case using final by (auto intro!: rg_result elim: trans)
  next
    case (Cons x zs)
    show ?case unfolding for_each_t.simps
    proof (rule rg_handle_read [OF step [OF Cons.prems]])
      fix e v assume "case Inl e of Inl e \<Rightarrow> P (Inl e) | Inr a' \<Rightarrow> I (ys @ [x]) a'" "R s' v"
      then show "rg R G (\<lambda>r v. R s v \<and> P r) (fail_t e) v"
        using Cons.prems(3) by (auto intro!: rg_result elim: trans)
    next
      fix a' v assume "case Inr a' of Inl e \<Rightarrow> P (Inl e) | Inr a' \<Rightarrow> I (ys @ [x]) a'" "R s' v"
      then show "rg R G (\<lambda>r v. R s v \<and> P r) (for_each_t zs f a') v"
        using Cons.prems by (intro Cons.IH [of "ys @ [x]"]) (auto elim: trans)
    qed
  qed
  from this [of "[]"] init refl show ?thesis by simp
qed

end

section \<open>The rule for a pool\<close>

lemma pool_rg:
  assumes relies: "\<And>i. i < length ts \<Longrightarrow> step_preorder (R i)" and K: "step_preorder K"
    and fits: "\<And>i j v v'. i < length ts \<Longrightarrow> j < length ts \<Longrightarrow> i \<noteq> j \<Longrightarrow> G i v v' \<Longrightarrow> R j v v'"
    and kept: "\<And>i v v'. i < length ts \<Longrightarrow> G i v v' \<Longrightarrow> K v v'"
    and threads: "\<And>i. i < length ts \<Longrightarrow> rg (R i) (G i) (Q i) (ts ! i) s"
    and run: "pool_step\<^sup>*\<^sup>* (ts, s) (us, s')"
  shows "K s s' \<and> length us = length ts \<and> (\<forall>i < length ts. rg (R i) (G i) (Q i) (us ! i) s')"
  using run
proof (induction rule: rtranclp_induct2)
  case refl
  then show ?case using threads step_preorder.refl [OF K] by simp
next
  case (step us v us' v')
  from step(2) obtain i m t where i: "i < length ts" "us ! i = Call m" "run_state m v = (t, v')" "us' = us[i := t]"
    using step(3) by (auto elim!: pool_stepE)
  have ih: "rg (R j) (G j) (Q j) (us ! j) v" if "j < length ts" for j using step(3) that by blast
  have own: "G i v v'" "rg (R i) (G i) (Q i) t v'"
    using ih [OF i(1)] step_preorder.refl [OF relies [OF i(1)], of v] i(3) unfolding i(2) rg_Call by blast+
  have "rg (R j) (G j) (Q j) (us' ! j) v'" if "j < length ts" for j
  proof (cases "j = i")
    case True
    then show ?thesis using own(2) i step(3) by simp
  next
    case False
    then have "R j v v'" by (intro fits [OF i(1) that _ own(1)]) simp
    then have "rg (R j) (G j) (Q j) (us ! j) v'"
      by (rule step_preorder.rg_environment [OF relies [OF that] ih [OF that]])
    then show ?thesis using False i(4) by simp
  qed
  moreover have "K s v'" using step_preorder.trans [OF K _ kept [OF i(1) own(1)]] step(3) by blast
  moreover have "length us' = length ts" using step(3) i(4) by simp
  ultimately show ?case by blast
qed

lemma rg_result_of: "step_preorder R \<Longrightarrow> rg R G Q t s \<Longrightarrow> result_of t = Some a \<Longrightarrow> Q a s"
  by (auto simp: result_of_Some dest: step_preorder.refl)

lemma pool_obeys:
  assumes R: "step_preorder R" and "\<And>t. t \<in> set ts \<Longrightarrow> obeys R t" and "pool_step\<^sup>*\<^sup>* (ts, s) (us, s')"
  shows "R s s'"
  using pool_rg [where R = "\<lambda>_. R" and G = "\<lambda>_. R" and K = R, OF R R _ _ step_preorder.rg_obeys [OF R] assms(3)]
    assms(2) nth_mem by blast

end
