(* ===== verification/Lifecycle.thy ===== *)
theory Lifecycle
  imports Runtime Threads
begin

text \<open>
  \<open>Run\<close> of \<open>src/internal/plugin/plugin.go\<close>: what the process sends to Core from its start to its end.
  The first registration runs alone. After it the heartbeat and the shutdown run in goroutines of
  their own, which share \<open>p.pluginID\<close> and \<open>p.pluginToken\<close> without a lock: they are the two threads of a
  pool, whose calls, reads and writes of the shared fields interleave in the order of a schedule.

  What the goroutines meet is an argument: the answers of Core to each request, and at each
  \<open>select\<close> whether the case of the cancelled context is taken. Once the context is cancelled no
  request is answered any more. One step reads or writes one field as a whole; that an unsynchronised
  read of a Go string may be torn inside the field is not modelled.
\<close>

section \<open>Calls to Core\<close>

record Config =
  cf_name :: string
  cf_version :: string
  cf_core_url :: string
  cf_plugin_addr :: string
  cf_plugin_base_url :: string
  cf_api_key :: string

datatype core_call =
    is_CallRegister: CallRegister (base_url: string) (api_key: string) (reply: register_reply)
  | CallHeartbeat (sent_id: string) (sent_token: string) (beat: "nat option")
  | is_CallDeregister: CallDeregister (sent_id: string) (sent_token: string)

text \<open>The fields the goroutines share, whether the context \<open>gCtx\<close> has been cancelled, and the calls made
  so far with what came back of them.\<close>

record client =
  cl_id :: string
  cl_token :: string
  cl_cancelled :: bool
  cl_calls :: "core_call list"

type_synonym identity = "string \<times> string"

definition client0 :: client where
  "client0 = \<lparr>cl_id = [], cl_token = [], cl_cancelled = False, cl_calls = []\<rparr>"

definition log_call :: "core_call \<Rightarrow> client \<Rightarrow> client" where
  "log_call c s = s\<lparr>cl_calls := cl_calls s @ [c]\<rparr>"

definition read_field :: "(client \<Rightarrow> string) \<Rightarrow> (client, string) state" where
  "read_field f = State (\<lambda>s. (f s, s))"

definition set_field :: "(client \<Rightarrow> client) \<Rightarrow> (client, unit) state" where
  "set_field f = State (\<lambda>s. ((), f s))"

text \<open>The requests with a context: an error when it is cancelled.\<close>

definition post_register :: "Config \<Rightarrow> string \<Rightarrow> register_reply \<Rightarrow> (client, register_reply) state" where
  "post_register cfg baseURL r = State (\<lambda>s.
     let r' = (if cl_cancelled s then NoReply else r) in (r', log_call (CallRegister baseURL (cf_api_key cfg) r') s))"

definition post_heartbeat :: "string \<Rightarrow> string \<Rightarrow> nat option \<Rightarrow> (client, nat option) state" where
  "post_heartbeat i tok b = State (\<lambda>s.
     let b' = (if cl_cancelled s then None else b) in (b', log_call (CallHeartbeat i tok b') s))"

text \<open>\<open><-gCtx.Done()\<close>: from here on the context is known to be cancelled.\<close>

definition context_done :: "(client, unit) state" where
  "context_done = set_field (cl_cancelled_update (\<lambda>_. True))"

section \<open>The goroutines\<close>

text \<open>\<open>register\<close>: every attempt with its answer and, when another may follow, whether the wait ends by the
  cancellation. It stores the id and then the token. The waits themselves are in \<open>register_loop\<close>.\<close>

fun register_t :: "Config \<Rightarrow> string \<Rightarrow> (register_reply \<times> bool) list \<Rightarrow> (client, register_result) thread" where
  "register_t cfg baseURL [] = Done Waiting"
| "register_t cfg baseURL ((r, cancelled) # rest) =
     then_t (call (post_register cfg baseURL r)) (\<lambda>reply. case reply of
         Registered i tok \<Rightarrow>
           then_t (call (set_field (cl_id_update (\<lambda>_. i)))) (\<lambda>_.
             then_t (call (set_field (cl_token_update (\<lambda>_. tok)))) (\<lambda>_. Done (Ok i tok)))
       | Garbled \<Rightarrow> Done DecodeError
       | _ \<Rightarrow> if cancelled then then_t (call context_done) (\<lambda>_. Done Cancelled)
              else register_t cfg baseURL rest)"

definition sendHeartbeat_t :: "nat option \<Rightarrow> (client, nat option) thread" where
  "sendHeartbeat_t b =
     then_t (call (read_field cl_id)) (\<lambda>i.
       then_t (call (read_field cl_token)) (\<lambda>tok. call (post_heartbeat i tok b)))"

text \<open>\<open>heartbeat\<close>: one element per tick, with the answer to the beat and those to the registration it may
  start; after the last one the \<open>select\<close> takes the cancelled context. \<open>reregister\<close> only logs an error.
  When the answers to a registration end first, the goroutine is still in it.\<close>

primrec heartbeat_t ::
  "Config \<Rightarrow> string \<Rightarrow> nat \<Rightarrow> (nat option \<times> (register_reply \<times> bool) list) list \<Rightarrow> (client, unit) thread" where
  "heartbeat_t cfg baseURL missed [] = call context_done"
| "heartbeat_t cfg baseURL missed (t # ts) =
     then_t (sendHeartbeat_t (fst t)) (\<lambda>beat.
       case heartbeat_tick missed beat of (missed', again) \<Rightarrow>
         if again then
           then_t (register_t cfg baseURL (snd t)) (\<lambda>res.
             if res = Waiting then Done () else heartbeat_t cfg baseURL missed' ts)
         else heartbeat_t cfg baseURL missed' ts)"

definition deregister_t :: "(client, unit) thread" where
  "deregister_t =
     then_t (call (read_field cl_id)) (\<lambda>i.
       then_t (call (read_field cl_token)) (\<lambda>tok. call (set_field (log_call (CallDeregister i tok)))))"

definition shutdown_t :: "(client, unit) thread" where
  "shutdown_t = then_t (call context_done) (\<lambda>_. deregister_t)"

section \<open>Run\<close>

text \<open>\<open>run_end\<close> is \<open>None\<close> while \<open>Run\<close> has not returned, then what it returned; \<open>run_engine\<close> the endpoints the
  engine answers. \<open>ended\<close> is the result of \<open>g.Wait()\<close>: the server failed, it did not shut down within
  five seconds, or neither. \<open>sched\<close> says which goroutine makes the next step (0 the heartbeat, 1 the
  shutdown).\<close>

datatype run_error = ListenFailed | RegisterFailed register_result | ServeFailed | ShutdownFailed

record run_result =
  run_calls :: "core_call list"
  run_engine :: "(string \<times> string) list"
  run_manifest :: manifest
  run_end :: "run_error option option"

definition Run ::
  "Config \<Rightarrow> Plugin \<Rightarrow> string option \<Rightarrow> (register_reply \<times> bool) list \<Rightarrow>
   (nat option \<times> (register_reply \<times> bool) list) list \<Rightarrow> run_error option \<Rightarrow> nat list \<Rightarrow> run_result" where
  "Run cfg p listening attempts beats ended sched =
     (let engine = pl_engine p @ [(''GET'', ''/_apicorex/manifest''), (''GET'', ''/_apicorex/health'')];
          result = \<lambda>calls e. \<lparr>run_calls = calls, run_engine = engine, run_manifest = buildManifest p, run_end = e\<rparr>
      in case listening of
           None \<Rightarrow> result [] (Some (Some ListenFailed))
         | Some addr \<Rightarrow>
             let baseURL = (if cf_plugin_base_url cfg = [] then ''http://'' @ addr else cf_plugin_base_url cfg)
             in (case run_state (alone (register_t cfg baseURL attempts)) client0 of (res, s) \<Rightarrow>
                  (case res of
                     Ok i tok \<Rightarrow>
                       (case schedule sched ([heartbeat_t cfg baseURL 0 beats, shutdown_t], s) of (ts, s') \<Rightarrow>
                          result (cl_calls s') (if list_all (\<lambda>t. result_of t \<noteq> None) ts then Some ended else None))
                   | Waiting \<Rightarrow> result (cl_calls s) None
                   | _ \<Rightarrow> result (cl_calls s) (Some (Some (RegisterFailed res))))))"

section \<open>The identity in use\<close>

text \<open>What the calls so far tell: the identities Core gave, in order, and whether the latest of them is known
  to be stored, because it is the first or a heartbeat was answered since.\<close>

type_synonym heard = "identity list \<times> bool"

fun hear :: "heard \<Rightarrow> core_call \<Rightarrow> heard" where
  "hear (given, stored) (CallRegister _ _ (Registered i tok)) = (given @ [(i, tok)], given = [])"
| "hear (given, stored) (CallHeartbeat _ _ (Some _)) = (given, True)"
| "hear k _ = k"

definition heard :: "core_call list \<Rightarrow> heard" where
  "heard cs = foldl hear ([], True) cs"

text \<open>The latest identity and the one before it.\<close>

definition recent_ids :: "identity list \<Rightarrow> identity set" where
  "recent_ids given = set (take 2 (rev given))"

text \<open>A heartbeat carries the latest identity. A deregistration carries it too, when it is known to be
  stored; otherwise its id and its token are each that of the latest or of the one before.\<close>

definition carries_identity :: "heard \<Rightarrow> core_call \<Rightarrow> bool" where
  "carries_identity k c = (case c of
       CallRegister _ _ _ \<Rightarrow> True
     | CallHeartbeat i tok _ \<Rightarrow> fst k \<noteq> [] \<and> (i, tok) = last (fst k)
     | CallDeregister i tok \<Rightarrow> fst k \<noteq> [] \<and> i \<in> fst ` recent_ids (fst k) \<and> tok \<in> snd ` recent_ids (fst k) \<and>
         (snd k \<longrightarrow> (i, tok) = last (fst k)))"

fun faithful :: "heard \<Rightarrow> core_call list \<Rightarrow> bool" where
  "faithful k [] \<longleftrightarrow> True"
| "faithful k (c # cs) \<longleftrightarrow> carries_identity k c \<and> faithful (hear k c) cs"

definition deregistrations :: "core_call list \<Rightarrow> nat" where
  "deregistrations cs = length (filter is_CallDeregister cs)"

lemma faithful_snoc: "faithful k (cs @ [c]) \<longleftrightarrow> faithful k cs \<and> carries_identity (foldl hear k cs) c"
  by (induction cs arbitrary: k) auto

lemma heard_snoc: "heard (cs @ [c]) = hear (heard cs) c"
  by (simp add: heard_def)

lemma deregistrations_snoc: "deregistrations (cs @ [c]) = deregistrations cs + (if is_CallDeregister c then 1 else 0)"
  by (simp add: deregistrations_def)

lemma recent_last: "given \<noteq> [] \<Longrightarrow> last given \<in> recent_ids given"
  by (cases given rule: rev_cases) (simp_all add: recent_ids_def numeral_2_eq_2)

lemma recent_snoc: "given \<noteq> [] \<Longrightarrow> last given \<in> recent_ids (given @ [x])"
  by (cases given rule: rev_cases) (simp_all add: recent_ids_def numeral_2_eq_2)

section \<open>Every order of the steps\<close>

text \<open>What holds between any two steps of the goroutines.\<close>

definition consistent :: "client \<Rightarrow> bool" where
  "consistent s \<longleftrightarrow> (case heard (cl_calls s) of (given, stored) \<Rightarrow>
     faithful ([], True) (cl_calls s) \<and> deregistrations (cl_calls s) \<le> 1 \<and> given \<noteq> [] \<and>
     cl_id s \<in> fst ` recent_ids given \<and> cl_token s \<in> snd ` recent_ids given \<and>
     (stored \<longrightarrow> (cl_id s, cl_token s) = last given))"

text \<open>\<open>beside_heartbeat\<close> is what the heartbeat relies on and the shutdown guarantees, \<open>beside_shutdown\<close> the
  converse: the shutdown writes no field and hears nothing; once the context is cancelled, the
  heartbeat hears of no further identity and of no answered beat, and it never deregisters.\<close>

definition beside_heartbeat :: "client \<Rightarrow> client \<Rightarrow> bool" where
  "beside_heartbeat s s' \<longleftrightarrow> cl_id s' = cl_id s \<and> cl_token s' = cl_token s \<and>
     heard (cl_calls s') = heard (cl_calls s) \<and> (consistent s \<longrightarrow> consistent s')"

definition beside_shutdown :: "client \<Rightarrow> client \<Rightarrow> bool" where
  "beside_shutdown s s' \<longleftrightarrow> deregistrations (cl_calls s') = deregistrations (cl_calls s) \<and>
     (cl_cancelled s \<longrightarrow> cl_cancelled s' \<and> heard (cl_calls s') = heard (cl_calls s)) \<and>
     (consistent s \<longrightarrow> consistent s')"

interpretation beating: step_preorder beside_heartbeat
  by unfold_locales (auto simp: beside_heartbeat_def)

interpretation stopping: step_preorder beside_shutdown
  by unfold_locales (auto simp: beside_shutdown_def)

text \<open>\<open>current\<close>: the fields hold the latest identity.\<close>

definition current :: "client \<Rightarrow> bool" where
  "current s \<longleftrightarrow> consistent s \<and> (cl_id s, cl_token s) = last (fst (heard (cl_calls s)))"

definition unstored :: "identity \<Rightarrow> client \<Rightarrow> bool" where
  "unstored ident s \<longleftrightarrow> consistent s \<and> last (fst (heard (cl_calls s))) = ident \<and> \<not> snd (heard (cl_calls s))"

lemma stages_stable:
  "beside_heartbeat s s' \<Longrightarrow> current s \<Longrightarrow> current s'"
  "beside_heartbeat s s' \<Longrightarrow> unstored ident s \<Longrightarrow> unstored ident s'"
  by (auto simp: beside_heartbeat_def current_def unstored_def)

lemma fst_recent: "given \<noteq> [] \<Longrightarrow> last given = (i, tok) \<Longrightarrow> i \<in> fst ` recent_ids given \<and> tok \<in> snd ` recent_ids given"
  using recent_last [of given] by force

lemma run_set_field [simp]: "run_state (set_field f) s = ((), f s)" "run_state (read_field g) s = (g s, s)"
  by (simp_all add: set_field_def read_field_def)

lemma log_call_simps [simp]:
  "cl_id (log_call c s) = cl_id s" "cl_token (log_call c s) = cl_token s" "cl_cancelled (log_call c s) = cl_cancelled s"
  "cl_calls (log_call c s) = cl_calls s @ [c]"
  by (simp_all add: log_call_def)

lemma consistentD:
  assumes "consistent s"
  obtains given stored where "heard (cl_calls s) = (given, stored)" "faithful ([], True) (cl_calls s)"
    "deregistrations (cl_calls s) \<le> 1" "given \<noteq> []" "cl_id s \<in> fst ` recent_ids given" "cl_token s \<in> snd ` recent_ids given"
    "stored \<longrightarrow> (cl_id s, cl_token s) = last given"
  using assms by (auto simp: consistent_def split: prod.splits)

lemma faithful_call: "faithful ([], True) (cs @ [c]) \<longleftrightarrow> faithful ([], True) cs \<and> carries_identity (heard cs) c"
  by (simp add: faithful_snoc heard_def)

text \<open>The steps, one by one.\<close>

lemma step_accepted:
  assumes "current s" and "\<not> cl_cancelled s"
  shows "unstored (i, tok) (log_call (CallRegister base key (Registered i tok)) s) \<and>
    beside_shutdown s (log_call (CallRegister base key (Registered i tok)) s)"
proof -
  let ?s = "log_call (CallRegister base key (Registered i tok)) s"
  from assms(1) have "consistent s" by (simp add: current_def)
  then obtain given stored where k: "heard (cl_calls s) = (given, stored)" "faithful ([], True) (cl_calls s)"
    "deregistrations (cl_calls s) \<le> 1" "given \<noteq> []" by (rule consistentD)
  have "(cl_id s, cl_token s) \<in> recent_ids (given @ [(i, tok)])"
    using recent_snoc [OF k(4)] assms(1) k(1) by (simp add: current_def)
  then have "consistent ?s" using k
    by (force simp: consistent_def heard_snoc faithful_call carries_identity_def deregistrations_snoc)
  then show ?thesis using k assms(2)
    by (simp add: unstored_def beside_shutdown_def heard_snoc deregistrations_snoc)
qed

lemma step_refused:
  assumes "current s" and "\<And>i tok. r \<noteq> Registered i tok"
  shows "current (log_call (CallRegister base key r) s) \<and> beside_shutdown s (log_call (CallRegister base key r) s)"
proof -
  from assms(1) have "consistent s" by (simp add: current_def)
  then obtain given stored where k: "heard (cl_calls s) = (given, stored)" "faithful ([], True) (cl_calls s)"
    "deregistrations (cl_calls s) \<le> 1" "given \<noteq> []" "cl_id s \<in> fst ` recent_ids given" "cl_token s \<in> snd ` recent_ids given"
    "stored \<longrightarrow> (cl_id s, cl_token s) = last given" by (rule consistentD)
  have "hear (given, stored) (CallRegister base key r) = (given, stored)" using assms(2) by (cases r) auto
  then have "consistent (log_call (CallRegister base key r) s)" "heard (cl_calls s @ [CallRegister base key r]) = (given, stored)"
    using k by (simp_all add: consistent_def heard_snoc faithful_call carries_identity_def deregistrations_snoc)
  then show ?thesis using assms(1) k(1) by (simp add: current_def beside_shutdown_def deregistrations_snoc)
qed

lemma step_beat:
  assumes "current s"
  shows "(\<lambda>s'. current s' \<and> beside_shutdown s s')
    (log_call (CallHeartbeat (cl_id s) (cl_token s) (if cl_cancelled s then None else b)) s)"
proof -
  define c where "c = CallHeartbeat (cl_id s) (cl_token s) (if cl_cancelled s then None else b)"
  from assms have "consistent s" and last: "(cl_id s, cl_token s) = last (fst (heard (cl_calls s)))" by (simp_all add: current_def)
  from this(1) obtain given stored where k: "heard (cl_calls s) = (given, stored)" "faithful ([], True) (cl_calls s)"
    "deregistrations (cl_calls s) \<le> 1" "given \<noteq> []" "cl_id s \<in> fst ` recent_ids given" "cl_token s \<in> snd ` recent_ids given"
    "stored \<longrightarrow> (cl_id s, cl_token s) = last given" by (rule consistentD)
  obtain stored' where h: "hear (given, stored) c = (given, stored')" "cl_cancelled s \<longrightarrow> stored' = stored"
    unfolding c_def by (cases "if cl_cancelled s then None else b") (auto split: if_splits)
  have proper: "carries_identity (given, stored) c" "\<not> is_CallDeregister c"
    using last k by (simp_all add: c_def carries_identity_def)
  have heard: "heard (cl_calls s @ [c]) = (given, stored')" unfolding heard_snoc k(1) h(1) ..
  have "consistent (log_call c s)"
    using k last proper by (simp add: consistent_def heard faithful_call deregistrations_snoc)
  then show ?thesis unfolding c_def [symmetric]
    using last k(1) h(2) proper by (simp add: current_def beside_shutdown_def heard deregistrations_snoc)
qed

lemma step_store_id:
  assumes "unstored (i, tok) s"
  shows "(\<lambda>s'. unstored (i, tok) s' \<and> cl_id s' = i \<and> beside_shutdown s s') (s\<lparr>cl_id := i\<rparr>)"
proof -
  from assms have "consistent s" by (simp add: unstored_def)
  then obtain given stored where k: "heard (cl_calls s) = (given, stored)" "given \<noteq> []" by (rule consistentD)
  have "consistent (s\<lparr>cl_id := i\<rparr>)"
    using assms k fst_recent [OF k(2), of i tok] by (auto simp: unstored_def consistent_def)
  then show ?thesis using assms by (simp add: unstored_def beside_shutdown_def)
qed

lemma step_store_token:
  assumes "unstored (i, tok) s" and "cl_id s = i"
  shows "(\<lambda>s'. current s' \<and> beside_shutdown s s') (s\<lparr>cl_token := tok\<rparr>)"
proof -
  from assms have "consistent s" by (simp add: unstored_def)
  then obtain given stored where k: "heard (cl_calls s) = (given, stored)" "given \<noteq> []" by (rule consistentD)
  have "consistent (s\<lparr>cl_token := tok\<rparr>)"
    using assms k fst_recent [OF k(2), of i tok] by (auto simp: unstored_def consistent_def)
  then show ?thesis using assms by (simp add: unstored_def current_def beside_shutdown_def)
qed

lemma step_done:
  "beside_shutdown s (s\<lparr>cl_cancelled := True\<rparr>)" "beside_heartbeat s (s\<lparr>cl_cancelled := True\<rparr>)"
  "current (s\<lparr>cl_cancelled := True\<rparr>) = current s" "consistent (s\<lparr>cl_cancelled := True\<rparr>) = consistent s"
  by (simp_all add: beside_shutdown_def beside_heartbeat_def consistent_def current_def)

text \<open>The goroutines.\<close>

lemma rg_store:
  assumes "unstored (i, tok) s"
  shows "rg beside_heartbeat beside_shutdown (\<lambda>_. current)
    (then_t (call (set_field (cl_id_update (\<lambda>_. i)))) (\<lambda>_.
       then_t (call (set_field (cl_token_update (\<lambda>_. tok)))) (\<lambda>_. Done x))) s"
proof (rule beating.rg_then, rule beating.rg_call, rule wpI, simp only: run_set_field prod.inject, elim conjE, intro conjI allI impI, goal_cases)
  case (1 s' a v)
  then show ?case using step_store_id [OF stages_stable(2) [OF 1(1) assms]] by simp
next
  case (2 s' a v v')
  have "unstored (i, tok) v" "cl_id v = i" using step_store_id [OF stages_stable(2) [OF 2(1) assms]] 2 by auto
  then have v': "unstored (i, tok) v'" "cl_id v' = i" using 2(4) stages_stable(2) [OF 2(4)] by (auto simp: beside_heartbeat_def)
  show ?case
  proof (rule beating.rg_then, rule beating.rg_call, rule wpI, simp only: run_set_field prod.inject, elim conjE, intro conjI allI impI, goal_cases)
    case (1 s' a v)
    have "unstored (i, tok) s'" "cl_id s' = i" using v' stages_stable(2) [OF 1(1)] 1(1) by (auto simp: beside_heartbeat_def)
    then show ?case using step_store_token [of i tok s'] 1 by simp
  next
    case (2 s' a v u)
    have "unstored (i, tok) s'" "cl_id s' = i" using v' stages_stable(2) [OF 2(1)] 2(1) by (auto simp: beside_heartbeat_def)
    then have "current v" using step_store_token [of i tok s'] 2 by auto
    then have "current u" by (rule stages_stable(1) [OF 2(4)])
    then show ?case by (auto intro: stages_stable(1))
  qed
qed

lemma rg_over: "current s \<Longrightarrow> rg beside_heartbeat beside_shutdown (\<lambda>_. current) (Done x) s"
  by (auto intro: stages_stable(1))

lemma rg_context_done:
  assumes "current s"
  shows "rg beside_heartbeat beside_shutdown (\<lambda>_. current) (call context_done) s"
proof (rule beating.rg_call, rule wpI)
  fix s' a v assume s': "beside_heartbeat s s'" and run: "run_state context_done s' = (a, v)"
  have "v = s'\<lparr>cl_cancelled := True\<rparr>" using run by (simp add: context_done_def)
  moreover from this have "current v" using stages_stable(1) [OF s' assms] step_done(3) [of s'] by simp
  ultimately show "beside_shutdown s' v \<and> (\<forall>v'. beside_heartbeat v v' \<longrightarrow> current v')"
    using step_done(1) stages_stable(1) by blast
qed

lemma rg_register:
  "current s \<Longrightarrow> rg beside_heartbeat beside_shutdown (\<lambda>_. current) (register_t cfg base attempts) s"
proof (induction attempts arbitrary: s)
  case Nil
  then show ?case unfolding register_t.simps by (rule rg_over)
next
  case (Cons a rest)
  obtain r cancelled where a: "a = (r, cancelled)" by (cases a)
  show ?case unfolding a register_t.simps
  proof (rule beating.rg_then, rule beating.rg_call, rule wpI)
    fix s' reply v assume s': "beside_heartbeat s s'" and run: "run_state (post_register cfg base r) s' = (reply, v)"
    have cur: "current s'" by (rule stages_stable(1) [OF s' Cons.prems])
    have reply: "reply = (if cl_cancelled s' then NoReply else r)" and v: "v = log_call (CallRegister base (cf_api_key cfg) reply) s'"
      using run by (auto simp: post_register_def Let_def)
    show "beside_shutdown s' v \<and> (\<forall>v'. beside_heartbeat v v' \<longrightarrow> rg beside_heartbeat beside_shutdown (\<lambda>_. current)
      (case reply of
         Registered i tok \<Rightarrow>
           then_t (call (set_field (cl_id_update (\<lambda>_. i)))) (\<lambda>_.
             then_t (call (set_field (cl_token_update (\<lambda>_. tok)))) (\<lambda>_. Done (Ok i tok)))
       | Garbled \<Rightarrow> Done DecodeError
       | _ \<Rightarrow> if cancelled then then_t (call context_done) (\<lambda>_. Done Cancelled) else register_t cfg base rest) v')"
    proof (cases "\<exists>i tok. reply = Registered i tok")
      case True
      then obtain i tok where r: "reply = Registered i tok" by blast
      then have "\<not> cl_cancelled s'" using reply by (auto split: if_splits)
      from step_accepted [OF cur this] show ?thesis unfolding v r register_reply.case
        by (intro conjI allI impI rg_store) (auto intro: stages_stable(2))
    next
      case False
      note refused = step_refused [OF cur, of reply base "cf_api_key cfg"]
      have stop: "rg beside_heartbeat beside_shutdown (\<lambda>_. current) (then_t (call context_done) (\<lambda>_. Done Cancelled)) v'"
        if "current v'" for v'
        by (rule beating.rg_then, rule rg_mono [OF rg_context_done [OF that]], rule rg_over)
      have quiet: "current v" "beside_shutdown s' v" using refused False unfolding v by blast+
      have rest: "rg beside_heartbeat beside_shutdown (\<lambda>_. current)
        (case reply of
           Registered i tok \<Rightarrow>
             then_t (call (set_field (cl_id_update (\<lambda>_. i)))) (\<lambda>_.
               then_t (call (set_field (cl_token_update (\<lambda>_. tok)))) (\<lambda>_. Done (Ok i tok)))
         | Garbled \<Rightarrow> Done DecodeError
         | _ \<Rightarrow> if cancelled then then_t (call context_done) (\<lambda>_. Done Cancelled) else register_t cfg base rest) v'"
        if "current v'" for v'
        using False stop [OF that] rg_over [OF that] Cons.IH [OF that]
        by (cases reply; cases cancelled) (simp_all del: rg.simps)
      show ?thesis using quiet rest stages_stable(1) by blast
    qed
  qed
qed

lemma rg_sendHeartbeat:
  assumes "current s"
  shows "rg beside_heartbeat beside_shutdown (\<lambda>_. current) (sendHeartbeat_t b) s"
  unfolding sendHeartbeat_t_def
proof (rule beating.rg_then, rule beating.rg_call, rule wpI, simp only: run_set_field prod.inject, elim conjE, intro conjI allI impI, goal_cases)
  case (2 s' i v v')
  have i: "i = cl_id v'" using 2 by (auto simp: beside_heartbeat_def)
  have v': "current v'" using stages_stable(1) assms 2 by blast
  show ?case
  proof (rule beating.rg_then, rule beating.rg_call, rule wpI, simp only: run_set_field prod.inject, elim conjE, intro conjI allI impI, goal_cases)
    case (2 u tok x y)
    have ids: "i = cl_id y" "tok = cl_token y" using 2 i by (auto simp: beside_heartbeat_def)
    have y: "current y" using stages_stable(1) v' 2 by blast
    show ?case
    proof (rule beating.rg_call, rule wpI)
      fix z a z' assume z: "beside_heartbeat y z" and run: "run_state (post_heartbeat i tok b) z = (a, z')"
      have "current z" by (rule stages_stable(1) [OF z y])
      moreover have "z' = log_call (CallHeartbeat (cl_id z) (cl_token z) (if cl_cancelled z then None else b)) z"
        using run z ids by (auto simp: post_heartbeat_def Let_def beside_heartbeat_def)
      ultimately show "beside_shutdown z z' \<and> (\<forall>v'. beside_heartbeat z' v' \<longrightarrow> current v')"
        using step_beat [of z b] stages_stable(1) by blast
    qed
  qed (simp add: stopping.refl)
qed (simp add: stopping.refl)

lemma rg_heartbeat:
  "current s \<Longrightarrow> rg beside_heartbeat beside_shutdown (\<lambda>_. current) (heartbeat_t cfg base missed ts) s"
proof (induction ts arbitrary: s missed)
  case Nil
  then show ?case unfolding heartbeat_t.simps by (rule rg_context_done)
next
  case (Cons t ts)
  show ?case unfolding heartbeat_t.simps
  proof (rule beating.rg_then, rule rg_mono [OF rg_sendHeartbeat [OF Cons.prems]])
    fix beat v assume v: "current v"
    obtain missed' again where tick: "heartbeat_tick missed beat = (missed', again)" by fastforce
    have "rg beside_heartbeat beside_shutdown (\<lambda>_. current) (then_t (register_t cfg base (snd t)) (\<lambda>res.
             if res = Waiting then Done () else heartbeat_t cfg base missed' ts)) v"
      by (rule beating.rg_then, rule rg_mono [OF rg_register [OF v]]) (auto intro: rg_over Cons.IH simp del: rg.simps)
    then show "rg beside_heartbeat beside_shutdown (\<lambda>_. current) (case heartbeat_tick missed beat of (missed', again) \<Rightarrow>
         if again then
           then_t (register_t cfg base (snd t)) (\<lambda>res.
             if res = Waiting then Done () else heartbeat_t cfg base missed' ts)
         else heartbeat_t cfg base missed' ts) v"
      using Cons.IH [OF v] by (simp add: tick)
  qed
qed

text \<open>The shutdown has read an id, and then a token, that may be stale but no worse than the last but one.\<close>

definition shutting :: "nat \<Rightarrow> client \<Rightarrow> bool" where
  "shutting n s \<longleftrightarrow> consistent s \<and> deregistrations (cl_calls s) = n"

definition has_read :: "(identity \<Rightarrow> string) \<Rightarrow> string \<Rightarrow> client \<Rightarrow> bool" where
  "has_read part x s \<longleftrightarrow> cl_cancelled s \<and> (case heard (cl_calls s) of (given, stored) \<Rightarrow>
     x \<in> part ` recent_ids given \<and> (stored \<longrightarrow> x = part (last given)))"

lemma shutting_stable:
  "beside_shutdown s s' \<Longrightarrow> shutting n s \<Longrightarrow> shutting n s'"
  "beside_shutdown s s' \<Longrightarrow> cl_cancelled s \<Longrightarrow> cl_cancelled s'"
  "beside_shutdown s s' \<Longrightarrow> has_read part x s \<Longrightarrow> has_read part x s'"
  by (auto simp: beside_shutdown_def shutting_def has_read_def)

lemma consistent_reads:
  assumes "consistent s" and "cl_cancelled s"
  shows "has_read fst (cl_id s) s" "has_read snd (cl_token s) s"
  using assms(2) by (rule_tac consistentD [OF assms(1)]; auto simp: has_read_def dest: arg_cong [of _ _ fst] arg_cong [of _ _ snd])+

lemma step_deregister:
  assumes "shutting 0 s" and "has_read fst i s" and "has_read snd tok s"
  shows "(\<lambda>s'. shutting 1 s' \<and> beside_heartbeat s s') (log_call (CallDeregister i tok) s)"
proof -
  from assms(1) have "consistent s" and none: "deregistrations (cl_calls s) = 0" by (simp_all add: shutting_def)
  from this(1) obtain given stored where k: "heard (cl_calls s) = (given, stored)" "faithful ([], True) (cl_calls s)"
    "deregistrations (cl_calls s) \<le> 1" "given \<noteq> []" "cl_id s \<in> fst ` recent_ids given" "cl_token s \<in> snd ` recent_ids given"
    "stored \<longrightarrow> (cl_id s, cl_token s) = last given" by (rule consistentD)
  have "carries_identity (given, stored) (CallDeregister i tok)"
    using assms(2,3) k(1,4) by (simp add: has_read_def carries_identity_def)
  then have "consistent (log_call (CallDeregister i tok) s)"
    using k none by (simp add: consistent_def faithful_call heard_snoc deregistrations_snoc)
  then show ?thesis using k(1) none by (simp add: shutting_def beside_heartbeat_def heard_snoc deregistrations_snoc)
qed

lemma rg_shutdown:
  assumes "shutting 0 s"
  shows "rg beside_shutdown beside_heartbeat (\<lambda>_. shutting 1) shutdown_t s"
  unfolding shutdown_t_def context_done_def deregister_t_def
proof (rule stopping.rg_then, rule stopping.rg_call, rule wpI, simp only: run_set_field prod.inject, elim conjE, intro conjI allI impI, goal_cases)
  case (1 s' a v)
  then show ?case using step_done(2) [of s'] by simp
next
  case (2 s' a v v')
  have "shutting 0 s'" by (rule shutting_stable(1) [OF 2(1) assms])
  then have "shutting 0 v" "cl_cancelled v" using 2(3) [symmetric] step_done(4) [of s'] by (simp_all add: shutting_def)
  then have v': "shutting 0 v'" "cl_cancelled v'" using shutting_stable 2(4) by blast+
  show ?case
  proof (rule stopping.rg_then, rule stopping.rg_call, rule wpI, simp only: run_set_field prod.inject, elim conjE, intro conjI allI impI, goal_cases)
    case (2 y i x u)
    have x: "shutting 0 x" "cl_cancelled x" using shutting_stable v' 2(1) by blast+
    have "has_read fst i x" using consistent_reads(1) [of x] x 2(2,3) by (auto simp: shutting_def)
    then have u: "shutting 0 u" "cl_cancelled u" "has_read fst i u" using x 2(2-) shutting_stable by blast+
    show ?case
    proof (rule stopping.rg_then, rule stopping.rg_call, rule wpI, simp only: run_set_field prod.inject, elim conjE, intro conjI allI impI, goal_cases)
      case (2 y tok x v)
      have x: "shutting 0 x" "cl_cancelled x" "has_read fst i x" using shutting_stable u 2(1) by blast+
      have "has_read snd tok x" using consistent_reads(2) [of x] x 2(2,3) by (auto simp: shutting_def)
      then have v: "shutting 0 v" "has_read fst i v" "has_read snd tok v" using x 2(2-) shutting_stable by blast+
      show ?case
      proof (rule stopping.rg_call, rule wpI, simp only: run_set_field prod.inject, elim conjE, goal_cases)
        case (1 x a y)
        have "shutting 0 x" "has_read fst i x" "has_read snd tok x" using shutting_stable v 1(1) by blast+
        from step_deregister [OF this] show ?case using shutting_stable(1) 1(3) by blast
      qed
    qed (simp add: beating.refl)
  qed (simp add: beating.refl)
qed

text \<open>The first registration, which runs alone.\<close>

definition starting :: "Config \<Rightarrow> string \<Rightarrow> client \<Rightarrow> bool" where
  "starting cfg base s \<longleftrightarrow> \<not> cl_cancelled s \<and> heard (cl_calls s) = ([], True) \<and> faithful ([], True) (cl_calls s) \<and>
     deregistrations (cl_calls s) = 0 \<and> set (cl_calls s) \<subseteq> range (CallRegister base (cf_api_key cfg))"

definition first_registered :: "Config \<Rightarrow> string \<Rightarrow> register_result \<Rightarrow> client \<Rightarrow> bool" where
  "first_registered cfg base res s \<longleftrightarrow> faithful ([], True) (cl_calls s) \<and> deregistrations (cl_calls s) = 0 \<and>
     set (cl_calls s) \<subseteq> range (CallRegister base (cf_api_key cfg)) \<and>
     (\<forall>i tok. res = Ok i tok \<longrightarrow> heard (cl_calls s) = ([(i, tok)], True) \<and> cl_id s = i \<and> cl_token s = tok)"

lemma alone_register:
  "starting cfg base s \<Longrightarrow> run_state (alone (register_t cfg base attempts)) s = (res, s') \<Longrightarrow>
     res = snd (register_loop b attempts) \<and> first_registered cfg base res s'"
proof (induction attempts arbitrary: s b)
  case Nil
  then show ?case by (auto simp: starting_def first_registered_def)
next
  case (Cons a rest)
  obtain r cancelled where a: "a = (r, cancelled)" by (cases a)
  let ?s = "log_call (CallRegister base (cf_api_key cfg) r) s"
  have live: "\<not> cl_cancelled s" using Cons.prems(1) by (simp add: starting_def)
  have logged: "faithful ([], True) (cl_calls ?s)" "deregistrations (cl_calls ?s) = 0"
    "set (cl_calls ?s) \<subseteq> range (CallRegister base (cf_api_key cfg))"
    using Cons.prems(1) by (auto simp: starting_def faithful_call carries_identity_def deregistrations_snoc)
  have again: "starting cfg base ?s" if "\<And>i tok. r \<noteq> Registered i tok"
    using that logged Cons.prems(1) by (cases r) (auto simp: starting_def heard_snoc)
  note run = Cons.prems(2) [unfolded a register_t.simps]
  show ?case
  proof (cases r)
    case (Registered i tok)
    have "heard (cl_calls ?s) = ([(i, tok)], True)" using Cons.prems(1) by (simp add: starting_def heard_snoc Registered)
    then show ?thesis using run live logged
      by (auto simp: a Registered alone_simps post_register_def Let_def first_registered_def)
  next
    case Garbled
    then show ?thesis using run live logged
      by (auto simp: a alone_simps post_register_def Let_def first_registered_def)
  next
    case NoReply
    then have neq: "\<And>i tok. r \<noteq> Registered i tok" by simp
    show ?thesis
    proof (cases cancelled)
      case True
      then show ?thesis using run live logged
        by (auto simp: a NoReply alone_simps post_register_def Let_def context_done_def first_registered_def)
    next
      case False
      then have "run_state (alone (register_t cfg base rest)) ?s = (res, s')"
        using run live by (simp add: NoReply alone_simps post_register_def Let_def)
      note ih = Cons.IH [OF again [OF neq] this, of "next_backoff b"]
      have "snd (register_loop b (a # rest)) = snd (register_loop (next_backoff b) rest)"
        using False by (simp add: a NoReply split: prod.split)
      then show ?thesis using ih by argo
    qed
  next
    case (Rejected st)
    then have neq: "\<And>i tok. r \<noteq> Registered i tok" by simp
    show ?thesis
    proof (cases cancelled)
      case True
      then show ?thesis using run live logged
        by (auto simp: a Rejected alone_simps post_register_def Let_def context_done_def first_registered_def)
    next
      case False
      then have "run_state (alone (register_t cfg base rest)) ?s = (res, s')"
        using run live by (simp add: Rejected alone_simps post_register_def Let_def)
      note ih = Cons.IH [OF again [OF neq] this, of "next_backoff b"]
      have "snd (register_loop b (a # rest)) = snd (register_loop (next_backoff b) rest)"
        using False by (simp add: a Rejected split: prod.split)
      then show ?thesis using ih by argo
    qed
  qed
qed

text \<open>Registrations advertise one URL with the configured key.\<close>

definition advertises :: "Config \<Rightarrow> string \<Rightarrow> client \<Rightarrow> client \<Rightarrow> bool" where
  "advertises cfg base s s' \<longleftrightarrow>
     (set (cl_calls s) \<subseteq> range (CallRegister base (cf_api_key cfg)) \<union> {c. \<not> is_CallRegister c} \<longrightarrow>
      set (cl_calls s') \<subseteq> range (CallRegister base (cf_api_key cfg)) \<union> {c. \<not> is_CallRegister c})"

interpretation advertising: step_preorder "advertises cfg base" for cfg base
  by unfold_locales (auto simp: advertises_def)

lemma obeys_steps:
  "obeys (advertises cfg base) (call (post_register cfg base r))" "obeys (advertises cfg base) (call (read_field f))"
  "obeys (advertises cfg base) (call (post_heartbeat i tok b))" "obeys (advertises cfg base) (call context_done)"
  "obeys (advertises cfg base) (call (set_field (cl_id_update g)))"
  "obeys (advertises cfg base) (call (set_field (cl_token_update g)))"
  "obeys (advertises cfg base) (call (set_field (log_call (CallDeregister i tok))))"
  by (rule obeys_call; auto simp: guarantees_def advertises_def post_register_def post_heartbeat_def context_done_def Let_def)+

lemma obeys_register: "obeys (advertises cfg base) (register_t cfg base attempts)"
  by (induction cfg base attempts rule: register_t.induct)
    (auto intro!: obeys_then obeys_steps split: register_reply.split)

lemma obeys_goroutines:
  "obeys (advertises cfg base) (heartbeat_t cfg base missed beats)" "obeys (advertises cfg base) shutdown_t"
proof -
  show "obeys (advertises cfg base) (heartbeat_t cfg base missed beats)"
    by (induction beats arbitrary: missed)
      (auto intro!: obeys_then obeys_steps obeys_register simp: sendHeartbeat_t_def split: prod.split)
  show "obeys (advertises cfg base) shutdown_t"
    by (simp add: shutdown_t_def deregister_t_def obeys_then obeys_steps)
qed

text \<open>The goroutines from the end of the first registration, under any schedule.\<close>

lemma goroutines:
  assumes "first_registered cfg base (Ok i tok) s"
    and "pool_step\<^sup>*\<^sup>* ([heartbeat_t cfg base 0 beats, shutdown_t], s) (ts, s')"
  shows "consistent s' \<and> (list_all (\<lambda>t. result_of t \<noteq> None) ts \<longrightarrow> deregistrations (cl_calls s') = 1) \<and>
    {c \<in> set (cl_calls s'). is_CallRegister c} \<subseteq> range (CallRegister base (cf_api_key cfg))"
proof -
  let ?ts = "[heartbeat_t cfg base 0 beats, shutdown_t]"
  have "consistent s" "current s" "shutting 0 s"
    using assms(1) by (simp_all add: first_registered_def consistent_def current_def shutting_def recent_ids_def)
  let ?R = "\<lambda>i :: nat. if i = 0 then beside_heartbeat else beside_shutdown"
  let ?G = "\<lambda>i :: nat. if i = 0 then beside_shutdown else beside_heartbeat"
  let ?Q = "\<lambda>i :: nat. if i = 0 then (\<lambda>_. current) else (\<lambda>_. shutting 1)"
  let ?K = "\<lambda>s s'. consistent s \<longrightarrow> consistent s'"
  have "?K s s' \<and> length ts = length ?ts \<and> (\<forall>i < length ?ts. rg (?R i) (?G i) (?Q i) (ts ! i) s')"
  proof (rule pool_rg [OF _ _ _ _ _ assms(2)])
    show "step_preorder (?R i)" for i by (simp add: beating.step_preorder_axioms stopping.step_preorder_axioms)
    show "step_preorder ?K" by unfold_locales auto
    show "?G i v v' \<Longrightarrow> ?K v v'" for i v v' by (auto simp: beside_shutdown_def beside_heartbeat_def split: if_splits)
    show "?G i v v' \<Longrightarrow> ?R j v v'" if "i < length ?ts" "j < length ?ts" "i \<noteq> j" for i j v v'
      using that by (auto split: if_splits)
    show "rg (?R i) (?G i) (?Q i) (?ts ! i) s" if "i < length ?ts" for i
      using that rg_heartbeat [OF \<open>current s\<close>] rg_shutdown [OF \<open>shutting 0 s\<close>] by (auto simp: less_Suc_eq)
  qed
  then have res: "consistent s'" "length ts = 2" "rg beside_shutdown beside_heartbeat (\<lambda>_. shutting 1) (ts ! 1) s'"
    using \<open>consistent s\<close> by auto
  have "deregistrations (cl_calls s') = 1" if "list_all (\<lambda>t. result_of t \<noteq> None) ts"
  proof -
    have "result_of (ts ! 1) \<noteq> None" using that res(2) by (simp add: list_all_length)
    then obtain a where "result_of (ts ! 1) = Some a" by blast
    from rg_result_of [OF stopping.step_preorder_axioms res(3) this] show ?thesis by (simp add: shutting_def)
  qed
  moreover have "advertises cfg base s s'"
    by (rule pool_obeys [OF advertising.step_preorder_axioms _ assms(2)]) (auto intro: obeys_goroutines)
  then have "{c \<in> set (cl_calls s'). is_CallRegister c} \<subseteq> range (CallRegister base (cf_api_key cfg))"
    using assms(1) by (auto simp: advertises_def first_registered_def)
  ultimately show ?thesis using res(1) by blast
qed

text \<open>C36. The identity the plugin presents, whatever Core answers, whenever the process is stopped and however
  the heartbeat and the shutdown interleave: every heartbeat carries the latest identity the plugin
  was given; a deregistration does too if that identity was the first or a heartbeat was answered
  since it was given, and otherwise its id and its token are each that of the latest identity or of
  the one before it; all registrations advertise one base URL with the configured key. A run whose
  first registration failed never deregisters, one that succeeded deregisters at most once, and
  exactly once by the time \<open>Run\<close> returns.\<close>

theorem identity_in_use:
  "let r = Run cfg p listening attempts beats ended sched in
     faithful ([], True) (run_calls r) \<and>
     (\<exists>base. {c \<in> set (run_calls r). is_CallRegister c} \<subseteq> range (CallRegister base (cf_api_key cfg))) \<and>
     deregistrations (run_calls r) \<in>
       (if listening = None \<or> (\<nexists>i tok. snd (register_core attempts) = Ok i tok) then {0}
        else if run_end r = None then {0, 1} else {1})"
proof (cases listening)
  case None
  then show ?thesis by (simp add: Run_def Let_def deregistrations_def)
next
  case (Some addr)
  define base where "base = (if cf_plugin_base_url cfg = [] then ''http://'' @ addr else cf_plugin_base_url cfg)"
  obtain res s where run: "run_state (alone (register_t cfg base attempts)) client0 = (res, s)" by fastforce
  have "starting cfg base client0" by (simp add: starting_def client0_def heard_def deregistrations_def)
  note registered = alone_register [OF this run, of 1]
  have first: "first_registered cfg base res s" by (rule conjunct2 [OF registered])
  have res: "snd (register_core attempts) = res" unfolding register_core_def by (rule conjunct1 [OF registered, symmetric])
  note Run = Run_def Let_def Some option.case base_def [symmetric] run prod.case
  show ?thesis
  proof (cases "\<exists>i tok. res = Ok i tok")
    case True
    then obtain i tok where ok: "res = Ok i tok" by blast
    obtain ts s' where sched: "schedule sched ([heartbeat_t cfg base 0 beats, shutdown_t], s) = (ts, s')" by fastforce
    have "pool_step\<^sup>*\<^sup>* ([heartbeat_t cfg base 0 beats, shutdown_t], s) (ts, s')"
      using schedule_steps [of "([heartbeat_t cfg base 0 beats, shutdown_t], s)" sched] by (simp add: sched)
    note g = goroutines [OF first [unfolded ok] this]
    from g have "faithful ([], True) (cl_calls s')" "deregistrations (cl_calls s') \<le> 1" by (auto simp: consistent_def)
    then show ?thesis using g res by (auto simp: Run ok sched run_result.simps)
  next
    case False
    have "run_calls (Run cfg p listening attempts beats ended sched) = cl_calls s"
      using False by (cases res) (simp_all add: Run run_result.simps)
    then show ?thesis using first res False by (auto simp: first_registered_def)
  qed
qed

text \<open>A Core that was restarted and forgets the plugin at the first heartbeat.\<close>

definition restarted_core :: "nat list \<Rightarrow> run_result" where
  "restarted_core sched = Run \<lparr>cf_name = ''identity'', cf_version = ''1.0.0'', cf_core_url = [], cf_plugin_addr = [],
       cf_plugin_base_url = ''http://me'', cf_api_key = ''key''\<rparr> (new_plugin ''identity'' ''1.0.0'') (Some '':50051'')
     [(Registered ''p1'' ''k1'', False)] [(Some 404, [(Registered ''p2'' ''k2'', False)])] None sched"

lemma restarted_core_ends: "run_end (restarted_core [0, 0, 0, 0, 0, 1, 1, 1, 1, 0, 0]) = Some None"
  by code_simp

theorem identity_in_use_witness:
  "faithful ([], True) (run_calls (restarted_core [0, 0, 0, 0, 0, 1, 1, 1, 1, 0, 0])) \<and>
   deregistrations (run_calls (restarted_core [0, 0, 0, 0, 0, 1, 1, 1, 1, 0, 0])) = 1"
proof -
  have "snd (register_core [(Registered ''p1'' ''k1'', False)]) = Ok ''p1'' ''k1''" by code_simp
  then have once: "(if Some '':50051'' = None \<or> (\<nexists>i tok. snd (register_core [(Registered ''p1'' ''k1'', False)]) = Ok i tok) then {0}
      else if run_end (restarted_core [0, 0, 0, 0, 0, 1, 1, 1, 1, 0, 0]) = None then {0, 1} else {1}) = {1 :: nat}"
    unfolding restarted_core_ends by simp
  have "faithful ([], True) (run_calls (restarted_core sched)) \<and>
      deregistrations (run_calls (restarted_core sched)) \<in>
        (if Some '':50051'' = None \<or> (\<nexists>i tok. snd (register_core [(Registered ''p1'' ''k1'', False)]) = Ok i tok) then {0}
         else if run_end (restarted_core sched) = None then {0, 1} else {1})" for sched
    unfolding restarted_core_def by (intro conjI; rule identity_in_use [unfolded Let_def, THEN conjunct1]
        identity_in_use [unfolded Let_def, THEN conjunct2, THEN conjunct2])
  from this [of "[0, 0, 0, 0, 0, 1, 1, 1, 1, 0, 0]"] show ?thesis unfolding once by (simp only: singleton_iff)
qed

text \<open>What the missing lock allows: the process is stopped while the answer to a new registration is being
  stored, and Core is told to forget an identity it no longer has, or one it never gave.\<close>

theorem deregistration_may_be_stale:
  "last (run_calls (restarted_core [0, 0, 0, 0, 1, 1, 1, 1])) = CallDeregister ''p1'' ''k1'' \<and>
   last (run_calls (restarted_core [0, 0, 0, 0, 0, 1, 1, 1, 1])) = CallDeregister ''p2'' ''k1'' \<and>
   last (run_calls (restarted_core [0, 0, 0, 0, 0, 0, 1, 1, 1, 1])) = CallDeregister ''p2'' ''k2''"
  by code_simp

end
