(* ===== verification/Startup.thy ===== *)
theory Startup
  imports Platform Lifecycle
begin

text \<open>
  \<open>src/cmd/identity/main.go\<close>: what the process does before it serves. It migrates the shared tables and
  the schema of every tenant, seeds the built-in roles, grants the configured platform admins
  and wires the plugin. The environment variables are the argument \<open>getenv\<close>; \<open>log.Fatalf\<close> is an
  error. \<open>sql.Open\<close> fails only for a driver that is not linked in. The model has the tables of
  one version of the schema, so migrating a table that exists changes nothing.
\<close>

section \<open>Start-up\<close>

definition envOr :: "(string \<Rightarrow> string) \<Rightarrow> string \<Rightarrow> string \<Rightarrow> string" where
  "envOr getenv key def = (let v = getenv key in if v \<noteq> [] then v else def)"

text \<open>\<open>schema.NewMigrate\<close>, then \<open>Create\<close> of every table but \<open>user_profiles\<close>.\<close>

definition migrateSharedSchema :: "env \<Rightarrow> (world, error + unit) state" where
  "migrateSharedSchema E = attempt (db_call E) id (\<lambda>_. attempt (db_call E) id ok)"

text \<open>A schema that cannot be migrated is logged and skipped.\<close>

primrec migrate_tenants :: "env \<Rightarrow> tenant list \<Rightarrow> (world, unit) state" where
  "migrate_tenants E [] = State_Monad.return ()"
| "migrate_tenants E (t # ts) =
     (if t_schema_name t = [] then migrate_tenants E ts
      else do { _ \<leftarrow> MigrateTenantSchema E (t_schema_name t); migrate_tenants E ts })"

definition bootstrap_admins ::
  "(string \<Rightarrow> string) \<Rightarrow> (string \<Rightarrow> string) \<Rightarrow> env \<Rightarrow> string \<Rightarrow> (world, error + unit) state" where
  "bootstrap_admins utrim ulower E csv =
     (if csv = [] then ok ()
      else do {
        (granted, err) \<leftarrow> SyncPlatformAdminsFromEnv E (ParsePlatformAdminEmails utrim ulower csv);
        (case err of Some e \<Rightarrow> fail (ErrWrap ''bootstrap platform admins'' e) | None \<Rightarrow> ok ()) })"

record process =
  pr_config :: Config
  pr_plugin :: Plugin
  pr_plugin_key :: string
  pr_google_client_id :: string
  pr_verifier :: "GoogleVerifier option"
  pr_dsn :: string

definition wire :: "(string \<Rightarrow> string) \<Rightarrow> (string \<Rightarrow> string) \<Rightarrow> process" where
  "wire utrim getenv =
     (let ids = ParseGoogleClientIDs utrim (getenv ''GOOGLE_CLIENT_IDS'');
          cfg = \<lparr>cf_name = ''identity'', cf_version = ''1.0.0'',
                 cf_core_url = envOr getenv ''CORE_URL'' ''http://localhost:8080'',
                 cf_plugin_addr = envOr getenv ''PLUGIN_ADDR'' '':50051'',
                 cf_plugin_base_url = envOr getenv ''PLUGIN_BASE_URL'' [], cf_api_key = getenv ''PLUGIN_API_KEY''\<rparr>
      in \<lparr>pr_config = cfg, pr_plugin = registerRoutes (new_plugin (cf_name cfg) (cf_version cfg)),
          pr_plugin_key = getenv ''PLUGIN_API_KEY'', pr_google_client_id = (case ids of [] \<Rightarrow> [] | i # _ \<Rightarrow> i),
          pr_verifier = (if ids = [] then None else NewGoogleVerifier ids), pr_dsn = getenv ''DATABASE_URL''\<rparr>)"

text \<open>The part of \<open>main\<close> that works on the database.\<close>

definition prepare ::
  "(string \<Rightarrow> string) \<Rightarrow> (string \<Rightarrow> string) \<Rightarrow> env \<Rightarrow> (string \<Rightarrow> string) \<Rightarrow> (world, error + unit) state" where
  "prepare utrim ulower E getenv =
     attempt (migrateSharedSchema E) (ErrWrap ''ent schema create'') (\<lambda>_. do {
       _ \<leftarrow> handle (ent_all E tenants (\<lambda>_. True)) (\<lambda>_. State_Monad.return ()) (migrate_tenants E);
       attempt (SeedSystemRoles E) (ErrWrap ''seed system roles'') (\<lambda>_.
         bootstrap_admins utrim ulower E (getenv ''PLATFORM_ADMIN_EMAILS'')) })"

definition startup ::
  "(string \<Rightarrow> string) \<Rightarrow> (string \<Rightarrow> string) \<Rightarrow> env \<Rightarrow> (string \<Rightarrow> string) \<Rightarrow> (world, error + process) state" where
  "startup utrim ulower E getenv =
     (if getenv ''DATABASE_URL'' = [] then fail (ErrText ''DATABASE_URL is required'')
      else attempt (prepare utrim ulower E getenv) id (\<lambda>_. ok (wire utrim getenv)))"

section \<open>Tenant schemas\<close>

text \<open>A migration adds the table of profiles where it is missing and nothing else.\<close>

definition grown :: "(string \<rightharpoonup> tenant_schema) \<Rightarrow> (string \<rightharpoonup> tenant_schema) \<Rightarrow> bool" where
  "grown ss ss' \<longleftrightarrow> (\<forall>s. ss' s = ss s \<or>
     (\<exists>sc. ss s = Some sc \<and> s_profiles sc = None \<and> ss' s = Some (sc\<lparr>s_profiles := Some []\<rparr>)))"

definition ready :: "(string \<rightharpoonup> tenant_schema) \<Rightarrow> string \<Rightarrow> bool" where
  "ready ss s \<longleftrightarrow> (\<forall>sc. ss s = Some sc \<longrightarrow> s_profiles sc \<noteq> None)"

lemma grown_refl [simp]: "grown ss ss"
  by (simp add: grown_def)

lemma grown_ready: "grown ss ss' \<Longrightarrow> ready ss s \<Longrightarrow> ready ss' s \<and> ss' s = ss s"
  unfolding grown_def ready_def by (metis option.inject)

lemma grown_trans: "grown ss ss' \<Longrightarrow> grown ss' ss'' \<Longrightarrow> grown ss ss''"
  unfolding grown_def by (metis (no_types, lifting) option.distinct(1) option.inject tenant_schema.select_convs(1)
      tenant_schema.surjective tenant_schema.update_convs(1))

lemma reads_Connect: "guarantees same_tables (Connect E s)"
  unfolding Connect_def db_call_def by (intro reads.attempt reads.ok; simp add: guarantees_def run_db_step)

lemma Connect_works:
  assumes "no_faults E"
  shows "wp (Connect E s) (\<lambda>r w'. r = Inr () \<and> (\<exists>n. w' = w\<lparr>tick := n\<rparr>)) w"
  using assms by (auto simp: Connect_def db_call_def wp_def run_db_step no_faults_def)

definition migrated_to :: "env \<Rightarrow> string list \<Rightarrow> world \<Rightarrow> world \<Rightarrow> bool" where
  "migrated_to E names w w' \<longleftrightarrow> (\<exists>ss n. w' = w\<lparr>schemas := ss, tick := n\<rparr> \<and> grown (schemas w) ss \<and>
     (no_faults E \<longrightarrow> (\<forall>s \<in> set names. ready ss s)) \<and> ((\<forall>s \<in> set names. ready (schemas w) s) \<longrightarrow> ss = schemas w))"

lemma MigrateTenantSchema_migrates: "wp (MigrateTenantSchema E s) (\<lambda>_. migrated_to E [s] w) w"
proof -
  have quiet: "\<not> no_faults E \<or> ready (schemas w) s \<Longrightarrow> migrated_to E [s] w (w\<lparr>tick := n\<rparr>)" for n
    unfolding migrated_to_def by (intro exI [of _ "schemas w"] exI [of _ n]) auto
  have created: "migrated_to E [s] w (w\<lparr>tick := n, schemas := (schemas w)(s \<mapsto> sc\<lparr>s_profiles := Some []\<rparr>)\<rparr>)"
    if "schemas w s = Some sc" "s_profiles sc = None" for sc n
    unfolding migrated_to_def using that
    by (intro exI [of _ "(schemas w)(s \<mapsto> sc\<lparr>s_profiles := Some []\<rparr>)"] exI [of _ n]) (simp add: grown_def ready_def)
  have "wp (Connect E s) (\<lambda>r w'. (r = Inr () \<or> \<not> no_faults E) \<and> (\<exists>n. w' = w\<lparr>tick := n\<rparr>)) w"
  proof (cases "no_faults E")
    case True
    then show ?thesis by (rule wp_mono [OF Connect_works]) auto
  next
    case False
    then show ?thesis by (intro wp_reads [OF reads_Connect]) auto
  qed
  then show ?thesis unfolding MigrateTenantSchema_def wp_attempt
  proof (rule wp_mono, goal_cases)
    case (1 r v)
    then obtain n where v: "v = w\<lparr>tick := n\<rparr>" and r: "r = Inr () \<or> \<not> no_faults E" by blast
    show ?case
    proof (cases r)
      case (Inl e)
      then show ?thesis using r quiet by (simp add: v)
    next
      case (Inr u)
      show ?thesis unfolding Inr sum.case v
      proof (rule wpI, goal_cases)
        case (1 r v')
        then show ?case
          by (auto simp: run_db_step no_faults_def ready_def intro!: quiet created split: if_splits option.splits)
      qed
    qed
  qed
qed

lemma migrated_to_trans:
  "migrated_to E ss1 w v \<Longrightarrow> migrated_to E ss2 v w' \<Longrightarrow> migrated_to E (ss1 @ ss2) w w'"
  unfolding migrated_to_def
proof (elim exE conjE, goal_cases)
  case (1 sa sb n m)
  then have "grown (schemas w) sb" "grown sa sb" using grown_trans [of "schemas w" sa sb] by simp_all
  moreover have "\<forall>s \<in> set ss1. ready sa s \<longrightarrow> ready sb s" using grown_ready \<open>grown sa sb\<close> by blast
  ultimately show ?case using 1 by (intro exI [of _ sb] exI [of _ m]) auto
qed

lemma migrate_tenants_migrates:
  "wp (migrate_tenants E ts) (\<lambda>_. migrated_to E (filter (\<lambda>s. s \<noteq> []) (map t_schema_name ts)) w) w"
proof (induction ts arbitrary: w)
  case Nil
  then show ?case by (auto simp: migrated_to_def intro!: exI [of _ "schemas w"] exI [of _ "tick w"])
next
  case (Cons t ts)
  show ?case
  proof (cases "t_schema_name t = []")
    case True
    then show ?thesis using Cons.IH by simp
  next
    case False
    then have names: "filter (\<lambda>s. s \<noteq> []) (map t_schema_name (t # ts)) =
        [t_schema_name t] @ filter (\<lambda>s. s \<noteq> []) (map t_schema_name ts)" by simp
    show ?thesis unfolding migrate_tenants.simps if_not_P [OF False] wp_bind names
      by (rule wp_mono [OF MigrateTenantSchema_migrates], rule wp_mono [OF Cons.IH]) (rule migrated_to_trans)
  qed
qed

section \<open>Platform admins\<close>

definition granted_to :: "string set \<Rightarrow> user list \<Rightarrow> user list" where
  "granted_to F us = map (\<lambda>u. if u_email u \<in> F then u\<lparr>u_is_platform_admin := True\<rparr> else u) us"

lemma granted_to_empty: "granted_to {} us = us"
  by (simp add: granted_to_def)

lemma granted_to_again: "granted_to F (granted_to G us) = granted_to (F \<union> G) us"
  by (auto simp: granted_to_def)

lemma granted_to_one:
  "map (\<lambda>u. if u_email u = e \<and> \<not> u_is_platform_admin u then u\<lparr>u_is_platform_admin := True\<rparr> else u) us = granted_to {e} us"
  by (auto simp: granted_to_def)

lemma wp_grant_all:
  "wp (grant_all E emails n) (\<lambda>(_, err) w'. \<exists>F k. w' = w\<lparr>users := granted_to F (users w), tick := k\<rparr> \<and>
     F \<subseteq> set emails \<and> (err = None \<longrightarrow> F = set emails)) w"
proof (induction emails arbitrary: n w)
  case Nil
  then show ?case by (auto simp: granted_to_empty intro!: exI [of _ "tick w"])
next
  case (Cons e es)
  show ?case unfolding grant_all.simps wp_handle
  proof (rule wp_ent_update, goal_cases)
    case (1 k)
    then show ?case by (auto simp: granted_to_empty intro!: exI [of _ "{}"] exI [of _ k])
  next
    case (2 k)
    let ?w = "w\<lparr>users := granted_to {e} (users w), tick := k\<rparr>"
    have put: "users_update (map (\<lambda>u. if u_email u = e \<and> \<not> u_is_platform_admin u then u\<lparr>u_is_platform_admin := True\<rparr> else u))
        (w\<lparr>tick := k\<rparr>) = ?w" by (simp add: granted_to_one)
    show ?case unfolding sum.case put
    proof (rule wp_mono [OF Cons.IH], clarify)
      fix x err F j
      assume F: "F \<subseteq> set es" "err = None \<longrightarrow> F = set es"
      show "\<exists>G k. ?w\<lparr>users := granted_to F (users ?w), tick := j\<rparr> = w\<lparr>users := granted_to G (users w), tick := k\<rparr> \<and>
          G \<subseteq> set (e # es) \<and> (err = None \<longrightarrow> G = set (e # es))"
        using F by (intro exI [of _ "F \<union> {e}"] exI [of _ j]) (auto simp: granted_to_again)
    qed
  qed
qed

section \<open>The start-up as a whole\<close>

text \<open>Seeding touches the roles and their permissions only.\<close>

definition only_roles :: "world \<Rightarrow> world \<Rightarrow> bool" where
  "only_roles w w' \<longleftrightarrow> users w' = users w \<and> tenants w' = tenants w \<and> branches w' = branches w \<and>
     tenant_users w' = tenant_users w \<and> device_tokens w' = device_tokens w \<and> plugin_installs w' = plugin_installs w \<and>
     histories w' = histories w \<and> schemas w' = schemas w"

interpretation seeding: step_preorder only_roles
  by unfold_locales (simp_all add: only_roles_def)

lemma seeding_keeps: "guarantees only_roles (SeedSystemRoles E)"
  unfolding SeedSystemRoles_def seed_role_def syncPermissions_def sync_add_def sync_remove_def create_role_def
    create_role_permission_def attempt_def short_id_def
  by (intro seeding.for_each seeding.handle seeding.bind seeding.ok seeding.fail seeding.return guarantees_if guarantees_let
      guarantees_case_option guarantees_reads guarantees_ent_create guarantees_ent_delete guarantees_ent_delete_one)
    (simp_all add: only_roles_def)

text \<open>In those tables only built-in roles are added and only permissions of built-in roles change.\<close>

definition built_in :: "role \<Rightarrow> bool" where
  "built_in r \<longleftrightarrow> r_tenant_id r = [] \<and> r_slug r \<in> set (map sr_slug SystemRoles)"

definition seed_frame :: "world \<Rightarrow> world \<Rightarrow> bool" where
  "seed_frame w w' \<longleftrightarrow>
     (\<exists>new. roles w' = roles w @ new \<and> (\<forall>r \<in> set new. r_tenant_id r = [] \<and> r_is_system r \<and>
        (\<exists>sr \<in> set SystemRoles. r_slug r = sr_slug sr \<and> r_name r = sr_name sr))) \<and>
     (\<forall>i. i \<notin> r_id ` {r \<in> set (roles w'). built_in r} \<longrightarrow> role_perms w' i = role_perms w i)"

lemma seed_frame_refl [simp]: "seed_frame w (w\<lparr>tick := n\<rparr>)"
  by (simp add: seed_frame_def)

lemma seed_frame_trans:
  assumes "seed_frame u v" and "seed_frame v w"
  shows "seed_frame u w"
proof -
  let ?ok = "\<lambda>r. r_tenant_id r = [] \<and> r_is_system r \<and> (\<exists>sr \<in> set SystemRoles. r_slug r = sr_slug sr \<and> r_name r = sr_name sr)"
  obtain n1 where 1: "roles v = roles u @ n1" "\<forall>r \<in> set n1. ?ok r" using assms(1) unfolding seed_frame_def by blast
  obtain n2 where 2: "roles w = roles v @ n2" "\<forall>r \<in> set n2. ?ok r" using assms(2) unfolding seed_frame_def by blast
  have perms: "role_perms w i = role_perms u i" if "i \<notin> r_id ` {r \<in> set (roles w). built_in r}" for i
  proof -
    have "i \<notin> r_id ` {r \<in> set (roles v). built_in r}" using that 2(1) by auto
    then show ?thesis using assms that unfolding seed_frame_def by metis
  qed
  have "roles w = roles u @ (n1 @ n2)" "\<forall>r \<in> set (n1 @ n2). ?ok r" using 1 2 by auto
  then show ?thesis unfolding seed_frame_def using perms by blast
qed

lemma sync_frame:
  assumes "rp_wf w" and r: "r \<in> set (roles w)" "built_in r"
  shows "wp (syncPermissions E (r_id r) want) (\<lambda>_ w'. seed_frame w w') w"
proof (rule wp_mono [OF wp_syncPermissions [OF assms(1)]], elim conjE exE)
  fix a w' rps n assume w': "w' = w\<lparr>role_permissions := rps, tick := n\<rparr>"
    and other: "\<forall>other. other \<noteq> r_id r \<longrightarrow> role_perms w' other = role_perms w other"
  have "role_perms w' i = role_perms w i" if "i \<notin> r_id ` {r \<in> set (roles w'). built_in r}" for i
    using that other r by (auto simp: w')
  then show "seed_frame w w'" unfolding seed_frame_def by (simp add: w')
qed

lemma seed_role_frame:
  assumes wf: "roles_wf w" "rp_wf w" and sr: "sr \<in> set SystemRoles"
  shows "wp (seed_role E sr ids) (\<lambda>_ w'. seed_frame w w') w"
proof -
  have sync: "wp (attempt (syncPermissions E (r_id r) (sr_permissions sr)) id (\<lambda>_. ok (ids(sr_slug sr \<mapsto> r_id r))))
      (\<lambda>_. seed_frame w) v"
    if "seed_frame w v" "rp_wf v" "r \<in> set (roles v)" "r_tenant_id r = []" "r_slug r = sr_slug sr" for v r
  proof -
    have "built_in r" using sr that by (auto simp: built_in_def)
    then show ?thesis unfolding wp_attempt
      by (intro wp_mono [OF sync_frame [OF that(2,3)]]) (auto split: sum.splits intro: seed_frame_trans [OF that(1)])
  qed
  show ?thesis unfolding seed_role_def wp_handle wp_attempt
  proof (rule wp_ent_only, goal_cases)
    case (3 n)
    show ?case
    proof (simp, rule wp_short_id, unfold wp_attempt, rule wp_create_role, goal_cases)
      case (2 i m k r)
      let ?v = "w\<lparr>roles := roles w @ [r], tick := k\<rparr>"
      have "seed_frame w ?v" using 2 sr by (auto simp: seed_frame_def role_perms_def)
      then show ?case using sync [of ?v r] 2 wf(2) by (simp add: rp_wf_def keyed_def)
    qed simp
  next
    case (5 n r)
    then have "r \<in> set (roles w)" "r_tenant_id r = []" "r_slug r = sr_slug sr"
      by (auto dest!: arg_cong [of _ _ set])
    then show ?case using sync [of "w\<lparr>tick := n\<rparr>" r] wf(2) by simp
  qed simp_all
qed

lemma wp_conj: "wp m Q w \<Longrightarrow> wp m R w \<Longrightarrow> wp m (\<lambda>r v. Q r v \<and> R r v) w"
  by (simp add: wp_def case_prod_unfold)

lemma seeding_frame:
  assumes "roles_wf w" and "rp_wf w"
  shows "wp (SeedSystemRoles E) (\<lambda>_ w'. seed_frame w w') w"
  unfolding SeedSystemRoles_def
proof (rule wp_for_each [where I = "\<lambda>_ _ w'. seed_frame w w' \<and> roles_wf w' \<and> rp_wf w'"], goal_cases)
  case 1
  then show ?case using assms seed_frame_refl [of w "tick w"] by simp
next
  case (2 xs1 sr xs2 ids t)
  then have wf: "roles_wf t" "rp_wf t" and t: "seed_frame w t" by blast+
  have "sr \<in> set SystemRoles" unfolding 2(1) by simp
  from wp_conj [OF seed_role_frame [OF wf this] wp_seed_role [OF wf]]
  show ?case by (rule wp_mono) (auto simp: seed_step_def intro: seed_frame_trans [OF t] split: sum.splits)
qed simp

abbreviation tenant_schemas :: "world \<Rightarrow> string list" where
  "tenant_schemas w \<equiv> filter (\<lambda>s. s \<noteq> []) (map t_schema_name (tenants w))"

lemma migrated_to_cong: "set xs = set ys \<Longrightarrow> migrated_to E xs w v = migrated_to E ys w v"
  by (simp add: migrated_to_def)

lemma migrated_to_later: "migrated_to E xs (w\<lparr>tick := n\<rparr>) v \<Longrightarrow> migrated_to E xs w v"
  unfolding migrated_to_def by auto

lemma migrated_to_quiet: "\<not> no_faults E \<Longrightarrow> migrated_to E xs w (w\<lparr>tick := n\<rparr>)"
  unfolding migrated_to_def by (intro exI [of _ "schemas w"] exI [of _ n]) auto

lemma tenants_migrated:
  "wp (handle (ent_all E tenants (\<lambda>_. True)) (\<lambda>_. State_Monad.return ()) (migrate_tenants E))
     (\<lambda>_. migrated_to E (tenant_schemas w) w) w"
proof -
  have all: "wp (ent_all E tenants (\<lambda>_. True)) (\<lambda>r v. (\<exists>n. v = w\<lparr>tick := n\<rparr>) \<and>
      (case r of Inl _ \<Rightarrow> \<not> no_faults E | Inr ts \<Rightarrow> set ts = set (tenants w))) w"
    by (auto simp: wp_def run_ent_all no_faults_def)
  show ?thesis unfolding wp_handle
  proof (rule wp_mono [OF all], goal_cases)
    case (1 r v)
    then obtain n where v: "v = w\<lparr>tick := n\<rparr>" by blast
    show ?case
    proof (cases r)
      case (Inl e)
      then show ?thesis using 1 by (simp add: v migrated_to_quiet)
    next
      case (Inr ts)
      then have "set (filter (\<lambda>s. s \<noteq> []) (map t_schema_name ts)) = set (tenant_schemas w)" using 1 by auto
      note same = migrated_to_cong [OF this]
      show ?thesis unfolding Inr sum.case v
        by (rule wp_mono [OF migrate_tenants_migrates]) (use same migrated_to_later in blast)
    qed
  qed
qed

definition admins :: "(string \<Rightarrow> string) \<Rightarrow> (string \<Rightarrow> string) \<Rightarrow> (string \<Rightarrow> string) \<Rightarrow> string set" where
  "admins utrim ulower getenv = set (ParsePlatformAdminEmails utrim ulower (getenv ''PLATFORM_ADMIN_EMAILS''))"

lemma wp_bootstrap_admins:
  "wp (bootstrap_admins utrim ulower E (getenv ''PLATFORM_ADMIN_EMAILS''))
     (\<lambda>r w'. \<exists>F k. w' = w\<lparr>users := granted_to F (users w), tick := k\<rparr> \<and> F \<subseteq> admins utrim ulower getenv \<and>
        (r = Inr () \<longrightarrow> F = admins utrim ulower getenv)) w"
proof (cases "getenv ''PLATFORM_ADMIN_EMAILS'' = []")
  case True
  have "TrimSpace utrim [] = []" "ToLower ulower [] = []"
    by (simp_all add: TrimSpace_def ToLower_def trim_def trim_left_def trim_right_def)
  then have "admins utrim ulower getenv = {}" by (simp add: admins_def True ParsePlatformAdminEmails_def)
  then show ?thesis
    by (auto simp: bootstrap_admins_def True granted_to_empty intro!: exI [of _ "tick w"])
next
  case False
  show ?thesis unfolding bootstrap_admins_def if_not_P [OF False] SyncPlatformAdminsFromEnv_def wp_bind
  proof (rule wp_range_keys, goal_cases)
    case (1 keys n)
    then have keys: "set keys = admins utrim ulower getenv" unfolding admins_def by (rule mset_eq_setD)
    show ?case
      by (rule wp_mono [OF wp_grant_all]) (auto simp: keys split: option.splits)
  qed
qed

definition booted ::
  "(string \<Rightarrow> string) \<Rightarrow> (string \<Rightarrow> string) \<Rightarrow> env \<Rightarrow> (string \<Rightarrow> string) \<Rightarrow> world \<Rightarrow> world \<Rightarrow> bool" where
  "booted utrim ulower E getenv w w' \<longleftrightarrow>
     (\<exists>ids. \<forall>sr \<in> set SystemRoles. has_system_role w' ids sr) \<and>
     seed_frame w w' \<and> users w' = granted_to (admins utrim ulower getenv) (users w) \<and>
     grown (schemas w) (schemas w') \<and> (no_faults E \<longrightarrow> (\<forall>s \<in> set (tenant_schemas w). ready (schemas w') s)) \<and>
     tenants w' = tenants w \<and> branches w' = branches w \<and> tenant_users w' = tenant_users w \<and>
     device_tokens w' = device_tokens w \<and> plugin_installs w' = plugin_installs w \<and> histories w' = histories w"

lemma guarantees_only: "guarantees R m \<Longrightarrow> wp m Q w \<Longrightarrow> wp m (\<lambda>r v. Q r v \<and> R w v) w"
  by (simp add: guarantees_def wp_def case_prod_unfold)

lemma reads_migrateSharedSchema: "guarantees same_tables (migrateSharedSchema E)"
  unfolding migrateSharedSchema_def db_call_def
  by (intro reads.attempt reads.ok; simp add: guarantees_def run_db_step)

lemma wp_prepare:
  assumes "roles_wf w" and "rp_wf w"
  shows "wp (prepare utrim ulower E getenv) (\<lambda>r w'. r = Inr () \<longrightarrow>
    booted utrim ulower E getenv w w' \<and> roles_wf w' \<and> rp_wf w') w"
  unfolding prepare_def wp_attempt
proof (rule wp_reads [OF reads_migrateSharedSchema], goal_cases)
  case (1 r n)
  show ?case
  proof (cases r)
    case (Inr u)
    show ?thesis unfolding Inr sum.case wp_bind wp_attempt
    proof (rule wp_mono [OF tenants_migrated], goal_cases)
      case (1 r v)
      then obtain ss k where v: "v = w\<lparr>schemas := ss, tick := k\<rparr>" and grown: "grown (schemas w) ss"
        and ready: "no_faults E \<longrightarrow> (\<forall>s \<in> set (tenant_schemas w). ready ss s)" unfolding migrated_to_def by auto
      have wf: "roles_wf v" "rp_wf v" using assms by (simp_all add: v roles_wf_def rp_wf_def keyed_def)
      show ?case
      proof (rule wp_mono [OF guarantees_only [OF seeding_keeps wp_conj [OF seed_step_all [OF wf] seeding_frame [OF wf]]]], goal_cases)
        case (1 r x)
        show ?case
        proof (cases r)
          case (Inr ids)
          have x: "users x = users w" "tenants x = tenants w" "branches x = branches w" "tenant_users x = tenant_users w"
            "device_tokens x = device_tokens w" "plugin_installs x = plugin_installs w" "histories x = histories w"
            "schemas x = ss" using 1 by (simp_all add: only_roles_def v)
          have seeded: "roles_wf x" "rp_wf x" "\<forall>sr \<in> set SystemRoles. has_system_role x ids sr"
            "seed_frame w x"
            using 1 Inr by (simp_all add: v seed_frame_def role_perms_def)
          show ?thesis unfolding Inr sum.case
          proof (rule wp_mono [OF wp_bootstrap_admins], goal_cases)
            case (1 r w')
            show ?case
            proof (cases r)
              case (Inr u)
              then obtain k where w': "w' = x\<lparr>users := granted_to (admins utrim ulower getenv) (users x), tick := k\<rparr>"
                using 1 by auto
              have "roles_wf w'" "rp_wf w'" "\<And>sr. has_system_role w' ids sr = has_system_role x ids sr"
                "seed_frame w w' = seed_frame w x"
                using seeded(1,2) by (simp_all add: w' seed_frame_def has_system_role_def role_perms_def roles_wf_def rp_wf_def keyed_def)
              then show ?thesis using seeded(3,4) x grown ready unfolding Inr sum.case booted_def w' by auto
            qed simp
          qed
        qed simp
      qed
    qed
  qed simp
qed

lemma wp_startup:
  assumes "roles_wf w" and "rp_wf w"
  shows "wp (startup utrim ulower E getenv) (\<lambda>r w'. \<forall>p. r = Inr p \<longrightarrow>
    p = wire utrim getenv \<and> booted utrim ulower E getenv w w' \<and> roles_wf w' \<and> rp_wf w') w"
  by (cases "getenv ''DATABASE_URL'' = []")
    (auto simp: startup_def wp_attempt intro!: wp_mono [OF wp_prepare [OF assms]] split: sum.splits)

lemma client_ids_nonempty: "[] \<notin> set (ParseGoogleClientIDs utrim csv)"
proof -
  have "[] \<notin> set (foldl (\<lambda>ids part. let i = TrimSpace utrim part in if i \<noteq> [] then ids @ [i] else ids) ids parts)"
    if "[] \<notin> set ids" for ids parts
    using that by (induction parts arbitrary: ids) (auto simp: Let_def)
  then show ?thesis unfolding ParseGoogleClientIDs_def by simp
qed

lemma google_wired: "pr_verifier (wire utrim getenv) = None \<longleftrightarrow> pr_google_client_id (wire utrim getenv) = []"
  using client_ids_nonempty [of utrim "getenv ''GOOGLE_CLIENT_IDS''"]
  by (auto simp: wire_def Let_def NewGoogleVerifier_def split: list.splits)

section \<open>A second start\<close>

text \<open>A database on which a start-up has nothing left to do.\<close>

definition settled :: "(string \<Rightarrow> string) \<Rightarrow> (string \<Rightarrow> string) \<Rightarrow> (string \<Rightarrow> string) \<Rightarrow> world \<Rightarrow> bool" where
  "settled utrim ulower getenv w \<longleftrightarrow> (\<exists>ids. \<forall>sr \<in> set SystemRoles. has_system_role w ids sr) \<and> roles_wf w \<and> rp_wf w \<and>
     (\<forall>s \<in> set (tenant_schemas w). ready (schemas w) s) \<and>
     (\<forall>F \<subseteq> admins utrim ulower getenv. granted_to F (users w) = users w)"

lemma settled_tick [simp]: "settled utrim ulower getenv (w\<lparr>tick := n\<rparr>) = settled utrim ulower getenv w"
  by (simp add: settled_def has_system_role_def)

lemma same_tables_iff: "same_tables w v \<longleftrightarrow> (\<exists>n. v = w\<lparr>tick := n\<rparr>)"
  by (auto simp only: same_tables_def world.update_convs world.select_convs simp_thms) (metis same_tables_def same_tables_tick)

lemma settled_tenants:
  assumes "settled utrim ulower getenv w"
  shows "wp (handle (ent_all E tenants (\<lambda>_. True)) (\<lambda>_. State_Monad.return ()) (migrate_tenants E)) (\<lambda>_. same_tables w) w"
proof (rule wp_mono [OF tenants_migrated])
  fix r v assume "migrated_to E (tenant_schemas w) w v"
  then obtain n where "v = w\<lparr>schemas := schemas w, tick := n\<rparr>"
    using assms unfolding migrated_to_def settled_def by blast
  then show "same_tables w v" by (simp add: same_tables_def)
qed

lemma settled_seeding:
  assumes "settled utrim ulower getenv w"
  shows "wp (SeedSystemRoles E) (\<lambda>_. same_tables w) w"
  using assms seed_again unfolding settled_def same_tables_iff by blast

lemma settled_bootstrap:
  assumes "settled utrim ulower getenv w"
  shows "wp (bootstrap_admins utrim ulower E (getenv ''PLATFORM_ADMIN_EMAILS'')) (\<lambda>_. same_tables w) w"
proof (rule wp_mono [OF wp_bootstrap_admins], elim exE conjE)
  fix r v F n assume v: "v = w\<lparr>users := granted_to F (users w), tick := n\<rparr>" and "F \<subseteq> admins utrim ulower getenv"
  then have "granted_to F (users w) = users w" using assms unfolding settled_def by blast
  then show "same_tables w v" unfolding v same_tables_iff by (intro exI [of _ n]) simp
qed

lemma settled_prepare:
  assumes "settled utrim ulower getenv w"
  shows "wp (prepare utrim ulower E getenv) (\<lambda>_. same_tables w) w"
  unfolding prepare_def wp_attempt
proof (rule wp_reads [OF reads_migrateSharedSchema], goal_cases)
  case (1 r n)
  have later: "settled utrim ulower getenv v \<and> (\<forall>x. same_tables v x \<longrightarrow> same_tables w x)" if "same_tables w v" for v
    using that assms reads.trans [OF that] by (auto simp only: same_tables_iff settled_tick)
  have start: "same_tables w (w\<lparr>tick := n\<rparr>)" by (rule same_tables_tick)
  show ?case
  proof (cases r)
    case (Inr u)
    show ?thesis unfolding Inr sum.case wp_bind wp_attempt
    proof (rule wp_mono [OF settled_tenants], goal_cases)
      case (2 _ v)
      then have v: "same_tables w v" using later [OF start] by blast
      show ?case
      proof (rule wp_mono [OF settled_seeding], goal_cases)
        case (2 r x)
        then have x: "same_tables w x" using later [OF v] by blast
        have "wp (bootstrap_admins utrim ulower E (getenv ''PLATFORM_ADMIN_EMAILS'')) (\<lambda>_. same_tables w) x"
          by (rule wp_mono [OF settled_bootstrap]) (use later [OF x] in blast)+
        then show ?case using x by (cases r) simp_all
      qed (use later [OF v] in blast)
    qed (use later [OF start] in blast)
  qed (simp add: start)
qed

section \<open>Properties\<close>

text \<open>C24. A process that reaches \<open>Run\<close>, on a database whose roles and role permissions have unique keys: the
  built-in roles exist with exactly their permissions; the only new roles are built-in ones, and no
  other role gained or lost a permission; exactly the accounts whose stored email is one of the
  configured ones, trimmed and in lower case, were made platform admins; a tenant's schema is as
  it was or gained the empty table of profiles it lacked, and if no call to the database failed, every
  schema that a tenant names and that exists has that table (a schema whose migration fails is
  skipped); every other table is as it was. Google sign-in is on exactly when a client id is served
  to the apps.\<close>

theorem startup_prepares_the_database:
  assumes "roles_wf w" and "rp_wf w" and "run_state (startup utrim ulower E getenv) w = (Inr p, w')"
  shows "booted utrim ulower E getenv w w' \<and> (pr_verifier p = None \<longleftrightarrow> pr_google_client_id p = [])"
  using wpD [OF wp_startup [OF assms(1,2)] assms(3)] google_wired by blast

text \<open>C25. Restarting is harmless: once a start-up without database faults is through, starting again with the
  same configuration changes no table and no schema, whatever fails this time.\<close>

theorem restart_changes_nothing:
  assumes "roles_wf w" and "rp_wf w" and "no_faults E"
    and "run_state (startup utrim ulower E getenv) w = (Inr p, w')"
  shows "\<exists>n. snd (run_state (startup utrim ulower E' getenv) w') = w'\<lparr>tick := n\<rparr>"
proof -
  have "booted utrim ulower E getenv w w'" and wf: "roles_wf w'" "rp_wf w'"
    using wpD [OF wp_startup [OF assms(1,2)] assms(4)] by blast+
  then have "settled utrim ulower getenv w'"
    using assms(3) unfolding booted_def settled_def by (auto simp: granted_to_again Un_absorb1)
  then have "wp (startup utrim ulower E' getenv) (\<lambda>_. same_tables w') w'"
    using settled_prepare [of utrim ulower getenv w' E'] same_tables_tick [of w' "tick w'"]
    by (auto simp: startup_def wp_attempt elim!: wp_mono split: sum.splits)
  from wpD [OF this surjective_pairing] show ?thesis unfolding same_tables_iff .
qed

definition vars :: "string \<Rightarrow> string" where
  "vars key = (if key = ''DATABASE_URL'' then ''postgres://db'' else if key = ''PLATFORM_ADMIN_EMAILS'' then ''b@x.io, ''
     else if key = ''GOOGLE_CLIENT_IDS'' then ''web, app'' else [])"

lemma shop_boots: "isl (fst (run_state (startup id id env0 vars) shop)) = False"
proof -
  have "isl (fst (run_state (prepare id id env0 vars) shop)) = False" by code_simp
  moreover have "vars ''DATABASE_URL'' \<noteq> []" by (simp add: vars_def)
  ultimately show ?thesis
    by (cases "run_state (prepare id id env0 vars) shop"; cases "fst (run_state (prepare id id env0 vars) shop)")
      (simp_all add: startup_def)
qed

lemma shop_wf: "roles_wf shop" "rp_wf shop"
  by (simp_all add: roles_wf_def rp_wf_def keyed_def shop_def)

theorem startup_prepares_the_database_witness:
  "users (snd (run_state (startup id id env0 vars) shop)) = granted_to {''b@x.io''} (users shop) \<and>
   pr_verifier (wire id vars) \<noteq> None \<and> pr_google_client_id (wire id vars) = ''web''"
proof (intro conjI)
  from shop_boots obtain p where run: "run_state (startup id id env0 vars) shop = (Inr p, snd (run_state (startup id id env0 vars) shop))"
    by (metis prod.collapse sum.collapse(2))
  from startup_prepares_the_database [OF shop_wf run]
  have "users (snd (run_state (startup id id env0 vars) shop)) = granted_to (admins id id vars) (users shop)"
    unfolding booted_def by blast
  moreover have "ParsePlatformAdminEmails id id (vars ''PLATFORM_ADMIN_EMAILS'') = [''b@x.io'']" by code_simp
  ultimately show "users (snd (run_state (startup id id env0 vars) shop)) = granted_to {''b@x.io''} (users shop)"
    by (simp add: admins_def)
  have "ParseGoogleClientIDs id (vars ''GOOGLE_CLIENT_IDS'') = [''web'', ''app'']" by code_simp
  then show web: "pr_google_client_id (wire id vars) = ''web''" by (simp add: wire_def Let_def)
  show "pr_verifier (wire id vars) \<noteq> None" using web google_wired [of id vars] by simp
qed

theorem restart_changes_nothing_witness:
  "\<exists>n. snd (run_state (startup id id (env_faulty {2, 40}) vars) (snd (run_state (startup id id env0 vars) shop))) =
     (snd (run_state (startup id id env0 vars) shop))\<lparr>tick := n\<rparr>"
proof -
  from shop_boots obtain p where "run_state (startup id id env0 vars) shop = (Inr p, snd (run_state (startup id id env0 vars) shop))"
    by (metis prod.collapse sum.collapse(2))
  moreover have "no_faults env0" by (simp add: no_faults_def env0_def)
  ultimately show ?thesis using restart_changes_nothing [OF shop_wf] by blast
qed

end
