(* ===== verification/Wellformed.thy ===== *)
theory Wellformed
  imports Startup
begin

text \<open>
  The data the program stores is well formed. The columns are plain strings in the database: no
  constraint checks a status, a slug or a permission. Whatever the program writes is checked
  before, so that every row satisfies \<open>legal\<close>, from the seeding on and through every request, under
  every fault. The locale \<open>checked_table\<close> has the proof for one table. Restoring an uploaded
  dump is the one operation that can break it.
\<close>

section \<open>Legal rows\<close>

definition legal_tenant :: "tenant \<Rightarrow> bool" where
  "legal_tenant t \<longleftrightarrow> ValidateSlug (t_slug t) = None \<and> t_schema_name t = ''tenant_'' @ t_slug t \<and>
     t_status t \<in> {''provisioning'', ''active'', ''suspended''}"

definition legal_branch :: "branch \<Rightarrow> bool" where
  "legal_branch b \<longleftrightarrow> MatchString branchSlugPattern (b_slug b) \<and> b_status b \<in> {''active'', ''archived''}"

definition legal_membership :: "tenant_user \<Rightarrow> bool" where
  "legal_membership m \<longleftrightarrow> tu_status m \<in> {''active'', ''suspended''}"

definition legal_role :: "role \<Rightarrow> bool" where
  "legal_role r \<longleftrightarrow> MatchString roleSlugPattern (r_slug r)"

definition legal_permission :: "role_permission \<Rightarrow> bool" where
  "legal_permission rp \<longleftrightarrow> MatchString permPattern (rp_permission rp)"

definition legal_token :: "device_token \<Rightarrow> bool" where
  "legal_token d \<longleftrightarrow> dt_token_hash d \<noteq> [] \<and> dt_user_id d \<noteq> [] \<and> dt_tenant_id d \<noteq> []"

definition legal_history :: "migration_history \<Rightarrow> bool" where
  "legal_history h \<longleftrightarrow> mh_status h \<in> {''applied'', ''rolled_back''}"

definition legal :: "world \<Rightarrow> bool" where
  "legal w \<longleftrightarrow> list_all legal_tenant (tenants w) \<and> list_all legal_branch (branches w) \<and>
     list_all legal_membership (tenant_users w) \<and> list_all legal_role (roles w) \<and>
     list_all legal_permission (role_permissions w) \<and> list_all legal_token (device_tokens w) \<and>
     list_all legal_history (histories w)"

lemma legal_tick [simp]: "legal (w\<lparr>tick := n\<rparr>) = legal w"
  by (simp add: legal_def)

lemma legal_others [simp]:
  "legal (users_update f w) = legal w" "legal (plugin_installs_update g w) = legal w"
  "legal (schemas_update h w) = legal w"
  by (simp_all add: legal_def)

section \<open>A table whose rows are checked\<close>

locale checked_table = ent_table rows put key "\<lambda>_. True"
  for rows :: "world \<Rightarrow> 'r list" and put and key +
  fixes good :: "'r \<Rightarrow> bool" and I :: "world \<Rightarrow> bool"
  assumes I_good: "I w \<Longrightarrow> list_all good (rows w)"
    and I_put: "I w \<Longrightarrow> list_all good (rows (put f w)) \<Longrightarrow> I (put f w)"
    and I_tick: "I w \<Longrightarrow> I (w\<lparr>tick := n\<rparr>)"
begin

lemma written: "I w \<Longrightarrow> list_all good (f (rows w)) \<Longrightarrow> I (put f (w\<lparr>tick := n\<rparr>))"
  by (rule I_put) (simp_all add: I_tick rows_put rows_tick)

lemma create: "good r \<Longrightarrow> guarantees (preserves I) (ent_create E rows put key clash r)"
  unfolding guarantees_preserves
proof (intro allI impI, rule wp_ent_create, goal_cases)
  case (2 w n)
  then show ?case using I_good [of w] by (intro written) auto
qed (use I_tick in simp)

lemma mapped: "(\<And>x. good x \<Longrightarrow> good (f x)) \<Longrightarrow> I w \<Longrightarrow> I (put (map (\<lambda>r. if P r then f r else r)) (w\<lparr>tick := n\<rparr>))"
  using I_good [of w] by (intro written) (auto simp: list_all_iff)

lemma update: "(\<And>x. good x \<Longrightarrow> good (f x)) \<Longrightarrow> guarantees (preserves I) (ent_update E rows put P f)"
  unfolding guarantees_preserves by (intro allI impI, rule wp_ent_update) (auto simp: I_tick mapped)

lemma update_one: "(\<And>x. good x \<Longrightarrow> good (f x)) \<Longrightarrow> guarantees (preserves I) (ent_update_one E rows put key clash i f)"
  unfolding guarantees_preserves by (intro allI impI, rule wp_ent_update_one) (auto simp: I_tick mapped)

lemma filtered: "I w \<Longrightarrow> I (put (filter P) (w\<lparr>tick := n\<rparr>))"
  using I_good [of w] by (intro written) (auto simp: list_all_iff)

lemma delete: "guarantees (preserves I) (ent_delete E rows put referenced P)"
  unfolding guarantees_preserves by (intro allI impI, rule wp_ent_delete) (auto simp: I_tick filtered)

lemma delete_one: "guarantees (preserves I) (ent_delete_one E rows put referenced key i)"
  unfolding guarantees_preserves by (intro allI impI, rule wp_ent_delete_one) (auto simp: I_tick filtered)

end

interpretation legal_tenants: checked_table tenants tenants_update t_id legal_tenant legal
  by unfold_locales (simp_all add: legal_def)

interpretation legal_branches: checked_table branches branches_update b_id legal_branch legal
  by unfold_locales (simp_all add: legal_def)

interpretation legal_memberships: checked_table tenant_users tenant_users_update tu_id legal_membership legal
  by unfold_locales (simp_all add: legal_def)

interpretation legal_roles: checked_table roles roles_update r_id legal_role legal
  by unfold_locales (simp_all add: legal_def)

interpretation legal_permissions:
  checked_table role_permissions role_permissions_update rp_id legal_permission legal
  by unfold_locales (simp_all add: legal_def)

interpretation legal_tokens: checked_table device_tokens device_tokens_update dt_id legal_token legal
  by unfold_locales (simp_all add: legal_def)

interpretation legal_histories: checked_table histories histories_update mh_id legal_history legal
  by unfold_locales (simp_all add: legal_def)

text \<open>Tables and schemas whose rows are not constrained.\<close>

lemma legal_step: "preserves legal w (w\<lparr>tick := n\<rparr>)"
  by simp

lemma legal_profiles [simp]: "legal (profiles_update s f w) = legal w"
  by (simp add: profiles_update_def split: option.splits)

lemma legal_free:
  "guarantees (preserves legal) (ent_create E users users_update u_id c1 u)"
  "guarantees (preserves legal) (ent_update E users users_update P f)"
  "guarantees (preserves legal) (ent_update_one E users users_update u_id c2 i f)"
  "guarantees (preserves legal) (ent_delete_one E users users_update r1 u_id i)"
  "guarantees (preserves legal) (ent_create E plugin_installs plugin_installs_update pi_id c3 p)"
  "guarantees (preserves legal) (ent_delete_one E plugin_installs plugin_installs_update r2 pi_id i)"
  "guarantees (preserves legal) (ent_create E (profiles s) (profiles_update s) p_id c4 x)"
  "guarantees (preserves legal) (ent_update_one E (profiles s) (profiles_update s) p_id c5 i g)"
  "guarantees (preserves legal) (ent_delete E (profiles s) (profiles_update s) r3 Q)"
  by (rule guarantees_intro; simp)+

lemma reads_legal: "guarantees same_tables m \<Longrightarrow> guarantees (preserves legal) m"
  unfolding guarantees_def same_tables_def by (metis legal_tick)

lemma db_step_legal:
  "(\<And>w a w'. legal w \<Longrightarrow> f w = Inr (a, w') \<Longrightarrow> legal w') \<Longrightarrow> guarantees (preserves legal) (db_step E f)"
  unfolding guarantees_def by (auto simp: run_db_step split: sum.splits prod.splits) (metis legal_tick)

section \<open>The services\<close>

lemmas legal_rules = guarantees_if guarantees_case_option guarantees_case_prod guarantees_case_list guarantees_let
  kept.handle kept.attempt kept.bind kept.return kept.ok kept.fail guarantees_reads legal_step guarantees_in_schema

lemma legal_create:
  "ValidateSlug slug = None \<Longrightarrow> status \<in> {''provisioning'', ''active'', ''suspended''} \<Longrightarrow>
     guarantees (preserves legal) (create_tenant E i slug nm plan status (''tenant_'' @ slug))"
  "MatchString branchSlugPattern bslug \<Longrightarrow> guarantees (preserves legal) (create_branch E i T bslug nm ''active'')"
  "guarantees (preserves legal) (create_tenant_user E i u T b r)"
  "MatchString roleSlugPattern rslug \<Longrightarrow> guarantees (preserves legal) (create_role E i T rslug nm sys)"
  "MatchString permPattern perm \<Longrightarrow> guarantees (preserves legal) (create_role_permission E i r perm)"
  "guarantees (preserves legal) (create_device_token E i hash u T b)"
  "guarantees (preserves legal) (create_history E i T plugin v nm ''applied'')"
  "guarantees (preserves legal) (create_user E i email pw)"
  "guarantees (preserves legal) (create_plugin_install E i T plugin)"
  "guarantees (preserves legal) (create_profile E s i a b c d)"
  unfolding create_tenant_def create_branch_def create_tenant_user_def create_role_def create_role_permission_def
    create_device_token_def create_history_def create_user_def create_plugin_install_def create_profile_def
  by (intro legal_tenants.create legal_branches.create legal_memberships.create legal_roles.create
      legal_permissions.create legal_tokens.create legal_histories.create legal_free legal_rules;
      simp add: legal_tenant_def legal_branch_def legal_membership_def legal_role_def legal_permission_def
        legal_token_def legal_history_def)+

lemma legal_main_branch: "MatchString branchSlugPattern ''main''"
  by code_simp

lemma legal_reads:
  "guarantees (preserves legal) (Permissions E r)" "guarantees (preserves legal) (ResolveRoleID E T slug)"
  "guarantees (preserves legal) (IsMember E T u)" "guarantees (preserves legal) (SystemRoleID E slug)"
  "guarantees (preserves legal) (roleHasPerm E r perm)" "guarantees (preserves legal) (countManagers E T)"
  "guarantees (preserves legal) (profile_get E s u)"
  unfolding SystemRoleID_def roleHasPerm_def countManagers_def
  by (intro reads_legal [OF reads_Permissions] reads_legal [OF reads_ResolveRoleID] reads_legal [OF reads_IsMember]
      reads_legal [OF reads_profile_get] kept.for_each legal_rules)+

lemma legal_revoke: "guarantees (preserves legal) (revoke_owned_tokens E T u)"
  unfolding revoke_owned_tokens_def by (intro legal_tokens.update legal_rules) (simp_all add: legal_token_def)

lemma legal_members:
  "guarantees (preserves legal) (UpdateMemberRole E T u slug)"
  "guarantees (preserves legal) (SetMemberStatus E T u status)"
  "guarantees (preserves legal) (RemoveMember E T u)"
  "guarantees (preserves legal) (AddMember E T b inp)"
  unfolding UpdateMemberRole_def SetMemberStatus_def RemoveMember_def AddMember_def member_user_def member_profile_def
  by (intro legal_memberships.update_one legal_memberships.delete_one legal_create legal_revoke legal_reads legal_free
      legal_rules; simp add: legal_membership_def)+

lemma legal_profile_writes:
  "guarantees (preserves legal) (SetOwnPin E T u pin)" "guarantees (preserves legal) (SetMemberPin E T u pin)"
  "guarantees (preserves legal) (UpdateOwnProfile E T u nm phone job)"
  "guarantees (preserves legal) (ChangeOwnPassword E u old_pw new_pw)"
  "guarantees (preserves legal) (SetMemberPassword E T u new_pw)"
  unfolding SetOwnPin_def SetMemberPin_def UpdateOwnProfile_def writePinHash_def hashed_pin_def PinAvailable_def
    ChangeOwnPassword_def SetMemberPassword_def writePasswordHash_def
  by (intro legal_create legal_free reads_legal [OF reads_pin_free] legal_reads legal_rules)+

lemma legal_branch_operations:
  "guarantees (preserves legal) (CreateBranch E T slug nm)"
  "guarantees (preserves legal) (UpdateBranch E T i nm status)"
  "guarantees (preserves legal) (SwitchBranch E u T b hash)"
proof -
  show "guarantees (preserves legal) (CreateBranch E T slug nm)"
  proof (cases "MatchString branchSlugPattern slug")
    case True
    then show ?thesis unfolding CreateBranch_def by (intro legal_create legal_rules)
  qed (simp add: CreateBranch_def kept.fail)
  show "guarantees (preserves legal) (UpdateBranch E T i nm status)"
  proof (cases "status \<noteq> [] \<and> status \<noteq> ''active'' \<and> status \<noteq> ''archived''")
    case True
    show ?thesis unfolding UpdateBranch_def if_P [OF True] by (intro legal_rules)
  next
    case False
    then show ?thesis unfolding UpdateBranch_def if_not_P [OF False]
      by (intro legal_branches.update_one legal_rules) (auto simp: legal_branch_def)
  qed
  show "guarantees (preserves legal) (SwitchBranch E u T b hash)"
    unfolding SwitchBranch_def
    by (intro legal_memberships.update_one legal_tokens.update legal_rules) (simp_all add: legal_membership_def legal_token_def)
qed

lemma legal_replacePermissions:
  "validatePermissions ps = None \<Longrightarrow> guarantees (preserves legal) (replacePermissions E i ps)"
  unfolding replacePermissions_def validatePermissions_iff
  by (intro legal_permissions.delete kept.for_each legal_create legal_rules) auto

lemma legal_role_operations:
  "guarantees (preserves legal) (CreateRole E T slug nm ps)"
  "guarantees (preserves legal) (UpdateRole E T i nm upd)"
  "guarantees (preserves legal) (DeleteRole E T i)"
proof -
  show "guarantees (preserves legal) (CreateRole E T slug nm ps)"
  proof (cases "MatchString roleSlugPattern slug \<and> validatePermissions ps = None")
    case True
    then show ?thesis unfolding CreateRole_def by (auto intro!: legal_create legal_replacePermissions legal_rules)
  qed (auto simp: CreateRole_def intro!: legal_rules)
  show "guarantees (preserves legal) (UpdateRole E T i nm upd)"
  proof (cases upd)
    case None
    show ?thesis unfolding UpdateRole_def None option.case
      by (intro legal_roles.update_one legal_reads legal_rules) (simp add: legal_role_def)
  next
    case (Some ps)
    show ?thesis unfolding UpdateRole_def Some option.case
      by (cases "validatePermissions ps";
          simp only: option.case; intro legal_roles.update_one legal_replacePermissions legal_reads legal_rules; simp add: legal_role_def)
  qed
  show "guarantees (preserves legal) (DeleteRole E T i)"
    unfolding DeleteRole_def by (intro legal_roles.delete_one legal_permissions.delete legal_rules)
qed

lemma legal_tenant_operations:
  "guarantees (preserves legal) (UpdateTenant E T nm plan)"
  "guarantees (preserves legal) (SetTenantStatus E T status)"
  "guarantees (preserves legal) (GrantPlatformAdmin E email)"
  "guarantees (preserves legal) (RevokePlatformAdmin E email)"
proof -
  show "guarantees (preserves legal) (UpdateTenant E T nm plan)"
    unfolding UpdateTenant_def by (intro legal_tenants.update_one legal_rules) (simp add: legal_tenant_def)
  show "guarantees (preserves legal) (SetTenantStatus E T status)"
  proof (cases "status \<in> set tenantStatuses")
    case True
    then show ?thesis unfolding SetTenantStatus_def
      by (intro legal_tenants.update_one legal_rules) (auto simp: legal_tenant_def tenantStatuses_def)
  qed (simp add: SetTenantStatus_def kept.fail)
qed (unfold GrantPlatformAdmin_def RevokePlatformAdmin_def, (intro legal_free legal_rules)+)

section \<open>Plugins, sign-in, registration\<close>

lemma legal_runSQL: "guarantees (preserves legal) (runSQL E s q)"
proof -
  have "legal (w\<lparr>tick := n, schemas := ss\<rparr>) = legal w" for w n ss
    by (simp add: legal_def)
  then show ?thesis
    unfolding guarantees_def runSQL_def db_call_def by (auto simp: run_db_step split: option.splits)
qed

lemma legal_apply_pending: "guarantees (preserves legal) (apply_pending E T s p applied ms)"
  by (induction ms) (auto intro!: legal_runSQL legal_create legal_rules)

lemma legal_roll_back: "guarantees (preserves legal) (roll_back E T s p applied ms)"
  by (induction ms) (auto intro!: legal_runSQL legal_histories.update legal_rules simp: legal_history_def)

lemma legal_migrations:
  "guarantees (preserves legal) (RunForTenant E T s p ms)"
  "guarantees (preserves legal) (RollbackForTenant E T s p ms)"
  unfolding RunForTenant_def RollbackForTenant_def sort_versions_def sort_versions_desc_def appliedVersions_def
  by (intro legal_apply_pending legal_roll_back legal_rules)+

lemma legal_fetch: "guarantees (preserves legal) (fetchMigrations core p)"
  unfolding fetchMigrations_def GetManifest_def by (intro legal_rules)

lemma legal_install_one:
  "guarantees (preserves legal) (Install E core T p)" "guarantees (preserves legal) (Uninstall E core T p dropData)"
  unfolding Install_def Uninstall_def
  by (intro legal_fetch legal_migrations legal_create legal_free legal_rules)+

lemma legal_install_each: "guarantees (preserves legal) (install_each E core T s ps)"
  by (induction ps) (auto intro!: legal_fetch legal_migrations legal_create legal_rules)

lemma legal_install_tenants: "guarantees (preserves legal) (install_tenants E core p ts rs)"
  by (induction ts arbitrary: rs) (auto simp: Let_def intro!: legal_install_one legal_rules)

lemma legal_reconcile_each: "guarantees (preserves legal) (reconcile_each E p ms is rs)"
  by (induction "is" arbitrary: rs) (auto simp: Let_def intro!: legal_migrations legal_rules)

lemma legal_plugin_operations:
  "guarantees (preserves legal) (InstallForNewTenant E core T s)"
  "guarantees (preserves legal) (InstallAll E core p)" "guarantees (preserves legal) (ReconcileAll E core p)"
  unfolding InstallForNewTenant_def InstallAll_def ReconcileAll_def
  by (intro legal_install_each legal_install_tenants legal_reconcile_each legal_fetch legal_rules)+

lemma legal_sign_in:
  "guarantees (preserves legal) (Login E slug email pw)"
  "guarantees (preserves legal) (LoginWithGoogle E verified slug)"
  "guarantees (preserves legal) (Logout E hash)"
proof -
  have token: "guarantees (preserves legal) (resolveTenantAndIssue E u slug)" for u slug
    unfolding resolveTenantAndIssue_def issueDeviceToken_def GenerateDeviceToken_def multiTenantError_def
    by (intro legal_create kept.for_each legal_rules)
  show "guarantees (preserves legal) (Login E slug email pw)"
    unfolding Login_def by (intro token legal_rules)
  show "guarantees (preserves legal) (LoginWithGoogle E verified slug)"
    unfolding LoginWithGoogle_def
    by (intro token legal_free guarantees_case_sum legal_rules)
  show "guarantees (preserves legal) (Logout E hash)"
    unfolding Logout_def by (intro legal_tokens.update legal_rules) (simp add: legal_token_def)
qed

lemma legal_Introspect: "guarantees (preserves legal) (Introspect E hash acting)"
  unfolding Introspect_def owner_membership_def resolve_acting_def activeMembership_def introspect_result_def
    resolveRole_def token_branch_def stamp_last_used_def
  by (intro legal_tokens.update_one legal_reads guarantees_case_sum legal_rules) (simp_all add: legal_token_def)

lemma legal_compensate: "list_all (guarantees (preserves legal)) steps \<Longrightarrow> guarantees (preserves legal) (compensate steps)"
proof -
  have "list_all (guarantees (preserves legal)) ss \<Longrightarrow> guarantees (preserves legal) (run_all ss)" for ss
    by (induction ss) (auto intro!: kept.return kept.bind)
  then show "list_all (guarantees (preserves legal)) steps \<Longrightarrow> guarantees (preserves legal) (compensate steps)"
    by (simp add: compensate_def)
qed

lemma legal_saga_step:
  assumes "list_all (guarantees (preserves legal)) steps" and "guarantees (preserves legal) m"
    and "\<And>x. guarantees (preserves legal) (k x)"
  shows "guarantees (preserves legal) (saga_step steps msg m k)"
  unfolding saga_step_def using assms by (intro kept.handle guarantees_if kept.fail kept.bind legal_compensate)

lemma legal_undo:
  "guarantees (preserves legal) (undo_tenant E i)" "guarantees (preserves legal) (undo_branch E i)"
  "guarantees (preserves legal) (undo_user E i)" "guarantees (preserves legal) (undo_membership E i)"
  "guarantees (preserves legal) (drop_schema E s)" "guarantees (preserves legal) (create_schema E s)"
  "guarantees (preserves legal) (MigrateTenantSchema E s)"
proof -
  have schemas: "legal (w\<lparr>schemas := ss\<rparr>) = legal w" for w ss by (simp add: legal_def)
  show "guarantees (preserves legal) (drop_schema E s)" "guarantees (preserves legal) (create_schema E s)"
    unfolding drop_schema_def create_schema_def by (rule db_step_legal; auto simp: schemas split: if_splits)+
  show "guarantees (preserves legal) (MigrateTenantSchema E s)"
    unfolding MigrateTenantSchema_def
    by (intro kept.attempt reads_legal [OF reads_Connect] db_step_legal)
      (auto simp: schemas split: option.splits if_splits)
qed (unfold undo_tenant_def undo_branch_def undo_user_def undo_membership_def,
    (intro legal_tenants.delete_one legal_branches.delete_one legal_memberships.delete_one legal_free)+)

lemma legal_resolveUser: "guarantees (preserves legal) (resolveUser E email pw)"
  unfolding resolveUser_def by (intro legal_create legal_rules)

lemma legal_resolveSlug: "guarantees (preserves legal) (resolveSlug utrim ulower E slug nm)"
  by (rule reads_legal [OF reads_resolveSlug])

lemma legal_provision:
  assumes "list_all (guarantees (preserves legal)) steps"
  shows "guarantees (preserves legal) (provision E (InstallForNewTenant E core) inp slug s T u steps)"
  unfolding provision_def Let_def
  by (intro legal_saga_step legal_undo legal_create legal_plugin_operations legal_tenants.update_one kept.ok)
    (use assms in \<open>auto simp: legal_undo legal_tenant_def\<close>)

lemma legal_Register: "guarantees (preserves legal) (Register utrim ulower E (InstallForNewTenant E core) inp)"
proof -
  have valid: "guarantees (preserves legal) (case ValidateSlug slug of Some e \<Rightarrow> fail e | None \<Rightarrow> k)"
    if "ValidateSlug slug = None \<Longrightarrow> guarantees (preserves legal) k" for slug k
    using that by (auto intro: kept.fail split: option.split)
  show ?thesis unfolding Register_def register_owner_def Let_def
    by (intro kept.attempt legal_resolveSlug valid legal_saga_step legal_provision legal_undo legal_create legal_main_branch
        legal_resolveUser legal_reads legal_rules)
      (auto simp: legal_undo)
qed

section \<open>Reads\<close>

lemma legal_pin_holder: "guarantees (preserves legal) (pin_holder E s pin ms)"
  by (induction ms) (auto intro!: legal_reads legal_rules)

lemma legal_member_infos: "guarantees (preserves legal) (member_infos E ps ms cache out)"
  by (induction ms arbitrary: cache out) (auto intro!: legal_rules simp: cached_role_def)

lemma legal_reading:
  "guarantees (preserves legal) (PinAvailable E T pin except)"
  "guarantees (preserves legal) (ResolvePin E T pin)"
  "guarantees (preserves legal) (VerifyOwnPin E T u pin)"
  "guarantees (preserves legal) (ListMembers E T)"
  "guarantees (preserves legal) (ListBranches E T)" "guarantees (preserves legal) (ListRoles E T)"
  "guarantees (preserves legal) (LoadProfile E s u)" "guarantees (preserves legal) (InstalledPlugins E T)"
  "guarantees (preserves legal) (ListTenants E)" "guarantees (preserves legal) (GetTenant E T)"
  "guarantees (preserves legal) (ListPlatformAdmins E)"
  "guarantees (preserves legal) (SuggestSlug utrim ulower E nm)" "guarantees (preserves legal) (SlugAvailable E slug)"
  unfolding PinAvailable_def ResolvePin_def VerifyOwnPin_def LoadProfileForTenant_def LoadProfile_def ListMembers_def
    with_user_def ListBranches_def ListRoles_def InstalledPlugins_def ListTenants_def GetTenant_def
    ListPlatformAdmins_def SuggestSlug_def SlugAvailable_def
  by (intro reads_legal [OF reads_pin_free] legal_pin_holder legal_member_infos legal_resolveSlug legal_reads
      kept.for_each legal_rules)+

section \<open>Start-up\<close>

lemma system_roles_legal:
  "sr \<in> set SystemRoles \<Longrightarrow> MatchString roleSlugPattern (sr_slug sr) \<and> (\<forall>p \<in> set (sr_permissions sr). MatchString permPattern p)"
proof -
  have "list_all (\<lambda>sr. MatchString roleSlugPattern (sr_slug sr) \<and> list_all (MatchString permPattern) (sr_permissions sr)) SystemRoles"
    by code_simp
  then show "sr \<in> set SystemRoles \<Longrightarrow> ?thesis" by (simp add: list_all_iff)
qed

lemma legal_seeding: "guarantees (preserves legal) (SeedSystemRoles E)"
  unfolding SeedSystemRoles_def
proof (rule kept.for_each)
  fix sr ids assume "sr \<in> set SystemRoles"
  then show "guarantees (preserves legal) (seed_role E sr ids)"
    unfolding seed_role_def syncPermissions_def sync_add_def sync_remove_def
    by (intro legal_create legal_permissions.delete_one kept.for_each legal_rules) (simp_all add: system_roles_legal)
qed

lemma legal_migrate_tenants: "guarantees (preserves legal) (migrate_tenants E ts)"
  by (induction ts) (auto intro!: legal_undo legal_rules)

lemma legal_grant_all: "guarantees (preserves legal) (grant_all E emails n)"
  by (induction emails arbitrary: n) (auto intro!: legal_free legal_rules)

lemma legal_startup: "guarantees (preserves legal) (startup utrim ulower E getenv)"
  unfolding startup_def prepare_def bootstrap_admins_def SyncPlatformAdminsFromEnv_def
  by (intro reads_legal [OF reads_migrateSharedSchema] legal_migrate_tenants legal_seeding legal_grant_all legal_rules)

section \<open>Every request\<close>

text \<open>All handlers but the two that restore an uploaded dump.\<close>

inductive answers :: "respond \<Rightarrow> bool" where
  "answers (register E h c)" | "answers (slugSuggest E h c)" | "answers (slugAvailable E c)"
| "answers (login E c)" | "answers (authConfig h c)" | "answers (googleLogin E h c)"
| "answers (introspect E h c)" | "answers (logout E c)" | "answers (me E c)" | "answers (install E h c)"
| "answers (uninstall E h c)" | "answers (listBranches E c)" | "answers (createBranch E c)"
| "answers (updateBranch E c)" | "answers (addMember E c)" | "answers (switchBranch E c)"
| "answers (listMembers E c)" | "answers (updateMemberRole E c)" | "answers (removeMember E c)"
| "answers (setMemberStatus E c)" | "answers (setOwnPin E c)" | "answers (updateOwnProfile E c)"
| "answers (pinAvailable E c)" | "answers (verifyOwnPin E c)" | "answers (resolvePin E c)"
| "answers (setMemberPin E c)" | "answers (changeOwnPassword E c)" | "answers (setMemberPassword E c)"
| "answers (listRoles E c)" | "answers (createRole E c)" | "answers (updateRole E c)"
| "answers (deleteRole E c)" | "answers (updateTenant E c)" | "answers (listTenantPlugins E c)"
| "answers (installAll E h c)" | "answers (reconcilePlugin E h c)" | "answers (listTenants E c)"
| "answers (setTenantStatus E c)" | "answers (setTenantByAdmin E c)" | "answers (adminListMembers E c)"
| "answers (adminUpdateMemberRole E c)" | "answers (adminSetMemberStatus E c)"
| "answers (adminRemoveMember E c)" | "answers (adminSetMemberPassword E c)" | "answers (adminAddMember E c)"
| "answers (adminListRoles E c)" | "answers (adminListBranches E c)" | "answers (adminCreateBranch E c)"
| "answers (adminUpdateBranch E c)" | "answers (adminCreateRole E c)" | "answers (adminUpdateRole E c)"
| "answers (adminDeleteRole E c)" | "answers (adminListPermissions c)" | "answers (listPlatformAdmins E c)"
| "answers (grantPlatformAdmin E c)" | "answers (revokePlatformAdmin E c)" | "answers (backupTenant E h c)"
| "answers (backupAll E h c)"

lemma legal_answers: "answers m \<Longrightarrow> guarantees (preserves legal) m"
proof (induction rule: answers.induct)
qed (unfold tenant_handler_defs admin_handler_defs register_def slugSuggest_def slugAvailable_def login_def authConfig_def
    googleLogin_def introspect_def login_refused_def requirePlatformAdmin_def Let_def,
  (intro keeps_guards keeps_JSON legal_members legal_profile_writes legal_branch_operations legal_role_operations
    legal_tenant_operations legal_install_one legal_plugin_operations legal_sign_in legal_Introspect legal_Register
    legal_reading legal_reads legal_rules; fail)+)

text \<open>One request answered, or one start of the process.\<close>

inductive system_step :: "world \<Rightarrow> world \<Rightarrow> bool" where
  request: "answers m \<Longrightarrow> run_state m w = (resp, w') \<Longrightarrow> system_step w w'"
| start: "run_state (startup utrim ulower E getenv) w = (res, w') \<Longrightarrow> system_step w w'"

lemma legal_system_step:
  assumes "system_step w w'" and "legal w"
  shows "legal w'"
  using assms(1)
proof cases
  case (request m resp)
  then show ?thesis using guaranteesD [OF legal_answers] assms(2) by blast
next
  case (start utrim ulower E getenv res)
  then show ?thesis using guaranteesD [OF legal_startup] assms(2) by blast
qed

text \<open>C3. Whatever the program stores is well formed. From the empty database on, through any sequence of
  starts and requests other than the two that restore an uploaded dump (\<open>restoreTenant\<close> and \<open>restoreAll\<close>,
  which hand arbitrary SQL to \<open>psql\<close>), with whatever bodies, faults and outside answers: every tenant has
  a legal slug, the schema named after it and one of the three statuses; branches, memberships and
  migrations have a legal status; the slugs of branches and roles match their patterns; every
  permission has the form the matching functions expect; a token has a hash, a user and a tenant.\<close>

theorem stored_data_is_wellformed:
  assumes "system_step\<^sup>*\<^sup>* w w'" and "legal w"
  shows "legal w' \<and> legal world0"
proof
  show "legal w'" using assms by (induction rule: rtranclp_induct) (auto dest: legal_system_step)
  show "legal world0" by (simp add: legal_def world0_def)
qed

lemma mall_legal: "legal mall"
proof -
  have "ValidateSlug ''acme'' = None" "ValidateSlug ''other'' = None" "MatchString branchSlugPattern ''main''"
    "MatchString roleSlugPattern ''owner''" "MatchString roleSlugPattern ''cashier''" "MatchString roleSlugPattern ''temp''"
    "MatchString permPattern ''*:*''" "MatchString permPattern ''sale:void''" by code_simp+
  then show ?thesis
    by (simp add: legal_def mall_def shop_def world0_def legal_tenant_def legal_branch_def legal_membership_def
        legal_role_def legal_permission_def legal_token_def)
qed

theorem stored_data_is_wellformed_witness:
  "list_all legal_branch (branches (snd opened)) \<and> map b_slug (branches (snd opened)) = [''main'', ''north'']"
proof
  have "answers (createBranch env0 (Handlers.call ''u1'' ''branch:write'' (\<lambda>_. []) \<lparr>cb_slug = ''north'', cb_name = ''North''\<rparr>))"
    by (rule answers.intros)
  then have "system_step mall (snd opened)" unfolding opened_def by (rule system_step.request) (rule surjective_pairing)
  then have "system_step\<^sup>*\<^sup>* mall (snd opened)" by (rule r_into_rtranclp)
  from stored_data_is_wellformed [OF this mall_legal] have "legal (snd opened)" by blast
  then show "list_all legal_branch (branches (snd opened))" by (simp add: legal_def)
  show "map b_slug (branches (snd opened)) = [''main'', ''north'']" by code_simp
qed

end
