(* ===== verification/Interleaving.thy ===== *)
theory Interleaving
  imports Wellformed Threads
begin

text \<open>
  Membership requests at the same time (\<open>src/internal/auth/member_manage.go\<close>). The operations of
  \<open>Members\<close>, the setting of PINs of \<open>Profiles\<close> and the deletion of roles of \<open>Roles\<close>, call by call: between two calls of one request
  the calls of others take place. The theorems \<open>uninterrupted_\<dots>\<close> say that these are
  the same operations. Requests of different tenants cannot take each other's last manager and a
  member who was removed stays removed; but the guard on the last manager and the checks that
  a PIN is free and a role unused are reads before the write, and two requests of one tenant pass
  them together.
\<close>

section \<open>Operations, call by call\<close>

definition Permissions_t :: "env \<Rightarrow> string \<Rightarrow> (world, error + string list) thread" where
  "Permissions_t E roleID =
     attempt_t (call (ent_all E role_permissions (\<lambda>p. rp_role_id p = roleID))) id
       (\<lambda>rps. ok_t (map rp_permission rps))"

definition ResolveRoleID_t :: "env \<Rightarrow> string \<Rightarrow> string \<Rightarrow> (world, error + string) thread" where
  "ResolveRoleID_t E tenantID slug =
     handle_t (call (ent_only E roles (\<lambda>r. r_tenant_id r = tenantID \<and> r_slug r = slug)))
       (\<lambda>_. attempt_t (call (ent_only E roles (\<lambda>r. r_tenant_id r = [] \<and> r_slug r = slug)))
          (\<lambda>_. ErrText (''role '' @ slug @ '' not found for tenant''))
          (\<lambda>r. ok_t (r_id r)))
       (\<lambda>r. ok_t (r_id r))"

definition roleHasPerm_t :: "env \<Rightarrow> string \<Rightarrow> string \<Rightarrow> (world, error + bool) thread" where
  "roleHasPerm_t E roleID perm =
     attempt_t (Permissions_t E roleID) id (\<lambda>perms. ok_t (Allows perms perm))"

definition countManagers_t :: "env \<Rightarrow> string \<Rightarrow> (world, error + nat) thread" where
  "countManagers_t E tenantID =
     attempt_t (call (ent_all E tenant_users (\<lambda>m. tu_tenant_id m = tenantID \<and> tu_status m \<noteq> ''suspended''))) id
       (\<lambda>memberships.
          attempt_t (for_each_t memberships (\<lambda>m (managerRole, count).
             attempt_t (case managerRole (tu_role_id m) of
                        Some b \<Rightarrow> ok_t (b, managerRole)
                      | None \<Rightarrow> attempt_t (roleHasPerm_t E (tu_role_id m) PermTenantManage) id
                          (\<lambda>b. ok_t (b, managerRole(tu_role_id m \<mapsto> b)))) id
               (\<lambda>(b, managerRole'). ok_t (managerRole', if b then count + 1 else count)))
             (Map.empty, 0)) id
            (\<lambda>(_, count). ok_t count))"

definition UpdateMemberRole_t :: "env \<Rightarrow> string \<Rightarrow> string \<Rightarrow> string \<Rightarrow> (world, error + unit) thread" where
  "UpdateMemberRole_t E tenantID userID roleSlug =
     (if tenantID = [] \<or> userID = [] then fail_t ErrMemberNotFound
      else attempt_t (call (ent_only E tenant_users (\<lambda>m. tu_user_id m = userID \<and> tu_tenant_id m = tenantID)))
        (\<lambda>_. ErrMemberNotFound) (\<lambda>m.
          attempt_t (ResolveRoleID_t E tenantID roleSlug) (\<lambda>_. ErrText (''unknown role '' @ roleSlug)) (\<lambda>newRoleID.
            attempt_t (roleHasPerm_t E (tu_role_id m) PermTenantManage) id (\<lambda>wasManager.
              attempt_t (if wasManager then
                  attempt_t (roleHasPerm_t E newRoleID PermTenantManage) id (\<lambda>willManage.
                    if \<not> willManage then
                      attempt_t (countManagers_t E tenantID) id (\<lambda>n.
                        if n \<le> 1 then fail_t ErrLastManager else ok_t ())
                    else ok_t ())
                else ok_t ()) id (\<lambda>_.
                  attempt_t (call (ent_update_one E tenant_users tenant_users_update tu_id no_clash (tu_id m)
                             (\<lambda>x. x\<lparr>tu_role_id := newRoleID\<rparr>))) id (\<lambda>_. ok_t ()))))))"

text \<open>\<open>time.Now()\<close> is an argument of the builder, so it is read before the statement runs.\<close>

definition revoke_owned_tokens_t :: "env \<Rightarrow> string \<Rightarrow> string \<Rightarrow> (world, error + nat) thread" where
  "revoke_owned_tokens_t E tenantID userID =
     then_t (call (time_now E)) (\<lambda>now.
       call (ent_update E device_tokens device_tokens_update
         (\<lambda>d. dt_user_id d = userID \<and> dt_tenant_id d = tenantID \<and> dt_revoked_at d = None)
         (\<lambda>d. d\<lparr>dt_revoked_at := Some now\<rparr>)))"

definition RemoveMember_t :: "env \<Rightarrow> string \<Rightarrow> string \<Rightarrow> (world, error + unit) thread" where
  "RemoveMember_t E tenantID userID =
     (if tenantID = [] \<or> userID = [] then fail_t ErrMemberNotFound
      else attempt_t (call (ent_only E tenant_users (\<lambda>m. tu_user_id m = userID \<and> tu_tenant_id m = tenantID)))
        (\<lambda>_. ErrMemberNotFound) (\<lambda>m.
          attempt_t (roleHasPerm_t E (tu_role_id m) PermTenantManage) id (\<lambda>isManager.
            attempt_t (if isManager then
                attempt_t (countManagers_t E tenantID) id (\<lambda>n.
                  if n \<le> 1 then fail_t ErrLastManager else ok_t ())
              else ok_t ()) id (\<lambda>_.
              attempt_t (call (ent_delete_one E tenant_users tenant_users_update (\<lambda>_ _. False) tu_id (tu_id m))) id (\<lambda>_.
                then_t (revoke_owned_tokens_t E tenantID userID) (\<lambda>_.
                  handle_t (call (ent_get E tenants t_id tenantID)) (\<lambda>_. ok_t ()) (\<lambda>t.
                    then_t (call (in_schema E (t_schema_name t)
                             (ent_delete E (profiles (t_schema_name t)) (profiles_update (t_schema_name t))
                               (\<lambda>_ _. False) (\<lambda>p. p_id p = userID)))) (\<lambda>_.
                      ok_t ()))))))))"

definition SetMemberStatus_t :: "env \<Rightarrow> string \<Rightarrow> string \<Rightarrow> string \<Rightarrow> (world, error + unit) thread" where
  "SetMemberStatus_t E tenantID userID status =
     (if tenantID = [] \<or> userID = [] then fail_t ErrMemberNotFound
      else if status \<noteq> ''active'' \<and> status \<noteq> ''suspended''
      then fail_t (ErrText ''status must be active or suspended'')
      else attempt_t (call (ent_only E tenant_users (\<lambda>m. tu_user_id m = userID \<and> tu_tenant_id m = tenantID)))
        (\<lambda>_. ErrMemberNotFound) (\<lambda>m.
          if tu_status m = status then ok_t ()
          else
            attempt_t (if status = ''suspended'' then
                attempt_t (roleHasPerm_t E (tu_role_id m) PermTenantManage) id (\<lambda>isManager.
                  if isManager then
                    attempt_t (countManagers_t E tenantID) id (\<lambda>n.
                      if n \<le> 1 then fail_t ErrLastManager else ok_t ())
                  else ok_t ())
              else ok_t ()) id (\<lambda>_.
              attempt_t (call (ent_update_one E tenant_users tenant_users_update tu_id no_clash (tu_id m)
                         (\<lambda>x. x\<lparr>tu_status := status\<rparr>))) id (\<lambda>_.
                if status = ''suspended'' then then_t (revoke_owned_tokens_t E tenantID userID) (\<lambda>_. ok_t ())
                else ok_t ()))))"

subsection \<open>Deleting a role\<close>

definition DeleteRole_t :: "env \<Rightarrow> string \<Rightarrow> string \<Rightarrow> (world, error + unit) thread" where
  "DeleteRole_t E tenantID roleID =
     handle_t (call (ent_get E roles r_id roleID)) (\<lambda>_. fail_t (ErrText ''role not found'')) (\<lambda>r.
       if r_tenant_id r \<noteq> tenantID then fail_t (ErrText ''role not found'')
       else if r_is_system r then fail_t (ErrText ''system roles cannot be deleted'')
       else
         attempt_t (call (ent_exist E tenant_users (\<lambda>m. tu_role_id m = roleID))) id (\<lambda>inUse.
           if inUse then fail_t (ErrText ''role is assigned to members; reassign them first'')
           else
             attempt_t (call (ent_delete E role_permissions role_permissions_update (\<lambda>_ _. False)
                        (\<lambda>p. rp_role_id p = roleID))) (ErrWrap ''delete role permissions'') (\<lambda>_.
               call (ent_delete_one E roles roles_update role_referenced r_id roleID))))"

subsection \<open>Setting a PIN\<close>

primrec pin_free_t ::
  "env \<Rightarrow> string \<Rightarrow> string \<Rightarrow> string \<Rightarrow> tenant_user list \<Rightarrow> (world, error + bool) thread" where
  "pin_free_t E schema pin exceptUserID [] = ok_t True"
| "pin_free_t E schema pin exceptUserID (m # rest) =
     (if tu_user_id m = exceptUserID then pin_free_t E schema pin exceptUserID rest
      else handle_t (call (profile_get E schema (tu_user_id m))) (\<lambda>_. pin_free_t E schema pin exceptUserID rest)
        (\<lambda>p. if p_pin_hash p = [] then pin_free_t E schema pin exceptUserID rest
             else if bcrypt_match E (p_pin_hash p) pin then ok_t False
             else pin_free_t E schema pin exceptUserID rest))"

definition PinAvailable_t :: "env \<Rightarrow> string \<Rightarrow> string \<Rightarrow> string \<Rightarrow> (world, error + bool) thread" where
  "PinAvailable_t E tenantID pin exceptUserID =
     (if tenantID = [] then fail_t ErrMemberNotFound
      else if \<not> MatchString pinPattern pin then ok_t False
      else attempt_t (call (ent_get E tenants t_id tenantID)) (ErrWrap ''load tenant'') (\<lambda>t.
        attempt_t (call (ent_all E tenant_users (\<lambda>m. tu_tenant_id m = tenantID \<and> tu_status m \<noteq> ''suspended''))) id
          (\<lambda>memberships. pin_free_t E (t_schema_name t) pin exceptUserID memberships)))"

definition hashed_pin_t :: "env \<Rightarrow> string \<Rightarrow> string \<Rightarrow> string \<Rightarrow> (world, error + string) thread" where
  "hashed_pin_t E tenantID userID pin =
     (if pin = [] then ok_t []
      else if \<not> MatchString pinPattern pin then fail_t ErrInvalidPin
      else attempt_t (PinAvailable_t E tenantID pin userID) id (\<lambda>free.
        if \<not> free then fail_t ErrPinTaken
        else attempt_t (call (GenerateFromPassword E pin)) (ErrWrap ''hash pin'') ok_t))"

definition writePinHash_t :: "env \<Rightarrow> string \<Rightarrow> string \<Rightarrow> string \<Rightarrow> (world, error + unit) thread" where
  "writePinHash_t E tenantID userID pin =
     attempt_t (hashed_pin_t E tenantID userID pin) id (\<lambda>hash.
     attempt_t (call (ent_get E tenants t_id tenantID)) (ErrWrap ''load tenant'') (\<lambda>t.
     attempt_t (call (in_schema E (t_schema_name t)
                (ent_update_one E (profiles (t_schema_name t)) (profiles_update (t_schema_name t)) p_id no_clash
                   userID (\<lambda>p. p\<lparr>p_pin_hash := hash\<rparr>)))) id (\<lambda>_. ok_t ())))"

definition SetOwnPin_t :: "env \<Rightarrow> string \<Rightarrow> string \<Rightarrow> string \<Rightarrow> (world, error + unit) thread" where
  "SetOwnPin_t E tenantID userID pin =
     (if tenantID = [] \<or> userID = [] then fail_t ErrMemberNotFound else writePinHash_t E tenantID userID pin)"

subsection \<open>Requests and sessions\<close>

datatype member_request = ChangeRole string string | Remove string | SetStatus string string

fun request :: "env \<Rightarrow> string \<Rightarrow> member_request \<Rightarrow> (world, error + unit) state" where
  "request E T (ChangeRole u slug) = UpdateMemberRole E T u slug"
| "request E T (Remove u) = RemoveMember E T u"
| "request E T (SetStatus u status) = SetMemberStatus E T u status"

fun request_t :: "env \<Rightarrow> string \<Rightarrow> member_request \<Rightarrow> (world, error + unit) thread" where
  "request_t E T (ChangeRole u slug) = UpdateMemberRole_t E T u slug"
| "request_t E T (Remove u) = RemoveMember_t E T u"
| "request_t E T (SetStatus u status) = SetMemberStatus_t E T u status"

text \<open>The requests of one tenant, one after the other, each in an environment of its own.\<close>

primrec session_t :: "string \<Rightarrow> (env \<times> member_request) list \<Rightarrow> (world, (error + unit) list) thread" where
  "session_t T [] = Done []"
| "session_t T (r # rs) = then_t (request_t (fst r) T (snd r)) (\<lambda>x.
     then_t (session_t T rs) (\<lambda>xs. Done (x # xs)))"

section \<open>The same operations\<close>

lemma alone_reads [alone_simps]:
  "alone (Permissions_t E r) = Permissions E r"
  "alone (ResolveRoleID_t E T slug) = ResolveRoleID E T slug"
  by (simp_all add: Permissions_t_def Permissions_def ResolveRoleID_t_def ResolveRoleID_def alone_simps)

lemma alone_roleHasPerm [alone_simps]: "alone (roleHasPerm_t E r p) = roleHasPerm E r p"
  by (simp add: roleHasPerm_t_def roleHasPerm_def alone_simps)

lemma alone_countManagers [alone_simps]: "alone (countManagers_t E T) = countManagers E T"
  by (simp add: countManagers_t_def countManagers_def alone_simps cong: option.case_cong)

lemma alone_revoke [alone_simps]: "alone (revoke_owned_tokens_t E T u) = revoke_owned_tokens E T u"
  by (simp add: revoke_owned_tokens_t_def revoke_owned_tokens_def alone_simps)

lemma alone_UpdateMemberRole: "alone (UpdateMemberRole_t E T u slug) = UpdateMemberRole E T u slug"
  by (simp add: UpdateMemberRole_t_def UpdateMemberRole_def alone_simps cong: if_cong)

lemma alone_RemoveMember: "alone (RemoveMember_t E T u) = RemoveMember E T u"
  by (simp add: RemoveMember_t_def RemoveMember_def alone_simps cong: if_cong)

lemma alone_SetMemberStatus: "alone (SetMemberStatus_t E T u status) = SetMemberStatus E T u status"
  by (simp add: SetMemberStatus_t_def SetMemberStatus_def alone_simps cong: if_cong)

lemma alone_DeleteRole: "alone (DeleteRole_t E T r) = DeleteRole E T r"
  by (simp add: DeleteRole_t_def DeleteRole_def alone_simps cong: if_cong)

lemma alone_pin_free [alone_simps]: "alone (pin_free_t E s pin x ms) = pin_free E s pin x ms"
  by (induction ms) (simp_all add: alone_simps cong: if_cong)

lemma alone_PinAvailable [alone_simps]: "alone (PinAvailable_t E T pin x) = PinAvailable E T pin x"
  by (simp add: PinAvailable_t_def PinAvailable_def alone_simps cong: if_cong)

lemma alone_hashed_pin [alone_simps]: "alone (hashed_pin_t E T u pin) = hashed_pin E T u pin"
  by (simp add: hashed_pin_t_def hashed_pin_def alone_simps cong: if_cong)

lemma alone_SetOwnPin: "alone (SetOwnPin_t E T u pin) = SetOwnPin E T u pin"
  by (simp add: SetOwnPin_t_def SetOwnPin_def writePinHash_t_def writePinHash_def alone_simps cong: if_cong)

section \<open>Requests of different tenants\<close>

definition memberships_of :: "string \<Rightarrow> world \<Rightarrow> tenant_user list" where
  "memberships_of T w = filter (\<lambda>m. tu_tenant_id m = T) (tenant_users w)"

text \<open>\<open>others T\<close>: what a request of tenant \<open>T\<close> relies on between its calls. \<open>own T\<close>: what each of its
  calls guarantees.\<close>

definition others :: "string \<Rightarrow> world \<Rightarrow> world \<Rightarrow> bool" where
  "others T w w' \<longleftrightarrow> (keyed tu_id tenant_users w \<longrightarrow> keyed tu_id tenant_users w' \<and>
     role_permissions w' = role_permissions w \<and> memberships_of T w' = memberships_of T w)"

definition own :: "string \<Rightarrow> world \<Rightarrow> world \<Rightarrow> bool" where
  "own T w w' \<longleftrightarrow> (keyed tu_id tenant_users w \<longrightarrow> keyed tu_id tenant_users w' \<and>
     role_permissions w' = role_permissions w \<and> (\<forall>U. U \<noteq> T \<longrightarrow> memberships_of U w' = memberships_of U w) \<and>
     (has_manager w T \<longrightarrow> has_manager w' T))"

interpretation others: step_preorder "others T" for T
  by unfold_locales (auto simp: others_def)

lemma own_others: "own T w w' \<Longrightarrow> U \<noteq> T \<Longrightarrow> others U w w'"
  by (simp add: own_def others_def)

lemma role_perms_eq: "role_permissions w' = role_permissions w \<Longrightarrow> role_perms w' r = role_perms w r"
  by (simp add: role_perms_def)

lemma active_managers_eq:
  assumes "role_permissions w' = role_permissions w" and "memberships_of T w' = memberships_of T w"
  shows "active_managers w' T = active_managers w T"
proof -
  have "active_managers v T = filter (\<lambda>m. tu_status m \<noteq> ''suspended'' \<and> manages v m) (memberships_of T v)" for v
    by (simp add: active_managers_def memberships_of_def conj_ac)
  moreover have "manages w' m = manages w m" for m by (simp add: manages_def role_perms_eq [OF assms(1)])
  ultimately show ?thesis by (simp add: assms(2))
qed

lemma own_keeps: "own T w w' \<Longrightarrow> keeps_managers w w'"
  unfolding own_def keeps_managers_def has_manager_def by (metis active_managers_eq)

lemma frame_step:
  assumes "tenant_users w' = tenant_users w" and "role_permissions w' = role_permissions w"
  shows "others T w w' \<and> own T w w'"
proof -
  have m: "memberships_of U w' = memberships_of U w" for U by (simp add: memberships_of_def assms(1))
  have "has_manager w' T = has_manager w T"
    by (simp add: has_manager_def active_managers_eq [OF assms(2) m])
  then show ?thesis by (simp add: others_def own_def keyed_def assms m)
qed

lemma read_step: "same_tables w w' \<Longrightarrow> others T w w' \<and> own T w w'"
proof -
  assume "same_tables w w'"
  then obtain n where w': "w' = w\<lparr>tick := n\<rparr>" by (auto simp: same_tables_def)
  show ?thesis unfolding w' by (rule frame_step) simp_all
qed

subsection \<open>The reads of the guard\<close>

lemma read_t:
  assumes "guarantees same_tables m" and "\<And>s'. others T s s' \<Longrightarrow> wp m (\<lambda>a _. P a) s'"
  shows "rg (others T) (own T) (\<lambda>a s'. others T s s' \<and> P a) (call m) s"
proof (rule others.rg_read [where reading = same_tables])
  show "guarantees same_tables m" by (rule assms(1))
  show "others T v v' \<and> own T v v'" if "same_tables v v'" for v v' by (rule read_step [OF that])
  show "wp m (\<lambda>a _. P a) s'" if "others T s s'" for s' by (rule assms(2) [OF that])
qed

lemma othersD:
  assumes "others T s s'" and "keyed tu_id tenant_users s"
  shows "keyed tu_id tenant_users s'" "role_perms s' r = role_perms s r"
    "active_managers s' T = active_managers s T" "memberships_of T s' = memberships_of T s"
proof -
  from assms have o: "keyed tu_id tenant_users s'" "role_permissions s' = role_permissions s"
    "memberships_of T s' = memberships_of T s" by (simp_all add: others_def)
  show "role_perms s' r = role_perms s r" by (rule role_perms_eq [OF o(2)])
  show "active_managers s' T = active_managers s T" by (rule active_managers_eq [OF o(2,3)])
qed (use assms in \<open>simp_all add: others_def\<close>)

lemma rg_Permissions:
  assumes "keyed tu_id tenant_users s"
  shows "rg (others T) (own T) (\<lambda>x s'. others T s s' \<and> (\<forall>ps. x = Inr ps \<longrightarrow> mset ps = mset (role_perms s r)))
    (Permissions_t E r) s"
  unfolding Permissions_t_def
proof (rule others.rg_attempt_read, rule read_t [where
    P = "\<lambda>x. \<forall>ps. x = Inr ps \<longrightarrow> mset (map rp_permission ps) = mset (role_perms s r)"], goal_cases)
  case 1
  show ?case by (intro guarantees_intro same_tables_tick; simp)
next
  case (2 v)
  show ?case
    by (rule wp_ent_all) (simp_all add: othersD(2) [OF 2 assms, symmetric], simp add: role_perms_def)
next
  case (4 x v)
  then show ?case by (auto intro!: others.rg_result elim: others.trans)
qed simp

lemma rg_roleHasPerm:
  assumes "keyed tu_id tenant_users s"
  shows "rg (others T) (own T)
    (\<lambda>x s'. others T s s' \<and> (\<forall>b. x = Inr b \<longrightarrow> b = Allows (role_perms s r) p)) (roleHasPerm_t E r p) s"
  unfolding roleHasPerm_t_def
proof (rule others.rg_attempt_read [OF rg_Permissions [OF assms]], goal_cases)
  case (2 x v)
  then show ?case using Allows_mset [of x "role_perms s r" p]
    by (auto intro!: others.rg_result elim: others.trans)
qed simp

lemma rg_ResolveRoleID: "rg (others T) (own T) (\<lambda>x s'. others T s s' \<and> True) (ResolveRoleID_t E U slug) s"
proof -
  have read: "rg (others T) (own T) (\<lambda>x s'. others T v s' \<and> True) (call (ent_only E roles P)) v" for P v
    by (rule read_t, intro guarantees_intro same_tables_tick) (simp_all add: wp_def)
  show ?thesis unfolding ResolveRoleID_t_def
    by (intro others.rg_handle_read [OF read] others.rg_attempt_read [OF read] others.rg_result)
      (auto elim: others.trans)
qed

lemma rg_countManagers:
  assumes "keyed tu_id tenant_users s"
  shows "rg (others T) (own T)
    (\<lambda>x s'. others T s s' \<and> (\<forall>n. x = Inr n \<longrightarrow> n = length (active_managers s T))) (countManagers_t E T) s"
  unfolding countManagers_t_def
proof (rule others.rg_attempt_read, rule read_t [where P = "\<lambda>x. \<forall>ms. x = Inr ms \<longrightarrow>
    length (filter (manages s) ms) = length (active_managers s T)"], goal_cases)
  case 1
  show ?case by (intro guarantees_intro same_tables_tick; simp)
next
  case (2 v)
  show ?case
  proof (rule wp_ent_all, goal_cases)
    case (3 n ms)
    have "mset (filter (manages v) ms) =
        mset (filter (manages v) (filter (\<lambda>m. tu_tenant_id m = T \<and> tu_status m \<noteq> ''suspended'') (tenant_users v)))"
      using 3 by (simp only: mset_filter)
    then have "mset (filter (manages v) ms) = mset (active_managers v T)"
      by (simp only: active_managers_def filter_filter conj_assoc)
    moreover have "manages v = manages s"
      by (simp add: fun_eq_iff manages_def othersD(2) [OF 2 assms])
    ultimately show ?case by (metis othersD(3) [OF 2 assms] size_mset sum.inject(2))
  qed simp_all
next
  case (4 ms v)
  note keyed = othersD(1) [OF 4(2) assms]
  have same: "role_perms v r = role_perms s r" for r by (rule othersD(2) [OF 4(2) assms])
  show ?case
  proof (rule others.rg_attempt_read, rule others.rg_for_each [where I = "\<lambda>xs (known, c).
      c = length (filter (manages s) xs) \<and> (\<forall>r b. known r = Some b \<longrightarrow> b = Allows (role_perms s r) PermTenantManage)"
      and P = "\<lambda>x. \<forall>known c. x = Inr (known, c) \<longrightarrow> c = length (filter (manages s) ms)"], goal_cases)
    case (2 xs1 m xs2 acc u)
    obtain known c where acc: "acc = (known, c)" by (cases acc)
    note known = 2(2) [unfolded acc prod.case]
    have keyed: "keyed tu_id tenant_users u" by (rule othersD(1) [OF 2(3) keyed])
    have perms: "role_perms u r = role_perms s r" for r using othersD(2) [OF 2(3) \<open>keyed tu_id tenant_users v\<close>] same by simp
    show ?case
    proof (cases "known (tu_role_id m)")
      case (Some b)
      then show ?thesis using known
        by (auto simp: acc ok_t_def attempt_t_def handle_t_def manages_def)
    next
      case None
      show ?thesis unfolding acc prod.case None option.case
        by (rule others.rg_attempt_read [where P = "\<lambda>x. \<forall>b known. x = Inr (b, known) \<longrightarrow> b = manages s m \<and>
              (\<forall>r b. known r = Some b \<longrightarrow> b = Allows (role_perms s r) PermTenantManage)"],
            rule others.rg_attempt_read [OF rg_roleHasPerm [OF keyed]])
          (use known in \<open>auto intro!: others.rg_result elim: others.trans simp: manages_def perms split: if_splits\<close>)
    qed
  qed (use 4 in \<open>auto intro!: others.rg_result elim: others.trans\<close>)
qed simp

lemma rg_guard:
  assumes "keyed tu_id tenant_users s"
  shows "rg (others T) (own T) (\<lambda>x s'. others T s s' \<and> (x = Inr () \<longrightarrow> b \<longrightarrow> 1 < length (active_managers s T)))
    (if b then attempt_t (countManagers_t E T) id (\<lambda>n. if n \<le> 1 then fail_t ErrLastManager else ok_t ())
     else ok_t ()) s"
proof (cases b)
  case True
  show ?thesis unfolding if_P [OF True]
  proof (rule others.rg_attempt_read [OF rg_countManagers [OF assms]], goal_cases)
    case (2 n v)
    then show ?case by (cases "n \<le> 1") (auto intro!: others.rg_result elim: others.trans)
  qed simp
qed (auto intro: others.rg_result)

lemma rg_demotion_guard:
  assumes "keyed tu_id tenant_users s"
  shows "rg (others T) (own T) (\<lambda>x s'. others T s s' \<and> (x = Inr () \<longrightarrow> b \<longrightarrow>
      Allows (role_perms s r) PermTenantManage \<or> 1 < length (active_managers s T)))
    (if b then attempt_t (roleHasPerm_t E r PermTenantManage) id (\<lambda>willManage.
        if \<not> willManage then
          attempt_t (countManagers_t E T) id (\<lambda>n. if n \<le> 1 then fail_t ErrLastManager else ok_t ())
        else ok_t ()) else ok_t ()) s"
proof (cases b)
  case True
  show ?thesis unfolding if_P [OF True]
  proof (rule others.rg_attempt_read [OF rg_roleHasPerm [OF assms]], goal_cases)
    case (2 c v)
    note v = othersD [OF 2(2) assms]
    show ?case
      by (rule rg_mono [OF rg_guard [OF v(1)]]) (use 2 v(3) in \<open>auto elim: others.trans\<close>)
  qed simp
qed (auto intro: others.rg_result)

lemma rg_membership:
  assumes "keyed tu_id tenant_users s"
  shows "rg (others T) (own T) (\<lambda>x s'. others T s s' \<and> (\<forall>m. x = Inr m \<longrightarrow> m \<in> set (memberships_of T s)))
    (call (ent_only E tenant_users (\<lambda>m. tu_user_id m = u \<and> tu_tenant_id m = T))) s"
proof (rule read_t, goal_cases)
  case 1
  show ?case by (intro guarantees_intro same_tables_tick; simp)
next
  case (2 v)
  show ?case
  proof (rule wp_ent_only, goal_cases)
    case (5 n m)
    then have "m \<in> set (memberships_of T v)" using one_membership [OF 5] by (simp add: memberships_of_def)
    then show ?case by (simp add: othersD(4) [OF 2 assms])
  qed simp_all
qed

subsection \<open>The writes\<close>

lemma own_update:
  assumes keyed: "keyed tu_id tenant_users w" and m: "m \<in> set (memberships_of T w)"
    and f: "\<And>x. tu_id (f x) = tu_id x" "\<And>x. tu_tenant_id (f x) = tu_tenant_id x"
    and guard: "m \<in> set (active_managers w T) \<Longrightarrow>
      1 < length (active_managers w T) \<or> (tu_status (f m) \<noteq> ''suspended'' \<and> manages w (f m))"
  shows "own T w (w\<lparr>tenant_users := map (\<lambda>x. if tu_id x = tu_id m then f x else x) (tenant_users w), tick := n\<rparr>)"
    (is "own T w ?w")
proof -
  have row: "m \<in> set (tenant_users w)" "tu_tenant_id m = T" using m by (auto simp: memberships_of_def)
  have "keeps_managers w ?w" by (rule keeps_managers_update [OF row(1) f]) (use guard row(2) in auto)
  moreover have "memberships_of U ?w = memberships_of U w" if "U \<noteq> T" for U
  proof -
    have "tu_tenant_id x = T" if "x \<in> set (tenant_users w)" "tu_id x = tu_id m" for x
      using keyed_unique [OF keyed that(1) row(1) that(2)] row(2) by simp
    then have "filter (\<lambda>m. tu_tenant_id m = U) (map (\<lambda>x. if tu_id x = tu_id m then f x else x) xs) =
        filter (\<lambda>m. tu_tenant_id m = U) xs" if "set xs \<subseteq> set (tenant_users w)" for xs
      using that \<open>U \<noteq> T\<close> f(2) by (induction xs) auto
    then show ?thesis by (simp add: memberships_of_def)
  qed
  ultimately show ?thesis using keyed by (simp add: own_def keeps_managers_def)
qed

lemma own_delete:
  assumes keyed: "keyed tu_id tenant_users w" and m: "m \<in> set (memberships_of T w)"
    and guard: "m \<in> set (active_managers w T) \<Longrightarrow> 1 < length (active_managers w T)"
  shows "own T w (w\<lparr>tenant_users := filter (\<lambda>x. tu_id x \<noteq> tu_id m) (tenant_users w), tick := n\<rparr>)"
    (is "own T w ?w")
proof -
  have row: "m \<in> set (tenant_users w)" "tu_tenant_id m = T" using m by (auto simp: memberships_of_def)
  have "keeps_managers w ?w" by (rule keeps_managers_delete [OF row(1)]) (use guard row(2) in auto)
  moreover have "memberships_of U ?w = memberships_of U w" if "U \<noteq> T" for U
    using keyed_unique [OF keyed _ row(1)] row(2) that
    by (auto simp: memberships_of_def intro!: filter_cong)
  ultimately show ?thesis using keyed by (simp add: own_def keeps_managers_def)
qed

lemma rg_write:
  assumes "keyed tu_id tenant_users s" and "\<And>v. others T s v \<Longrightarrow> wp m (\<lambda>_ v'. own T v v') v"
  shows "rg (others T) (own T) (\<lambda>_. keyed tu_id tenant_users) (call m) s"
proof (rule others.rg_call, rule wp_mono [OF assms(2)])
  fix v a v' assume "others T s v" "own T v v'"
  then have "keyed tu_id tenant_users v'" using assms(1) by (simp add: others_def own_def)
  then show "own T v v' \<and> (\<forall>z. others T v' z \<longrightarrow> keyed tu_id tenant_users z)"
    using \<open>own T v v'\<close> by (simp add: others_def)
qed

lemma rg_frame:
  assumes "keyed tu_id tenant_users s"
    and "guarantees (\<lambda>w w'. tenant_users w' = tenant_users w \<and> role_permissions w' = role_permissions w) m"
  shows "rg (others T) (own T) (\<lambda>_. keyed tu_id tenant_users) (call m) s"
proof (rule rg_write [OF assms(1)], rule wpI)
  fix v a v' assume "run_state m v = (a, v')"
  from guaranteesD [OF assms(2) this] show "own T v v'" using frame_step by blast
qed

text \<open>After the write nothing is read any more: what follows only needs the keys to stay unique.\<close>

lemma rg_keyed_attempt:
  assumes "rg (others T) (own T) (\<lambda>_. keyed tu_id tenant_users) t s"
    and "\<And>x v. keyed tu_id tenant_users v \<Longrightarrow> rg (others T) (own T) (\<lambda>_. keyed tu_id tenant_users) (k x) v"
  shows "rg (others T) (own T) (\<lambda>_. keyed tu_id tenant_users) (attempt_t t h k) s"
  by (rule others.rg_attempt, rule rg_mono [OF assms(1)]) (auto simp: others_def assms(2) split: sum.split)

lemma rg_keyed_handle:
  assumes "rg (others T) (own T) (\<lambda>_. keyed tu_id tenant_users) t s"
    and "\<And>e v. keyed tu_id tenant_users v \<Longrightarrow> rg (others T) (own T) (\<lambda>_. keyed tu_id tenant_users) (h e) v"
    and "\<And>x v. keyed tu_id tenant_users v \<Longrightarrow> rg (others T) (own T) (\<lambda>_. keyed tu_id tenant_users) (k x) v"
  shows "rg (others T) (own T) (\<lambda>_. keyed tu_id tenant_users) (handle_t t h k) s"
  by (rule others.rg_handle, rule rg_mono [OF assms(1)]) (auto simp: assms(2,3) split: sum.split)

lemma rg_keyed_then:
  assumes "rg (others T) (own T) (\<lambda>_. keyed tu_id tenant_users) t s"
    and "\<And>x v. keyed tu_id tenant_users v \<Longrightarrow> rg (others T) (own T) (\<lambda>_. keyed tu_id tenant_users) (k x) v"
  shows "rg (others T) (own T) (\<lambda>_. keyed tu_id tenant_users) (then_t t k) s"
  by (rule others.rg_then, rule rg_mono [OF assms(1)]) (rule assms(2))

lemma rg_keyed_result:
  assumes "keyed tu_id tenant_users s"
  shows "rg (others T) (own T) (\<lambda>_. keyed tu_id tenant_users) (ok_t x) s"
    "rg (others T) (own T) (\<lambda>_. keyed tu_id tenant_users) (fail_t e) s"
    "rg (others T) (own T) (\<lambda>_. keyed tu_id tenant_users) (Done y) s"
  using assms by (auto simp: others_def ok_t_def fail_t_def)

lemma rg_revoke:
  assumes "keyed tu_id tenant_users s"
  shows "rg (others T) (own T) (\<lambda>_. keyed tu_id tenant_users) (revoke_owned_tokens_t E U u) s"
  unfolding revoke_owned_tokens_t_def
proof (rule rg_keyed_then [OF rg_frame [OF assms]], goal_cases)
  case 1
  show ?case by (intro guarantees_intro; simp)
next
  case (2 now v)
  then show ?case by (rule rg_frame) (intro guarantees_intro; simp)
qed

lemma rg_cleanup:
  assumes "keyed tu_id tenant_users s"
  shows "rg (others T) (own T) (\<lambda>_. keyed tu_id tenant_users) (then_t (revoke_owned_tokens_t E T u) (\<lambda>_.
      handle_t (call (ent_get E tenants t_id T)) (\<lambda>_. ok_t ()) (\<lambda>t.
        then_t (call (in_schema E (t_schema_name t)
                 (ent_delete E (profiles (t_schema_name t)) (profiles_update (t_schema_name t))
                   (\<lambda>_ _. False) (\<lambda>p. p_id p = u)))) (\<lambda>_. ok_t ())))) s"
proof (intro rg_keyed_then [OF rg_revoke [OF assms]] rg_keyed_handle rg_keyed_then rg_frame rg_keyed_result; assumption?)
  fix v show "guarantees (\<lambda>w w'. tenant_users w' = tenant_users w \<and> role_permissions w' = role_permissions w)
      (ent_get E tenants t_id T)"
    by (intro guarantees_intro; simp)
  fix t show "guarantees (\<lambda>w w'. tenant_users w' = tenant_users w \<and> role_permissions w' = role_permissions w)
      (in_schema E (t_schema_name t) (ent_delete E (profiles (t_schema_name t))
        (profiles_update (t_schema_name t)) (\<lambda>_ _. False) (\<lambda>p. p_id p = u)))"
    by (intro guarantees_intro; simp)
qed

subsection \<open>A whole request\<close>

lemma manages_stable: "others T s v \<Longrightarrow> keyed tu_id tenant_users s \<Longrightarrow> manages v m = manages s m"
  by (simp add: manages_def othersD(2))

lemma rg_RemoveMember:
  assumes "keyed tu_id tenant_users s"
  shows "rg (others T) (own T) (\<lambda>_. keyed tu_id tenant_users) (RemoveMember_t E T u) s"
proof (cases "T = [] \<or> u = []")
  case True
  then show ?thesis using assms by (simp add: RemoveMember_t_def rg_keyed_result)
next
  case False
  show ?thesis unfolding RemoveMember_t_def if_not_P [OF False]
  proof (rule others.rg_attempt_read [OF rg_membership [OF assms]], goal_cases)
    case (2 m v)
    note keyed = othersD(1) [OF 2(2) assms]
    have m: "m \<in> set (memberships_of T v)" using 2 by (simp add: othersD(4) [OF 2(2) assms])
    show ?case
    proof (rule others.rg_attempt_read [OF rg_roleHasPerm [OF keyed]], goal_cases)
      case b: (2 b y)
      note yk = othersD(1) [OF b(2) keyed]
      show ?case
      proof (rule others.rg_attempt_read [OF rg_guard [OF yk]], goal_cases)
        case guard: (2 unit z)
        note zk = othersD(1) [OF guard(2) yk]
        show ?case
        proof (rule rg_keyed_attempt [OF rg_write [OF zk]], rule wp_ent_delete_one, goal_cases)
          case (3 z' n)
          note o = others.trans [OF b(2) others.trans [OF guard(2) 3(1)]]
          have "active_managers z' T = active_managers y T"
            using othersD(3) [OF o keyed] othersD(3) [OF b(2) keyed] by simp
          then have "own T z' (z'\<lparr>tenant_users := filter (\<lambda>x. tu_id x \<noteq> tu_id m) (tenant_users z'), tick := n\<rparr>)"
            using b(1) guard(1) othersD(1,4) [OF o keyed] m manages_stable [OF b(2) keyed, of m]
            by (intro own_delete) (auto simp: active_managers_mem manages_def)
          then show ?case by (simp add: table_put)
        next
          case (2 z' n)
          have "m \<in> set (memberships_of T z')"
            using othersD(4) [OF others.trans [OF b(2) others.trans [OF guard(2) 2(1)]] keyed] m by simp
          then show ?case using 2(2) by (auto simp: memberships_of_def filter_empty_conv)
        next
          case (4 x z')
          then show ?case by (rule rg_cleanup)
        qed (simp add: frame_step)
      qed (use yk in \<open>simp add: othersD(1)\<close>)
    qed (use keyed in \<open>simp add: othersD(1)\<close>)
  qed (use assms in \<open>simp add: othersD(1)\<close>)
qed

lemma rg_SetMemberStatus:
  assumes "keyed tu_id tenant_users s"
  shows "rg (others T) (own T) (\<lambda>_. keyed tu_id tenant_users) (SetMemberStatus_t E T u status) s"
proof (cases "(T = [] \<or> u = []) \<or> (status \<noteq> ''active'' \<and> status \<noteq> ''suspended'')")
  case True
  then show ?thesis using assms by (auto simp: SetMemberStatus_t_def rg_keyed_result)
next
  case False
  then have C: "\<not> (T = [] \<or> u = [])" "\<not> (status \<noteq> ''active'' \<and> status \<noteq> ''suspended'')" by blast+
  show ?thesis unfolding SetMemberStatus_t_def if_not_P [OF C(1)] if_not_P [OF C(2)]
  proof (rule others.rg_attempt_read [OF rg_membership [OF assms]], goal_cases)
    case (2 m v)
    note keyed = othersD(1) [OF 2(2) assms]
    have m: "m \<in> set (memberships_of T v)" using 2 by (simp add: othersD(4) [OF 2(2) assms])
    have guard: "rg (others T) (own T)
        (\<lambda>x s'. others T v s' \<and> (x = Inr () \<longrightarrow> status = ''suspended'' \<longrightarrow> manages v m \<longrightarrow> 1 < length (active_managers v T)))
        (if status = ''suspended'' then attempt_t (roleHasPerm_t E (tu_role_id m) PermTenantManage) id (\<lambda>isManager.
           if isManager then attempt_t (countManagers_t E T) id (\<lambda>n. if n \<le> 1 then fail_t ErrLastManager else ok_t ())
           else ok_t ()) else ok_t ()) v"
    proof (cases "status = ''suspended''")
      case True
      show ?thesis unfolding if_P [OF True]
      proof (rule others.rg_attempt_read [OF rg_roleHasPerm [OF keyed]], goal_cases)
        case (2 b y)
        show ?case
          by (rule rg_mono [OF rg_guard [OF othersD(1) [OF 2(2) keyed]]])
            (use 2 othersD(3) [OF 2(2) keyed] in \<open>auto simp: manages_def elim: others.trans\<close>)
      qed simp
    qed (auto intro: others.rg_result)
    show ?case
    proof (cases "tu_status m = status")
      case True
      then show ?thesis using keyed by (simp add: rg_keyed_result)
    next
      case new: False
      show ?thesis unfolding if_not_P [OF new]
      proof (rule others.rg_attempt_read [OF guard], goal_cases)
        case g: (2 unit y)
        note yk = othersD(1) [OF g(2) keyed]
        show ?case
        proof (rule rg_keyed_attempt [OF rg_write [OF yk]], rule wp_ent_update_one, goal_cases)
          case (2 y' n x xs)
          note o = others.trans [OF g(2) 2(1)]
          have "own T y' (y'\<lparr>tenant_users := map (\<lambda>x. if tu_id x = tu_id m then x\<lparr>tu_status := status\<rparr> else x)
              (tenant_users y'), tick := n\<rparr>)"
            using othersD(1,3,4) [OF o keyed] m g(1) manages_stable [OF o keyed, of m] C(2)
            by (intro own_update) (auto simp: active_managers_mem manages_def)
          then show ?case by (simp add: table_put)
        next
          case (3 x y')
          then show ?case by (cases "status = ''suspended''") (auto intro!: rg_keyed_then [OF rg_revoke] rg_keyed_result)
        qed (simp add: frame_step)
      qed (use keyed in \<open>simp add: othersD(1)\<close>)
    qed
  qed (use assms in \<open>simp add: othersD(1)\<close>)
qed

lemma rg_UpdateMemberRole:
  assumes "keyed tu_id tenant_users s"
  shows "rg (others T) (own T) (\<lambda>_. keyed tu_id tenant_users) (UpdateMemberRole_t E T u slug) s"
proof (cases "T = [] \<or> u = []")
  case True
  then show ?thesis using assms by (simp add: UpdateMemberRole_t_def rg_keyed_result)
next
  case False
  show ?thesis unfolding UpdateMemberRole_t_def if_not_P [OF False]
  proof (rule others.rg_attempt_read [OF rg_membership [OF assms]], goal_cases)
    case (2 m v)
    note keyed = othersD(1) [OF 2(2) assms]
    have m: "m \<in> set (memberships_of T v)" using 2 by (simp add: othersD(4) [OF 2(2) assms])
    show ?case
    proof (rule others.rg_attempt_read [OF rg_ResolveRoleID], goal_cases)
      case r: (2 newRole x)
      note xk = othersD(1) [OF r(2) keyed]
      show ?case
      proof (rule others.rg_attempt_read [OF rg_roleHasPerm [OF xk]], goal_cases)
        case b: (2 b y)
        note yk = othersD(1) [OF b(2) xk]
        show ?case
        proof (rule others.rg_attempt_read [OF rg_demotion_guard [OF yk]], goal_cases)
          case g: (2 unit z)
          note zk = othersD(1) [OF g(2) yk]
          show ?case
          proof (rule rg_keyed_attempt [OF rg_write [OF zk]], rule wp_ent_update_one, goal_cases)
            case (2 z' n i "is")
            note o = others.trans [OF r(2) others.trans [OF b(2) others.trans [OF g(2) 2(1)]]]
              and y = others.trans [OF g(2) 2(1)]
            have b: "b = manages z' m"
              using b(1) othersD(2) [OF others.trans [OF b(2) y] xk] by (simp add: manages_def)
            have "own T z' (z'\<lparr>tenant_users := map (\<lambda>x. if tu_id x = tu_id m then x\<lparr>tu_role_id := newRole\<rparr> else x)
                (tenant_users z'), tick := n\<rparr>)"
              using othersD(1,4) [OF o keyed] othersD(2,3) [OF y yk] m g(1) b
              by (intro own_update) (auto simp: active_managers_mem manages_def)
            then show ?case by (simp add: table_put)
          next
            case (3 x z')
            then show ?case by (rule rg_keyed_result)
          qed (simp add: frame_step)
        qed (use yk in \<open>simp add: othersD(1)\<close>)
      qed (use xk in \<open>simp add: othersD(1)\<close>)
    qed (use keyed in \<open>simp add: othersD(1)\<close>)
  qed (use assms in \<open>simp add: othersD(1)\<close>)
qed

lemma rg_request:
  "keyed tu_id tenant_users s \<Longrightarrow> rg (others T) (own T) (\<lambda>_. keyed tu_id tenant_users) (request_t E T r) s"
  by (cases r) (simp_all add: rg_UpdateMemberRole rg_RemoveMember rg_SetMemberStatus)

lemma rg_session:
  "keyed tu_id tenant_users s \<Longrightarrow> rg (others T) (own T) (\<lambda>_. keyed tu_id tenant_users) (session_t T rs) s"
proof (induction rs arbitrary: s)
  case (Cons r rs)
  then show ?case unfolding session_t.simps
    by (intro rg_keyed_then [OF rg_request] rg_keyed_then rg_keyed_result)
qed (simp add: rg_keyed_result del: rg.simps)

section \<open>What every single call keeps\<close>

text \<open>The calls a membership request is made of. Whatever each of them keeps, every schedule of any
  number of requests keeps.\<close>

locale member_calls =
  fixes R :: "world \<Rightarrow> world \<Rightarrow> bool"
  assumes reading: "same_tables w w' \<Longrightarrow> R w w'"
    and change_role: "guarantees R (ent_update_one E tenant_users tenant_users_update tu_id no_clash i
      (\<lambda>x. x\<lparr>tu_role_id := r\<rparr>))"
    and change_status: "status \<in> {''active'', ''suspended''} \<Longrightarrow>
      guarantees R (ent_update_one E tenant_users tenant_users_update tu_id no_clash i (\<lambda>x. x\<lparr>tu_status := status\<rparr>))"
    and remove: "guarantees R (ent_delete_one E tenant_users tenant_users_update (\<lambda>_ _. False) tu_id i)"
    and revoke: "guarantees R (ent_update E device_tokens device_tokens_update P (\<lambda>d. d\<lparr>dt_revoked_at := Some now\<rparr>))"
    and clean: "guarantees R (in_schema E s
      (ent_delete E (profiles s) (profiles_update s) (\<lambda>_ _. False) (\<lambda>p. p_id p = u)))"
begin

lemma read: "guarantees same_tables m \<Longrightarrow> obeys R (call m)"
  by (rule obeys_call) (auto simp: guarantees_def reading)

lemma ents: "obeys R (call (ent_all E tenant_users P))" "obeys R (call (ent_only E tenant_users P))"
  "obeys R (call (ent_all E role_permissions P'))" "obeys R (call (ent_only E roles Q))"
  "obeys R (call (ent_get E tenants t_id i))" "obeys R (call (time_now E))"
  by (rule read; intro guarantees_intro same_tables_tick; simp)+

lemma lookups: "obeys R (roleHasPerm_t E r p)" "obeys R (ResolveRoleID_t E T slug)"
  unfolding roleHasPerm_t_def Permissions_t_def ResolveRoleID_t_def by (intro obeys_intro ents)+

lemma count: "obeys R (countManagers_t E T)"
  unfolding countManagers_t_def by (intro obeys_intro ents lookups)

lemma revokes: "obeys R (revoke_owned_tokens_t E T u)"
  unfolding revoke_owned_tokens_t_def by (intro obeys_intro ents revoke)

lemma request: "obeys R (request_t E T r)"
proof (cases r)
  case (ChangeRole u slug)
  show ?thesis unfolding ChangeRole request_t.simps UpdateMemberRole_t_def
    by (intro obeys_intro ents lookups count change_role)
next
  case (Remove u)
  show ?thesis unfolding Remove request_t.simps RemoveMember_t_def
    by (intro obeys_intro ents lookups count revokes remove clean)
next
  case (SetStatus u status)
  show ?thesis unfolding SetStatus request_t.simps SetMemberStatus_t_def
    by (intro obeys_intro ents lookups count revokes change_status) auto
qed

end

text \<open>No membership request adds a member.\<close>

definition member_rows :: "world \<Rightarrow> (string \<times> string \<times> string) set" where
  "member_rows w = (\<lambda>m. (tu_id m, tu_user_id m, tu_tenant_id m)) ` set (tenant_users w)"

definition no_joins :: "world \<Rightarrow> world \<Rightarrow> bool" where
  "no_joins w w' \<longleftrightarrow> member_rows w' \<subseteq> member_rows w"

interpretation joins: step_preorder no_joins
  by unfold_locales (auto simp: no_joins_def)

lemma no_joins_rows:
  "no_joins w (w\<lparr>tick := n\<rparr>)" "no_joins w (w\<lparr>tenant_users := filter P (tenant_users w), tick := n\<rparr>)"
  "no_joins w (w\<lparr>device_tokens := ds, tick := n\<rparr>)" "no_joins w (profiles_update s f (w\<lparr>tick := n\<rparr>))"
  by (auto simp: no_joins_def member_rows_def)

lemma no_joins_map:
  "(\<And>x. tu_id (f x) = tu_id x \<and> tu_user_id (f x) = tu_user_id x \<and> tu_tenant_id (f x) = tu_tenant_id x) \<Longrightarrow>
   no_joins w (w\<lparr>tenant_users := map (\<lambda>x. if P x then f x else x) (tenant_users w), tick := n\<rparr>)"
  by (auto simp: no_joins_def member_rows_def image_iff)

interpretation join_calls: member_calls no_joins
proof (unfold_locales, goal_cases)
  case (1 w w')
  then show ?case by (metis no_joins_rows(1) same_tables_def)
qed (intro guarantees_intro; auto simp: table_put no_joins_rows intro!: no_joins_map)+

interpretation wellformed: member_calls "preserves legal"
proof (unfold_locales, goal_cases)
  case (1 w w')
  then show ?case by (metis legal_step same_tables_def)
qed (intro legal_memberships.update_one legal_memberships.delete_one legal_tokens.update legal_free guarantees_in_schema;
    simp add: legal_membership_def legal_token_def)+

subsection \<open>A member who was removed\<close>

definition not_member :: "world \<Rightarrow> string \<Rightarrow> string \<Rightarrow> bool" where
  "not_member w T u \<longleftrightarrow> list_all (\<lambda>x. tu_user_id x \<noteq> u \<or> tu_tenant_id x \<noteq> T) (tenant_users w)"

lemma not_member_rows: "not_member w T u \<longleftrightarrow> (\<forall>i. (i, u, T) \<notin> member_rows w)"
  by (auto simp: not_member_def member_rows_def list_all_iff)

lemma joins_read:
  "obeys no_joins t \<Longrightarrow> rg no_joins no_joins (\<lambda>_ v. no_joins s v \<and> True) t s"
  using joins.rg_obeys by simp

lemma rg_after_removal:
  assumes "obeys no_joins t" and "not_member s T u"
  shows "rg no_joins no_joins (\<lambda>_ v. not_member v T u) t s"
  by (rule rg_mono [OF joins.rg_obeys [OF assms(1)]])
    (use assms(2) in \<open>auto simp: no_joins_def not_member_rows\<close>)

lemma rg_removal:
  "rg no_joins no_joins (\<lambda>x v. x = Inr () \<longrightarrow> not_member v T u) (RemoveMember_t E T u) s"
proof (cases "T = [] \<or> u = []")
  case True
  then show ?thesis by (auto simp: RemoveMember_t_def intro!: joins.rg_result)
next
  case False
  let ?only = "\<lambda>m w. \<forall>i. (i, u, T) \<in> member_rows w \<longrightarrow> i = tu_id m"
  have stable: "?only m w" if "?only m v" "no_joins v w" for m v w using that by (auto simp: no_joins_def)
  show ?thesis unfolding RemoveMember_t_def if_not_P [OF False]
  proof (rule joins.rg_attempt, rule rg_mono [where Q = "\<lambda>x v. \<forall>m. x = Inr m \<longrightarrow> ?only m v"], goal_cases)
    case 1
    show ?case
    proof (rule joins.rg_call, rule wp_ent_only, goal_cases)
      case (5 v n m)
      have "?only m v"
        using arg_cong [OF 5(2), of set] by (auto simp: member_rows_def)
      then show ?case using stable no_joins_rows(1) by blast
    qed (auto simp: no_joins_rows)
  next
    case (2 x v)
    show ?case
    proof (cases x)
      case (Inr m)
      then have only: "?only m v" using 2 by simp
      show ?thesis unfolding Inr sum.case
      proof (rule joins.rg_attempt_read [OF joins_read [OF join_calls.lookups(1)]], goal_cases)
        case b: (2 b y)
        show ?case
        proof (rule joins.rg_attempt_read [OF joins_read], goal_cases)
          case 1
          show ?case by (intro obeys_intro join_calls.count)
        next
          case g: (3 unit z)
          show ?case
          proof (rule joins.rg_attempt, rule joins.rg_call, rule wp_ent_delete_one, goal_cases)
            case (3 v' n)
            have "?only m v'" using stable [OF only] b(2) g(2) 3(1) joins.trans by blast
            then have "not_member (v'\<lparr>tenant_users := filter (\<lambda>x. tu_id x \<noteq> tu_id m) (tenant_users v'), tick := n\<rparr>) T u"
              by (auto simp: not_member_rows member_rows_def)
            then have "not_member w T u" if "no_joins (v'\<lparr>tenant_users := filter (\<lambda>x. tu_id x \<noteq> tu_id m)
                (tenant_users v'), tick := n\<rparr>) w" for w
              using that by (auto simp: not_member_rows no_joins_def)
            then show ?case unfolding table_put sum.case
              by (auto simp: no_joins_rows
                  intro!: rg_mono [OF rg_after_removal] obeys_intro join_calls.revokes join_calls.ents join_calls.clean)
          next
            case (2 v' n)
            then show ?case by (simp add: table_put no_joins_rows)
          qed (simp add: no_joins_rows)
        qed simp
      qed simp
    qed simp
  qed
qed

section \<open>Properties\<close>

lemma tenants_in_parallel:
  assumes "keyed tu_id tenant_users w" and "distinct (map fst sessions)"
    and "pool_step\<^sup>*\<^sup>* (map (\<lambda>(T, rs). session_t T rs) sessions, w) (ts, w')"
  shows "keeps_managers w w'"
proof -
  let ?T = "\<lambda>i. fst (sessions ! i)"
  have "own (?T i) v v' \<Longrightarrow> others (?T j) v v'" if "i < length sessions" "j < length sessions" "i \<noteq> j" for i j v v'
    using assms(2) that by (intro own_others) (auto simp: distinct_conv_nth)
  then show ?thesis
    using pool_rg [where R = "\<lambda>i. others (?T i)" and G = "\<lambda>i. own (?T i)" and K = keeps_managers
        and Q = "\<lambda>_ _. keyed tu_id tenant_users", OF _ managers.step_preorder_axioms _ own_keeps _ assms(3)]
      rg_session [OF assms(1)] others.step_preorder_axioms
    by (simp add: case_prod_unfold)
qed

text \<open>The stored data stay well formed, whatever requests of whatever tenants interleave.\<close>

lemma requests_keep_data_wellformed:
  assumes "pool_step\<^sup>*\<^sup>* (map (\<lambda>(E, T, r). request_t E T r) rs, w) (ts, w')" and "legal w"
  shows "legal w'"
  using pool_obeys [OF kept.step_preorder_axioms _ assms(1), of legal] wellformed.request assms(2)
  by (auto simp: case_prod_unfold)

text \<open>A membership request that no other request interrupts is the operation of the sequential
  model: the calls of a pool with one request lead to the result and the database of
  \<open>UpdateMemberRole\<close>, \<open>RemoveMember\<close> or \<open>SetMemberStatus\<close>, and to nothing else.\<close>

lemma uninterrupted_request:
  "pool_step\<^sup>*\<^sup>* ([request_t E T r], w) ([Done x], w') \<longleftrightarrow> run_state (request E T r) w = (x, w')"
proof -
  have "alone (request_t E T r) = request E T r"
    by (cases r) (simp_all add: alone_UpdateMemberRole alone_RemoveMember alone_SetMemberStatus)
  then show ?thesis by (simp add: pool_single)
qed

text \<open>C8. Requests of other tenants cannot take a tenant's last manager, however their calls mix: when
  each of any number of tenants runs a sequence of role changes, removals and suspensions, and the
  calls of these sequences interleave in any order and under any faults, every tenant that had an
  active manager before has one at every moment.\<close>

theorem tenants_keep_managers_in_parallel:
  assumes "keyed tu_id tenant_users w" and "distinct (map fst sessions)" and "has_manager w T"
    and "pool_step\<^sup>*\<^sup>* (map (\<lambda>(T, rs). session_t T rs) sessions, w) (ts, w')"
  shows "has_manager w' T"
  using tenants_in_parallel [OF assms(1,2,4)] assms(1,3) by (simp add: keeps_managers_def)

theorem tenants_keep_managers_in_parallel_witness:
  "has_manager (snd (schedule [0, 1, 0, 1, 0, 0, 1, 0, 0, 0, 0, 0, 0, 0, 0]
     (map (\<lambda>(T, rs). session_t T rs)
        [(''t1'', [(env0, Remove ''u2''), (env0, Remove ''u1'')]), (''t2'', [(env0, SetStatus ''u2'' ''suspended'')])],
      shop))) ''t1''" (is "has_manager (snd (schedule ?s (map ?f ?sessions, shop))) _")
proof -
  have steps: "pool_step\<^sup>*\<^sup>* (map ?f ?sessions, shop)
      (fst (schedule ?s (map ?f ?sessions, shop)), snd (schedule ?s (map ?f ?sessions, shop)))"
    using schedule_steps [of "(map ?f ?sessions, shop)" ?s] by (simp only: prod.collapse)
  show ?thesis
    by (rule tenants_keep_managers_in_parallel [OF shop_keyed _ shop_has_manager steps]) simp
qed

text \<open>C10. A removal is final: when \<open>RemoveMember\<close> has answered without error, the user has no
  membership in that tenant, whatever other membership requests, on the same tenant or the same
  user, ran between its calls or have run since.\<close>

theorem removal_is_final:
  assumes "pool_step\<^sup>*\<^sup>* (map (\<lambda>(E, T, r). request_t E T r) rs, w) (ts, w')"
    and "i < length rs" and "rs ! i = (E, T, Remove u)" and "result_of (ts ! i) = Some (Inr ())"
  shows "not_member w' T u"
proof -
  let ?R = "\<lambda>_. no_joins" and ?Q = "\<lambda>j x v. j = i \<longrightarrow> x = Inr () \<longrightarrow> not_member v T u"
  have "rg no_joins no_joins (?Q j) (map (\<lambda>(E, T, r). request_t E T r) rs ! j) w" if "j < length rs" for j
  proof (cases "j = i")
    case True
    then show ?thesis using rg_removal [of T u E w] assms(2,3) by simp
  next
    case False
    show ?thesis
      by (rule rg_mono [OF joins.rg_obeys]) (use that False in \<open>auto simp: case_prod_unfold join_calls.request\<close>)
  qed
  then have "\<forall>j < length rs. rg no_joins no_joins (?Q j) (ts ! j) w'"
    using pool_rg [where R = ?R and G = ?R and K = no_joins and Q = ?Q,
        OF joins.step_preorder_axioms joins.step_preorder_axioms _ _ _ assms(1)] by simp
  then have "rg no_joins no_joins (?Q i) (ts ! i) w'" using assms(2) by blast
  from rg_result_of [OF joins.step_preorder_axioms this assms(4)] show ?thesis by simp
qed

text \<open>A shop with two managers.\<close>

definition duo :: world where
  "duo = shop\<lparr>tenant_users := map (\<lambda>m. m\<lparr>tu_role_id := ''r1''\<rparr>) (tenant_users shop)\<rparr>"

definition removals :: "(world, error + unit) thread list" where
  "removals = [RemoveMember_t env0 ''t1'' ''u1'', RemoveMember_t env0 ''t1'' ''u2'']"

text \<open>Each removal reads the member, the permissions of the role and the managers: four calls. Then
  both write.\<close>

definition crossed :: "nat list" where
  "crossed = [0, 0, 0, 0, 1, 1, 1, 1, 0, 0, 0, 0, 0, 1, 1, 1, 1, 1]"

lemma crossed_removals: "map result_of (fst (schedule crossed (removals, duo))) = [Some (Inr ()), Some (Inr ())]"
  by code_simp

lemma crossed_no_manager: "\<not> has_manager (snd (schedule crossed (removals, duo))) ''t1''"
  by code_simp

text \<open>The check that a role is not in use is a read before the write, and nothing holds the rows in between:
  while one request deletes the role, another assigns it,
  and the member is left with a role that does not exist.\<close>

definition assignment :: "(world, error + unit) thread list" where
  "assignment = [DeleteRole_t env0 ''t1'' ''r3'', UpdateMemberRole_t env0 ''t1'' ''u2'' ''temp'']"

lemma uninterrupted_DeleteRole:
  "pool_step\<^sup>*\<^sup>* ([DeleteRole_t E T r], w) ([Done x], w') \<longleftrightarrow> run_state (DeleteRole E T r) w = (x, w')"
  by (simp add: pool_single alone_DeleteRole)

definition crossed_assignment :: "(world, error + unit) thread list \<times> world" where
  "crossed_assignment = schedule [0, 0, 1, 1, 1, 1, 0, 0] (assignment, shop)"

lemma crossed_assignment_facts:
  "map result_of (fst crossed_assignment) = [Some (Inr ()), Some (Inr ())]"
  "list_ex (\<lambda>m. tu_user_id m = ''u2'' \<and> tu_role_id m = ''r3'') (tenant_users (snd crossed_assignment))"
  "list_all (\<lambda>r. r_id r \<noteq> ''r3'') (roles (snd crossed_assignment))"
  by code_simp+

theorem role_deleted_while_assigned:
  "\<exists>ts w'. pool_step\<^sup>*\<^sup>* (assignment, shop) (ts, w') \<and> map result_of ts = [Some (Inr ()), Some (Inr ())] \<and>
     list_ex (\<lambda>m. tu_user_id m = ''u2'' \<and> tu_role_id m = ''r3'') (tenant_users w') \<and>
     list_all (\<lambda>r. r_id r \<noteq> ''r3'') (roles w')"
proof (intro exI conjI)
  show "pool_step\<^sup>*\<^sup>* (assignment, shop) (fst crossed_assignment, snd crossed_assignment)"
    unfolding crossed_assignment_def prod.collapse by (rule schedule_steps)
qed (rule crossed_assignment_facts)+

text \<open>So is the check that a PIN is free: two members who choose the same PIN at the same time both get
  it, and at the shared till the second member's PIN then unlocks as the first.\<close>

definition choices :: "(world, error + unit) thread list" where
  "choices = [SetOwnPin_t env0 ''t1'' ''u1'' ''7777'', SetOwnPin_t env0 ''t1'' ''u2'' ''7777'']"

lemma uninterrupted_SetOwnPin:
  "pool_step\<^sup>*\<^sup>* ([SetOwnPin_t E T u pin], w) ([Done x], w') \<longleftrightarrow> run_state (SetOwnPin E T u pin) w = (x, w')"
  by (simp add: pool_single alone_SetOwnPin)

theorem members_take_the_same_pin:
  "\<exists>ts w'. pool_step\<^sup>*\<^sup>* (choices, shop) (ts, w') \<and> map result_of ts = [Some (Inr ()), Some (Inr ())] \<and>
     fst (run_state (VerifyOwnPin env0 ''t1'' ''u2'' ''7777'') w') = Inr True \<and>
     map_sum id rm_user_id (fst (run_state (ResolvePin env0 ''t1'' ''7777'') w')) = Inr ''u1''"
proof -
  let ?out = "schedule [0, 0, 0, 0, 1, 1, 1, 1, 0, 0, 1, 1] (choices, shop)"
  have "map result_of (fst ?out) = [Some (Inr ()), Some (Inr ())]"
    and "fst (run_state (VerifyOwnPin env0 ''t1'' ''u2'' ''7777'') (snd ?out)) = Inr True"
    and "map_sum id rm_user_id (fst (run_state (ResolvePin env0 ''t1'' ''7777'') (snd ?out))) = Inr ''u1''"
    by code_simp+
  then show ?thesis using schedule_steps [of "(choices, shop)"] by (metis prod.collapse)
qed

theorem removal_is_final_witness:
  "not_member (snd (schedule crossed (map (\<lambda>(E, T, r). request_t E T r)
     [(env0, ''t1'', Remove ''u1''), (env0, ''t1'', Remove ''u2'')], duo))) ''t1'' ''u1''"
proof -
  have pool: "map (\<lambda>(E, T, r). request_t E T r) [(env0, ''t1'', Remove ''u1''), (env0, ''t1'', Remove ''u2'')] = removals"
    by (simp add: removals_def)
  have steps: "pool_step\<^sup>*\<^sup>* (removals, duo)
      (fst (schedule crossed (removals, duo)), snd (schedule crossed (removals, duo)))"
    using schedule_steps [of "(removals, duo)" crossed] by simp
  have "result_of (fst (schedule crossed (removals, duo)) ! 0) = Some (Inr ())"
    using arg_cong [OF crossed_removals, of "\<lambda>xs. xs ! 0"] arg_cong [OF crossed_removals, of length] by simp
  then show ?thesis
    unfolding pool using removal_is_final [of "[(env0, ''t1'', Remove ''u1''), (env0, ''t1'', Remove ''u2'')]",
        unfolded pool, OF steps, of 0 env0 "''t1''" "''u1''"] by simp
qed

end
