(* ===== verification/Races.thy ===== *)
theory Races
  imports Interleaving
begin

text \<open>
  What the missing locks of \<open>src/internal/auth/member_manage.go\<close> allow, for any database. A request
  can be followed up to a chosen point while the others wait: \<open>runs_to t s u s'\<close> says that the thread
  \<open>t\<close>, started in \<open>s\<close>, can make calls that leave the thread \<open>u\<close> and the state \<open>s'\<close>. \<open>pool_phase\<close>
  brings every request of a pool to its point, one after the other. With it the requests that
  remove the managers of a tenant are all brought past the guard first, and only then to their end.
\<close>

section \<open>A thread up to a point\<close>

definition runs_to :: "('s, 'a) thread \<Rightarrow> 's \<Rightarrow> ('s, 'a) thread \<Rightarrow> 's \<Rightarrow> bool" where
  "runs_to t s u s' \<longleftrightarrow> (\<forall>ts i. i < length ts \<longrightarrow> ts ! i = t \<longrightarrow> pool_step\<^sup>*\<^sup>* (ts, s) (ts[i := u], s'))"

lemma runs_to_trans: "runs_to t s u s' \<Longrightarrow> runs_to u s' v s'' \<Longrightarrow> runs_to t s v s''"
  unfolding runs_to_def by (metis length_list_update list_update_overwrite nth_list_update_eq rtranclp_trans)

lemma runs_to_end: "run_state (alone t) s = (a, s') \<Longrightarrow> runs_to t s (Done a) s'"
  unfolding runs_to_def by (blast intro: pool_run)

lemma runs_to_then: "run_state (alone t) s = (a, s') \<Longrightarrow> runs_to (then_t t k) s (k a) s'"
proof (induction t arbitrary: s)
  case (Done b)
  then have "b = a" "s' = s" by auto
  have "ts[i := k a] = ts" if "ts ! i = k a" for ts i using that by (metis list_update_id)
  then show ?case by (simp add: runs_to_def \<open>b = a\<close> \<open>s' = s\<close>)
next
  case (Call m)
  obtain t v where m: "run_state m s = (t, v)" by fastforce
  have "runs_to (then_t (Call m) k) s (then_t t k) v"
    unfolding runs_to_def
  proof (intro allI impI)
    fix ts :: "('b, 'c) thread list" and i
    assume "i < length ts" "ts ! i = then_t (Call m) k"
    then show "pool_step\<^sup>*\<^sup>* (ts, s) (ts[i := then_t t k], v)"
      by (intro r_into_rtranclp pool_step.step [where m = "map_state (\<lambda>t. then_t t k) m"]) (simp_all add: m)
  qed
  moreover have "run_state (alone t) v = (a, s')" using Call.prems m by (simp add: run_alone_Call del: alone.simps)
  then have "runs_to (then_t t k) v (k a) s'" by (rule Call.IH [OF set_state_run [OF m]])
  ultimately show ?case by (rule runs_to_trans)
qed

lemma runs_to_attempt: "run_state (alone t) s = (Inr x, s') \<Longrightarrow> runs_to (attempt_t t h k) s (k x) s'"
  unfolding attempt_t_def handle_t_def
  by (drule runs_to_then [where k = "case_sum (\<lambda>e. fail_t (h e)) k"]) simp

lemma pool_phase:
  assumes "length ts = length us" and "I 0 s"
    and step: "\<And>i s. i < length ts \<Longrightarrow> I i s \<Longrightarrow> \<exists>s'. runs_to (ts ! i) s (us ! i) s' \<and> I (Suc i) s'"
  shows "\<exists>s'. pool_step\<^sup>*\<^sup>* (ts, s) (us, s') \<and> I (length ts) s'"
proof -
  have "\<exists>s'. pool_step\<^sup>*\<^sup>* (ts, s) (take k us @ drop k ts, s') \<and> I k s'" if "k \<le> length ts" for k
    using that
  proof (induction k)
    case 0
    then show ?case using assms(2) by auto
  next
    case (Suc k)
    then obtain s' where s': "pool_step\<^sup>*\<^sup>* (ts, s) (take k us @ drop k ts, s')" "I k s'" by auto
    from step [OF _ s'(2)] Suc.prems obtain s'' where s'': "runs_to (ts ! k) s' (us ! k) s''" "I (Suc k) s''" by auto
    let ?ts = "take k us @ drop k ts"
    have len: "length (take k us) = k" using Suc.prems assms(1) by simp
    then have "?ts ! k = ts ! k" "k < length ?ts" using Suc.prems by (simp_all add: nth_append)
    moreover have "?ts[k := us ! k] = take (Suc k) us @ drop (Suc k) ts"
      using len Suc.prems assms(1) by (simp add: list_update_append take_Suc_conv_app_nth Cons_nth_drop_Suc [symmetric] del: Cons_nth_drop_Suc)
    ultimately have "pool_step\<^sup>*\<^sup>* (?ts, s') (take (Suc k) us @ drop (Suc k) ts, s'')"
      using s''(1) unfolding runs_to_def by metis
    then show ?case using s'(1) s''(2) rtranclp_trans by fast
  qed
  from this [of "length ts"] show ?thesis using assms(1) by simp
qed

section \<open>Reads that do not fail\<close>

lemma for_each_succeeds:
  assumes "\<And>x a s. \<not> isl (fst (run_state (f x a) s))"
  shows "\<not> isl (fst (run_state (for_each xs f acc) s))"
proof (induction xs arbitrary: acc s)
  case (Cons x xs)
  obtain a s' where "run_state (f x acc) s = (Inr a, s')"
    using assms [of x acc s] by (metis isl_def old.sum.exhaust surjective_pairing)
  then show ?case using Cons by simp
qed simp

lemma run_Permissions_ok: "no_faults E \<Longrightarrow> \<exists>ps v. run_state (Permissions E r) s = (Inr ps, v)"
  by (simp add: Permissions_def ent_run no_faults_def)

lemma run_roleHasPerm_ok:
  assumes "no_faults E"
  shows "\<exists>n. run_state (roleHasPerm E r p) (w\<lparr>tick := k\<rparr>) = (Inr (Allows (role_perms w r) p), w\<lparr>tick := n\<rparr>)"
proof -
  obtain b v where run: "run_state (roleHasPerm E r p) (w\<lparr>tick := k\<rparr>) = (Inr b, v)"
    using run_Permissions_ok [OF assms, of r "w\<lparr>tick := k\<rparr>"] by (auto simp: roleHasPerm_def)
  have "wp (roleHasPerm E r p) (\<lambda>x v. (\<forall>b. x = Inr b \<longrightarrow> b = Allows (role_perms w r) p) \<and> (\<exists>n. v = w\<lparr>tick := n\<rparr>)) (w\<lparr>tick := k\<rparr>)"
    by (rule wp_roleHasPerm) auto
  from wpD [OF this run] show ?thesis using run by auto
qed

lemma run_countManagers_ok:
  assumes "no_faults E"
  shows "\<exists>n. run_state (countManagers E T) (w\<lparr>tick := k\<rparr>) = (Inr (length (active_managers w T)), w\<lparr>tick := n\<rparr>)"
proof -
  let ?f = "\<lambda>m (known, c). attempt (case known (tu_role_id m) of
                        Some b \<Rightarrow> ok (b, known)
                      | None \<Rightarrow> attempt (roleHasPerm E (tu_role_id m) PermTenantManage) id
                          (\<lambda>b. ok (b, known(tu_role_id m \<mapsto> b)))) id
               (\<lambda>(b, known'). ok (known', if b then c + 1 else (c :: nat)))"
  have body: "\<not> isl (fst (run_state (?f m acc) s))" for acc m s
    using run_roleHasPerm_ok [OF assms, where r = "tu_role_id m" and p = PermTenantManage and w = s and k = "tick s"]
    by (auto split: prod.split option.split)
  let ?ms = "arrange E (w\<lparr>tick := Suc k\<rparr>) (filter (\<lambda>m. tu_tenant_id m = T \<and> tu_status m \<noteq> ''suspended'') (tenant_users w))"
  obtain r v where r: "run_state (for_each ?ms ?f (Map.empty, 0)) (w\<lparr>tick := Suc k\<rparr>) = (r, v)" by fastforce
  have "\<not> isl r" using for_each_succeeds [of ?f, OF body, of ?ms "(Map.empty, 0)" "w\<lparr>tick := Suc k\<rparr>"] unfolding r by simp
  then obtain known c where "r = Inr (known, c)" by (cases r) auto
  note loop = r [unfolded this]
  have run: "run_state (countManagers E T) (w\<lparr>tick := k\<rparr>) = (Inr c, v)"
    using assms loop by (simp add: countManagers_def ent_run no_faults_def)
  have "wp (countManagers E T) (\<lambda>x v. (\<forall>c. x = Inr c \<longrightarrow> c = length (active_managers w T)) \<and> (\<exists>n. v = w\<lparr>tick := n\<rparr>)) (w\<lparr>tick := k\<rparr>)"
    by (rule wp_countManagers) auto
  from wpD [OF this run] show ?thesis using run by auto
qed

section \<open>A removal in two parts\<close>

text \<open>What is left of a removal once the guard has let it pass.\<close>

definition removal_writes :: "env \<Rightarrow> string \<Rightarrow> string \<Rightarrow> tenant_user \<Rightarrow> (world, error + unit) thread" where
  "removal_writes E T u m =
     attempt_t (call (ent_delete_one E tenant_users tenant_users_update (\<lambda>_ _. False) tu_id (tu_id m))) id (\<lambda>_.
       then_t (revoke_owned_tokens_t E T u) (\<lambda>_.
         handle_t (call (ent_get E tenants t_id T)) (\<lambda>_. ok_t ()) (\<lambda>t.
           then_t (call (in_schema E (t_schema_name t)
                    (ent_delete E (profiles (t_schema_name t)) (profiles_update (t_schema_name t))
                      (\<lambda>_ _. False) (\<lambda>p. p_id p = u)))) (\<lambda>_.
             ok_t ()))))"

lemma removal_passes:
  assumes E: "no_faults E" and ids: "T \<noteq> []" "tu_user_id m \<noteq> []"
    and m: "filter (\<lambda>x. tu_user_id x = tu_user_id m \<and> tu_tenant_id x = T) (tenant_users w) = [m]"
    and two: "1 < length (active_managers w T)"
  shows "\<exists>n. runs_to (RemoveMember_t E T (tu_user_id m)) (w\<lparr>tick := k\<rparr>)
    (removal_writes E T (tu_user_id m) m) (w\<lparr>tick := n\<rparr>)"
proof -
  have no: "\<not> (T = [] \<or> tu_user_id m = [])" using ids by blast
  obtain n1 where p: "run_state (alone (roleHasPerm_t E (tu_role_id m) PermTenantManage)) (w\<lparr>tick := Suc k\<rparr>) =
      (Inr (manages w m), w\<lparr>tick := n1\<rparr>)"
    using run_roleHasPerm_ok [OF E] unfolding alone_roleHasPerm manages_def by blast
  obtain n2 where g: "run_state (alone (if manages w m then attempt_t (countManagers_t E T) id
        (\<lambda>n. if n \<le> 1 then fail_t ErrLastManager else ok_t ()) else ok_t ())) (w\<lparr>tick := n1\<rparr>) = (Inr (), w\<lparr>tick := n2\<rparr>)"
  proof (cases "manages w m")
    case True
    obtain n where "run_state (countManagers E T) (w\<lparr>tick := n1\<rparr>) = (Inr (length (active_managers w T)), w\<lparr>tick := n\<rparr>)"
      using run_countManagers_ok [OF E] by blast
    then show ?thesis using that [of n] True two by (simp add: alone_simps)
  next
    case False
    then show ?thesis using that [of n1] by (simp add: alone_simps)
  qed
  have "run_state (alone (call (ent_only E tenant_users (\<lambda>x. tu_user_id x = tu_user_id m \<and> tu_tenant_id x = T))))
      (w\<lparr>tick := k\<rparr>) = (Inr m, w\<lparr>tick := Suc k\<rparr>)"
    using E by (simp add: alone_call ent_run no_faults_def m)
  then have "runs_to (RemoveMember_t E T (tu_user_id m)) (w\<lparr>tick := k\<rparr>)
    (removal_writes E T (tu_user_id m) m) (w\<lparr>tick := n2\<rparr>)"
    unfolding RemoveMember_t_def if_not_P [OF no] removal_writes_def
    by (rule runs_to_attempt [THEN runs_to_trans], intro runs_to_attempt [OF p, THEN runs_to_trans] runs_to_attempt [OF g])
  then show ?thesis ..
qed

lemma removal_finishes:
  assumes E: "no_faults E" and m: "m \<in> set (tenant_users s)"
  shows "\<exists>s'. runs_to (removal_writes E T u m) s (Done (Inr ())) s' \<and>
    tenant_users s' = filter (\<lambda>x. tu_id x \<noteq> tu_id m) (tenant_users s) \<and> role_permissions s' = role_permissions s"
proof -
  let ?m = "attempt (ent_delete_one E tenant_users tenant_users_update (\<lambda>_ _. False) tu_id (tu_id m)) id (\<lambda>_. do {
      _ \<leftarrow> revoke_owned_tokens E T u;
      handle (ent_get E tenants t_id T) (\<lambda>_. ok ()) (\<lambda>t. do {
        _ \<leftarrow> in_schema E (t_schema_name t)
               (ent_delete E (profiles (t_schema_name t)) (profiles_update (t_schema_name t)) (\<lambda>_ _. False) (\<lambda>p. p_id p = u));
        ok () }) })"
  have found: "\<not> (\<forall>x \<in> set (tenant_users s). tu_id x \<noteq> tu_id m)" using m by blast
  define n where "n = Suc (tick s)"
  have del: "run_state (ent_delete_one E tenant_users tenant_users_update (\<lambda>_ _. False) tu_id (tu_id m)) s =
      (Inr (), s\<lparr>tenant_users := filter (\<lambda>x. tu_id x \<noteq> tu_id m) (tenant_users s), tick := n\<rparr>)"
    using E found by (simp add: ent_delete_one_def ent_run no_faults_def table_put filter_empty_conv n_def)
  have wrote: "wp ?m (\<lambda>r s'. r = Inr () \<and> tenant_users s' = filter (\<lambda>x. tu_id x \<noteq> tu_id m) (tenant_users s) \<and>
      role_permissions s' = role_permissions s) s"
  proof (rule wpI)
    fix r s' assume "run_state ?m s = (r, s')"
    then have "run_state (do {
      _ \<leftarrow> revoke_owned_tokens E T u;
      handle (ent_get E tenants t_id T) (\<lambda>_. ok ()) (\<lambda>t. do {
        _ \<leftarrow> in_schema E (t_schema_name t)
               (ent_delete E (profiles (t_schema_name t)) (profiles_update (t_schema_name t)) (\<lambda>_ _. False) (\<lambda>p. p_id p = u));
        ok () }) }) (s\<lparr>tenant_users := filter (\<lambda>x. tu_id x \<noteq> tu_id m) (tenant_users s), tick := n\<rparr>) = (r, s')"
      by (simp add: del)
    from wpD [OF wp_cleanup [where Q = "\<lambda>r s'. r = Inr () \<and> tenant_users s' = filter (\<lambda>x. tu_id x \<noteq> tu_id m) (tenant_users s) \<and>
      role_permissions s' = role_permissions s"] this]
    show "r = Inr () \<and> tenant_users s' = filter (\<lambda>x. tu_id x \<noteq> tu_id m) (tenant_users s) \<and> role_permissions s' = role_permissions s"
      by (simp add: cleanup_frame_def)
  qed
  have alone: "alone (removal_writes E T u m) = ?m" by (simp add: removal_writes_def alone_simps)
  obtain r s' where run: "run_state ?m s = (r, s')" by (cases "run_state ?m s")
  note res = wpD [OF wrote run]
  have "r = Inr ()" by (rule conjunct1 [OF res])
  then have "run_state (alone (removal_writes E T u m)) s = (Inr (), s')" by (simp only: alone run)
  then show ?thesis by (intro exI [of _ s'] conjI conjunct2 [OF res] runs_to_end)
qed

text \<open>First every request gets as far as past its guard, then each of them finishes.\<close>

lemma all_removals_pass:
  assumes E: "\<And>m. no_faults (E m)" and T: "T \<noteq> []" "2 \<le> length (active_managers w T)"
    and ids: "\<forall>m \<in> set (active_managers w T). tu_user_id m \<noteq> []"
    and wf: "distinct (map (\<lambda>m. (tu_user_id m, tu_tenant_id m)) (tenant_users w))"
  shows "\<exists>n. pool_step\<^sup>*\<^sup>* (map (\<lambda>m. RemoveMember_t (E m) T (tu_user_id m)) (active_managers w T), w)
    (map (\<lambda>m. removal_writes (E m) T (tu_user_id m) m) (active_managers w T), w\<lparr>tick := n\<rparr>)"
    (is "\<exists>n. pool_step\<^sup>*\<^sup>* (map ?guard ?ms, w) (map ?writes ?ms, _)")
proof -
  have row: "filter (\<lambda>x. tu_user_id x = tu_user_id m \<and> tu_tenant_id x = T) (tenant_users w) = [m]" if "m \<in> set ?ms" for m
  proof -
    have "m \<in> set (tenant_users w)" "tu_tenant_id m = T" using that by (auto simp: active_managers_mem)
    then show ?thesis using filter_key_unique [OF wf, of m] by simp
  qed
  have "\<exists>s. pool_step\<^sup>*\<^sup>* (map ?guard ?ms, w) (map ?writes ?ms, s) \<and> (\<exists>n. s = w\<lparr>tick := n\<rparr>)"
  proof (rule pool_phase [where I = "\<lambda>_ s. \<exists>n. s = w\<lparr>tick := n\<rparr>"])
    show "\<exists>n. w = w\<lparr>tick := n\<rparr>" by (rule exI [of _ "tick w"]) simp
    fix i s assume i: "i < length (map ?guard ?ms)" and "\<exists>n. s = w\<lparr>tick := n\<rparr>"
    then obtain k where s: "s = w\<lparr>tick := k\<rparr>" by blast
    have m: "?ms ! i \<in> set ?ms" using i by simp
    have "tu_user_id (?ms ! i) \<noteq> []" "1 < length ?ms" using ids T(2) m by simp_all
    from removal_passes [OF E T(1) this(1) row [OF m] this(2), of "?ms ! i" k]
    show "\<exists>s'. runs_to (map ?guard ?ms ! i) s (map ?writes ?ms ! i) s' \<and> (\<exists>n. s' = w\<lparr>tick := n\<rparr>)"
      using i by (auto simp: s)
  qed simp
  then show ?thesis by blast
qed

lemma all_removals_finish:
  assumes E: "\<And>m. no_faults (E m)" and ms: "set ms \<subseteq> set (tenant_users w)" "distinct (map tu_id ms)"
  shows "\<exists>w'. pool_step\<^sup>*\<^sup>* (map (\<lambda>m. removal_writes (E m) T (tu_user_id m) m) ms, w\<lparr>tick := n\<rparr>)
      (map (\<lambda>_. Done (Inr ())) ms, w') \<and>
    tenant_users w' = filter (\<lambda>x. tu_id x \<notin> tu_id ` set ms) (tenant_users w) \<and> role_permissions w' = role_permissions w"
    (is "\<exists>w'. pool_step\<^sup>*\<^sup>* (map ?writes ms, _) (map ?over ms, w') \<and> _")
proof -
  let ?I = "\<lambda>k (s :: world). tenant_users s = filter (\<lambda>x. tu_id x \<notin> tu_id ` set (take k ms)) (tenant_users w) \<and>
    role_permissions s = role_permissions w"
  have "\<exists>s. pool_step\<^sup>*\<^sup>* (map ?writes ms, w\<lparr>tick := n\<rparr>) (map ?over ms, s) \<and> ?I (length (map ?writes ms)) s"
  proof (rule pool_phase)
    fix i and s :: world assume i: "i < length (map ?writes ms)" and I: "?I i s"
    have "tu_id (ms ! i) \<notin> tu_id ` set (take i ms)"
      using ms(2) i by (auto simp: distinct_conv_nth in_set_conv_nth)
    then have "ms ! i \<in> set (tenant_users s)" using I ms(1) nth_mem [of i ms] i by auto
    from removal_finishes [OF E this] obtain s' where
      s': "runs_to (removal_writes (E (ms ! i)) T (tu_user_id (ms ! i)) (ms ! i)) s (Done (Inr ())) s'"
      "tenant_users s' = filter (\<lambda>x. tu_id x \<noteq> tu_id (ms ! i)) (tenant_users s)" "role_permissions s' = role_permissions s" by blast
    have "?I (Suc i) s'" using s'(2,3) I i by (auto simp: take_Suc_conv_app_nth intro: filter_cong)
    then show "\<exists>s'. runs_to (map ?writes ms ! i) s (map ?over ms ! i) s' \<and> ?I (Suc i) s'" using s'(1) i by auto
  qed simp_all
  then show ?thesis by auto
qed

section \<open>Properties\<close>

text \<open>C9. The guard on the last manager is a read before the write, and nothing holds the rows in
  between. In any database with unique memberships and membership ids, let a tenant have two or more
  active managers, and let each of them be removed by a request of its own, in environments without
  database faults. The calls of these requests can interleave so that every request passes the guard
  and answers without error, and the tenant is left with no manager.\<close>

theorem managers_remove_each_other:
  assumes E: "\<And>m. no_faults (E m)" and T: "T \<noteq> []" "2 \<le> length (active_managers w T)"
    and ids: "\<forall>m \<in> set (active_managers w T). tu_user_id m \<noteq> []"
    and wf: "keyed tu_id tenant_users w" "distinct (map (\<lambda>m. (tu_user_id m, tu_tenant_id m)) (tenant_users w))"
  shows "\<exists>ts w'. pool_step\<^sup>*\<^sup>* (map (\<lambda>m. RemoveMember_t (E m) T (tu_user_id m)) (active_managers w T), w) (ts, w') \<and>
    map result_of ts = map (\<lambda>_. Some (Inr ())) (active_managers w T) \<and> \<not> has_manager w' T"
proof -
  let ?ms = "active_managers w T"
  obtain n where guards: "pool_step\<^sup>*\<^sup>* (map (\<lambda>m. RemoveMember_t (E m) T (tu_user_id m)) ?ms, w)
      (map (\<lambda>m. removal_writes (E m) T (tu_user_id m) m) ?ms, w\<lparr>tick := n\<rparr>)"
    using all_removals_pass [of E, OF E T ids wf(2)] by blast
  have ms: "set ?ms \<subseteq> set (tenant_users w)" "distinct (map tu_id ?ms)"
    using wf(1) by (auto simp: keyed_def active_managers_def distinct_map_filter)
  obtain w' where writes: "pool_step\<^sup>*\<^sup>* (map (\<lambda>m. removal_writes (E m) T (tu_user_id m) m) ?ms, w\<lparr>tick := n\<rparr>)
      (map (\<lambda>_. Done (Inr ())) ?ms, w')"
    and w': "tenant_users w' = filter (\<lambda>x. tu_id x \<notin> tu_id ` set ?ms) (tenant_users w)" "role_permissions w' = role_permissions w"
    using all_removals_finish [of E, OF E ms] by blast
  have "manages w' m = manages w m" for m using w'(2) by (simp add: manages_def role_perms_def)
  then have "\<not> has_manager w' T" using w'(1) by (auto simp: has_manager_iff active_managers_mem)
  then show ?thesis using rtranclp_trans [OF guards writes] by (intro exI conjI) auto
qed

theorem managers_remove_each_other_witness:
  "\<exists>ts w'. pool_step\<^sup>*\<^sup>* ([RemoveMember_t env0 ''t1'' ''u1'', RemoveMember_t env0 ''t1'' ''u2''], duo) (ts, w') \<and>
     map result_of ts = [Some (Inr ()), Some (Inr ())] \<and> \<not> has_manager w' ''t1''"
proof -
  have "active_managers duo ''t1'' = tenant_users duo" by code_simp
  moreover have "map tu_user_id (tenant_users duo) = [''u1'', ''u2'']" by code_simp
  ultimately have ids: "map tu_user_id (active_managers duo ''t1'') = [''u1'', ''u2'']" by simp
  have "no_faults env0" by (simp add: no_faults_def env0_def)
  have wf: "keyed tu_id tenant_users duo" "distinct (map (\<lambda>m. (tu_user_id m, tu_tenant_id m)) (tenant_users duo))"
    unfolding keyed_def by code_simp+
  have named: "tu_user_id m \<noteq> []" if "m \<in> set (active_managers duo ''t1'')" for m
  proof -
    have "tu_user_id m \<in> set (map tu_user_id (active_managers duo ''t1''))" using that by simp
    then show ?thesis unfolding ids by auto
  qed
  have len: "length (active_managers duo ''t1'') = 2" using arg_cong [OF ids, of length] by simp
  have threads: "map (\<lambda>m. RemoveMember_t env0 ''t1'' (tu_user_id m)) (active_managers duo ''t1'') =
      [RemoveMember_t env0 ''t1'' ''u1'', RemoveMember_t env0 ''t1'' ''u2'']"
    using arg_cong [OF ids, of "map (RemoveMember_t env0 ''t1'')"] by (simp add: comp_def)
  have answers: "map (\<lambda>_. Some (Inr () :: error + unit)) (active_managers duo ''t1'') = [Some (Inr ()), Some (Inr ())]"
    using arg_cong [OF ids, of "map (\<lambda>_. Some (Inr () :: error + unit))"] by (simp add: comp_def)
  show ?thesis
    using managers_remove_each_other [of "\<lambda>_. env0" "''t1''" duo, OF \<open>no_faults env0\<close> _ _ _ wf] named len
    unfolding threads answers by simp
qed

end
