(* ===== verification/Parallel.thy ===== *)
theory Parallel
  imports Registration Threads
begin

text \<open>
  Registrations at the same time (\<open>src/internal/tenant/saga.go\<close>, \<open>internal/pluginmgr\<close>,
  \<open>internal/migrator\<close>), call by call. A registration undoes its steps when a later one fails, and
  one of its compensations drops a schema: \<open>registrations_in_parallel\<close> shows that it never drops
  that of another registration. The row in \<open>tenants\<close> with its unique slug and schema name, the
  first step and the last to be undone, is the lock: \<open>own_row\<close> holds from its insertion to the
  end, and only the registration that inserted it touches the schema it names. The installation of a
  plugin has no such lock: \<open>plugin_installed_twice\<close>.
\<close>

section \<open>The saga, call by call\<close>

text \<open>The clock is read by \<open>Save\<close> just before its statement; both are one call here.\<close>

definition SlugAvailable_t :: "env \<Rightarrow> string \<Rightarrow> (world, error + bool) thread" where
  "SlugAvailable_t E slug =
     (if ValidateSlug slug \<noteq> None then ok_t False
      else attempt_t (call (ent_exist E tenants (\<lambda>t. t_slug t = slug))) id (\<lambda>taken. ok_t (\<not> taken)))"

primrec slug_search_t :: "nat \<Rightarrow> env \<Rightarrow> string \<Rightarrow> nat \<Rightarrow> string \<Rightarrow> (world, error + string) thread" where
  "slug_search_t 0 E base i slug = fail_t Diverges"
| "slug_search_t (Suc fuel) E base i slug =
     attempt_t (SlugAvailable_t E slug) id
       (\<lambda>free. if free then ok_t slug else slug_search_t fuel E base (i + 1) (next_candidate base i))"

definition resolveSlug_t ::
  "nat \<Rightarrow> (string \<Rightarrow> string) \<Rightarrow> (string \<Rightarrow> string) \<Rightarrow> env \<Rightarrow> string \<Rightarrow> string \<Rightarrow> (world, error + string) thread" where
  "resolveSlug_t fuel utrim ulower E requested nm =
     (if requested \<noteq> [] then ok_t requested
      else let base = GenerateSlugBase utrim ulower nm in
        if base = [] then fail_t ErrInvalidSlug
        else slug_search_t fuel E base 2 base)"

type_synonym compensation_t = "(world, error + unit) thread"

primrec run_all_t :: "compensation_t list \<Rightarrow> (world, unit) thread" where
  "run_all_t [] = Done ()"
| "run_all_t (s # ss) = then_t s (\<lambda>_. run_all_t ss)"

definition compensate_t :: "compensation_t list \<Rightarrow> (world, unit) thread" where
  "compensate_t steps = run_all_t (rev steps)"

definition saga_step_t ::
  "compensation_t list \<Rightarrow> string \<Rightarrow> (world, error + 'a) thread \<Rightarrow> ('a \<Rightarrow> (world, error + 'b) thread) \<Rightarrow>
   (world, error + 'b) thread" where
  "saga_step_t steps msg m k =
     handle_t m (\<lambda>e. if is_panic e then fail_t e else then_t (compensate_t steps) (\<lambda>_. fail_t (ErrWrap msg e))) k"

definition resolveUser_t :: "env \<Rightarrow> string \<Rightarrow> string \<Rightarrow> (world, error + string \<times> bool) thread" where
  "resolveUser_t E email password =
     handle_t (call (ent_only E users (\<lambda>u. u_email u = email)))
       (\<lambda>e. if e \<noteq> ErrDB NotFound then fail_t e
            else attempt_t (call (GenerateFromPassword E password)) (ErrWrap ''hash password'') (\<lambda>hash.
              then_t (call (short_id E ''u_'')) (\<lambda>i.
              attempt_t (call (create_user E i email hash)) id (\<lambda>_. ok_t (i, True)))))
       (\<lambda>u. ok_t (u_id u, False))"

definition provision_t ::
  "env \<Rightarrow> (string \<Rightarrow> string \<Rightarrow> (world, error + unit) thread) \<Rightarrow> RegisterInput \<Rightarrow> string \<Rightarrow> string \<Rightarrow> string \<Rightarrow>
   string \<Rightarrow> compensation_t list \<Rightarrow> (world, error + string) thread" where
  "provision_t E install inp slug schemaName tenantID userID steps =
     saga_step_t steps ''step3 create schema'' (call (create_schema E schemaName)) (\<lambda>_.
     let steps = steps @ [call (drop_schema E schemaName)] in
     saga_step_t steps ''step4 migrate tenant schema'' (call (MigrateTenantSchema E schemaName)) (\<lambda>_.
     saga_step_t steps ''step5 create owner profile''
       (call (create_profile E schemaName userID (ri_full_name inp) (ri_phone inp) (ri_job_title inp) ''owner'')) (\<lambda>_.
     saga_step_t steps ''step6 install plugins for new tenant'' (install tenantID schemaName) (\<lambda>_.
     saga_step_t steps ''step7 activate tenant''
       (call (ent_update_one E tenants tenants_update t_id no_clash tenantID (\<lambda>t. t\<lparr>t_status := ''active''\<rparr>))) (\<lambda>_.
     ok_t slug)))))"

definition register_owner_t ::
  "env \<Rightarrow> RegisterInput \<Rightarrow> string \<Rightarrow> string \<Rightarrow> compensation_t list \<Rightarrow>
   (string \<Rightarrow> compensation_t list \<Rightarrow> (world, error + string) thread) \<Rightarrow> (world, error + string) thread" where
  "register_owner_t E inp tenantID branchID steps k =
     saga_step_t steps ''step2 resolve user'' (resolveUser_t E (ri_email inp) (ri_password inp)) (\<lambda>(userID, createdUser).
     let steps = (if createdUser then steps @ [call (undo_user E userID)] else steps) in
     saga_step_t steps ''step2b resolve owner role'' (call (SystemRoleID E ''owner'')) (\<lambda>ownerRoleID.
       then_t (call (short_id E ''tu_'')) (\<lambda>tuID.
       saga_step_t steps ''step2b create membership''
         (call (create_tenant_user E tuID userID tenantID branchID ownerRoleID)) (\<lambda>_.
       k userID (steps @ [call (undo_membership E tuID)])))))"

definition Register_t ::
  "nat \<Rightarrow> (string \<Rightarrow> string) \<Rightarrow> (string \<Rightarrow> string) \<Rightarrow> env \<Rightarrow> (string \<Rightarrow> string \<Rightarrow> (world, error + unit) thread) \<Rightarrow>
   RegisterInput \<Rightarrow> (world, error + string) thread" where
  "Register_t fuel utrim ulower E install inp =
     attempt_t (resolveSlug_t fuel utrim ulower E (ri_slug inp) (ri_name inp)) id (\<lambda>slug.
     case ValidateSlug slug of Some e \<Rightarrow> fail_t e | None \<Rightarrow>
       let schemaName = ''tenant_'' @ slug in
       then_t (call (short_id E ''t_'')) (\<lambda>tenantID.
       attempt_t (call (create_tenant E tenantID slug (ri_name inp) (ri_plan inp) ''provisioning'' schemaName))
         (ErrWrap ''step1 create tenant'') (\<lambda>t.
         let steps = [call (undo_tenant E tenantID)] in
         then_t (call (short_id E ''br_'')) (\<lambda>branchID.
         saga_step_t steps ''step1b create default branch''
           (call (create_branch E branchID tenantID ''main'' ''Main'' ''active'')) (\<lambda>_.
         register_owner_t E inp tenantID branchID (steps @ [call (undo_branch E branchID)]) (\<lambda>userID steps.
         provision_t E install inp slug schemaName tenantID userID steps))))))"

subsection \<open>The plugins of a new tenant\<close>

primrec apply_pending_t ::
  "env \<Rightarrow> string \<Rightarrow> string \<Rightarrow> string \<Rightarrow> string set \<Rightarrow> Migration list \<Rightarrow> (world, error + unit) thread" where
  "apply_pending_t E tenantID schemaName pluginName applied [] = ok_t ()"
| "apply_pending_t E tenantID schemaName pluginName applied (mig # rest) =
     (if m_version mig \<in> applied then apply_pending_t E tenantID schemaName pluginName applied rest
      else attempt_t (call (runSQL E schemaName (m_up_sql mig)))
        (ErrWrap (''run migration '' @ m_version mig @ '' for tenant '' @ tenantID)) (\<lambda>_.
          then_t (call (uuid_string E)) (\<lambda>i.
          attempt_t (call (create_history E i tenantID pluginName (m_version mig) (m_name mig) ''applied'')) Panic
            (\<lambda>_. apply_pending_t E tenantID schemaName pluginName applied rest))))"

definition RunForTenant_t ::
  "env \<Rightarrow> string \<Rightarrow> string \<Rightarrow> string \<Rightarrow> Migration list \<Rightarrow> (world, error + unit) thread" where
  "RunForTenant_t E tenantID schemaName pluginName migrations =
     then_t (call (sort_versions E migrations)) (\<lambda>migrations.
     then_t (call (appliedVersions E tenantID pluginName)) (\<lambda>applied.
     apply_pending_t E tenantID schemaName pluginName applied migrations))"

primrec install_each_t :: "env \<Rightarrow> core \<Rightarrow> string \<Rightarrow> string \<Rightarrow> string list \<Rightarrow> (world, error + unit) thread" where
  "install_each_t E core tenantID schemaName [] = ok_t ()"
| "install_each_t E core tenantID schemaName (pluginName # rest) =
     handle_t (call (fetchMigrations core pluginName)) (\<lambda>_. install_each_t E core tenantID schemaName rest) (\<lambda>migrations.
       if length migrations = 0 then install_each_t E core tenantID schemaName rest
       else attempt_t (RunForTenant_t E tenantID schemaName pluginName migrations)
              (rethrow (ErrWrap (''migrate '' @ pluginName @ '' for new tenant''))) (\<lambda>_.
         then_t (call (uuid_string E)) (\<lambda>i.
         then_t (call (create_plugin_install E i tenantID pluginName)) (\<lambda>_.
         install_each_t E core tenantID schemaName rest))))"

definition InstallForNewTenant_t :: "env \<Rightarrow> core \<Rightarrow> string \<Rightarrow> string \<Rightarrow> (world, error + unit) thread" where
  "InstallForNewTenant_t E core tenantID schemaName =
     attempt_t (call (ent_all E plugin_installs (\<lambda>_. True))) id (\<lambda>installs.
       then_t (call (range_keys E (seen_plugins installs))) (\<lambda>names.
       install_each_t E core tenantID schemaName names))"

definition Install_t :: "env \<Rightarrow> core \<Rightarrow> string \<Rightarrow> string \<Rightarrow> (world, error + unit) thread" where
  "Install_t E core tenantID pluginName =
     attempt_t (call (ent_exist E plugin_installs (\<lambda>p. pi_tenant_id p = tenantID \<and> pi_plugin_name p = pluginName))) id (\<lambda>exists.
     if exists then fail_t (ErrText (''plugin '' @ pluginName @ '' already installed for tenant '' @ tenantID))
     else
     attempt_t (call (ent_only E tenants (\<lambda>t. t_id t = tenantID))) (ErrWrap ''tenant not found'') (\<lambda>t.
     attempt_t (call (fetchMigrations core pluginName)) (ErrWrap (''fetch migrations for '' @ pluginName)) (\<lambda>migrations.
     attempt_t (if 0 < length migrations
                then attempt_t (RunForTenant_t E (t_id t) (t_schema_name t) pluginName migrations)
                       (rethrow (ErrWrap ''run migrations'')) ok_t
                else ok_t ()) id (\<lambda>_.
       then_t (call (uuid_string E)) (\<lambda>i.
       attempt_t (call (create_plugin_install E i tenantID pluginName)) (ErrWrap ''record install'') (\<lambda>_. ok_t ()))))))"

section \<open>The same saga\<close>

lemma alone_resolveSlug: "alone (resolveSlug_t fuel utrim ulower E requested nm) =
    (if requested \<noteq> [] then ok requested
     else let base = GenerateSlugBase utrim ulower nm in
       if base = [] then fail ErrInvalidSlug else slug_search fuel E base 2 base)"
proof -
  have free: "alone (SlugAvailable_t E slug) = SlugAvailable E slug" for slug
    by (simp add: SlugAvailable_t_def SlugAvailable_def alone_simps)
  have "alone (slug_search_t n E base i c) = slug_search n E base i c" for n base i c
    by (induction n arbitrary: i c) (simp_all add: alone_simps free cong: if_cong)
  then show ?thesis by (simp add: resolveSlug_t_def Let_def alone_simps)
qed

lemma alone_compensate [alone_simps]: "alone (compensate_t steps) = compensate (map alone steps)"
proof -
  have "alone (run_all_t ss) = run_all (map alone ss)" for ss
    by (induction ss) (simp_all add: alone_simps)
  then show ?thesis by (simp add: compensate_t_def compensate_def rev_map)
qed

lemma alone_saga_step [alone_simps]:
  "alone (saga_step_t steps msg t k) = saga_step (map alone steps) msg (alone t) (\<lambda>x. alone (k x))"
  by (simp add: saga_step_t_def saga_step_def alone_simps cong: if_cong)

lemma alone_resolveUser [alone_simps]: "alone (resolveUser_t E email pw) = resolveUser E email pw"
  by (simp add: resolveUser_t_def resolveUser_def alone_simps cong: if_cong)

lemma alone_apply_pending [alone_simps]:
  "alone (apply_pending_t E T s p applied ms) = apply_pending E T s p applied ms"
  by (induction ms) (simp_all add: alone_simps cong: if_cong)

lemma alone_install_each [alone_simps]: "alone (install_each_t E core T s ps) = install_each E core T s ps"
  by (induction ps) (simp_all add: alone_simps RunForTenant_t_def RunForTenant_def cong: if_cong)

lemma alone_Install: "alone (Install_t E core T p) = Install E core T p"
  by (simp add: Install_t_def Install_def RunForTenant_t_def RunForTenant_def alone_simps cong: if_cong)

lemma alone_InstallForNewTenant:
  "alone (InstallForNewTenant_t E core T s) = InstallForNewTenant E core T s"
  by (simp add: InstallForNewTenant_t_def InstallForNewTenant_def alone_simps)

lemma alone_provision [alone_simps]: "alone (provision_t E install inp slug schemaName i u steps) =
    provision E (\<lambda>T s. alone (install T s)) inp slug schemaName i u (map alone steps)"
  by (simp add: provision_t_def provision_def Let_def alone_simps)

lemma alone_register_owner:
  assumes "\<And>u ss. alone (k u ss) = k' u (map alone ss)"
  shows "alone (register_owner_t E inp T b steps k) = register_owner E inp T b (map alone steps) k'"
  by (simp add: register_owner_t_def register_owner_def Let_def alone_simps assms if_distrib [of "map alone"] cong: if_cong)

lemma run_attempt_cong:
  assumes "run_state m s = run_state m' s" and "\<And>x. k x = k' x"
  shows "run_state (attempt m h k) s = run_state (attempt m' h k') s"
proof -
  have "k = k'" by (rule ext) (rule assms(2))
  then show ?thesis using assms(1) by simp
qed

lemma alone_Register:
  "run_state (alone (Register_t (length (tenants w) + 2) utrim ulower E install inp)) w =
   run_state (Register utrim ulower E (\<lambda>T s. alone (install T s)) inp) w"
  unfolding Register_t_def Register_def alone_attempt
proof (rule run_attempt_cong, goal_cases)
  case 1
  show ?case by (simp add: alone_resolveSlug resolveSlug_def Let_def)
next
  case (2 slug)
  show ?case
    by (simp add: Let_def alone_simps alone_register_owner [where k' = "\<lambda>u ss. provision E (\<lambda>T s. alone (install T s)) inp
          slug (''tenant_'' @ slug) i u ss" for i] cong: option.case_cong)
qed

section \<open>The row that is the lock\<close>

definition unique_tenants :: "world \<Rightarrow> bool" where
  "unique_tenants w \<longleftrightarrow> distinct (map t_id (tenants w)) \<and> distinct (map t_slug (tenants w)) \<and>
     distinct (map t_schema_name (tenants w))"

text \<open>\<open>spares U w w'\<close>: the tenants whose id is in \<open>U\<close>, and their schemas, are as before. A registration
  whose ids come from \<open>U\<close> relies on the others to spare \<open>U\<close> and spares the complement of \<open>U\<close> itself.\<close>

definition spares :: "string set \<Rightarrow> world \<Rightarrow> world \<Rightarrow> bool" where
  "spares U w w' \<longleftrightarrow> (unique_tenants w \<longrightarrow> unique_tenants w' \<and>
     filter (\<lambda>t. t_id t \<in> U) (tenants w') = filter (\<lambda>t. t_id t \<in> U) (tenants w) \<and>
     (\<forall>t \<in> set (tenants w). t_id t \<in> U \<longrightarrow> schemas w' (t_schema_name t) = schemas w (t_schema_name t)))"

lemma spares_rows:
  assumes "filter (\<lambda>t. t_id t \<in> U) ts' = filter (\<lambda>t. t_id t \<in> U) ts" and "t_id t \<in> U"
  shows "t \<in> set ts' \<longleftrightarrow> t \<in> set ts"
  using arg_cong [OF assms(1), of set] assms(2) by auto

interpretation spares: step_preorder "spares U" for U
proof (unfold_locales, goal_cases)
  case (1 s)
  then show ?case by (simp add: spares_def)
next
  case (2 s t u)
  show ?case unfolding spares_def
  proof (intro impI conjI ballI)
    assume s: "unique_tenants s"
    note t = 2(1) [unfolded spares_def, rule_format, OF s]
    then have "unique_tenants t" by blast
    note u = 2(2) [unfolded spares_def, rule_format, OF this]
    show "unique_tenants u" using u by blast
    show "filter (\<lambda>t. t_id t \<in> U) (tenants u) = filter (\<lambda>t. t_id t \<in> U) (tenants s)" using t u by metis
    fix x assume x: "x \<in> set (tenants s)" "t_id x \<in> U"
    then have "x \<in> set (tenants t)" using spares_rows t by blast
    then show "schemas u (t_schema_name x) = schemas s (t_schema_name x)" using t u x by metis
  qed
qed

lemma spares_mono: "spares U w w' \<Longrightarrow> V \<subseteq> U \<Longrightarrow> spares V w w'"
proof -
  assume w: "spares U w w'" and V: "V \<subseteq> U"
  have "filter (\<lambda>t. t_id t \<in> V) ts = filter (\<lambda>t. t_id t \<in> V) (filter (\<lambda>t. t_id t \<in> U) ts)" for ts
    using V by (auto simp: filter_filter intro!: filter_cong)
  with w V show "spares V w w'" unfolding spares_def by (metis subsetD)
qed

definition schema_of :: "string \<Rightarrow> string" where
  "schema_of slug = ''tenant_'' @ slug"

text \<open>\<open>own_row U i slug A w\<close>: the registration's row is in the table, and \<open>A\<close> holds of it and its schema.\<close>

definition own_row ::
  "string set \<Rightarrow> string \<Rightarrow> string \<Rightarrow> (tenant \<Rightarrow> tenant_schema option \<Rightarrow> bool) \<Rightarrow> world \<Rightarrow> bool" where
  "own_row U i slug A w \<longleftrightarrow> i \<in> U \<and> unique_tenants w \<and>
     (\<exists>t \<in> set (tenants w). t_id t = i \<and> t_slug t = slug \<and> t_schema_name t = schema_of slug \<and>
        A t (schemas w (schema_of slug)))"

lemma own_row_stable: "own_row U i slug A w \<Longrightarrow> spares U w w' \<Longrightarrow> own_row U i slug A w'"
  unfolding own_row_def spares_def using spares_rows by metis

lemma own_row_mono: "own_row U i slug A w \<Longrightarrow> (\<And>t sc. A t sc \<Longrightarrow> B t sc) \<Longrightarrow> own_row U i slug B w"
  unfolding own_row_def by blast

text \<open>The calls of a registration after the first: they keep \<open>A\<close> of its row and schema and spare every
  other tenant.\<close>

definition own_step ::
  "string set \<Rightarrow> string \<Rightarrow> string \<Rightarrow> (tenant \<Rightarrow> tenant_schema option \<Rightarrow> bool) \<Rightarrow> world \<Rightarrow> world \<Rightarrow> bool" where
  "own_step U i slug A w w' \<longleftrightarrow> (own_row U i slug A w \<longrightarrow> spares (- U) w w' \<and> own_row U i slug A w')"

lemma spares_frame: "tenants w' = tenants w \<Longrightarrow> schemas w' = schemas w \<Longrightarrow> spares U w w'"
  by (simp add: spares_def unique_tenants_def)

lemma own_schema:
  assumes w: "own_row U i slug A w" and t: "tenants w' = tenants w"
    and s: "\<And>s. s \<noteq> schema_of slug \<Longrightarrow> schemas w' s = schemas w s"
    and A: "\<And>t. A t (schemas w (schema_of slug)) \<Longrightarrow> B t (schemas w' (schema_of slug))"
  shows "spares (- U) w w' \<and> own_row U i slug B w'"
proof
  from w obtain t where t0: "t \<in> set (tenants w)" "t_id t \<in> U" "t_schema_name t = schema_of slug"
    and u: "unique_tenants w" by (auto simp: own_row_def)
  have "t_schema_name x \<noteq> schema_of slug" if "x \<in> set (tenants w)" "t_id x \<notin> U" for x
    using u t0 that inj_onD [of t_schema_name "set (tenants w)" x t] by (auto simp: unique_tenants_def distinct_map)
  then show "spares (- U) w w'" using s t u by (simp add: spares_def unique_tenants_def)
  show "own_row U i slug B w'" using w t A by (auto simp: own_row_def unique_tenants_def)
qed

text \<open>Calls that touch neither the tenants nor a schema.\<close>

definition elsewhere :: "world \<Rightarrow> world \<Rightarrow> bool" where
  "elsewhere w w' \<longleftrightarrow> tenants w' = tenants w \<and> schemas w' = schemas w"

interpretation elsewhere: step_preorder elsewhere
  by unfold_locales (auto simp: elsewhere_def)

lemma elsewhere_tick: "elsewhere w (w\<lparr>tick := n\<rparr>)"
  by (simp add: elsewhere_def)

lemma elsewhere_spares: "elsewhere w w' \<Longrightarrow> spares U w w'"
  unfolding elsewhere_def by (auto intro: spares_frame)

lemma elsewhere_own: "elsewhere w w' \<Longrightarrow> own_step U i slug A w w'"
  using own_schema [of U i slug A w w' A] by (simp add: own_step_def elsewhere_def)

lemmas elsewhere_rules = elsewhere.bind elsewhere.attempt elsewhere.handle elsewhere.return elsewhere.ok elsewhere.fail

lemma elsewhere_writes:
  "guarantees elsewhere (create_branch E i T slug nm st)"
  "guarantees elsewhere (create_user E i email pw)"
  "guarantees elsewhere (create_tenant_user E i u T b r)"
  "guarantees elsewhere (create_plugin_install E i T plugin)"
  "guarantees elsewhere (create_history E i T plugin v nm st)"
  "guarantees elsewhere (undo_user E i)" "guarantees elsewhere (undo_branch E i)"
  "guarantees elsewhere (undo_membership E i)"
  unfolding create_branch_def create_user_def create_tenant_user_def create_plugin_install_def create_history_def
    undo_user_def undo_branch_def undo_membership_def
  by (intro elsewhere_rules guarantees_intro; simp add: elsewhere_def)+

lemma elsewhere_reads:
  "guarantees elsewhere (short_id E p)" "guarantees elsewhere (uuid_string E)"
  "guarantees elsewhere (GenerateFromPassword E pw)" "guarantees elsewhere (SystemRoleID E slug)"
  "guarantees elsewhere (ent_only E users P)" "guarantees elsewhere (ent_all E plugin_installs P')"
  "guarantees elsewhere (ent_exist E tenants Q)"
  "guarantees elsewhere (sort_versions E ms)" "guarantees elsewhere (appliedVersions E T plugin)"
  "guarantees elsewhere (fetchMigrations core plugin)" "guarantees elsewhere (range_keys E ks)"
  unfolding SystemRoleID_def sort_versions_def appliedVersions_def fetchMigrations_def GetManifest_def
  by (intro elsewhere_rules guarantees_intro; simp add: elsewhere_def)+

lemma obeys_elsewhere:
  "guarantees elsewhere m \<Longrightarrow> obeys (own_step U i slug A) (call m)"
  by (rule obeys_call) (auto simp: guarantees_def intro: elsewhere_own)

interpretation own: step_preorder "own_step U i slug A" for U i slug A
  by unfold_locales (auto simp: own_step_def intro: spares.refl spares.trans)

lemma own_tick: "own_step U i slug A w (w\<lparr>tick := n\<rparr>)"
  by (rule elsewhere_own [OF elsewhere_tick])

lemma own_db_step:
  assumes "\<And>w a w'. f w = Inr (a, w') \<Longrightarrow> own_step U i slug A w w'"
  shows "guarantees (own_step U i slug A) (db_step E f)"
proof (rule guaranteesI)
  fix w a w' assume "run_state (db_step E f) w = (a, w')"
  then consider "w' = ticked w" | b where "f (ticked w) = Inr (b, w')"
    by (auto simp: run_db_step split: if_splits sum.splits prod.splits)
  then show "own_step U i slug A w w'"
    by cases (auto intro: own_tick own.trans [OF own_tick] assms)
qed

lemma own_schema_step:
  assumes "\<And>w a w'. f w = Inr (a, w') \<Longrightarrow> tenants w' = tenants w \<and>
      (\<forall>s. s \<noteq> schema_of slug \<longrightarrow> schemas w' s = schemas w s) \<and>
      (\<forall>t. A t (schemas w (schema_of slug)) \<longrightarrow> A t (schemas w' (schema_of slug)))"
  shows "guarantees (own_step U i slug A) (db_step E f)"
proof (rule own_db_step)
  fix w a w' assume "f w = Inr (a, w')"
  note f = assms [OF this]
  show "own_step U i slug A w w'" unfolding own_step_def
  proof
    assume "own_row U i slug A w"
    then show "spares (- U) w w' \<and> own_row U i slug A w'"
      by (rule own_schema) (use f in blast)+
  qed
qed

text \<open>What is kept about the row alone.\<close>

lemma own_schema_calls:
  "guarantees (own_step U i slug (\<lambda>t _. B t)) (create_schema E (schema_of slug))"
  "guarantees (own_step U i slug (\<lambda>t _. B t)) (drop_schema E (schema_of slug))"
  "guarantees (own_step U i slug (\<lambda>t _. B t)) (MigrateTenantSchema E (schema_of slug))"
proof -
  show "guarantees (own_step U i slug (\<lambda>t _. B t)) (create_schema E (schema_of slug))"
    "guarantees (own_step U i slug (\<lambda>t _. B t)) (drop_schema E (schema_of slug))"
    unfolding create_schema_def drop_schema_def by (rule own_schema_step; auto)+
  show "guarantees (own_step U i slug (\<lambda>t _. B t)) (MigrateTenantSchema E (schema_of slug))"
    unfolding MigrateTenantSchema_def Connect_def db_call_def
    by (intro own.attempt own.ok own_schema_step) (auto split: option.splits if_splits)
qed

section \<open>The plugins of a new tenant\<close>

text \<open>What the saga relies on: the installer of a tenant spares the other tenants, and of its own schema
  it changes only what the plugins' SQL creates.\<close>

locale tenant_installer =
  fixes install :: "string \<Rightarrow> string \<Rightarrow> (world, error + unit) thread"
  assumes own: "(\<And>t x q. A t (Some x) \<Longrightarrow> A t (Some (x\<lparr>s_sql := q\<rparr>))) \<Longrightarrow>
    obeys (own_step U i slug A) (install i (schema_of slug))"

lemma own_runSQL:
  assumes "\<And>t x q. A t (Some x) \<Longrightarrow> A t (Some (x\<lparr>s_sql := q\<rparr>))"
  shows "guarantees (own_step U i slug A) (runSQL E (schema_of slug) q)"
  unfolding runSQL_def db_call_def
  by (intro own.attempt own_schema_step) (auto split: option.splits if_splits intro: assms)

lemma own_apply_pending:
  assumes "\<And>t x q. A t (Some x) \<Longrightarrow> A t (Some (x\<lparr>s_sql := q\<rparr>))"
  shows "obeys (own_step U i slug A) (apply_pending_t E T (schema_of slug) p applied ms)"
proof (induction ms)
  case (Cons m ms)
  show ?case unfolding apply_pending_t.simps
    by (intro obeys_if Cons obeys_attempt obeys_then obeys_elsewhere [OF elsewhere_reads(2)]
        obeys_elsewhere [OF elsewhere_writes(5)] obeys_call [OF own_runSQL] assms)
qed (simp add: obeys_results)

lemma own_install_each:
  assumes "\<And>t x q. A t (Some x) \<Longrightarrow> A t (Some (x\<lparr>s_sql := q\<rparr>))"
  shows "obeys (own_step U i slug A) (install_each_t E core T (schema_of slug) ps)"
proof (induction ps)
  case (Cons p ps)
  have "obeys (own_step U i slug A) (RunForTenant_t E T (schema_of slug) p ms)" for ms
    unfolding RunForTenant_t_def by (intro obeys_then obeys_elsewhere elsewhere_reads own_apply_pending assms)
  then show ?case unfolding install_each_t.simps
    by (intro obeys_if Cons obeys_handle obeys_attempt obeys_then obeys_elsewhere elsewhere_reads elsewhere_writes)
qed (simp add: obeys_results)

interpretation new_tenant: tenant_installer "InstallForNewTenant_t E core" for E core
proof (unfold_locales, goal_cases)
  case (1 A U i slug)
  then show ?case unfolding InstallForNewTenant_t_def
    by (intro obeys_intro obeys_elsewhere elsewhere_reads own_install_each)
qed

section \<open>One registration among others\<close>

lemma rg_kept:
  assumes "obeys (own_step U i slug A) t" and "own_row U i slug A s"
  shows "rg (spares U) (spares (- U)) (\<lambda>_. own_row U i slug A) t s"
proof (rule spares.rg_invariant [where P = "own_row U i slug A"])
  have "own_step U i slug A = (\<lambda>s s'. own_row U i slug A s \<longrightarrow> spares (- U) s s' \<and> own_row U i slug A s')"
    by (auto simp: own_step_def fun_eq_iff)
  then show "obeys (\<lambda>s s'. own_row U i slug A s \<longrightarrow> spares (- U) s s' \<and> own_row U i slug A s') t"
    using assms(1) by simp
  show "own_row U i slug A s" by (rule assms(2))
qed (rule own_row_stable)

subsection \<open>Compensations\<close>

text \<open>The first entry removes the tenant's row, so it is undone last; everything undone before it still
  finds the row.\<close>

abbreviation any :: "tenant \<Rightarrow> tenant_schema option \<Rightarrow> bool" where
  "any t sc \<equiv> True"

definition undoable :: "string set \<Rightarrow> string \<Rightarrow> string \<Rightarrow> env \<Rightarrow> compensation_t list \<Rightarrow> bool" where
  "undoable U i slug E steps \<longleftrightarrow> (\<exists>cs. steps = call (undo_tenant E i) # cs \<and>
     (\<forall>c \<in> set cs. obeys (own_step U i slug any) c))"

lemma undoable_append:
  "undoable U i slug E steps \<Longrightarrow> obeys (own_step U i slug any) c \<Longrightarrow> undoable U i slug E (steps @ [c])"
  by (auto simp: undoable_def)

lemma spares_removal: "i \<in> U \<Longrightarrow> spares (- U) w (w\<lparr>tenants := filter (\<lambda>t. t_id t \<noteq> i) (tenants w), tick := n\<rparr>)"
  by (auto simp: spares_def unique_tenants_def distinct_map_filter intro!: filter_cong)

lemma rg_undo_tenant:
  assumes "own_row U i slug A s"
  shows "rg (spares U) (spares (- U)) (\<lambda>_ _. True) (call (undo_tenant E i)) s"
  unfolding undo_tenant_def
proof (rule spares.rg_call, rule wp_ent_delete_one, goal_cases)
  case (1 w n e)
  then show ?case by (simp add: spares_frame)
qed (use assms in \<open>simp_all add: table_put spares_removal own_row_def\<close>)

lemma rg_run_all:
  assumes "\<forall>c \<in> set cs. obeys (own_step U i slug any) c" and "own_row U i slug any s"
  shows "rg (spares U) (spares (- U)) (\<lambda>_ _. True) (run_all_t (cs @ [call (undo_tenant E i)])) s"
  using assms
proof (induction cs arbitrary: s)
  case Nil
  have "rg (spares U) (spares (- U)) (\<lambda>_ _. True) (then_t (call (undo_tenant E i)) (\<lambda>_. Done ())) s"
    by (rule spares.rg_then, rule rg_mono [OF rg_undo_tenant [OF Nil(2)]]) simp
  then show ?case by simp
next
  case (Cons c cs)
  have "rg (spares U) (spares (- U)) (\<lambda>_. own_row U i slug any) c s" using Cons.prems by (intro rg_kept) auto
  then show ?case unfolding append_Cons run_all_t.simps
    by (rule spares.rg_then [OF rg_mono]) (use Cons in auto)
qed

lemma rg_compensate:
  assumes "undoable U i slug E steps" and "own_row U i slug any s" and "\<And>v. Q (Inl e) v"
  shows "rg (spares U) (spares (- U)) Q (then_t (compensate_t steps) (\<lambda>_. fail_t e)) s"
proof -
  from assms(1) obtain cs where steps: "steps = call (undo_tenant E i) # cs"
    and cs: "\<forall>c \<in> set cs. obeys (own_step U i slug any) c" by (auto simp: undoable_def)
  have "rg (spares U) (spares (- U)) (\<lambda>_ _. True) (compensate_t steps) s"
    using rg_run_all [of "rev cs"] cs assms(2) by (simp add: compensate_t_def steps)
  then show ?thesis by (rule spares.rg_then [OF rg_mono]) (simp add: spares.rg_result assms(3))
qed

lemma rg_saga_step:
  assumes steps: "undoable U i slug E steps" and Q: "\<And>e v. Q (Inl e) v"
    and t: "rg (spares U) (spares (- U)) (\<lambda>x v. own_row U i slug any v \<and>
      (\<forall>y. x = Inr y \<longrightarrow> rg (spares U) (spares (- U)) Q (k y) v)) t s"
  shows "rg (spares U) (spares (- U)) Q (saga_step_t steps msg t k) s"
  unfolding saga_step_t_def
proof (rule spares.rg_handle, rule rg_mono [OF t], goal_cases)
  case (1 x v)
  then show ?case
    using rg_compensate [OF steps, of v Q] by (cases x) (auto simp: Q spares.rg_result)
qed

lemma rg_saga_kept:
  assumes "undoable U i slug E steps" and "\<And>e v. Q (Inl e) v"
    and "obeys (own_step U i slug A) t" and "own_row U i slug A s"
    and "\<And>y v. own_row U i slug A v \<Longrightarrow> rg (spares U) (spares (- U)) Q (k y) v"
  shows "rg (spares U) (spares (- U)) Q (saga_step_t steps msg t k) s"
proof (rule rg_saga_step [where Q = Q], rule assms(1), rule assms(2), rule rg_mono [OF rg_kept [OF assms(3,4)]])
qed (auto intro: assms(5) own_row_mono)

subsection \<open>The steps\<close>

text \<open>What holds of the row and its schema: from the insertion, from the owner's profile, at the end.\<close>

definition named :: "RegisterInput \<Rightarrow> tenant \<Rightarrow> bool" where
  "named inp t \<longleftrightarrow> t_name t = ri_name inp \<and> t_plan t = ri_plan inp"

definition profiled :: "RegisterInput \<Rightarrow> tenant \<Rightarrow> tenant_schema option \<Rightarrow> bool" where
  "profiled inp t sc \<longleftrightarrow> named inp t \<and> (case sc of None \<Rightarrow> False | Some x \<Rightarrow> (case s_profiles x of None \<Rightarrow> False
     | Some ps \<Rightarrow> list_ex (\<lambda>p. p_full_name p = ri_full_name inp \<and> p_system_role p = ''owner'') ps))"

definition served :: "RegisterInput \<Rightarrow> tenant \<Rightarrow> tenant_schema option \<Rightarrow> bool" where
  "served inp t sc \<longleftrightarrow> profiled inp t sc \<and> t_status t = ''active''"

lemma profiled_sql: "profiled inp t (Some x) \<Longrightarrow> profiled inp t (Some (x\<lparr>s_sql := q\<rparr>))"
  by (simp add: profiled_def)

lemma rg_own_write:
  assumes "own_row U i slug A s"
    and "\<And>w. own_row U i slug A w \<Longrightarrow> wp m (\<lambda>x v. case x of Inl e \<Rightarrow> elsewhere w v
      | Inr y \<Rightarrow> spares (- U) w v \<and> own_row U i slug B v) w"
  shows "rg (spares U) (spares (- U))
    (\<lambda>x v. own_row U i slug any v \<and> (\<forall>y. x = Inr y \<longrightarrow> own_row U i slug B v)) (call m) s"
proof (rule spares.rg_call, rule wp_mono [OF assms(2)], goal_cases)
  case (1 w)
  then show ?case by (rule own_row_stable [OF assms(1)])
next
  case (2 w x v)
  have any: "own_row U i slug any w" using own_row_stable [OF assms(1) 2(1)] by (rule own_row_mono) simp
  show ?case
  proof (cases x)
    case (Inl e)
    with 2(2) any have "spares (- U) w v" "own_row U i slug any v"
      using elsewhere_spares elsewhere_own [of w v U i slug any] by (auto simp: own_step_def)
    then show ?thesis using own_row_stable Inl by blast
  next
    case (Inr y)
    with 2(2) have v: "spares (- U) w v" "own_row U i slug B v" by auto
    then have "own_row U i slug any v" by (auto intro: own_row_mono)
    then show ?thesis using own_row_stable v by blast
  qed
qed

lemma rg_create_profile:
  assumes "own_row U i slug (\<lambda>t _. named inp t) s"
  shows "rg (spares U) (spares (- U)) (\<lambda>x v. own_row U i slug any v \<and> (\<forall>y. x = Inr y \<longrightarrow> own_row U i slug (profiled inp) v))
    (call (create_profile E (schema_of slug) u (ri_full_name inp) phone job ''owner'')) s"
  unfolding create_profile_def
proof (rule rg_own_write [OF assms], unfold wp_bind, rule wp_time_now, rule wp_in_schema, goal_cases)
  case (2 w now n)
  then obtain x where x: "schemas w (schema_of slug) = Some x" "s_profiles x \<noteq> None"
    by (auto simp: has_profiles_def split: option.splits)
  show ?case
  proof (rule wp_ent_create, goal_cases)
    case (2 m)
    show ?case unfolding sum.case
      by (rule own_schema [OF \<open>own_row U i slug (\<lambda>t _. named inp t) w\<close>])
        (use x in \<open>auto simp: profiles_update_def profiled_def\<close>)
  qed (simp add: elsewhere_def)
qed (simp add: elsewhere_def)

lemma rg_activate:
  assumes "own_row U i slug (profiled inp) s"
  shows "rg (spares U) (spares (- U)) (\<lambda>x v. own_row U i slug any v \<and> (\<forall>y. x = Inr y \<longrightarrow> own_row U i slug (served inp) v))
    (call (ent_update_one E tenants tenants_update t_id no_clash i (\<lambda>t. t\<lparr>t_status := ''active''\<rparr>))) s"
proof (rule rg_own_write [OF assms], rule wp_ent_update_one, goal_cases)
  case (2 w n r rs)
  let ?f = "\<lambda>t. if t_id t = i then t\<lparr>t_status := ''active''\<rparr> else t"
  let ?w = "w\<lparr>tenants := map ?f (tenants w), tick := n\<rparr>"
  have keys: "map t_id (tenants ?w) = map t_id (tenants w)" "map t_slug (tenants ?w) = map t_slug (tenants w)"
    "map t_schema_name (tenants ?w) = map t_schema_name (tenants w)"
    by simp_all
  have unique: "unique_tenants ?w"
    using 2(1) unfolding own_row_def unique_tenants_def keys by blast
  have "filter (\<lambda>t. t_id t \<notin> U) (map ?f ts) = filter (\<lambda>t. t_id t \<notin> U) ts" for ts :: "tenant list"
    using 2(1) by (induction ts) (auto simp: own_row_def)
  then have "spares (- U) w ?w" using unique by (simp add: spares_def)
  moreover have "own_row U i slug (served inp) ?w"
  proof -
    from 2(1) obtain t where t: "t \<in> set (tenants w)" "t_id t = i" "t_slug t = slug" "t_schema_name t = schema_of slug"
      "profiled inp t (schemas w (schema_of slug))" "i \<in> U" by (auto simp: own_row_def)
    then have "?f t \<in> set (tenants ?w)" by (auto intro!: rev_image_eqI)
    moreover have "served inp (?f t) (schemas ?w (schema_of slug))"
      using t by (simp add: served_def profiled_def named_def)
    ultimately show ?thesis using t unique by (auto simp: own_row_def intro!: bexI [of _ "?f t"])
  qed
  ultimately show ?case by (simp add: table_put)
qed (simp add: elsewhere_def)

subsection \<open>A whole registration\<close>

definition tenant_served :: "string set \<Rightarrow> RegisterInput \<Rightarrow> error + string \<Rightarrow> world \<Rightarrow> bool" where
  "tenant_served U inp x w \<longleftrightarrow> (\<forall>slug. x = Inr slug \<longrightarrow> (\<exists>i. own_row U i slug (served inp) w))"

lemma served_stays: "own_row U i slug (served inp) w \<Longrightarrow> spares U w w' \<Longrightarrow> tenant_served U inp (Inr slug) w'"
  unfolding tenant_served_def using own_row_stable by blast

lemma rg_create_tenant:
  assumes i: "i \<in> U" and s: "unique_tenants s"
  shows "rg (spares U) (spares (- U)) (\<lambda>x v. \<forall>y. x = Inr y \<longrightarrow> own_row U i slug (\<lambda>t _. named inp t) v)
    (call (create_tenant E i slug (ri_name inp) (ri_plan inp) ''provisioning'' (schema_of slug))) s"
  unfolding create_tenant_def
proof (rule spares.rg_call, rule wp_ent_create, goal_cases)
  case (1 w n e)
  then show ?case by (simp add: spares_frame)
next
  case (2 w n)
  let ?t = "\<lparr>t_id = i, t_slug = slug, t_name = ri_name inp, t_plan = ri_plan inp, t_status = ''provisioning'',
    t_schema_name = schema_of slug\<rparr>"
  let ?w = "w\<lparr>tenants := tenants w @ [?t], tick := n\<rparr>"
  have "unique_tenants w" using s 2(1) by (simp add: spares_def)
  with 2(2,3) have unique: "unique_tenants ?w" by (auto simp: unique_tenants_def tenant_clash_def)
  then have "own_row U i slug (\<lambda>t _. named inp t) ?w" using i by (simp add: own_row_def named_def)
  moreover have "spares (- U) w ?w" using unique i by (simp add: spares_def)
  ultimately show ?case using own_row_stable by (auto simp: table_put)
qed

context tenant_installer begin

lemma rg_provision:
  assumes "undoable U i slug E steps" and "own_row U i slug (\<lambda>t _. named inp t) s"
  shows "rg (spares U) (spares (- U)) (tenant_served U inp)
    (provision_t E install inp slug (schema_of slug) i u steps) s"
  unfolding provision_t_def Let_def
proof (rule rg_saga_kept [OF assms(1) _ _ assms(2)], goal_cases)
  case (2)
  show ?case by (intro obeys_call own_schema_calls)
next
  case (3 y v)
  have steps: "undoable U i slug E (steps @ [call (drop_schema E (schema_of slug))])"
    by (intro undoable_append assms(1) obeys_call own_schema_calls)
  show ?case
  proof (rule rg_saga_kept [OF steps _ _ 3], goal_cases)
    case 2
    show ?case by (intro obeys_call own_schema_calls)
  next
    case (3 y v)
    show ?case
    proof (rule rg_saga_step [OF steps], goal_cases)
      case 2
      show ?case
      proof (rule rg_mono [OF rg_create_profile [OF 3]], intro conjI allI impI, goal_cases)
        case (2 x v y)
        then have v: "own_row U i slug (profiled inp) v" by blast
        show ?case
        proof (rule rg_saga_kept [OF steps _ own v], goal_cases)
          case (3 y v)
          show ?case
          proof (rule rg_saga_step [OF steps], goal_cases)
            case 2
            show ?case
              by (rule rg_mono [OF rg_activate [OF 3]])
                (auto intro!: spares.rg_result dest: served_stays)
          qed (simp add: tenant_served_def)
        qed (simp_all add: tenant_served_def profiled_sql)
      qed simp
    qed (simp add: tenant_served_def)
  qed (simp add: tenant_served_def)
qed (simp add: tenant_served_def)

lemma rg_register_owner:
  assumes "undoable U i slug E steps" and "own_row U i slug (\<lambda>t _. named inp t) s"
    and "\<And>u steps v. undoable U i slug E steps \<Longrightarrow> own_row U i slug (\<lambda>t _. named inp t) v \<Longrightarrow>
      rg (spares U) (spares (- U)) (tenant_served U inp) (k u steps) v"
  shows "rg (spares U) (spares (- U)) (tenant_served U inp) (register_owner_t E inp i b steps k) s"
proof -
  have user: "obeys (own_step U i slug A) (resolveUser_t E email pw)" for A email pw
    unfolding resolveUser_t_def
    by (intro obeys_if obeys_handle obeys_attempt obeys_then obeys_results obeys_elsewhere elsewhere_reads elsewhere_writes)
  show ?thesis unfolding register_owner_t_def
  proof (rule rg_saga_kept [OF assms(1) _ user assms(2)], goal_cases)
    case (2 y v)
    obtain u created where y: "y = (u, created)" by fastforce
    let ?steps = "if created then steps @ [call (undo_user E u)] else steps"
    have steps: "undoable U i slug E ?steps"
      using assms(1) by (auto intro!: undoable_append obeys_elsewhere elsewhere_writes)
    show ?case unfolding y prod.case Let_def
    proof (rule rg_saga_kept [OF steps _ _ 2], goal_cases)
      case 2
      show ?case by (intro obeys_elsewhere elsewhere_reads)
    next
      case (3 role v)
      have "rg (spares U) (spares (- U)) (\<lambda>_. own_row U i slug (\<lambda>t _. named inp t)) (call (short_id E ''tu_'')) v"
        by (intro rg_kept obeys_elsewhere elsewhere_reads 3)
      then show ?case
      proof (rule spares.rg_then [OF rg_mono], goal_cases)
        case (1 m v)
        show ?case
        proof (rule rg_saga_kept [OF steps _ _ 1], goal_cases)
          case 2
          show ?case by (intro obeys_elsewhere elsewhere_writes)
        next
          case (3 x v)
          show ?case by (intro assms(3) undoable_append steps obeys_elsewhere elsewhere_writes 3)
        qed (simp add: tenant_served_def)
      qed
    qed (simp add: tenant_served_def)
  qed (simp add: tenant_served_def)
qed

lemma rg_Register:
  assumes "unique_tenants s" and ids: "\<And>n. ''t_'' @ take 8 (new_uuid E n) \<in> U"
  shows "rg (spares U) (spares (- U)) (tenant_served U inp) (Register_t fuel utrim ulower E install inp) s"
proof -
  have keep: "rg (spares U) (spares (- U)) (\<lambda>_. unique_tenants) t s" if "obeys elsewhere t" "unique_tenants s" for t s
  proof (rule spares.rg_invariant [where P = unique_tenants])
    show "obeys (\<lambda>s s'. unique_tenants s \<longrightarrow> spares (- U) s s' \<and> unique_tenants s') t"
      by (rule obeys_mono [OF that(1)]) (auto simp: elsewhere_spares elsewhere_def unique_tenants_def)
  qed (use that(2) in \<open>simp_all add: spares_def\<close>)
  have search: "obeys elsewhere (slug_search_t n E base k c)" for n base k c
    by (induction n arbitrary: k c)
      (auto simp: SlugAvailable_t_def intro!: obeys_results obeys_if obeys_attempt obeys_call elsewhere_reads)
  have slug: "obeys elsewhere (resolveSlug_t fuel utrim ulower E req nm)" for req nm
    by (auto simp: resolveSlug_t_def Let_def intro!: obeys_results search)
  show ?thesis unfolding Register_t_def
  proof (rule spares.rg_attempt, rule rg_mono [OF keep [OF slug assms(1)]], goal_cases)
    case (1 x v)
    show ?case
    proof (cases "\<exists>slug. x = Inr slug \<and> ValidateSlug slug = None")
      case False
      then show ?thesis
        by (auto simp: tenant_served_def split: sum.split option.split intro!: spares.rg_result)
    next
      case True
      then obtain slug where x: "x = Inr slug" "ValidateSlug slug = None" by blast
      show ?thesis unfolding x sum.case option.case Let_def schema_of_def [symmetric]
      proof (rule spares.rg_then, rule rg_mono [where Q = "\<lambda>i v. i \<in> U \<and> unique_tenants v"], goal_cases)
        case 1
        show ?case
        proof (rule spares.rg_call, rule wpI, goal_cases)
          case (1 w i w')
          then have "i \<in> U" "elsewhere w w'"
            using ids by (auto simp: short_id_def uuid_string_def elsewhere_def)
          moreover have "unique_tenants w" using \<open>unique_tenants v\<close> 1(1) by (simp add: spares_def)
          ultimately show ?case
            using elsewhere_spares by (auto simp: spares_def elsewhere_def unique_tenants_def)
        qed
      next
        case (2 i v)
        then have i: "i \<in> U" and v: "unique_tenants v" by blast+
        show ?case
        proof (rule spares.rg_attempt, rule rg_mono [OF rg_create_tenant [OF i v]], goal_cases)
          case (1 x v)
          show ?case
          proof (cases x)
            case (Inr t)
            then have v: "own_row U i slug (\<lambda>t _. named inp t) v" using 1 by blast
            have undo: "undoable U i slug E [call (undo_tenant E i)]" by (simp add: undoable_def)
            have "rg (spares U) (spares (- U)) (\<lambda>_. own_row U i slug (\<lambda>t _. named inp t)) (call (short_id E ''br_'')) v"
              by (intro rg_kept obeys_elsewhere elsewhere_reads v)
            then show ?thesis unfolding Inr sum.case
            proof (rule spares.rg_then [OF rg_mono], goal_cases)
              case (1 b v)
              show ?case
              proof (rule rg_saga_kept [OF undo _ _ 1], goal_cases)
                case 2
                show ?case by (intro obeys_elsewhere elsewhere_writes)
              next
                case (3 y v)
                show ?case
                proof (rule rg_register_owner [OF _ 3])
                  show "undoable U i slug E ([call (undo_tenant E i)] @ [call (undo_branch E b)])"
                    by (rule undoable_append [OF undo]) (intro obeys_elsewhere elsewhere_writes)
                qed (rule rg_provision)
              qed (simp add: tenant_served_def)
            qed
          qed (simp add: tenant_served_def)
        qed
      qed
    qed
  qed
qed

end

section \<open>Properties\<close>

text \<open>A request to register: the fuel of its slug search, its environment, Core's answers, the form.\<close>

type_synonym registration = "nat \<times> env \<times> core \<times> RegisterInput"

definition registration_t ::
  "(string \<Rightarrow> string) \<Rightarrow> (string \<Rightarrow> string) \<Rightarrow> registration \<Rightarrow> (world, error + string) thread" where
  "registration_t utrim ulower r = (case r of (fuel, E, core, inp) \<Rightarrow>
     Register_t fuel utrim ulower E (InstallForNewTenant_t E core) inp)"

definition env_of :: "registration \<Rightarrow> env" where
  "env_of r = fst (snd r)"

definition input_of :: "registration \<Rightarrow> RegisterInput" where
  "input_of r = snd (snd (snd r))"

text \<open>The tenant ids a request can draw.\<close>

definition drawn_ids :: "env \<Rightarrow> string set" where
  "drawn_ids E = range (\<lambda>n. ''t_'' @ take 8 (new_uuid E n))"

definition tenant_stands :: "RegisterInput \<Rightarrow> string \<Rightarrow> world \<Rightarrow> bool" where
  "tenant_stands inp slug w \<longleftrightarrow>
     list_ex (\<lambda>t. t_slug t = slug \<and> t_name t = ri_name inp \<and> t_plan t = ri_plan inp \<and> t_status t = ''active'' \<and>
       t_schema_name t = schema_of slug) (tenants w) \<and>
     list_ex (\<lambda>p. p_full_name p = ri_full_name inp \<and> p_system_role p = ''owner'') (profiles (schema_of slug) w)"

lemma own_row_stands: "own_row U i slug (served inp) w \<Longrightarrow> tenant_stands inp slug w"
  by (auto simp: own_row_def served_def profiled_def named_def tenant_stands_def profiles_def list_ex_iff
      split: option.splits)

lemma same_slug_same_id:
  "own_row U i slug A w \<Longrightarrow> own_row V j slug B w \<Longrightarrow> i = j"
  by (auto simp: own_row_def unique_tenants_def distinct_map dest: inj_onD)

text \<open>A registration that nothing interrupts is \<open>Register\<close>.\<close>

lemma uninterrupted_registration:
  "pool_step\<^sup>*\<^sup>* ([registration_t utrim ulower (length (tenants w) + 2, E, core, inp)], w) ([Done x], w') \<longleftrightarrow>
   run_state (Register utrim ulower E (InstallForNewTenant E core) inp) w = (x, w')"
  by (simp only: pool_single registration_t_def prod.case alone_Register alone_InstallForNewTenant)

text \<open>C14. Registrations do not destroy each other. Whatever registrations run at the same time, whatever
  faults they meet and wherever they fail and compensate: when one of them has answered with a slug,
  that slug's tenant is there, active, with its schema and the owner's profile in it, at that moment
  and at every later one, and no other registration has answered or will answer with the same slug.
  The requests are assumed to draw different ids.\<close>

theorem registrations_in_parallel:
  assumes unique: "unique_tenants w"
    and ids: "\<And>i j. i < length rs \<Longrightarrow> j < length rs \<Longrightarrow> i \<noteq> j \<Longrightarrow>
      drawn_ids (env_of (rs ! i)) \<inter> drawn_ids (env_of (rs ! j)) = {}"
    and run: "pool_step\<^sup>*\<^sup>* (map (registration_t utrim ulower) rs, w) (ts, w')"
    and i: "i < length rs" "result_of (ts ! i) = Some (Inr slug)"
  shows "tenant_stands (input_of (rs ! i)) slug w' \<and>
    (\<forall>j < length rs. j \<noteq> i \<longrightarrow> result_of (ts ! j) \<noteq> Some (Inr slug))"
proof -
  let ?U = "\<lambda>i. drawn_ids (env_of (rs ! i))" and ?Q = "\<lambda>i. tenant_served (drawn_ids (env_of (rs ! i))) (input_of (rs ! i))"
  have "rg (spares (?U j)) (spares (- ?U j)) (?Q j) (map (registration_t utrim ulower) rs ! j) w" if "j < length rs" for j
    using new_tenant.rg_Register [OF unique, of "env_of (rs ! j)" "?U j"] that
    by (cases "rs ! j") (simp add: registration_t_def env_of_def input_of_def drawn_ids_def)
  moreover have "spares (?U j) v v'" if "j < length rs" "k < length rs" "k \<noteq> j" "spares (- ?U k) v v'" for j k v v'
    by (rule spares_mono [OF that(4)]) (use ids [OF that(2,1,3)] in blast)
  ultimately have all: "\<forall>j < length rs. rg (spares (?U j)) (spares (- ?U j)) (?Q j) (ts ! j) w'"
    using pool_rg [where R = "\<lambda>j. spares (?U j)" and G = "\<lambda>j. spares (- ?U j)" and Q = ?Q and K = "spares {}",
        OF spares.step_preorder_axioms spares.step_preorder_axioms _ _ _ run] spares_mono [of _ _ _ "{}"] by simp
  have answered: "\<exists>k. own_row (?U j) k s (served (input_of (rs ! j))) w'"
    if "j < length rs" "result_of (ts ! j) = Some (Inr s)" for j s
  proof -
    have "?Q j (Inr s) w'"
      by (rule rg_result_of [OF spares.step_preorder_axioms _ that(2)]) (use all that(1) in blast)
    then show ?thesis by (simp add: tenant_served_def)
  qed
  from answered [OF i] obtain k where k: "own_row (?U i) k slug (served (input_of (rs ! i))) w'" ..
  have "result_of (ts ! j) \<noteq> Some (Inr slug)" if j: "j < length rs" "j \<noteq> i" for j
  proof
    assume "result_of (ts ! j) = Some (Inr slug)"
    from answered [OF j(1) this] obtain l where l: "own_row (?U j) l slug (served (input_of (rs ! j))) w'" ..
    have "k = l" by (rule same_slug_same_id [OF k l])
    then show False using k l ids [OF j(1) i(1) j(2)] by (auto simp: own_row_def)
  qed
  then show ?thesis using own_row_stands [OF k] by blast
qed

text \<open>Two owners who ask for the same slug at the same time.\<close>

definition lettered :: "char \<Rightarrow> env" where
  "lettered c = env0\<lparr>new_uuid := (\<lambda>n. c # itoa n)\<rparr>"

definition beta_input :: RegisterInput where
  "beta_input = acme_input\<lparr>ri_slug := ''beta''\<rparr>"

definition rivals :: "registration list" where
  "rivals = [(3, lettered CHR ''a'', no_core, beta_input), (4, lettered CHR ''b'', no_core, beta_input)]"

definition register_beta :: "char \<Rightarrow> world \<Rightarrow> (error + string) \<times> world" where
  "register_beta c w =
     run_state (Register id id (lettered c) (InstallForNewTenant (lettered c) no_core) beta_input) w"

lemma first_rival: "fst (register_beta CHR ''a'' shop) = Inr ''beta''"
  by code_simp

lemma tenant_counts: "length (tenants shop) + 2 = 3" "length (tenants (snd (register_beta CHR ''a'' shop))) + 2 = 4"
  by code_simp+

lemma alone_rival: "length (tenants w) + 2 = n \<Longrightarrow>
    run_state (alone (registration_t id id (n, lettered c, no_core, beta_input))) w = register_beta c w"
  by (auto simp only: registration_t_def prod.case alone_Register alone_InstallForNewTenant register_beta_def)

lemma rivals_run:
  "\<exists>x w'. register_beta CHR ''b'' (snd (register_beta CHR ''a'' shop)) = (x, w') \<and>
     pool_step\<^sup>*\<^sup>* (map (registration_t id id) rivals, shop) ([Done (Inr ''beta''), Done x], w')"
proof -
  let ?a = "registration_t id id (3, lettered CHR ''a'', no_core, beta_input)"
    and ?b = "registration_t id id (4, lettered CHR ''b'', no_core, beta_input)"
  let ?w = "snd (register_beta CHR ''a'' shop)"
  obtain x w' where second: "register_beta CHR ''b'' ?w = (x, w')" by fastforce
  have "run_state (alone ?a) shop = (Inr ''beta'', ?w)"
    using first_rival unfolding alone_rival [OF tenant_counts(1)] by (metis prod.collapse)
  then have "pool_step\<^sup>*\<^sup>* ([?a, ?b], shop) ([Done (Inr ''beta''), ?b], ?w)"
    using pool_run [of 0 "[?a, ?b]"] by simp
  moreover have "run_state (alone ?b) ?w = (x, w')"
    using second unfolding alone_rival [OF tenant_counts(2)] .
  then have "pool_step\<^sup>*\<^sup>* ([Done (Inr ''beta''), ?b], ?w) ([Done (Inr ''beta''), Done x], w')"
    using pool_run [of 1 "[Done (Inr ''beta''), ?b]"] by simp
  ultimately have "pool_step\<^sup>*\<^sup>* ([?a, ?b], shop) ([Done (Inr ''beta''), Done x], w')"
    by (rule rtranclp_trans)
  moreover have "map (registration_t id id) rivals = [?a, ?b]" by (simp add: rivals_def)
  ultimately show ?thesis using second by auto
qed

theorem registrations_in_parallel_witness:
  "tenant_stands beta_input ''beta'' (snd (register_beta CHR ''b'' (snd (register_beta CHR ''a'' shop)))) \<and>
   fst (register_beta CHR ''b'' (snd (register_beta CHR ''a'' shop))) \<noteq> Inr ''beta''"
proof -
  obtain x w' where run: "register_beta CHR ''b'' (snd (register_beta CHR ''a'' shop)) = (x, w')"
    "pool_step\<^sup>*\<^sup>* (map (registration_t id id) rivals, shop) ([Done (Inr ''beta''), Done x], w')"
    using rivals_run by blast
  have unique: "unique_tenants shop" by code_simp
  have ids: "drawn_ids (env_of (rivals ! i)) \<inter> drawn_ids (env_of (rivals ! j)) = {}"
    if "i < length rivals" "j < length rivals" "i \<noteq> j" for i j
    using that by (auto simp: rivals_def drawn_ids_def env_of_def lettered_def less_Suc_eq)
  have "tenant_stands (input_of (rivals ! 0)) ''beta'' w' \<and>
      (\<forall>j < length rivals. j \<noteq> 0 \<longrightarrow> result_of (([Done (Inr ''beta''), Done x] :: (world, error + string) thread list) ! j) \<noteq> Some (Inr ''beta''))"
    by (rule registrations_in_parallel [OF unique ids run(2)]) (simp_all add: rivals_def)
  then show ?thesis using run(1) by (auto simp: rivals_def input_of_def)
qed

section \<open>A plugin installed twice\<close>

text \<open>Whether a plugin is installed is read before the migrations run and the installation is recorded,
  and nothing in the schema makes the record unique: of two requests to install the same plugin for
  the same tenant, made at the same time, both succeed, the migration runs twice, and the plugin
  cannot be uninstalled any more, since \<open>Uninstall\<close> asks for the only record.\<close>

definition installs :: "(world, error + unit) thread list" where
  "installs = [Install_t env0 pos_core ''t1'' ''pos'', Install_t env0 pos_core ''t1'' ''pos'']"

lemma uninterrupted_Install:
  "pool_step\<^sup>*\<^sup>* ([Install_t E core T p], w) ([Done x], w') \<longleftrightarrow> run_state (Install E core T p) w = (x, w')"
  by (simp add: pool_single alone_Install)

theorem plugin_installed_twice:
  "\<exists>ts w'. pool_step\<^sup>*\<^sup>* (installs, shop) (ts, w') \<and> map result_of ts = [Some (Inr ()), Some (Inr ())] \<and>
     map_option s_sql (schemas w' ''tenant_acme'') = Some [''create table sale'', ''create table sale''] \<and>
     isl (fst (run_state (Uninstall env0 pos_core ''t1'' ''pos'' False) w'))"
proof -
  let ?out = "schedule ([0, 0, 0, 0, 0] @ replicate 10 1 @ replicate 5 0) (installs, shop)"
  have "map result_of (fst ?out) = [Some (Inr ()), Some (Inr ())]"
    and "map_option s_sql (schemas (snd ?out) ''tenant_acme'') = Some [''create table sale'', ''create table sale'']"
    and "isl (fst (run_state (Uninstall env0 pos_core ''t1'' ''pos'' False) (snd ?out)))"
    by code_simp+
  then show ?thesis using schedule_steps [of "(installs, shop)"] by (metis prod.collapse)
qed

end
