(* ===== verification/Accounts.thy ===== *)
theory Accounts
  imports Handlers Registration
begin

text \<open>
  Accounts across tenants. An account belongs to no tenant: its email and password are global, and a
  tenant only holds memberships of it. The converse of \<open>Login_sound\<close> is \<open>Login_accepts\<close>: with a working
  database and random source a user with the right password, a membership and an existing branch gets
  a token. From it follows what \<open>AddMember\<close> and \<open>SetMemberPassword\<close> of \<open>src/internal/auth\<close> allow
  together: a tenant that adds a foreign account can sign in as that account elsewhere.
\<close>

section \<open>Login accepts\<close>

text \<open>A random source whose draws give a token that is not stored yet, at whatever moment.\<close>

definition draws_fresh :: "env \<Rightarrow> world \<Rightarrow> bool" where
  "draws_fresh E w \<longleftrightarrow> (\<forall>n. \<exists>buf. entropy E n = Some buf \<and>
       HashToken E (deviceTokenPrefix @ b64url_encode buf) \<noteq> [] \<and>
       HashToken E (deviceTokenPrefix @ b64url_encode buf) \<notin> set (map dt_token_hash (device_tokens w))) \<and>
     (\<forall>n. new_uuid E n \<notin> set (map dt_id (device_tokens w)))"

lemma issueDeviceToken_accepts:
  assumes "no_faults E" and "draws_fresh E w" and "u_id u \<noteq> []" and "t_id t \<noteq> []"
  shows "\<exists>raw. fst (run_state (issueDeviceToken E u t b) w) = Inr raw"
proof -
  obtain buf where buf: "entropy E (tick w) = Some buf"
    "HashToken E (deviceTokenPrefix @ b64url_encode buf) \<noteq> []"
    "HashToken E (deviceTokenPrefix @ b64url_encode buf) \<notin> set (map dt_token_hash (device_tokens w))"
    using assms(2) unfolding draws_fresh_def by blast
  have ids: "new_uuid E n \<notin> dt_id ` set (device_tokens w)" for n using assms(2) by (simp add: draws_fresh_def)
  have "\<exists>d. fst (run_state (create_device_token E i (HashToken E (deviceTokenPrefix @ b64url_encode buf)) (u_id u) (t_id t) c) (w\<lparr>tick := k\<rparr>)) = Inr d"
    if "i \<notin> dt_id ` set (device_tokens w)" for i c k
  proof -
    have "\<forall>x \<in> set (device_tokens w). dt_token_hash x \<noteq> HashToken E (deviceTokenPrefix @ b64url_encode buf) \<and> dt_id x \<noteq> i"
      using that buf(3) by (auto dest: sym)
    then show ?thesis using buf(2) assms(1,3,4)
      by (auto simp: create_device_token_def time_now_def ent_run no_faults_def device_token_clash_def)
  qed
  from this [OF ids] obtain d where "fst (run_state (create_device_token E (new_uuid E (Suc (tick w)))
      (HashToken E (deviceTokenPrefix @ b64url_encode buf)) (u_id u) (t_id t) (case b of None \<Rightarrow> [] | Some b \<Rightarrow> b_id b))
      (w\<lparr>tick := Suc (Suc (tick w))\<rparr>)) = Inr d" by blast
  then show ?thesis
    by (auto simp: issueDeviceToken_def GenerateDeviceToken_def buf(1) uuid_string_def split: prod.splits)
qed

lemma membershipForTenant_finds:
  assumes "m \<in> set ms" and "\<And>x. x \<in> set ms \<Longrightarrow> tu_tenant_id x = tu_tenant_id m \<Longrightarrow> x = m"
  shows "membershipForTenant ms (tu_tenant_id m) = Some m"
proof (cases "membershipForTenant ms (tu_tenant_id m)")
  case None
  then show ?thesis using assms(1) by (auto simp: membershipForTenant_None)
next
  case (Some x)
  then show ?thesis using membershipForTenant_Some [OF Some] assms(2) by simp
qed

lemma Login_accepts:
  assumes E: "no_faults E" "draws_fresh E w"
    and u: "filter (\<lambda>u. u_email u = email) (users w) = [u]" "bcrypt_match E (u_password_hash u) pw" "u_id u \<noteq> []"
    and t: "filter (\<lambda>t. t_slug t = slug \<and> t_status t = ''active'') (tenants w) = [t]" "slug \<noteq> []" "t_id t \<noteq> []"
    and m: "m \<in> set (tenant_users w)" "tu_user_id m = u_id u" "tu_tenant_id m = t_id t" "tu_status m \<noteq> ''suspended''"
    and only: "\<And>x. x \<in> set (tenant_users w) \<Longrightarrow> tu_user_id x = u_id u \<Longrightarrow> tu_tenant_id x = t_id t \<Longrightarrow> x = m"
    and b: "tu_branch_id m \<noteq> [] \<Longrightarrow> \<exists>b. filter (\<lambda>b. b_id b = tu_branch_id m) (branches w) = [b]"
  shows "\<exists>raw. fst (run_state (Login E slug email pw) w) = Inr raw"
proof -
  define ms where "ms = sort_key tu_created_at (arrange E (w\<lparr>tick := Suc (Suc (tick w))\<rparr>)
     (filter (\<lambda>m. tu_user_id m = u_id u \<and> tu_status m \<noteq> ''suspended'') (tenant_users w)))"
  have ms: "x \<in> set ms \<longleftrightarrow> x \<in> set (tenant_users w) \<and> tu_user_id x = u_id u \<and> tu_status x \<noteq> ''suspended''" for x
    by (simp add: ms_def)
  then have inm: "m \<in> set ms" using m by blast
  have "membershipForTenant ms (tu_tenant_id m) = Some m"
    by (rule membershipForTenant_finds [OF inm]) (use only ms m(3) in simp)
  then have found: "membershipForTenant ms (t_id t) = Some m" by (simp only: m(3))
  have "t_id t \<in> tu_tenant_id ` set ms" by (rule rev_image_eqI [OF inm]) (simp add: m(3))
  then have ids: "contains (distinctTenantIDs ms) (t_id t)" "ms \<noteq> []" using inm by (auto simp: distinctTenantIDs_props)
  have token: "\<exists>raw. fst (run_state (issueDeviceToken E u t b) (w\<lparr>tick := k\<rparr>)) = Inr raw" for b k
    using issueDeviceToken_accepts [of E "w\<lparr>tick := k\<rparr>"] E u(3) t(3) by (simp add: draws_fresh_def)
  have "\<exists>raw. fst (run_state (attempt (if tu_branch_id m \<noteq> []
                             then attempt (ent_get E branches b_id (tu_branch_id m))
                                    (\<lambda>_. ErrText ''branch not available'') (\<lambda>b. ok (Some b))
                             else ok None) id
                      (\<lambda>b. issueDeviceToken E u t b)) (w\<lparr>tick := k\<rparr>)) = Inr raw" for k
  proof (cases "tu_branch_id m = []")
    case True
    then show ?thesis using token by (simp add: attempt_ok)
  next
    case False
    with b obtain x where "filter (\<lambda>b. b_id b = tu_branch_id m) (branches w) = [x]" by blast
    then show ?thesis using token E(1) False by (simp add: ent_run no_faults_def)
  qed
  note final = this
  have "\<exists>raw. fst (run_state (resolveTenantAndIssue E u slug) (ticked w)) = Inr raw"
    using final m(4) E(1) ids t(1,2) found
    by (simp add: resolveTenantAndIssue_def ent_run no_faults_def ms_def [symmetric] Let_def del: contains_iff)
  then show ?thesis using u(1,2) E(1) by (simp add: Login_def ent_run no_faults_def)
qed

section \<open>Adding an existing account\<close>

text \<open>An account found by its email becomes a member as it is: no password is asked for, and its owner
  has no say.\<close>

lemma wp_member_user_existing:
  assumes "filter (\<lambda>u. u_email u = am_email inp) (users w) = [v]"
    and "\<And>n e. Q (Inl e) (w\<lparr>tick := n\<rparr>)" and "\<And>n. Q (Inr (v, False)) (w\<lparr>tick := n\<rparr>)"
  shows "wp (member_user E inp) Q w"
  unfolding member_user_def wp_handle by (rule wp_ent_only) (use assms in auto)

lemma wp_AddMember_existing:
  assumes v: "filter (\<lambda>u. u_email u = am_email inp) (users w) = [v]"
  shows "wp (AddMember E T b inp) (\<lambda>r w'. r = Inr () \<longrightarrow> (\<exists>m n. w' = w\<lparr>tenant_users := tenant_users w @ [m], tick := n\<rparr> \<and>
      tu_user_id m = u_id v \<and> tu_tenant_id m = T \<and> tu_status m = ''active'' \<and>
      (\<forall>x \<in> set (tenant_users w). \<not> (tu_user_id x = u_id v \<and> tu_tenant_id x = T)))) w" (is "wp _ ?Q w")
  unfolding AddMember_def Let_def wp_attempt
proof (rule wp_reads [OF reads_ResolveRoleID], goal_cases)
  case (1 r n)
  show ?case
  proof (cases r)
    case (Inr rid)
    show ?thesis unfolding Inr sum.case
    proof (rule wp_ent_only, goal_cases)
      case (5 k br)
      show ?case unfolding sum.case wp_attempt
      proof (rule wp_member_user_existing [where v = v], simp add: v, simp, unfold sum.case prod.case wp_attempt, rule wp_ent_exist, goal_cases)
        case (3 i j)
        show ?case
        proof (cases "\<exists>x \<in> set (tenant_users w). tu_user_id x = u_id v \<and> tu_tenant_id x = T")
          case True
          then show ?thesis by (simp add: filter_empty_conv)
        next
          case False
          then have none: "\<not> (filter (\<lambda>m. tu_user_id m = u_id v \<and> tu_tenant_id m = T) (tenant_users (w\<lparr>tick := n, tick := k, tick := i\<rparr>)) \<noteq> [])"
            by (simp add: filter_empty_conv)
          show ?thesis unfolding sum.case if_not_P [OF none] wp_bind wp_attempt
            by (rule wp_short_id, rule wp_create_tenant_user) (use False in auto)
        qed
      qed simp_all
    qed simp_all
  qed simp
qed

lemma filter_one_and: "filter P xs = [x] \<Longrightarrow> Q x \<Longrightarrow> filter (\<lambda>x. P x \<and> Q x) xs = [x]"
  by (metis (mono_tags, lifting) filter.simps filter_cong filter_filter)

text \<open>The reset of a member's password, and the row a login with a slug adds.\<close>

definition rehashed :: "string \<Rightarrow> string \<Rightarrow> user list \<Rightarrow> user list" where
  "rehashed i h us = map (\<lambda>u. if u_id u = i then u\<lparr>u_password_hash := h\<rparr> else u) us"

lemma SetMemberPassword_rehashes:
  assumes "no_faults E" and "4 \<le> length pw" and "bcrypt_hash E (Suc (tick w)) pw = Some h"
    and "T \<noteq> []" and "i \<noteq> []" and "i \<in> u_id ` set (users w)"
    and "m \<in> set (tenant_users w)" "tu_user_id m = i" "tu_tenant_id m = T"
  shows "run_state (SetMemberPassword E T i pw) w = (Inr (), w\<lparr>users := rehashed i h (users w), tick := tick w + 3\<rparr>)"
proof -
  have "filter (\<lambda>m. tu_user_id m = i \<and> tu_tenant_id m = T) (tenant_users w) \<noteq> []"
    using assms(7-9) by (auto simp: filter_empty_conv)
  then show ?thesis using assms(1-6)
    by (simp add: SetMemberPassword_def writePasswordHash_def GenerateFromPassword_def minPasswordLen_def ent_run
        no_faults_def rehashed_def table_put eval_nat_numeral)
qed

lemma rehashed_row:
  assumes "filter (\<lambda>u. u_email u = email) us = [v]"
  shows "filter (\<lambda>u. u_email u = email) (rehashed (u_id v) h us) = [v\<lparr>u_password_hash := h\<rparr>]"
proof -
  have "filter (\<lambda>u. u_email u = email) (rehashed (u_id v) h us) = rehashed (u_id v) h (filter (\<lambda>u. u_email u = email) us)"
    unfolding rehashed_def by (auto simp: filter_map comp_def intro!: arg_cong2 [where f = map] filter_cong)
  then show ?thesis using assms by (simp add: rehashed_def)
qed

lemma Login_row:
  assumes "run_state (Login E (t_slug t) email pw) w = (Inr raw, w')"
    and "filter (\<lambda>u. u_email u = email) (users w) = [v]" and "keyed t_slug tenants w" "t \<in> set (tenants w)" "t_slug t \<noteq> []"
  shows "\<exists>d. device_tokens w' = device_tokens w @ [d] \<and> dt_token_hash d = HashToken E raw \<and> dt_user_id d = u_id v \<and>
    dt_tenant_id d = t_id t \<and> dt_revoked_at d = None"
proof -
  from wpD [OF wp_Login assms(1)] obtain u where "u \<in> set (users w)" "u_email u = email"
    and iss: "issued E (u_id u) (t_slug t) w raw w'" by auto
  then have "u = v" using arg_cong [OF assms(2), of set] by auto
  with iss obtain T b d k x where "w' = w\<lparr>device_tokens := device_tokens w @ [d], tick := k\<rparr>"
    "fresh_token E w raw (u_id v) T b d" "x \<in> set (tenants w)" "t_id x = T" "t_slug x = t_slug t"
    using assms(5) unfolding issued_def by auto
  moreover from this have "x = t" using assms(3,4) keyed_unique [of t_slug tenants w x t] by simp
  ultimately show ?thesis by (auto simp: fresh_token_def)
qed

section \<open>Properties\<close>

text \<open>C38. Passwords are global and tenants are not kept apart by the membership check of a password reset.
  Let \<open>AddMember\<close> have succeeded in a tenant for the email of an account that exists already, and let
  that account be an unsuspended member of some active tenant with a slug. Then, with a working
  database, random source and password hash, \<open>SetMemberPassword\<close> of the first tenant for that account
  succeeds with any password of at least four characters, and a login with that email, that
  password and the slug of the account's own tenant returns a token of the account for it.
  Rows have their unique keys, and the branch of the account's own membership exists.\<close>

theorem invited_account_is_taken_over:
  assumes added: "run_state (AddMember E1 T br inp) w = (Inr (), w1)"
    and wf: "memberships_wf w" "keyed u_id users w" "keyed u_email users w" "keyed t_slug tenants w" "keyed b_id branches w"
    and v: "v \<in> set (users w)" "u_email v = am_email inp" "u_id v \<noteq> []"
    and home: "t \<in> set (tenants w)" "t_status t = ''active''" "t_slug t \<noteq> []" "t_id t \<noteq> []"
    and m: "m \<in> set (tenant_users w)" "tu_user_id m = u_id v" "tu_tenant_id m = t_id t" "tu_status m \<noteq> ''suspended''"
      "tu_branch_id m \<in> insert [] (set (map b_id (branches w)))"
    and T: "T \<noteq> []"
    and pw: "4 \<le> length pw" "\<And>n. \<exists>h. bcrypt_hash E n pw = Some h \<and> bcrypt_match E h pw"
    and E: "no_faults E" "draws_fresh E w"
  shows "T \<noteq> t_id t \<and> (\<exists>w2 raw w3. run_state (SetMemberPassword E T (u_id v) pw) w1 = (Inr (), w2) \<and>
    run_state (Login E (t_slug t) (u_email v) pw) w2 = (Inr raw, w3) \<and>
    (\<exists>d. device_tokens w3 = device_tokens w @ [d] \<and> dt_token_hash d = HashToken E raw \<and> dt_user_id d = u_id v \<and>
       dt_tenant_id d = t_id t \<and> dt_revoked_at d = None))"
proof -
  have v1: "filter (\<lambda>u. u_email u = u_email v) (users w) = [v]" "filter (\<lambda>u. u_email u = am_email inp) (users w) = [v]"
    using filter_key_unique [of u_email "users w" v] wf(3) v by (simp_all add: keyed_def)
  from wpD [OF wp_AddMember_existing [OF v1(2)] added] obtain m' n where
    w1: "w1 = w\<lparr>tenant_users := tenant_users w @ [m'], tick := n\<rparr>"
    and m': "tu_user_id m' = u_id v" "tu_tenant_id m' = T"
    and new: "\<forall>x \<in> set (tenant_users w). \<not> (tu_user_id x = u_id v \<and> tu_tenant_id x = T)" by blast
  have other: "T \<noteq> t_id t" using new m by blast
  obtain h where h: "bcrypt_hash E (Suc (tick w1)) pw = Some h" "bcrypt_match E h pw" using pw(2) by blast
  let ?v = "v\<lparr>u_password_hash := h\<rparr>"
  define w2 where "w2 = w1\<lparr>users := rehashed (u_id v) h (users w1), tick := tick w1 + 3\<rparr>"
  have reset: "run_state (SetMemberPassword E T (u_id v) pw) w1 = (Inr (), w2)"
    unfolding w2_def by (rule SetMemberPassword_rehashes [OF E(1) pw(1) h(1) T v(3) _ _ m']) (use v(1) w1 in auto)
  have u2: "filter (\<lambda>u. u_email u = u_email v) (users w2) = [?v]"
    using rehashed_row [OF v1(1)] by (simp add: w2_def w1)
  have t2: "filter (\<lambda>x. t_slug x = t_slug t \<and> t_status x = ''active'') (tenants w2) = [t]"
    using filter_one_and [of "\<lambda>x. t_slug x = t_slug t" "tenants w" t "\<lambda>x. t_status x = ''active''"]
      filter_key_unique [of t_slug "tenants w" t] wf(4) home(1,2) by (simp add: w2_def w1 keyed_def)
  have b2: "\<exists>b. filter (\<lambda>b. b_id b = tu_branch_id m) (branches w2) = [b]" if "tu_branch_id m \<noteq> []"
    using that m(5) wf(5) filter_key_unique [of b_id "branches w"] by (auto simp: w2_def w1 keyed_def)
  have only: "x = m" if "x \<in> set (tenant_users w2)" "tu_user_id x = u_id ?v" "tu_tenant_id x = t_id t" for x
  proof -
    have x: "x \<in> set (tenant_users w)" using that(1,3) m' other by (auto simp: w2_def w1)
    have inj: "inj_on (\<lambda>m. (tu_user_id m, tu_tenant_id m)) (set (tenant_users w))"
      using wf(1) by (simp add: memberships_wf_def distinct_map)
    show ?thesis by (rule inj_onD [OF inj _ x m(1)]) (use that(2,3) m(2,3) in simp)
  qed
  have m2: "m \<in> set (tenant_users w2)" "tu_user_id m = u_id ?v" using m(1,2) by (simp_all add: w2_def w1)
  have d2: "draws_fresh E w2" using E(2) by (simp add: draws_fresh_def w2_def w1)
  have "\<exists>raw. fst (run_state (Login E (t_slug t) (u_email v) pw) w2) = Inr raw"
    by (rule Login_accepts [OF E(1) d2 u2 _ _ t2 home(3,4) m2 m(3,4) only b2]) (use h(2) v(3) in simp_all)
  then obtain raw w3 where login: "run_state (Login E (t_slug t) (u_email v) pw) w2 = (Inr raw, w3)" by (metis prod.collapse)
  have "keyed t_slug tenants w2" "t \<in> set (tenants w2)" "device_tokens w2 = device_tokens w"
    using wf(4) home(1) by (simp_all add: w2_def w1 keyed_def)
  with Login_row [OF login u2] home(3) other reset login show ?thesis by force
qed

text \<open>The mall of \<open>Handlers\<close> without devices: the cashiers' tenant adds the other tenant's owner.\<close>

definition mall0 :: world where
  "mall0 = mall\<lparr>device_tokens := []\<rparr>"

definition guest :: AddMemberInput where
  "guest = \<lparr>am_email = ''c@x.io'', am_role = ''cashier'', am_password = [], am_full_name = [], am_phone = [], am_job_title = []\<rparr>"

lemma draws_fresh_mall0: "draws_fresh env0 mall0"
  by (simp add: draws_fresh_def mall0_def env0_def HashToken_def deviceTokenPrefix_def hex_encode_def)

theorem invited_account_is_taken_over_witness:
  "(let w1 = snd (run_state (AddMember env0 ''t1'' ''b1'' guest) mall0);
        w2 = snd (run_state (SetMemberPassword env0 ''t1'' ''u3'' ''pwned'') w1);
        w3 = snd (run_state (Login env0 ''other'' ''c@x.io'' ''pwned'') w2)
    in map (\<lambda>d. (dt_user_id d, dt_tenant_id d)) (device_tokens w3) = [(''u3'', ''t2'')])"
proof -
  let ?a = "run_state (AddMember env0 ''t1'' ''b1'' guest) mall0"
  have "fst ?a = Inr ()" by code_simp
  then have a: "?a = (Inr (), snd ?a)" by (metis prod.collapse)
  have k: "memberships_wf mall0" "keyed u_id users mall0" "keyed u_email users mall0" "keyed t_slug tenants mall0"
    "keyed b_id branches mall0" unfolding memberships_wf_def keyed_def by code_simp+
  have v: "users mall0 ! 2 \<in> set (users mall0)" "u_email (users mall0 ! 2) = am_email guest" "u_id (users mall0 ! 2) \<noteq> []" by code_simp+
  have t: "tenants mall0 ! 1 \<in> set (tenants mall0)" "t_status (tenants mall0 ! 1) = ''active''" "t_slug (tenants mall0 ! 1) \<noteq> []"
    "t_id (tenants mall0 ! 1) \<noteq> []" by code_simp+
  have m: "tenant_users mall0 ! 2 \<in> set (tenant_users mall0)" "tu_user_id (tenant_users mall0 ! 2) = u_id (users mall0 ! 2)"
    "tu_tenant_id (tenant_users mall0 ! 2) = t_id (tenants mall0 ! 1)" "tu_status (tenant_users mall0 ! 2) \<noteq> ''suspended''"
    "tu_branch_id (tenant_users mall0 ! 2) \<in> insert [] (set (map b_id (branches mall0)))" by code_simp+
  have e: "u_id (users mall0 ! 2) = ''u3''" "u_email (users mall0 ! 2) = ''c@x.io''" "t_slug (tenants mall0 ! 1) = ''other''"
    "t_id (tenants mall0 ! 1) = ''t2''" "device_tokens mall0 = []" by code_simp+
  have "no_faults env0" by (simp add: no_faults_def env0_def)
  from invited_account_is_taken_over [OF a k v t m _ _ _ this draws_fresh_mall0, of "''pwned''"]
  obtain w2 raw w3 d where "run_state (SetMemberPassword env0 ''t1'' ''u3'' ''pwned'') (snd ?a) = (Inr (), w2)"
    "run_state (Login env0 ''other'' ''c@x.io'' ''pwned'') w2 = (Inr raw, w3)"
    "device_tokens w3 = device_tokens mall0 @ [d]" "dt_user_id d = ''u3''" "dt_tenant_id d = ''t2''"
    unfolding e by (auto simp: env0_def)
  then show ?thesis by (simp add: Let_def e)
qed

end
