(* ===== verification/Spec2Isabelle.thy ===== *)
theory Spec2Isabelle
  imports Console Queries Races Parallel Accounts
begin

text \<open>
  Verification development for the ApiCoreX identity plugin (Go, \<open>src/cmd/identity\<close> and
  \<open>src/internal\<close>): a multi-tenant service that registers tenants, signs users in, resolves device
  tokens for the gateway (Core), and manages members, roles, branches, plugins and the tenants
  themselves, on one PostgreSQL database.

  \<^bold>\<open>How the program is put together.\<close> Core authenticates every request by calling
  \<open>POST /internal/introspect\<close> with the hash of the bearer token, checks the permission the route
  declares, and forwards the request with trusted headers. A handler reads the headers, calls
  one operation of a service, and answers. The services work on the shared tables (users,
  tenants, branches, memberships, roles, permissions, tokens, plugin installs, migration
  history) and on one Postgres schema per tenant (the profiles and whatever the plugins' SQL
  creates) through a generated ent client.

  \<^bold>\<open>The model.\<close> A function that touches the database or the outside is a value of
  \<open>(world, error + 'a) state\<close>: \<open>Inl\<close> is a returned error, \<open>Inr\<close> a result; \<open>handle\<close> and \<open>attempt\<close> are the
  two shapes of Go's \<open>if err != nil\<close>. The record \<open>world\<close> has the tables as lists of rows, the
  schemas as a map, and \<open>tick\<close>, the number of calls made so far to anything outside. The record
  \<open>env\<close> answers those calls: which database call fails, in which order an unordered query
  returns its rows, clock, UUIDs, random bytes, bcrypt and SHA-256. Theorems quantify over
  all of them, so they hold for every fault at every point, unless \<open>no_faults\<close> is assumed. Each
  call is one statement or transaction of its own, as in the code, which uses no transactions across
  calls. An operation runs its calls one after the other without interruption, except in
  \<open>Interleaving\<close>, \<open>Races\<close> and \<open>Parallel\<close>, where requests are threads whose calls interleave, and in
  \<open>Lifecycle\<close>, where the goroutines of the plugin runtime do.

  \<^bold>\<open>Theories and sources.\<close>
  \<^item> \<open>Prelude\<close>: the monad, weakest preconditions (\<open>wp\<close>), \<open>guarantees\<close> (what an operation can do to
    the state, with the locale \<open>step_preorder\<close>), unspecified orders. \<open>GoStrings\<close>: the string
    functions of Go's library and anchored regular expressions.
  \<^item> \<open>Store\<close>, \<open>Schema\<close>, \<open>Tables\<close>: \<open>src/ent/schema\<close>, \<open>src/ent/migrate/schema.go\<close> and the generated clients.
    The operations \<open>Only\<close>, \<open>All\<close>, \<open>Exist\<close>, \<open>Get\<close>, \<open>Create\<close>, \<open>Update\<close>, \<open>UpdateOneID\<close>, \<open>Delete\<close> are defined
    once for all tables, with the keys, unique indexes and foreign keys as checks; the locale
    \<open>ent_table\<close> has their laws and is interpreted for every table. \<open>Example\<close>: a small database.
  \<^item> \<open>Mutations\<close>, \<open>Builders\<close>, \<open>Queries\<close>: the code ent generated for one entity, the membership
    (\<open>src/ent/mutation.go\<close>, \<open>tenantuser*.go\<close>, \<open>client.go\<close>). The library \<open>sqlgraph\<close> under it is an
    argument (the record \<open>config\<close>) with the contracts \<open>sql_writes\<close> and \<open>sql_reads\<close>; the locale
    \<open>mutation_field\<close> has the laws of a field's accessors and is interpreted for every field.
  \<^item> \<open>Permissions\<close>: \<open>internal/rbac/permissions.go\<close> and the matching of \<open>internal/plugin/plugin.go\<close>,
    two implementations of one matching relation (locale \<open>permission_matcher\<close>).
    \<open>RoleStore\<close>: \<open>internal/rbac/store.go\<close>. \<open>Roles\<close>: \<open>internal/auth/roles.go\<close>.
  \<^item> \<open>Members\<close>, \<open>Profiles\<close>: \<open>internal/auth/member_manage.go\<close>, \<open>members.go\<close>, \<open>password.go\<close>.
    \<open>Login\<close>: \<open>login.go\<close>, \<open>device_token.go\<close>. \<open>Introspect\<close>: \<open>introspect.go\<close>, with the policy
    \<open>authorized\<close> it implements. \<open>Google\<close>: \<open>google.go\<close>. \<open>Branches\<close>: \<open>branch.go\<close>. \<open>Tenants\<close>:
    \<open>tenant.go\<close>, \<open>platform_admin.go\<close>, \<open>platform_admins_manage.go\<close>.
  \<^item> \<open>Slugs\<close>, \<open>Saga\<close>: \<open>internal/tenant\<close>. \<open>Migrator\<close>: \<open>internal/migrator\<close>. \<open>Installer\<close>:
    \<open>internal/pluginmgr\<close>. \<open>Registration\<close> and \<open>Plugins\<close> hold their properties; the saga relies on
    the installer through the locale \<open>plugin_installer\<close>.
  \<^item> \<open>Runtime\<close>, \<open>Lifecycle\<close>: \<open>internal/plugin\<close>; \<open>Run\<close> in \<open>Lifecycle\<close> has the heartbeat and the shutdown as two
    threads on the fields they share. \<open>Backup\<close>: \<open>internal/dbbackup\<close>.
  \<^item> \<open>Requests\<close>, \<open>Handlers\<close>, \<open>AdminHandlers\<close>, \<open>Routes\<close>: \<open>cmd/identity/plugin.go\<close>. \<open>Console\<close>:
    \<open>cmd/identity/admin.go\<close>. \<open>Startup\<close>: \<open>cmd/identity/main.go\<close>.
  \<^item> \<open>Threads\<close>, \<open>Interleaving\<close>, \<open>Races\<close>, \<open>Parallel\<close>: requests at the same time. A thread is what is left of a
    request as a tree of calls, a pool makes the calls of its threads in any order, and \<open>rg\<close> is a
    rely-guarantee calculus for them. The membership operations of \<open>member_manage.go\<close> and the
    registration of \<open>saga.go\<close> with its installer are written call by call. The locale \<open>member_calls\<close> has
    what every schedule of membership requests keeps and is interpreted for two invariants; the
    locale \<open>tenant_installer\<close> is what the saga relies on.
  \<^item> \<open>Isolation\<close>, \<open>Tenancy\<close>, \<open>Wellformed\<close>, \<open>Platform\<close>, \<open>Accounts\<close>: properties of the program as a whole. The locales
    \<open>owned_table\<close> and \<open>checked_table\<close> prove an invariant of one table once and are
    interpreted for each table.

  \<^bold>\<open>What the theorems show.\<close>
  \<^item> Across components: requests of other tenants change nothing of a tenant; everything stored is
    well formed, unless a dump is restored; an introspection is answered only for an authorized user (a refinement of the
    policy), a login is accepted by it, and it refuses removed members who are no platform
    admins, suspended tenants and
    revoked tokens from the next request on; a caller without the permission is refused by the
    handler itself on fourteen of the eighteen gated routes; start-up prepares the database and can be repeated.
  \<^item> Per component: the last manager of a tenant stays; a registration that succeeds is complete and
    one that is refused leaves no trace; while the database works, migrations run once and in order; roles, members and PINs
    do what they promise on success; the generated builders and queries have the outcomes the
    services' models take from \<open>Store\<close>; a Google token is genuine and unexpired; the identity the
    plugin runtime presents to Core is the one it was given last, or, in a deregistration that races
    with a new registration, the one before; slugs, backoff, heartbeats and
    error texts keep their bounds; the search for a slug ends.
  \<^item> At the same time: membership requests of different tenants leave every tenant its managers, a removal
    is final, the data stay well formed, registrations do not destroy each other, no request waits for another
    (\<open>no_waiting\<close>) and no schedule goes on for ever (\<open>schedules_end\<close>); but two
    requests of one tenant pass the guard on the last manager, or the check that a PIN is free,
    a role unused or a plugin not yet installed, together.
  \<^item> Where the code does less than it means to: theorems over every database for the admin flag that fails
    open (\<open>Introspect_fails_open\<close>), the account taken over by an inviter (\<open>invited_account_is_taken_over\<close>),
    the managers that remove each other (\<open>managers_remove_each_other\<close>) and the tenants that cannot be
    backed up; evaluations of the model on a concrete database for others, such as the registration
    stranded by a fault, each beside the operation it is about.

  \<^bold>\<open>Bounds and fuel.\<close> The search for a free slug runs with fuel \<open>length (tenants w) + 2\<close>;
  \<open>resolveSlug_terminates\<close> shows that this is enough for fewer than \<open>10^30 - 2\<close> tenants;
  in \<open>Parallel\<close>, where others add tenants meanwhile, the fuel is arbitrary. The loops of \<open>register\<close> and
  \<open>heartbeat\<close> follow the list of the answers they get, the goroutines the list of a schedule. Everything else is structural recursion.
  Integers are natural numbers: the counters and clocks of the code stay far below \<open>2^63\<close>.

  \<^bold>\<open>What is not modelled.\<close> The text of database errors, of log lines and of the OpenAPI
  document; the quotes of \<open>%q\<close>; HTTP, JSON and the gin engine below the handlers (a request is a
  record of what the handler reads, \<open>None\<close> for an undecodable body); the ent client's hooks,
  interceptors, aggregations and bulk operations, which the services do not use, and the generated code of the
  other nine entities, instances of the template modelled for memberships; the interleaving of requests other
  than those of \<open>Interleaving\<close> and \<open>Parallel\<close>, a torn read of a string by the goroutines of \<open>Run\<close>, and isolation levels below one call;
  the bytes of a dump, whose restoration is an arbitrary change of the world; the TypeScript console. Outside
  code is an argument: bcrypt, SHA-256, the JWT parser, Google's key endpoint, Core's registry,
  \<open>pg_dump\<close> and \<open>psql\<close>, the Unicode tables.
\<close>

end
